(* ===== verification/Prelude.thy ===== *)
theory Prelude
  imports Main "HOL-Library.Sublist"
begin

text \<open>
  Shared vocabulary of the development: the parts of the Go language and of its standard
  library that the modelled packages use (time stamps, the string functions, decimal
  formatting), the generic association tables that stand for SQL tables and Go maps with an
  observable order, and two locales that the component theories interpret on their own
  definitions: \<open>keyed_rows\<close> (a table written by upsert and read by key) and
  \<open>step_invariant\<close> (an invariant kept by every step of a machine).
\<close>

named_theorems goLib \<open>simplification rules for the modelled Go library functions\<close>

section \<open>Time\<close>

text \<open>
  A \<open>time.Time\<close> is the number of nanoseconds since the Unix epoch, a \<open>time.Duration\<close> a
  number of nanoseconds. The zero \<open>time.Time\<close> is January 1 of year 1, UTC. Locations and
  monotonic readings are not modelled.
\<close>

type_synonym gotime = int
type_synonym duration = int

definition zero_time :: gotime where
  "zero_time = - 62135596800000000000"

definition IsZero :: "gotime \<Rightarrow> bool" where
  "IsZero t \<longleftrightarrow> t = zero_time"

definition UnixMilli :: "gotime \<Rightarrow> int" where
  "UnixMilli t = t div 1000000"

definition time_UnixMilli :: "int \<Rightarrow> gotime" where
  "time_UnixMilli ms = ms * 1000000"

definition nsMillisecond :: duration where
  "nsMillisecond = 1000000"

definition nsSecond :: duration where
  "nsSecond = 1000000000"

definition nsMinute :: duration where
  "nsMinute = 60 * nsSecond"

definition nsHour :: duration where
  "nsHour = 60 * nsMinute"

lemmas ns_defs = nsMillisecond_def nsSecond_def nsMinute_def nsHour_def

lemma UnixMilli_time_UnixMilli [goLib]: "UnixMilli (time_UnixMilli ms) = ms"
  by (simp add: UnixMilli_def time_UnixMilli_def)

lemma UnixMilli_mono: "s \<le> t \<Longrightarrow> UnixMilli s \<le> UnixMilli t"
  by (simp add: UnixMilli_def zdiv_mono1)

section \<open>Strings\<close>

text \<open>A Go string is a sequence of bytes, here a list of \<open>char\<close>.\<close>

definition strings_HasPrefix :: "string \<Rightarrow> string \<Rightarrow> bool" where
  "strings_HasPrefix s p \<longleftrightarrow> take (length p) s = p"

lemma HasPrefix_iff_prefix: "strings_HasPrefix s p \<longleftrightarrow> prefix p s"
  by (metis append_eq_conv_conj append_take_drop_id prefix_def strings_HasPrefix_def)

fun strings_Contains :: "string \<Rightarrow> string \<Rightarrow> bool" where
  "strings_Contains [] sub \<longleftrightarrow> sub = []"
| "strings_Contains (c # s) sub \<longleftrightarrow> strings_HasPrefix (c # s) sub \<or> strings_Contains s sub"

lemma Contains_iff_sublist: "strings_Contains s sub \<longleftrightarrow> sublist sub s"
  by (induction s sub rule: strings_Contains.induct)
    (auto simp: HasPrefix_iff_prefix sublist_Cons_right)

text \<open>
  \<open>strings.ReplaceAll\<close> for a non-empty pattern: the leftmost occurrence is replaced and the
  search goes on behind it. The program never passes an empty pattern; for it the model
  returns the text unchanged.
\<close>

function strings_ReplaceAll :: "string \<Rightarrow> string \<Rightarrow> string \<Rightarrow> string" where
  "strings_ReplaceAll s old new =
     (if old = [] then s
      else (case s of
          [] \<Rightarrow> []
        | c # cs \<Rightarrow>
            (if strings_HasPrefix s old
             then new @ strings_ReplaceAll (drop (length old) s) old new
             else c # strings_ReplaceAll cs old new)))"
  by pat_completeness auto
termination
  by (relation "measure (\<lambda>(s, old, new). length s)") auto

declare strings_ReplaceAll.simps [simp del]

lemma ReplaceAll_Nil [simp]: "strings_ReplaceAll [] old new = []"
  by (simp add: strings_ReplaceAll.simps [of "[]"])

lemma ReplaceAll_single:
  "strings_ReplaceAll s [q] new = concat (map (\<lambda>c. if c = q then new else [c]) s)"
proof (induction s)
  case Nil
  show ?case by simp
next
  case (Cons c s)
  then show ?case
    by (simp add: strings_ReplaceAll.simps [of "c # s"] strings_HasPrefix_def)
qed

lemma ReplaceAll_no_occurrence:
  "\<not> strings_Contains s old \<Longrightarrow> strings_ReplaceAll s old new = s"
proof (induction s)
  case Nil
  show ?case by simp
next
  case (Cons c s)
  then show ?case
    by (simp add: strings_ReplaceAll.simps [of "c # s"])
qed

text \<open>\<open>strings.Cut\<close> at a one-byte separator: the text before and behind its first occurrence.\<close>

fun strings_Cut :: "string \<Rightarrow> char \<Rightarrow> (string \<times> string) option" where
  "strings_Cut [] sep = None"
| "strings_Cut (c # s) sep =
     (if c = sep then Some ([], s)
      else map_option (\<lambda>(a, b). (c # a, b)) (strings_Cut s sep))"

lemma Cut_append [goLib]: "sep \<notin> set a \<Longrightarrow> strings_Cut (a @ sep # b) sep = Some (a, b)"
  by (induction a) auto

lemma Cut_Some: "strings_Cut s sep = Some (a, b) \<Longrightarrow> s = a @ sep # b \<and> sep \<notin> set a"
  by (induction s arbitrary: a) (auto split: if_splits)

lemma Cut_None: "strings_Cut s sep = None \<longleftrightarrow> sep \<notin> set s"
  by (induction s) auto

fun strings_Join :: "string list \<Rightarrow> string \<Rightarrow> string" where
  "strings_Join [] sep = []"
| "strings_Join [x] sep = x"
| "strings_Join (x # y # xs) sep = x @ sep @ strings_Join (y # xs) sep"

text \<open>
  \<open>strings.TrimSpace\<close>. White space is what \<open>unicode.IsSpace\<close> says it is, in UTF-8: the six ASCII
  characters, U+0085, U+00A0, U+1680, U+2000 to U+200A, U+2028, U+2029, U+202F, U+205F and U+3000.
  Go decodes the first rune forwards and the last one backwards; both are white space exactly when the
  text begins, or ends, with one of these byte sequences.
\<close>

definition ascii_space :: "char \<Rightarrow> bool" where
  "ascii_space c \<longleftrightarrow> c \<in> {CHR 0x09, CHR 0x0A, CHR 0x0B, CHR 0x0C, CHR 0x0D, CHR 0x20}"

definition space_seqs :: "string list" where
  "space_seqs =
     [[CHR 0x09], [CHR 0x0A], [CHR 0x0B], [CHR 0x0C], [CHR 0x0D], [CHR 0x20], [CHR 0xC2, CHR 0x85], [CHR 0xC2, CHR 0xA0],
      [CHR 0xE1, CHR 0x9A, CHR 0x80], [CHR 0xE2, CHR 0x80, CHR 0x80], [CHR 0xE2, CHR 0x80, CHR 0x81],
      [CHR 0xE2, CHR 0x80, CHR 0x82], [CHR 0xE2, CHR 0x80, CHR 0x83], [CHR 0xE2, CHR 0x80, CHR 0x84],
      [CHR 0xE2, CHR 0x80, CHR 0x85], [CHR 0xE2, CHR 0x80, CHR 0x86], [CHR 0xE2, CHR 0x80, CHR 0x87],
      [CHR 0xE2, CHR 0x80, CHR 0x88], [CHR 0xE2, CHR 0x80, CHR 0x89], [CHR 0xE2, CHR 0x80, CHR 0x8A],
      [CHR 0xE2, CHR 0x80, CHR 0xA8], [CHR 0xE2, CHR 0x80, CHR 0xA9], [CHR 0xE2, CHR 0x80, CHR 0xAF],
      [CHR 0xE2, CHR 0x81, CHR 0x9F], [CHR 0xE3, CHR 0x80, CHR 0x80]]"

definition space_at :: "string list \<Rightarrow> string \<Rightarrow> string option" where
  "space_at ws s = find (\<lambda>w. w \<noteq> [] \<and> strings_HasPrefix s w) ws"

lemma space_at_shorter: "space_at ws s = Some w \<Longrightarrow> length (drop (length w) s) < length s"
  by (cases s) (auto simp: space_at_def find_Some_iff strings_HasPrefix_def)

function trim_seqs :: "string list \<Rightarrow> string \<Rightarrow> string" where
  "trim_seqs ws s = (case space_at ws s of None \<Rightarrow> s | Some w \<Rightarrow> trim_seqs ws (drop (length w) s))"
  by pat_completeness auto
termination
  by (relation "measure (\<lambda>(ws, s). length s)") (auto dest: space_at_shorter)

declare trim_seqs.simps [simp del]

definition strings_TrimSpace :: "string \<Rightarrow> string" where
  "strings_TrimSpace s = rev (trim_seqs (map rev space_seqs) (rev (trim_seqs space_seqs s)))"

text \<open>A text that no white space begins or ends is kept; on ASCII text it is the ASCII white space that goes.\<close>

definition tight :: "string \<Rightarrow> bool" where
  "tight s \<longleftrightarrow> (\<forall>w \<in> set space_seqs. \<not> prefix w s \<and> \<not> suffix w s)"

definition is_ascii :: "string \<Rightarrow> bool" where
  "is_ascii s \<longleftrightarrow> (\<forall>c \<in> set s. (of_char c :: nat) < 128)"

lemma space_at_None: "space_at ws s = None \<longleftrightarrow> (\<forall>w \<in> set ws. w = [] \<or> \<not> prefix w s)"
  by (auto simp: space_at_def find_None_iff HasPrefix_iff_prefix)

lemma TrimSpace_ends: "tight s \<Longrightarrow> strings_TrimSpace s = s"
proof -
  assume t: "tight s"
  then have "space_at space_seqs s = None" by (auto simp: space_at_None tight_def)
  moreover have "space_at (map rev space_seqs) (rev s) = None"
    using t by (auto simp: space_at_None tight_def suffix_to_prefix)
  ultimately show ?thesis by (simp add: strings_TrimSpace_def trim_seqs.simps)
qed

lemma space_seqs_cases:
  assumes "ws = space_seqs \<or> ws = map rev space_seqs"
  shows "w \<in> set ws \<Longrightarrow> (\<exists>c. w = [c] \<and> ascii_space c) \<or> w \<noteq> [] \<and> 128 \<le> (of_char (hd w) :: nat)"
    and "ascii_space c \<Longrightarrow> [c] \<in> set ws"
proof -
  have "list_all (\<lambda>w. length w = 1 \<and> ascii_space (hd w) \<or> w \<noteq> [] \<and> 128 \<le> (of_char (hd w) :: nat)) ws"
    using assms by (elim disjE) (simp_all add: space_seqs_def ascii_space_def)
  then show "w \<in> set ws \<Longrightarrow> (\<exists>c. w = [c] \<and> ascii_space c) \<or> w \<noteq> [] \<and> 128 \<le> (of_char (hd w) :: nat)"
    by (cases w) (auto simp: list_all_iff)
  show "ascii_space c \<Longrightarrow> [c] \<in> set ws"
    using assms by (auto simp: space_seqs_def ascii_space_def)
qed

lemma space_at_ascii:
  assumes "is_ascii s" "ws = space_seqs \<or> ws = map rev space_seqs"
  shows "space_at ws s = (case s of [] \<Rightarrow> None | c # _ \<Rightarrow> if ascii_space c then Some [c] else None)"
proof (cases s)
  case Nil
  then show ?thesis by (auto simp: space_at_None)
next
  case (Cons c t)
  have only: "w = [c] \<and> ascii_space c" if "w \<in> set ws" "w \<noteq> []" "prefix w s" for w
  proof -
    have "hd w = c" using that(2,3) Cons by (cases w) auto
    then have "(of_char (hd w) :: nat) < 128" using assms(1) Cons by (simp add: is_ascii_def)
    then show ?thesis using space_seqs_cases(1) [OF assms(2) that(1)] \<open>hd w = c\<close> by auto
  qed
  show ?thesis
  proof (cases "space_at ws s")
    case None
    then have "[c] \<notin> set ws" using Cons by (auto simp: space_at_None)
    then show ?thesis using None space_seqs_cases(2) [OF assms(2)] Cons by auto
  next
    case (Some w)
    then have "w \<in> set ws" "w \<noteq> []" "prefix w s"
      by (auto simp: space_at_def find_Some_iff HasPrefix_iff_prefix)
    then show ?thesis using only Some Cons by auto
  qed
qed

lemma trim_seqs_ascii:
  assumes "is_ascii s" "ws = space_seqs \<or> ws = map rev space_seqs"
  shows "trim_seqs ws s = dropWhile ascii_space s"
  using assms
proof (induction s)
  case (Cons c s)
  then have "trim_seqs ws s = dropWhile ascii_space s" by (simp add: is_ascii_def)
  then show ?case using space_at_ascii [OF Cons.prems] by (simp add: trim_seqs.simps [of ws "c # s"])
qed (use space_at_ascii [of "[]" ws] in \<open>simp add: trim_seqs.simps is_ascii_def\<close>)

lemma TrimSpace_ascii:
  assumes "is_ascii s"
  shows "strings_TrimSpace s = rev (dropWhile ascii_space (rev (dropWhile ascii_space s)))"
proof -
  have "is_ascii (rev (dropWhile ascii_space s))" using assms by (auto simp: is_ascii_def dest: set_dropWhileD)
  then show ?thesis using assms by (simp add: strings_TrimSpace_def trim_seqs_ascii)
qed

lemma TrimSpace_Nil [simp]: "strings_TrimSpace [] = []"
  by (simp add: TrimSpace_ascii is_ascii_def)

text \<open>The ASCII part of \<open>unicode.ToLower\<close>; the whole function is in theory Unicode.\<close>

definition ascii_lower :: "char \<Rightarrow> char" where
  "ascii_lower c =
     (if 65 \<le> (of_char c :: nat) \<and> (of_char c :: nat) \<le> 90 then char_of (of_char c + (32 :: nat)) else c)"

definition is_digit :: "char \<Rightarrow> bool" where
  "is_digit c \<longleftrightarrow> 48 \<le> (of_char c :: nat) \<and> (of_char c :: nat) \<le> 57"

definition digit_char :: "nat \<Rightarrow> char" where
  "digit_char d = char_of (48 + d)"

text \<open>Decimal formatting (\<open>%d\<close>, \<open>strconv.Itoa\<close>).\<close>

fun nat_dec :: "nat \<Rightarrow> string" where
  "nat_dec n = (if n < 10 then [digit_char n] else nat_dec (n div 10) @ [digit_char (n mod 10)])"

declare nat_dec.simps [simp del]

definition itoa :: "int \<Rightarrow> string" where
  "itoa i = (if i < 0 then CHR ''-'' # nat_dec (nat (- i)) else nat_dec (nat i))"

lemma nat_dec_neq_Nil [simp]: "nat_dec n \<noteq> []"
  by (subst nat_dec.simps) simp

text \<open>
  \<open>%q\<close> (\<open>strconv.Quote\<close>): the double-quoted Go literal of a text. Bytes outside ASCII are
  taken to belong to printable runes and stay.
\<close>

definition hex_digit :: "nat \<Rightarrow> char" where
  "hex_digit d = (if d < 10 then char_of (48 + d) else char_of (87 + d))"

definition go_escape :: "char \<Rightarrow> string" where
  "go_escape c =
     (let n = (of_char c :: nat) in
      if c = CHR 0x22 then [CHR 0x5C, CHR 0x22]
      else if c = CHR 0x5C then [CHR 0x5C, CHR 0x5C]
      else if n = 7 then [CHR 0x5C, CHR ''a'']
      else if n = 8 then [CHR 0x5C, CHR ''b'']
      else if n = 12 then [CHR 0x5C, CHR ''f'']
      else if n = 10 then [CHR 0x5C, CHR ''n'']
      else if n = 13 then [CHR 0x5C, CHR ''r'']
      else if n = 9 then [CHR 0x5C, CHR ''t'']
      else if n = 11 then [CHR 0x5C, CHR ''v'']
      else if n < 32 \<or> n = 127 then [CHR 0x5C, CHR ''x'', hex_digit (n div 16), hex_digit (n mod 16)]
      else [c])"

definition go_quote :: "string \<Rightarrow> string" where
  "go_quote s = [CHR 0x22] @ concat (map go_escape s) @ [CHR 0x22]"

section \<open>Tables\<close>

text \<open>
  An SQL table with a primary key (or a Go map whose iteration the program sorts) is a list
  of rows in insertion order; \<open>row_key\<close> reads a row's key.
\<close>

definition find_row :: "('r \<Rightarrow> 'k) \<Rightarrow> 'k \<Rightarrow> 'r list \<Rightarrow> 'r option" where
  "find_row row_key k rows = find (\<lambda>r. row_key r = k) rows"

definition upsert_row :: "('r \<Rightarrow> 'k) \<Rightarrow> 'r \<Rightarrow> 'r list \<Rightarrow> 'r list" where
  "upsert_row row_key r rows =
     (if row_key r \<in> row_key ` set rows
      then map (\<lambda>x. if row_key x = row_key r then r else x) rows
      else rows @ [r])"

lemma find_row_None: "find_row key k rows = None \<longleftrightarrow> k \<notin> key ` set rows"
  by (auto simp: find_row_def find_None_iff)

lemma find_row_Some_key: "find_row key k rows = Some r \<Longrightarrow> key r = k \<and> r \<in> set rows"
  by (auto simp: find_row_def find_Some_iff)

lemma find_row_unique:
  "distinct (map key rows) \<Longrightarrow> find_row key k rows = Some r \<longleftrightarrow> r \<in> set rows \<and> key r = k"
  by (induction rows) (auto simp: find_row_def image_iff)

lemma find_row_cong_set:
  assumes "distinct (map key xs)" "distinct (map key ys)" "set xs = set ys"
  shows "find_row key k xs = find_row key k ys"
proof (cases "find_row key k xs")
  case None
  then have "k \<notin> key ` set ys" using assms(3) by (simp add: find_row_None)
  then have "find_row key k ys = None" by (simp add: find_row_None)
  with None show ?thesis by simp
next
  case (Some r)
  then have "find_row key k ys = Some r"
    using assms by (simp add: find_row_unique)
  with Some show ?thesis by simp
qed

lemma find_map_key: "find P (map f xs) = map_option f (find (\<lambda>x. P (f x)) xs)"
  by (induction xs) auto

lemma find_row_append:
  "find_row key k (xs @ ys) = (case find_row key k xs of None \<Rightarrow> find_row key k ys | Some r \<Rightarrow> Some r)"
  unfolding find_row_def by (induction xs) auto

lemma find_row_map_upd:
  "find_row key k (map (\<lambda>x. if key x = key r then r else x) rows) =
     (if k = key r \<and> k \<in> key ` set rows then Some r else find_row key k rows)"
  unfolding find_row_def by (induction rows) auto

lemma find_row_single: "find_row key k [r] = (if key r = k then Some r else None)"
  by (simp add: find_row_def)

lemma find_row_upsert:
  "find_row key k (upsert_row key r rows) = (if k = key r then Some r else find_row key k rows)"
proof (cases "key r \<in> key ` set rows")
  case True
  then show ?thesis
    by (simp add: upsert_row_def find_row_map_upd)
next
  case False
  then have "find_row key (key r) rows = None"
    by (simp add: find_row_None)
  with False show ?thesis
    by (auto simp: upsert_row_def find_row_append find_row_single split: option.split)
qed

lemma upsert_row_keys: "map key (upsert_row key r rows) =
    (if key r \<in> key ` set rows then map key rows else map key rows @ [key r])"
  by (auto simp: upsert_row_def)

lemma upsert_row_distinct: "distinct (map key rows) \<Longrightarrow> distinct (map key (upsert_row key r rows))"
  unfolding upsert_row_keys by auto

lemma set_upsert_row: "set (upsert_row key r rows) = insert r {x \<in> set rows. key x \<noteq> key r}"
  by (auto simp: upsert_row_def rev_image_eqI)

text \<open>
  The contract of a keyed table: reading after an upsert returns the written row under its
  key and leaves every other key alone, and keys stay unique.
\<close>

locale keyed_rows =
  fixes row_key :: "'r \<Rightarrow> 'k"
    and put :: "'r \<Rightarrow> 't \<Rightarrow> 't"
    and get :: "'k \<Rightarrow> 't \<Rightarrow> 'r option"
    and wf :: "'t \<Rightarrow> bool"
  assumes get_put: "wf t \<Longrightarrow> get k (put r t) = (if k = row_key r then Some r else get k t)"
    and wf_put: "wf t \<Longrightarrow> wf (put r t)"
    and get_key: "wf t \<Longrightarrow> get k t = Some r \<Longrightarrow> row_key r = k"
begin

lemma wf_puts: "wf t \<Longrightarrow> wf (fold put rs t)"
  by (induction rs arbitrary: t) (simp_all add: wf_put)

text \<open>After any sequence of writes a key reads back the last row written under it.\<close>

lemma get_puts:
  assumes "wf t"
  shows "get k (fold put rs t) =
    (case find (\<lambda>r. row_key r = k) (rev rs) of Some r \<Rightarrow> Some r | None \<Rightarrow> get k t)"
  using assms
proof (induction rs rule: rev_induct)
  case Nil
  show ?case by simp
next
  case (snoc r rs)
  then have "wf (fold put rs t)" by (simp add: wf_puts)
  with snoc show ?case by (simp add: get_put)
qed

lemma get_put_same: "wf t \<Longrightarrow> get (row_key r) (put r t) = Some r"
  by (simp add: get_put)

lemma get_put_other: "wf t \<Longrightarrow> k \<noteq> row_key r \<Longrightarrow> get k (put r t) = get k t"
  by (simp add: get_put)

end

text \<open>Updating one entry of an association list with unique keys.\<close>

lemma assoc_update_cases:
  assumes "distinct (map fst xs)" "k < length xs" "xs ! k = (nm, c)" "(x, y) \<in> set (xs[k := (nm, s)])"
  shows "(x, y) = (nm, s) \<or> x \<noteq> nm \<and> (x, y) \<in> set xs"
proof -
  obtain j where j: "j < length xs" "xs[k := (nm, s)] ! j = (x, y)"
    using assms(4) by (auto simp: in_set_conv_nth)
  show ?thesis
  proof (cases "j = k")
    case True
    with j assms(2) show ?thesis by simp
  next
    case False
    with j have xy: "xs ! j = (x, y)" by simp
    moreover have "map fst xs ! j \<noteq> map fst xs ! k"
      using assms(1,2) j(1) False by (simp add: nth_eq_iff_index_eq del: nth_map)
    ultimately show ?thesis
      using assms(2,3) j(1) nth_mem [OF j(1)] by simp
  qed
qed

section \<open>Machines\<close>

text \<open>
  A deterministic machine with an event alphabet: the invariant holds at the start and every
  permitted event keeps it, so it holds after every run of permitted events.
\<close>

locale step_invariant =
  fixes init :: "'s \<Rightarrow> bool"
    and step :: "'e \<Rightarrow> 's \<Rightarrow> 's"
    and permitted :: "'e \<Rightarrow> bool"
    and inv :: "'s \<Rightarrow> bool"
  assumes inv_init: "init s \<Longrightarrow> inv s"
    and inv_step: "permitted e \<Longrightarrow> inv s \<Longrightarrow> inv (step e s)"
begin

lemma inv_run_from: "list_all permitted es \<Longrightarrow> inv s \<Longrightarrow> inv (fold step es s)"
  by (induction es arbitrary: s) (simp_all add: inv_step)

lemma inv_run: "list_all permitted es \<Longrightarrow> init s \<Longrightarrow> inv (fold step es s)"
  by (simp add: inv_run_from inv_init)

end

text \<open>Two facts about \<open>find\<close> and sums that the component proofs share.\<close>

lemma find_filter_hd: "find P xs = (case filter P xs of [] \<Rightarrow> None | x # _ \<Rightarrow> Some x)"
  by (induction xs) auto

end
