(* ===== verification/Golib.thy ===== *)
theory Golib
  imports Prelude "HOL-Library.Char_ord" "HOL-Library.List_Lexorder" "HOL-Library.State_Monad"
begin

text \<open>
  The parts of the Go standard library that the configuration and the adapters use: results of
  fallible calls with the rewrite collection \<open>res_iff\<close> that says when a chain of checks succeeds,
  \<open>time.ParseDuration\<close> with its 64-bit accumulator, \<open>os.Expand\<close> with a variable lookup, and
  \<open>sort.Strings\<close>. The loops are defined by recursion with a termination proof; the lemmas give
  their bounds.
\<close>

section \<open>Results\<close>

named_theorems res_iff \<open>when a chain of fallible steps returns a value\<close>

definition res_bind :: "'e + 'a \<Rightarrow> ('a \<Rightarrow> 'e + 'b) \<Rightarrow> 'e + 'b" where
  "res_bind m f = (case m of Inl e \<Rightarrow> Inl e | Inr x \<Rightarrow> f x)"

text \<open>\<open>fmt.Errorf("...: %w", err)\<close> around a call.\<close>

definition res_wrap :: "('e \<Rightarrow> 'f) \<Rightarrow> 'e + 'a \<Rightarrow> 'f + 'a" where
  "res_wrap g m = (case m of Inl e \<Rightarrow> Inl (g e) | Inr x \<Rightarrow> Inr x)"

text \<open>A loop over a slice that stops at the first error.\<close>

fun res_map :: "('a \<Rightarrow> 'e + 'b) \<Rightarrow> 'a list \<Rightarrow> 'e + 'b list" where
  "res_map f [] = Inr []"
| "res_map f (x # xs) = res_bind (f x) (\<lambda>y. res_bind (res_map f xs) (\<lambda>ys. Inr (y # ys)))"

lemma res_bind_Inr [res_iff]: "res_bind m f = Inr y \<longleftrightarrow> (\<exists>x. m = Inr x \<and> f x = Inr y)"
  by (simp add: res_bind_def split: sum.split)

lemma res_wrap_Inr [res_iff]: "res_wrap g m = Inr y \<longleftrightarrow> m = Inr y"
  by (simp add: res_wrap_def split: sum.split)

lemma res_if_Inl [res_iff]: "(if b then Inl e else m) = Inr y \<longleftrightarrow> \<not> b \<and> m = Inr y"
  by simp

lemma res_map_Inr [res_iff]: "res_map f xs = Inr ys \<longleftrightarrow> list_all2 (\<lambda>x y. f x = Inr y) xs ys"
  by (induction xs arbitrary: ys) (auto simp: res_bind_Inr list_all2_Cons1)

section \<open>time.ParseDuration\<close>

datatype durErr = InvalidDuration string | MissingUnit string | UnknownUnit string string

definition digit_val :: "char \<Rightarrow> int" where
  "digit_val c = of_char c - 48"

definition two63 :: int where
  "two63 = 9223372036854775808"

definition two64 :: int where
  "two64 = 18446744073709551616"

fun leadingInt :: "int \<Rightarrow> string \<Rightarrow> (int \<times> string) option" where
  "leadingInt x [] = Some (x, [])"
| "leadingInt x (c # s) =
     (if \<not> is_digit c then Some (x, c # s)
      else if x > two63 div 10 then None
      else if x * 10 + digit_val c > two63 then None
      else leadingInt (x * 10 + digit_val c) s)"

text \<open>Digits behind the point that no longer fit are read and ignored.\<close>

fun leadingFraction :: "bool \<Rightarrow> int \<Rightarrow> int \<Rightarrow> string \<Rightarrow> int \<times> int \<times> string" where
  "leadingFraction overflow x scale [] = (x, scale, [])"
| "leadingFraction overflow x scale (c # s) =
     (if \<not> is_digit c then (x, scale, c # s)
      else if overflow then leadingFraction True x scale s
      else if x > (two63 - 1) div 10 \<or> x * 10 + digit_val c > two63 then leadingFraction True x scale s
      else leadingFraction False (x * 10 + digit_val c) (scale * 10) s)"

definition unitMap :: "string \<Rightarrow> int option" where
  "unitMap u =
     (if u = ''ns'' then Some 1
      else if u = ''us'' \<or> u = [CHR 0xC2, CHR 0xB5, CHR ''s''] \<or> u = [CHR 0xCE, CHR 0xBC, CHR ''s''] then Some 1000
      else if u = ''ms'' then Some nsMillisecond
      else if u = ''s'' then Some nsSecond
      else if u = ''m'' then Some nsMinute
      else if u = ''h'' then Some nsHour
      else None)"

definition num_char :: "char \<Rightarrow> bool" where
  "num_char c \<longleftrightarrow> c = CHR ''.'' \<or> is_digit c"

text \<open>
  One \<open>number unit\<close> of the loop: its value and the rest of the text. The fraction is computed
  exactly and cut to nanoseconds; the library computes it in floating point.
\<close>

definition dur_unit :: "string \<Rightarrow> int \<Rightarrow> int \<Rightarrow> int \<Rightarrow> string \<Rightarrow> durErr + int \<times> string" where
  "dur_unit orig v f scale s =
     (let u = takeWhile (\<lambda>c. \<not> num_char c) s in
      if u = [] then Inl (MissingUnit orig)
      else (case unitMap u of
          None \<Rightarrow> Inl (UnknownUnit u orig)
        | Some unit \<Rightarrow>
            if v > two63 div unit then Inl (InvalidDuration orig)
            else if f > 0 \<and> v * unit + f * unit div scale > two63 then Inl (InvalidDuration orig)
            else Inr (if f > 0 then v * unit + f * unit div scale else v * unit, dropWhile (\<lambda>c. \<not> num_char c) s)))"

definition dur_term :: "string \<Rightarrow> string \<Rightarrow> durErr + int \<times> string" where
  "dur_term orig s =
     (if s = [] \<or> \<not> num_char (hd s) then Inl (InvalidDuration orig)
      else (case leadingInt 0 s of
          None \<Rightarrow> Inl (InvalidDuration orig)
        | Some (v, s1) \<Rightarrow>
            let pre = length s1 \<noteq> length s in
            if s1 \<noteq> [] \<and> hd s1 = CHR ''.''
            then (case leadingFraction False 0 1 (tl s1) of (f, scale, s2) \<Rightarrow>
                   if \<not> pre \<and> length s2 = length (tl s1) then Inl (InvalidDuration orig)
                   else dur_unit orig v f scale s2)
            else if \<not> pre then Inl (InvalidDuration orig)
            else dur_unit orig v 0 1 s1))"

lemma leadingInt_length: "leadingInt x s = Some (v, r) \<Longrightarrow> length r \<le> length s"
  by (induction x s rule: leadingInt.induct) (auto split: if_splits)

lemma leadingFraction_length: "leadingFraction ov x sc s = (f, sc', r) \<Longrightarrow> length r \<le> length s"
  by (induction ov x sc s rule: leadingFraction.induct) (auto split: if_splits)

lemma dur_unit_shorter: "dur_unit orig v f sc s = Inr (w, r) \<Longrightarrow> length r < length s"
  by (cases s) (auto simp: dur_unit_def Let_def split: if_splits option.splits,
      metis le_imp_less_Suc length_dropWhile_le, metis le_imp_less_Suc length_dropWhile_le)

lemma dur_term_shorter: "dur_term orig s = Inr (w, r) \<Longrightarrow> length r < length s"
  by (auto simp: dur_term_def Let_def split: if_splits option.splits prod.splits
      dest!: dur_unit_shorter leadingInt_length leadingFraction_length)

text \<open>The loop; the accumulator is a \<open>uint64\<close> and wraps.\<close>

function dur_loop :: "string \<Rightarrow> int \<Rightarrow> string \<Rightarrow> durErr + int" where
  "dur_loop orig d s =
     (if s = [] then Inr d
      else (case dur_term orig s of
          Inl e \<Rightarrow> Inl e
        | Inr (v, r) \<Rightarrow>
            if (d + v) mod two64 > two63 then Inl (InvalidDuration orig)
            else dur_loop orig ((d + v) mod two64) r))"
  by pat_completeness auto
termination
  by (relation "measure (\<lambda>(orig, d, s). length s)") (auto dest: dur_term_shorter)

declare dur_loop.simps [simp del]

definition ParseDuration :: "string \<Rightarrow> durErr + duration" where
  "ParseDuration orig =
     (let neg = orig \<noteq> [] \<and> hd orig = CHR ''-'';
          s = (if orig \<noteq> [] \<and> (hd orig = CHR ''-'' \<or> hd orig = CHR ''+'') then tl orig else orig) in
      if s = ''0'' then Inr 0
      else if s = [] then Inl (InvalidDuration orig)
      else (case dur_loop orig 0 s of
          Inl e \<Rightarrow> Inl e
        | Inr d \<Rightarrow> if neg then Inr (- d) else if d > two63 - 1 then Inl (InvalidDuration orig) else Inr d))"

lemma dur_loop_bound: "dur_loop orig d s = Inr e \<Longrightarrow> 0 \<le> d \<Longrightarrow> d \<le> two63 \<Longrightarrow> 0 \<le> e \<and> e \<le> two63"
proof (induction orig d s rule: dur_loop.induct)
  case (1 orig d s)
  show ?case
  proof (cases "s = []")
    case True
    with "1.prems" show ?thesis using dur_loop.simps [of orig d "[]"] by simp
  next
    case False
    with "1.prems"(1) obtain v r where vr: "dur_term orig s = Inr (v, r)" "(d + v) mod two64 \<le> two63"
      "dur_loop orig ((d + v) mod two64) r = Inr e"
      by (auto simp: dur_loop.simps [of orig d s] split: sum.splits prod.splits if_splits)
    moreover have "0 \<le> (d + v) mod two64" by (simp add: two64_def)
    ultimately show ?thesis using "1.IH" [OF False vr(1) refl] by simp
  qed
qed

text \<open>A parsed duration fits a signed 64-bit integer.\<close>

lemma ParseDuration_range: "ParseDuration s = Inr d \<Longrightarrow> - two63 \<le> d \<and> d < two63"
  by (auto simp: ParseDuration_def Let_def two63_def split: if_splits sum.splits dest: dur_loop_bound)

section \<open>os.Expand\<close>

definition isShellSpecialVar :: "char \<Rightarrow> bool" where
  "isShellSpecialVar c \<longleftrightarrow> c \<in> set ''*#$@!?-'' \<or> is_digit c"

definition isAlphaNum :: "char \<Rightarrow> bool" where
  "isAlphaNum c \<longleftrightarrow> c = CHR ''_'' \<or> is_digit c \<or>
     (65 \<le> (of_char c :: nat) \<and> (of_char c :: nat) \<le> 90) \<or> (97 \<le> (of_char c :: nat) \<and> (of_char c :: nat) \<le> 122)"

text \<open>The name behind a dollar sign and how many bytes it takes; \<open>s\<close> is not empty.\<close>

definition getShellName :: "string \<Rightarrow> string \<times> nat" where
  "getShellName s =
     (if hd s = CHR 0x7B
      then (if length s > 2 \<and> isShellSpecialVar (s ! 1) \<and> s ! 2 = CHR 0x7D then ([s ! 1], 3)
            else (case strings_Cut (tl s) (CHR 0x7D) of
                None \<Rightarrow> ([], 1)
              | Some (name, _) \<Rightarrow> if name = [] then ([], 2) else (name, length name + 2)))
      else if isShellSpecialVar (hd s) then ([hd s], 1)
      else (takeWhile isAlphaNum s, length (takeWhile isAlphaNum s)))"

text \<open>
  The expanded text and the names the lookup did not know, in the order of the text (a missing
  name expands to nothing).
\<close>

function os_Expand :: "(string \<Rightarrow> string option) \<Rightarrow> string \<Rightarrow> string \<times> string list" where
  "os_Expand look [] = ([], [])"
| "os_Expand look (c # s) =
     (if c = CHR ''$'' \<and> s \<noteq> []
      then (case getShellName s of (name, w) \<Rightarrow>
            case os_Expand look (drop w s) of (out, missing) \<Rightarrow>
              if name = [] then (if w > 0 then out else c # out, missing)
              else (case look name of Some v \<Rightarrow> (v @ out, missing) | None \<Rightarrow> (out, name # missing)))
      else (case os_Expand look s of (out, missing) \<Rightarrow> (c # out, missing)))"
  by pat_completeness auto
termination
  by (relation "measure (\<lambda>(look, s). length s)") auto

lemma os_Expand_plain: "CHR ''$'' \<notin> set s \<Longrightarrow> os_Expand look s = (s, [])"
  by (induction s) auto

section \<open>sort.Strings\<close>

definition sort_Strings :: "string list \<Rightarrow> string list" where
  "sort_Strings xs = sort xs"

section \<open>Numbers\<close>

text \<open>\<open>strconv.ParseInt(s, 10, 64)\<close> and \<open>strconv.ParseUint(s, 10, 64)\<close>; \<open>wrap64\<close> is the value of an \<open>int64\<close>
  expression whose exact value is given.\<close>

definition all_digits :: "string \<Rightarrow> bool" where
  "all_digits s \<longleftrightarrow> s \<noteq> [] \<and> list_all is_digit s"

definition dec_value :: "string \<Rightarrow> int" where
  "dec_value s = foldl (\<lambda>n c. n * 10 + digit_val c) 0 s"

definition ParseUint :: "string \<Rightarrow> int option" where
  "ParseUint s = (if all_digits s \<and> dec_value s < two64 then Some (dec_value s) else None)"

definition ParseInt :: "string \<Rightarrow> int option" where
  "ParseInt s =
     (let neg = s \<noteq> [] \<and> hd s = CHR ''-'';
          body = (if s \<noteq> [] \<and> (hd s = CHR ''-'' \<or> hd s = CHR ''+'') then tl s else s) in
      if \<not> all_digits body then None
      else if neg then (if dec_value body \<le> two63 then Some (- dec_value body) else None)
      else if dec_value body < two63 then Some (dec_value body) else None)"

definition wrap64 :: "int \<Rightarrow> int" where
  "wrap64 x = (x + two63) mod two64 - two63"

lemma wrap64_id: "- two63 \<le> x \<Longrightarrow> x < two63 \<Longrightarrow> wrap64 x = x"
  by (simp add: wrap64_def two63_def two64_def)

lemma wrap64_range: "- two63 \<le> wrap64 x \<and> wrap64 x < two63"
  by (simp add: wrap64_def two63_def two64_def)

section \<open>Integers as float64\<close>

text \<open>\<open>float64(n)\<close>: an integer of more than 53 bits is rounded to the nearest multiple of a power of two, ties to even. Every
  integer below \<open>2^53\<close> is its own float64.\<close>

function excess_bits :: "int \<Rightarrow> nat" where
  "excess_bits n = (if n < 9007199254740992 then 0 else Suc (excess_bits (n div 2)))"
  by pat_completeness auto
termination by (relation "measure nat") auto

declare excess_bits.simps [simp del]

definition half_even :: "int \<Rightarrow> int \<Rightarrow> int" where
  "half_even n d =
     (let q = n div d; r = n mod d in if 2 * r > d \<or> 2 * r = d \<and> odd q then q + 1 else q)"

definition float64_round :: "int \<Rightarrow> int" where
  "float64_round n = (let u = 2 ^ excess_bits \<bar>n\<bar> in sgn n * (half_even \<bar>n\<bar> u * u))"

lemma excess_scale: "excess_bits n \<noteq> 0 \<Longrightarrow> 4503599627370496 * 2 ^ excess_bits n \<le> n"
proof (induction n rule: excess_bits.induct)
  case (1 n)
  have big: "\<not> n < 9007199254740992"
    using "1.prems" by (simp add: excess_bits.simps [of n] split: if_splits)
  then have step: "excess_bits n = Suc (excess_bits (n div 2))"
    by (simp add: excess_bits.simps [of n])
  show ?case
  proof (cases "excess_bits (n div 2) = 0")
    case True
    then show ?thesis using big step by simp
  next
    case False
    then have "4503599627370496 * 2 ^ excess_bits (n div 2) \<le> n div 2" using "1.IH" big by simp
    then show ?thesis unfolding step power_Suc by linarith
  qed
qed

lemma half_even_floor: "n div d \<le> half_even n d"
  by (simp add: half_even_def Let_def)

lemma half_even_near:
  assumes "d > 0"
  shows "2 * \<bar>half_even n d * d - n\<bar> \<le> d"
proof -
  let ?r = "n mod d"
  have r: "0 \<le> ?r" "?r < d" using assms by simp_all
  have "n div d * d - n = - ?r" by (simp add: minus_mod_eq_div_mult [symmetric])
  then have "half_even n d * d - n = (if 2 * ?r > d \<or> 2 * ?r = d \<and> odd (n div d) then d - ?r else - ?r)"
    by (simp add: half_even_def Let_def distrib_right)
  then show ?thesis using r by (simp split: if_splits)
qed

lemma float64_round_exact:
  assumes "\<bar>n\<bar> < 9007199254740992"
  shows "float64_round n = n"
proof -
  have "excess_bits \<bar>n\<bar> = 0" using assms by (simp add: excess_bits.simps [of "\<bar>n\<bar>"])
  then show ?thesis by (simp add: float64_round_def half_even_def sgn_mult_abs)
qed

text \<open>The rounding is off by at most one part in \<open>2^53\<close>.\<close>

lemma float64_round_near: "9007199254740992 * \<bar>float64_round n - n\<bar> \<le> \<bar>n\<bar>"
proof (cases "excess_bits \<bar>n\<bar> = 0")
  case True
  then show ?thesis by (simp add: float64_round_def half_even_def sgn_mult_abs)
next
  case False
  let ?u = "2 ^ excess_bits \<bar>n\<bar> :: int" and ?h = "half_even \<bar>n\<bar> (2 ^ excess_bits \<bar>n\<bar>)"
  have "2 * \<bar>?h * ?u - \<bar>n\<bar>\<bar> \<le> ?u" by (rule half_even_near) simp
  then have "9007199254740992 * \<bar>?h * ?u - \<bar>n\<bar>\<bar> \<le> 4503599627370496 * ?u" by simp
  also have "\<dots> \<le> \<bar>n\<bar>" by (rule excess_scale [OF False])
  finally have "9007199254740992 * \<bar>?h * ?u - \<bar>n\<bar>\<bar> \<le> \<bar>n\<bar>" .
  moreover have "float64_round n - n = sgn n * (?h * ?u - \<bar>n\<bar>)"
    by (simp add: float64_round_def Let_def right_diff_distrib sgn_mult_abs)
  then have "\<bar>float64_round n - n\<bar> = \<bar>?h * ?u - \<bar>n\<bar>\<bar>" using False
    by (cases "n = 0") (simp_all add: abs_mult excess_bits.simps [of 0])
  ultimately show ?thesis by simp
qed

section \<open>More of package strings\<close>

text \<open>\<open>strings.Trim\<close> with a set of single bytes, \<open>HasSuffix\<close>, \<open>TrimSuffix\<close>, \<open>TrimPrefix\<close> and \<open>Fields\<close>.\<close>

definition strings_Trim :: "string \<Rightarrow> string \<Rightarrow> string" where
  "strings_Trim s cutset = rev (dropWhile (\<lambda>c. c \<in> set cutset) (rev (dropWhile (\<lambda>c. c \<in> set cutset) s)))"

definition strings_HasSuffix :: "string \<Rightarrow> string \<Rightarrow> bool" where
  "strings_HasSuffix s suf \<longleftrightarrow> strings_HasPrefix (rev s) (rev suf)"

definition strings_TrimSuffix :: "string \<Rightarrow> string \<Rightarrow> string" where
  "strings_TrimSuffix s suf = (if strings_HasSuffix s suf then take (length s - length suf) s else s)"

definition strings_TrimPrefix :: "string \<Rightarrow> string \<Rightarrow> string" where
  "strings_TrimPrefix s p = (if strings_HasPrefix s p then drop (length p) s else s)"

function fields_from :: "string \<Rightarrow> string \<Rightarrow> string list" where
  "fields_from w s =
     (case space_at space_seqs s of
        Some sp \<Rightarrow> (if w = [] then [] else [rev w]) @ fields_from [] (drop (length sp) s)
      | None \<Rightarrow> (case s of [] \<Rightarrow> (if w = [] then [] else [rev w]) | c # t \<Rightarrow> fields_from (c # w) t))"
  by pat_completeness auto
termination
  by (relation "measure (\<lambda>(w, s). length s)") (auto dest: space_at_shorter)

declare fields_from.simps [simp del]

definition strings_Fields :: "string \<Rightarrow> string list" where
  "strings_Fields s = fields_from [] s"

lemma fields_from_nonempty: "[] \<notin> set (fields_from w s)"
proof (induction w s rule: fields_from.induct)
  case (1 w s)
  then show ?case by (subst fields_from.simps) (auto split: option.split list.split)
qed

lemma fields_from_ascii:
  assumes "is_ascii s"
  shows "fields_from w s =
    (case s of [] \<Rightarrow> (if w = [] then [] else [rev w])
     | c # t \<Rightarrow> if ascii_space c then (if w = [] then [] else [rev w]) @ fields_from [] t else fields_from (c # w) t)"
  using space_at_ascii [OF assms] by (subst fields_from.simps) (simp split: list.split)

lemma Trim_quoted:
  assumes "v = [] \<or> hd v \<notin> set cs \<and> last v \<notin> set cs" "set a \<subseteq> set cs" "set b \<subseteq> set cs"
  shows "strings_Trim (a @ v @ b) cs = v"
proof (cases "v = []")
  case True
  then have "dropWhile (\<lambda>c. c \<in> set cs) (a @ v @ b) = []" using assms(2,3) by auto
  then show ?thesis unfolding strings_Trim_def using True by (metis dropWhile.simps(1) rev.simps(1))
next
  case False
  with assms have "dropWhile (\<lambda>c. c \<in> set cs) (a @ v @ b) = v @ b"
    by (cases v) (auto simp: dropWhile_append)
  moreover have "dropWhile (\<lambda>c. c \<in> set cs) (rev b @ rev v) = rev v"
    using False assms by (cases v rule: rev_cases) (auto simp: dropWhile_append)
  ultimately show ?thesis by (simp add: strings_Trim_def)
qed

section \<open>UTF-8\<close>

text \<open>\<open>strings.ToValidUTF8(s, "")\<close>: bytes that do not belong to a well-formed encoding are dropped.\<close>

definition cont_byte :: "char \<Rightarrow> bool" where
  "cont_byte c \<longleftrightarrow> 128 \<le> (of_char c :: nat) \<and> (of_char c :: nat) < 192"

text \<open>The length of the well-formed encoding at the head of the text, or 0.\<close>

definition utf8_len :: "string \<Rightarrow> nat" where
  "utf8_len s =
     (case s of [] \<Rightarrow> 0
      | c # t \<Rightarrow>
          let n = (of_char c :: nat); b = (\<lambda>i. (of_char (t ! i) :: nat)) in
          if n < 128 then 1
          else if 194 \<le> n \<and> n < 224 then (if length t \<ge> 1 \<and> cont_byte (t ! 0) then 2 else 0)
          else if 224 \<le> n \<and> n < 240 then
            (if length t \<ge> 2 \<and> cont_byte (t ! 0) \<and> cont_byte (t ! 1) \<and>
                (n = 224 \<longrightarrow> 160 \<le> b 0) \<and> (n = 237 \<longrightarrow> b 0 < 160) then 3 else 0)
          else if 240 \<le> n \<and> n < 245 then
            (if length t \<ge> 3 \<and> cont_byte (t ! 0) \<and> cont_byte (t ! 1) \<and> cont_byte (t ! 2) \<and>
                (n = 240 \<longrightarrow> 144 \<le> b 0) \<and> (n = 244 \<longrightarrow> b 0 < 144) then 4 else 0)
          else 0)"

text \<open>\<open>[]rune(s)\<close>, each rune in its encoding: a byte that belongs to no well-formed encoding reads as U+FFFD.\<close>

function runes :: "string \<Rightarrow> string list" where
  "runes s =
     (if s = [] then []
      else if utf8_len s = 0 then [CHR 0xEF, CHR 0xBF, CHR 0xBD] # runes (tl s)
      else take (utf8_len s) s # runes (drop (utf8_len s) s))"
  by pat_completeness auto
termination
  by (relation "measure length") auto

declare runes.simps [simp del]

function strings_ToValidUTF8 :: "string \<Rightarrow> string" where
  "strings_ToValidUTF8 s =
     (if s = [] then []
      else if utf8_len s = 0 then strings_ToValidUTF8 (tl s)
      else take (utf8_len s) s @ strings_ToValidUTF8 (drop (utf8_len s) s))"
  by pat_completeness auto
termination
  by (relation "measure length") auto

declare strings_ToValidUTF8.simps [simp del]

lemma ToValidUTF8_length: "length (strings_ToValidUTF8 s) \<le> length s"
proof (induction s rule: strings_ToValidUTF8.induct)
  case (1 s)
  show ?case
  proof (cases "s = [] \<or> utf8_len s = 0")
    case True
    then show ?thesis using 1(1) by (subst strings_ToValidUTF8.simps) (cases s, auto)
  next
    case False
    then have "length (strings_ToValidUTF8 (drop (utf8_len s) s)) \<le> length (drop (utf8_len s) s)" using 1(2) by simp
    then show ?thesis using False by (subst strings_ToValidUTF8.simps) auto
  qed
qed

text \<open>A text that has been through \<open>encoding/json\<close> and back: a byte that belongs to no well-formed encoding has become U+FFFD,
  anything else is as it was.\<close>

function json_text :: "string \<Rightarrow> string" where
  "json_text s =
     (if s = [] then []
      else if utf8_len s = 0 then [CHR 0xEF, CHR 0xBF, CHR 0xBD] @ json_text (tl s)
      else take (utf8_len s) s @ json_text (drop (utf8_len s) s))"
  by pat_completeness auto
termination
  by (relation "measure length") auto

declare json_text.simps [simp del]

lemma utf8_len_cases:
  assumes "utf8_len s \<noteq> 0"
  obtains (one) c u where "s = c # u" "(of_char c :: nat) < 128"
  | (two) c x u where "s = c # x # u" "194 \<le> (of_char c :: nat)" "(of_char c :: nat) < 224" "cont_byte x"
  | (three) c x y u where "s = c # x # y # u" "224 \<le> (of_char c :: nat)" "(of_char c :: nat) < 240" "cont_byte x" "cont_byte y"
      "(of_char c :: nat) = 224 \<longrightarrow> 160 \<le> (of_char x :: nat)" "(of_char c :: nat) = 237 \<longrightarrow> (of_char x :: nat) < 160"
  | (four) c x y z u where "s = c # x # y # z # u" "240 \<le> (of_char c :: nat)" "(of_char c :: nat) < 245" "cont_byte x" "cont_byte y" "cont_byte z"
      "(of_char c :: nat) = 240 \<longrightarrow> 144 \<le> (of_char x :: nat)" "(of_char c :: nat) = 244 \<longrightarrow> (of_char x :: nat) < 144"
proof (cases s)
  case (Cons c t)
  let ?n = "of_char c :: nat"
  consider "?n < 128" | "194 \<le> ?n" "?n < 224" | "224 \<le> ?n" "?n < 240" | "240 \<le> ?n" "?n < 245"
    using assms Cons by (simp add: utf8_len_def Let_def split: if_splits)
  then show thesis
  proof cases
    case 1
    then show thesis using one Cons by blast
  next
    case 2
    with assms Cons have "length t \<ge> 1" "cont_byte (t ! 0)" by (simp_all add: utf8_len_def Let_def split: if_splits)
    then obtain x u where "t = x # u" "cont_byte x" by (cases t) auto
    with 2 two Cons show thesis by blast
  next
    case 3
    with assms Cons have *: "length t \<ge> 2" "cont_byte (t ! 0)" "cont_byte (t ! 1)"
      "(?n = 224 \<longrightarrow> 160 \<le> (of_char (t ! 0) :: nat)) \<and> (?n = 237 \<longrightarrow> (of_char (t ! 0) :: nat) < 160)"
      by (simp_all add: utf8_len_def Let_def split: if_splits)
    then obtain x y u where "t = x # y # u" by (metis Suc_le_length_iff numeral_2_eq_2)
    with * 3 three Cons show thesis by simp
  next
    case 4
    with assms Cons have *: "length t \<ge> 3" "cont_byte (t ! 0)" "cont_byte (t ! 1)" "cont_byte (t ! 2)"
      "(?n = 240 \<longrightarrow> 144 \<le> (of_char (t ! 0) :: nat)) \<and> (?n = 244 \<longrightarrow> (of_char (t ! 0) :: nat) < 144)"
      by (simp_all add: utf8_len_def Let_def split: if_splits)
    then obtain x y z u where "t = x # y # z # u" by (metis Suc_le_length_iff numeral_3_eq_3)
    with * 4 four Cons show thesis by simp
  qed
qed (use assms in \<open>simp add: utf8_len_def\<close>)

lemma utf8_len_prefix:
  assumes "utf8_len s \<noteq> 0"
  shows "utf8_len (take (utf8_len s) s @ t) = utf8_len s" and "utf8_len s \<le> length s"
  using assms by (cases s rule: utf8_len_cases; simp add: utf8_len_def Let_def)+

lemma json_text_append:
  assumes "utf8_len s \<noteq> 0"
  shows "json_text (take (utf8_len s) s @ t) = take (utf8_len s) s @ json_text t"
proof -
  have "s \<noteq> []" using assms by (auto simp: utf8_len_def)
  then show ?thesis using utf8_len_prefix [OF assms] assms
    by (subst json_text.simps) (auto simp: min_absorb2)
qed

lemma json_text_idem: "json_text (json_text s) = json_text s"
proof (induction s rule: json_text.induct)
  case (1 s)
  have fffd: "utf8_len ([CHR 0xEF, CHR 0xBF, CHR 0xBD] @ t) = 3" for t
    by (simp add: utf8_len_def cont_byte_def)
  show ?case
  proof (cases "s = [] \<or> utf8_len s = 0")
    case True
    have "json_text ([CHR 0xEF, CHR 0xBF, CHR 0xBD] @ json_text (tl s)) = [CHR 0xEF, CHR 0xBF, CHR 0xBD] @ json_text (json_text (tl s))"
      using json_text_append [of "[CHR 0xEF, CHR 0xBF, CHR 0xBD]" "json_text (tl s)"] fffd [of "[]"] by simp
    then show ?thesis using True 1(1) by (cases "s = []") (simp_all add: json_text.simps [of s] json_text.simps [of "[]"])
  next
    case False
    then show ?thesis using 1(2) json_text_append [of s] by (simp add: json_text.simps [of s])
  qed
qed

lemma json_text_ascii: "\<forall>c \<in> set s. (of_char c :: nat) < 128 \<Longrightarrow> json_text s = s"
proof (induction s)
  case (Cons c s)
  then have "utf8_len (c # s) = 1" by (simp add: utf8_len_def)
  then show ?case using Cons by (subst json_text.simps) simp
qed (simp add: json_text.simps)

end
