(* ===== verification/Unicode.thy ===== *)
theory Unicode
  imports Golib
begin

text \<open>
  \<open>strings.ToLower\<close> on any text. Like the Go library it has a fast path for ASCII and maps the runes of any other text one by one,
  a byte that belongs to no well-formed encoding becoming U+FFFD. The case table is that of package unicode: an entry
  \<open>(lo, hi, step, delta)\<close> lowers every \<open>step\<close>-th code point from \<open>lo\<close> to \<open>hi\<close> by adding \<open>delta\<close>. The lemmas show that encoding undoes
  decoding and that the two paths agree on ASCII text.
\<close>

section \<open>Code points\<close>

definition rune_code :: "string \<Rightarrow> nat" where
  "rune_code r =
     (case map (of_char :: char \<Rightarrow> nat) r of
        [a] \<Rightarrow> a
      | [a, b] \<Rightarrow> (a - 192) * 64 + (b - 128)
      | [a, b, c] \<Rightarrow> (a - 224) * 4096 + (b - 128) * 64 + (c - 128)
      | [a, b, c, d] \<Rightarrow> (a - 240) * 262144 + (b - 128) * 4096 + (c - 128) * 64 + (d - 128)
      | _ \<Rightarrow> 65533)"

definition encode_rune :: "nat \<Rightarrow> string" where
  "encode_rune n =
     map char_of
       (if n < 128 then [n]
        else if n < 2048 then [192 + n div 64, 128 + n mod 64]
        else if n < 65536 then [224 + n div 4096, 128 + n div 64 mod 64, 128 + n mod 64]
        else [240 + n div 262144, 128 + n div 4096 mod 64, 128 + n div 64 mod 64, 128 + n mod 64])"

section \<open>The case table\<close>

definition lower_ranges :: "(nat \<times> nat \<times> nat \<times> int) list" where
  "lower_ranges =
     [(65, 90, 1, 32), (192, 214, 1, 32), (216, 222, 1, 32), (256, 302, 2, 1), (304, 304, 1, - 199), (306, 310, 2, 1), (313, 327, 2, 1),
      (330, 374, 2, 1), (376, 376, 1, - 121), (377, 381, 2, 1), (385, 385, 1, 210), (386, 388, 2, 1), (390, 390, 1, 206), (391, 391, 1, 1),
      (393, 394, 1, 205), (395, 395, 1, 1), (398, 398, 1, 79), (399, 399, 1, 202), (400, 400, 1, 203), (401, 401, 1, 1), (403, 403, 1, 205),
      (404, 404, 1, 207), (406, 406, 1, 211), (407, 407, 1, 209), (408, 408, 1, 1), (412, 412, 1, 211), (413, 413, 1, 213), (415, 415, 1, 214),
      (416, 420, 2, 1), (422, 422, 1, 218), (423, 423, 1, 1), (425, 425, 1, 218), (428, 428, 1, 1), (430, 430, 1, 218), (431, 431, 1, 1),
      (433, 434, 1, 217), (435, 437, 2, 1), (439, 439, 1, 219), (440, 440, 1, 1), (444, 444, 1, 1), (452, 452, 1, 2), (453, 453, 1, 1),
      (455, 455, 1, 2), (456, 456, 1, 1), (458, 458, 1, 2), (459, 475, 2, 1), (478, 494, 2, 1), (497, 497, 1, 2), (498, 500, 2, 1),
      (502, 502, 1, - 97), (503, 503, 1, - 56), (504, 542, 2, 1), (544, 544, 1, - 130), (546, 562, 2, 1), (570, 570, 1, 10795), (571, 571, 1, 1),
      (573, 573, 1, - 163), (574, 574, 1, 10792), (577, 577, 1, 1), (579, 579, 1, - 195), (580, 580, 1, 69), (581, 581, 1, 71), (582, 590, 2, 1),
      (880, 882, 2, 1), (886, 886, 1, 1), (895, 895, 1, 116), (902, 902, 1, 38), (904, 906, 1, 37), (908, 908, 1, 64), (910, 911, 1, 63),
      (913, 929, 1, 32), (931, 939, 1, 32), (975, 975, 1, 8), (984, 1006, 2, 1), (1012, 1012, 1, - 60), (1015, 1015, 1, 1), (1017, 1017, 1, - 7),
      (1018, 1018, 1, 1), (1021, 1023, 1, - 130), (1024, 1039, 1, 80), (1040, 1071, 1, 32), (1120, 1152, 2, 1), (1162, 1214, 2, 1),
      (1216, 1216, 1, 15), (1217, 1229, 2, 1), (1232, 1326, 2, 1), (1329, 1366, 1, 48), (4256, 4293, 1, 7264), (4295, 4295, 1, 7264),
      (4301, 4301, 1, 7264), (5024, 5103, 1, 38864), (5104, 5109, 1, 8), (7312, 7354, 1, - 3008), (7357, 7359, 1, - 3008), (7680, 7828, 2, 1),
      (7838, 7838, 1, - 7615), (7840, 7934, 2, 1), (7944, 7951, 1, - 8), (7960, 7965, 1, - 8), (7976, 7983, 1, - 8), (7992, 7999, 1, - 8),
      (8008, 8013, 1, - 8), (8025, 8031, 2, - 8), (8040, 8047, 1, - 8), (8072, 8079, 1, - 8), (8088, 8095, 1, - 8), (8104, 8111, 1, - 8),
      (8120, 8121, 1, - 8), (8122, 8123, 1, - 74), (8124, 8124, 1, - 9), (8136, 8139, 1, - 86), (8140, 8140, 1, - 9), (8152, 8153, 1, - 8),
      (8154, 8155, 1, - 100), (8168, 8169, 1, - 8), (8170, 8171, 1, - 112), (8172, 8172, 1, - 7), (8184, 8185, 1, - 128), (8186, 8187, 1, - 126),
      (8188, 8188, 1, - 9), (8486, 8486, 1, - 7517), (8490, 8490, 1, - 8383), (8491, 8491, 1, - 8262), (8498, 8498, 1, 28), (8544, 8559, 1, 16),
      (8579, 8579, 1, 1), (9398, 9423, 1, 26), (11264, 11311, 1, 48), (11360, 11360, 1, 1), (11362, 11362, 1, - 10743), (11363, 11363, 1, - 3814),
      (11364, 11364, 1, - 10727), (11367, 11371, 2, 1), (11373, 11373, 1, - 10780), (11374, 11374, 1, - 10749), (11375, 11375, 1, - 10783),
      (11376, 11376, 1, - 10782), (11378, 11378, 1, 1), (11381, 11381, 1, 1), (11390, 11391, 1, - 10815), (11392, 11490, 2, 1), (11499, 11501, 2, 1),
      (11506, 11506, 1, 1), (42560, 42604, 2, 1), (42624, 42650, 2, 1), (42786, 42798, 2, 1), (42802, 42862, 2, 1), (42873, 42875, 2, 1),
      (42877, 42877, 1, - 35332), (42878, 42886, 2, 1), (42891, 42891, 1, 1), (42893, 42893, 1, - 42280), (42896, 42898, 2, 1), (42902, 42920, 2, 1),
      (42922, 42922, 1, - 42308), (42923, 42923, 1, - 42319), (42924, 42924, 1, - 42315), (42925, 42925, 1, - 42305), (42926, 42926, 1, - 42308),
      (42928, 42928, 1, - 42258), (42929, 42929, 1, - 42282), (42930, 42930, 1, - 42261), (42931, 42931, 1, 928), (42932, 42946, 2, 1),
      (42948, 42948, 1, - 48), (42949, 42949, 1, - 42307), (42950, 42950, 1, - 35384), (42951, 42953, 2, 1), (42960, 42960, 1, 1),
      (42966, 42968, 2, 1), (42997, 42997, 1, 1), (65313, 65338, 1, 32), (66560, 66599, 1, 40), (66736, 66771, 1, 40), (66928, 66938, 1, 39),
      (66940, 66954, 1, 39), (66956, 66962, 1, 39), (66964, 66965, 1, 39), (68736, 68786, 1, 64), (71840, 71871, 1, 32), (93760, 93791, 1, 32),
      (125184, 125217, 1, 34)]"

definition unicode_ToLower :: "nat \<Rightarrow> nat" where
  "unicode_ToLower n =
     (case find (\<lambda>(lo, hi, step, _). lo \<le> n \<and> n \<le> hi \<and> (n - lo) mod step = 0) lower_ranges of
        None \<Rightarrow> n
      | Some (_, _, _, delta) \<Rightarrow> nat (int n + delta))"

definition lower_rune :: "string \<Rightarrow> string" where
  "lower_rune r = encode_rune (unicode_ToLower (rune_code r))"

definition strings_ToLower :: "string \<Rightarrow> string" where
  "strings_ToLower s = (if is_ascii s then map ascii_lower s else concat (map lower_rune (runes s)))"

section \<open>Properties\<close>

text \<open>Encoding undoes decoding on every well-formed rune.\<close>

lemma base64_digits:
  assumes "y < (64::nat)" "z < 64"
  shows "(x * 4096 + y * 64 + z) div 4096 = x" "(x * 4096 + y * 64 + z) div 64 mod 64 = y" "(x * 4096 + y * 64 + z) mod 64 = z"
proof -
  have q: "(x * 4096 + y * 64 + z) div 64 = x * 64 + y" using assms by (auto intro: div_nat_eqI)
  then show "(x * 4096 + y * 64 + z) div 64 mod 64 = y" using assms by simp
  show "(x * 4096 + y * 64 + z) mod 64 = z" using assms by (simp add: mod_nat_eqI)
  show "(x * 4096 + y * 64 + z) div 4096 = x" using assms by (auto intro: div_nat_eqI)
qed

lemma char_code: "n < 256 \<Longrightarrow> n = (of_char c :: nat) \<Longrightarrow> (char_of n :: char) = c"
  by simp

lemma encode_decode:
  assumes "utf8_len s \<noteq> 0"
  shows "encode_rune (rune_code (take (utf8_len s) s)) = take (utf8_len s) s"
  using assms
proof (cases s rule: utf8_len_cases)
  case (one c u)
  then show ?thesis by (simp add: utf8_len_def rune_code_def encode_rune_def)
next
  case (two c x u)
  obtain a b where ab: "(of_char c :: nat) = 192 + a" "2 \<le> a" "a < 32" "(of_char x :: nat) = 128 + b" "b < 64"
    using two by (intro that [of "of_char c - 192" "of_char x - 128"]) (auto simp: cont_byte_def)
  then have "encode_rune (rune_code [c, x]) = [char_of (192 + a), char_of (128 + b)]"
    by (simp add: rune_code_def encode_rune_def)
  also have "\<dots> = [c, x]" by (simp flip: ab(1,4))
  finally show ?thesis using two by (simp add: utf8_len_def)
next
  case (three c x y u)
  obtain a b d where ab: "(of_char c :: nat) = 224 + a" "a < 16" "(of_char x :: nat) = 128 + b" "b < 64" "(of_char y :: nat) = 128 + d" "d < 64"
    using three by (intro that [of "of_char c - 224" "of_char x - 128" "of_char y - 128"]) (auto simp: cont_byte_def)
  then have "1 \<le> a \<or> 32 \<le> b" using three by auto
  then have big: "2048 \<le> a * 4096 + b * 64 + d" by auto
  have "rune_code [c, x, y] = a * 4096 + b * 64 + d" using ab by (simp add: rune_code_def)
  then have "encode_rune (rune_code [c, x, y]) = [char_of (224 + a), char_of (128 + b), char_of (128 + d)]"
    using big ab base64_digits [of b d a] by (simp add: encode_rune_def)
  also have "\<dots> = [c, x, y]" by (simp flip: ab(1,3,5))
  finally show ?thesis using three by (simp add: utf8_len_def)
next
  case (four c x y z u)
  obtain a b d e where ab: "(of_char c :: nat) = 240 + a" "a < 5" "(of_char x :: nat) = 128 + b" "b < 64" "(of_char y :: nat) = 128 + d" "d < 64"
      "(of_char z :: nat) = 128 + e" "e < 64"
    using four by (intro that [of "of_char c - 240" "of_char x - 128" "of_char y - 128" "of_char z - 128"]) (auto simp: cont_byte_def)
  let ?n = "(a * 64 + b) * 4096 + d * 64 + e"
  have "1 \<le> a \<or> 16 \<le> b" using four ab by auto
  then have big: "65536 \<le> ?n" by auto
  have n: "rune_code [c, x, y, z] = ?n" using ab by (simp add: rune_code_def algebra_simps)
  have "?n div 262144 = ?n div 4096 div 64" by (simp add: div_mult2_eq [symmetric])
  then have "?n div 262144 = a" "?n div 4096 mod 64 = b"
    using ab base64_digits(1) [of d e "a * 64 + b"] by simp_all
  then have "encode_rune ?n = [char_of (240 + a), char_of (128 + b), char_of (128 + d), char_of (128 + e)]"
    using big base64_digits(2,3) [of d e "a * 64 + b"] ab by (simp add: encode_rune_def)
  also have "\<dots> = [c, x, y, z]" by (simp flip: ab(1,3,5,7))
  finally show ?thesis using four n by (simp add: utf8_len_def)
qed

lemma ascii_runes: "is_ascii s \<Longrightarrow> runes s = map (\<lambda>c. [c]) s"
proof (induction s)
  case (Cons c s)
  then have "utf8_len (c # s) = 1" by (simp add: utf8_len_def is_ascii_def)
  with Cons show ?case by (subst runes.simps) (simp add: is_ascii_def)
qed (simp add: runes.simps)

lemma ToLower_ascii_code:
  assumes "n < 128"
  shows "unicode_ToLower n = (if 65 \<le> n \<and> n \<le> 90 then n + 32 else n)"
proof -
  let ?hit = "\<lambda>(lo, hi, step, _). lo \<le> n \<and> n \<le> hi \<and> (n - lo) mod step = 0" and ?rest = "tl lower_ranges"
  have "list_all (\<lambda>(lo, _). 128 \<le> lo) ?rest" by (simp add: lower_ranges_def)
  then have "find ?hit ?rest = None" using assms by (fastforce simp: list_all_iff find_None_iff)
  moreover have "lower_ranges = (65, 90, 1, 32) # ?rest" by (simp add: lower_ranges_def)
  moreover have "find ?hit ((65, 90, 1, 32) # ?rest) = (if 65 \<le> n \<and> n \<le> 90 then Some (65, 90, 1, 32) else find ?hit ?rest)"
    by (simp only: find.simps split: prod.split) simp
  ultimately have "find ?hit lower_ranges = (if 65 \<le> n \<and> n \<le> 90 then Some (65, 90, 1, 32) else None)" by presburger
  then show ?thesis by (simp add: unicode_ToLower_def nat_add_distrib)
qed

text \<open>The fast path agrees with the general one.\<close>

lemma ToLower_runes: "strings_ToLower s = concat (map lower_rune (runes s))"
proof (cases "is_ascii s")
  case True
  have "lower_rune [c] = [ascii_lower c]" if "c \<in> set s" for c
    using True that by (auto simp: lower_rune_def rune_code_def encode_rune_def ToLower_ascii_code is_ascii_def ascii_lower_def)
  then have "concat (map lower_rune (map (\<lambda>c. [c]) s)) = map ascii_lower s" by (induction s) auto
  then show ?thesis using True by (simp add: strings_ToLower_def ascii_runes)
qed (simp add: strings_ToLower_def)

lemma ToLower_ascii: "is_ascii s \<Longrightarrow> strings_ToLower s = map ascii_lower s"
  by (simp add: strings_ToLower_def)

end
