(* ===== verification/Core_Domain.thy ===== *)
theory Core_Domain
  imports Unicode
begin

text \<open>
  The domain types of \<open>internal/core\<close> (\<open>domain.go\<close>, \<open>harness.go\<close>) and its pure
  operations: \<open>DeriveStatus\<close>, the enumerations' \<open>String\<close> methods, \<open>ParseHarnessMode\<close>
  and the evidence scrubber \<open>Scrub\<close>. The lemmas show that derivation never turns "cannot
  tell" into "down", that an unknown mode text is an error, and that scrubbing is fail-closed.
\<close>

section \<open>Status and probes (domain.go, status.go)\<close>

datatype Status = StatusUnknown | StatusUp | StatusDegraded | StatusDown

definition Status_String :: "Status \<Rightarrow> string" where
  "Status_String s =
     (case s of
        StatusUp \<Rightarrow> ''UP''
      | StatusDegraded \<Rightarrow> ''DEGRADED''
      | StatusDown \<Rightarrow> ''DOWN''
      | StatusUnknown \<Rightarrow> ''UNKNOWN'')"

record ProbeResult =
  PR_Status :: Status
  PR_Latency :: duration
  PR_Err :: "string option"

record Alert =
  Alert_Subject :: string
  Alert_Status :: Status
  Alert_Message :: string

record ServiceView =
  SV_Name :: string
  SV_Status :: Status
  SV_Latency :: duration
  SV_LastChecked :: gotime

record ProbeSample =
  PS_Service :: string
  PS_Status :: Status
  PS_Latency :: duration
  PS_At :: gotime

record CommittedStatus =
  CS_Service :: string
  CS_Status :: Status
  CS_ChangedAt :: gotime

definition DeriveStatus :: "ProbeResult \<Rightarrow> duration \<Rightarrow> Status" where
  "DeriveStatus r threshold =
     (if PR_Status r = StatusUp \<and> PR_Latency r > threshold then StatusDegraded
      else PR_Status r)"

section \<open>Harness vocabulary (harness.go)\<close>

datatype HarnessMode = HarnessOff | HarnessShadow | HarnessLive

definition HarnessMode_String :: "HarnessMode \<Rightarrow> string" where
  "HarnessMode_String m =
     (case m of HarnessShadow \<Rightarrow> ''shadow'' | HarnessLive \<Rightarrow> ''live'' | HarnessOff \<Rightarrow> ''off'')"

definition ParseHarnessMode :: "string \<Rightarrow> string + HarnessMode" where
  "ParseHarnessMode s =
     (let t = strings_ToLower (strings_TrimSpace s) in
      if t = '''' \<or> t = ''off'' \<or> t = ''disabled'' then Inr HarnessOff
      else if t = ''shadow'' then Inr HarnessShadow
      else if t = ''live'' then Inr HarnessLive
      else Inl (''unknown harness mode '' @ s))"

definition ActionRestartContainer :: string where
  "ActionRestartContainer = ''restart_container''"

definition ActionNone :: string where
  "ActionNone = ''none''"

record ToolCall =
  TC_Tool :: string
  TC_Args :: "(string \<times> string) list"
  TC_Output :: string
  TC_Err :: string
  TC_At :: gotime
  TC_Duration :: duration

record Usage =
  U_Backend :: string
  U_Model :: string
  U_PromptTokens :: int
  U_CompletionTokens :: int
  U_Latency :: duration

definition zero_Usage :: Usage where
  "zero_Usage = \<lparr>U_Backend = '''', U_Model = '''', U_PromptTokens = 0, U_CompletionTokens = 0, U_Latency = 0\<rparr>"

record ProposedAction =
  PA_Kind :: string
  PA_Subject :: string
  PA_Rationale :: string

record Diagnosis =
  D_Summary :: string
  D_Proposed :: ProposedAction
  D_Usage :: Usage
  D_Fallback :: bool

definition zero_Diagnosis :: Diagnosis where
  "zero_Diagnosis =
     \<lparr>D_Summary = '''', D_Proposed = \<lparr>PA_Kind = '''', PA_Subject = '''', PA_Rationale = ''''\<rparr>,
      D_Usage = zero_Usage, D_Fallback = False\<rparr>"

datatype ApprovalDecision =
  ApprovalPending | ApprovalApproved | ApprovalDenied | ApprovalExpired | ApprovalNotRequested

definition ApprovalDecision_String :: "ApprovalDecision \<Rightarrow> string" where
  "ApprovalDecision_String d =
     (case d of
        ApprovalApproved \<Rightarrow> ''approved''
      | ApprovalDenied \<Rightarrow> ''denied''
      | ApprovalExpired \<Rightarrow> ''expired''
      | ApprovalNotRequested \<Rightarrow> ''not_requested''
      | ApprovalPending \<Rightarrow> ''pending'')"

definition OutcomeNone :: string where
  "OutcomeNone = ''none''"

definition OutcomePending :: string where
  "OutcomePending = ''pending''"

definition OutcomeRecovered :: string where
  "OutcomeRecovered = ''recovered''"

definition OutcomeActionFailed :: string where
  "OutcomeActionFailed = ''action_failed''"

definition OutcomeDispatchErr :: string where
  "OutcomeDispatchErr = ''dispatch_error''"

lemmas outcome_defs = OutcomeNone_def OutcomePending_def OutcomeRecovered_def
  OutcomeActionFailed_def OutcomeDispatchErr_def

record HarnessCycle =
  HC_ID :: string
  HC_Subject :: string
  HC_TriggerStatus :: Status
  HC_Mode :: HarnessMode
  HC_StartedAt :: gotime
  HC_ToolCalls :: "ToolCall list"
  HC_Diagnosis :: Diagnosis
  HC_Approval :: ApprovalDecision
  HC_ApprovedBy :: string
  HC_ApprovedAt :: gotime
  HC_ResolvedTarget :: string
  HC_DispatchResult :: string
  HC_DispatchedAt :: gotime
  HC_Outcome :: string
  HC_OutcomeAt :: gotime
  HC_Error :: string

record ReasonerReply =
  RR_Action :: string
  RR_Subject :: string
  RR_Rationale :: string
  RR_Summary :: string
  RR_Usage :: Usage

section \<open>Scrubbing (harness.go)\<close>

definition ErrScrubFailed :: string where
  "ErrScrubFailed = ''scrub failed: refusing to send unscrubbed evidence''"

text \<open>The first loop of \<open>Scrub\<close>: literal replacement, refusing a one-byte secret.\<close>

fun scrub_replace :: "string \<Rightarrow> string list \<Rightarrow> string + string" where
  "scrub_replace out [] = Inr out"
| "scrub_replace out (sec # secs) =
     (if length sec < 2 then
        (if sec \<noteq> '''' then Inl ErrScrubFailed else scrub_replace out secs)
      else scrub_replace (strings_ReplaceAll out sec ''***'') secs)"

text \<open>The second loop: a secret that is still present makes the whole call fail.\<close>

fun scrub_verify :: "string \<Rightarrow> string list \<Rightarrow> string + string" where
  "scrub_verify out [] = Inr out"
| "scrub_verify out (sec # secs) =
     (if length sec \<ge> 2 \<and> strings_Contains out sec then Inl ErrScrubFailed
      else scrub_verify out secs)"

definition Scrub :: "string \<Rightarrow> string list \<Rightarrow> string + string" where
  "Scrub s secrets =
     (case scrub_replace s secrets of
        Inl e \<Rightarrow> Inl e
      | Inr out \<Rightarrow> scrub_verify out secrets)"

section \<open>Lemmas\<close>

lemma scrub_verify_Inr:
  "scrub_verify out secs = Inr out' \<longleftrightarrow>
     out' = out \<and> (\<forall>sec \<in> set secs. length sec \<ge> 2 \<longrightarrow> \<not> strings_Contains out sec)"
  by (induction secs) auto

lemma scrub_replace_Inr_lengths:
  "scrub_replace out secs = Inr out' \<Longrightarrow> \<forall>sec \<in> set secs. sec = '''' \<or> length sec \<ge> 2"
  by (induction secs arbitrary: out) (auto split: if_splits)

lemma scrub_replace_clean:
  "\<forall>sec \<in> set secs. sec = '''' \<or> length sec \<ge> 2 \<and> \<not> strings_Contains out sec \<Longrightarrow>
   scrub_replace out secs = Inr out"
  by (induction secs) (auto simp: ReplaceAll_no_occurrence)

lemma Scrub_clean:
  assumes "Scrub s secrets = Inr out" and "sec \<in> set secrets" and "sec \<noteq> ''''"
  shows "\<not> strings_Contains out sec"
proof -
  obtain mid where "scrub_replace s secrets = Inr mid" and v: "scrub_verify mid secrets = Inr out"
    using assms(1) by (auto simp: Scrub_def split: sum.splits)
  then have "length sec \<ge> 2"
    using scrub_replace_Inr_lengths assms(2,3) by blast
  with v assms(2) show ?thesis
    by (auto simp: scrub_verify_Inr)
qed

text \<open>C1: scrubbing is fail-closed. Whenever \<open>Scrub\<close> returns a text, no non-empty registered
  secret occurs in it (ADR 0013: scrub or do not send).\<close>

theorem Scrub_fail_closed:
  assumes "Scrub s secrets = Inr out" and "sec \<in> set secrets" and "sec \<noteq> ''''"
  shows "\<not> strings_Contains out sec"
  by (rule Scrub_clean [OF assms])

theorem Scrub_fail_closed_witness:
  "Scrub ''key=abc.'' [''abc''] = Inr ''key=***.'' \<and> \<not> strings_Contains ''key=***.'' ''abc''"
proof -
  have h: "Scrub ''key=abc.'' [''abc''] = Inr ''key=***.''"
    by (simp add: Scrub_def strings_ReplaceAll.simps strings_HasPrefix_def)
  show ?thesis
    using h Scrub_fail_closed [OF h, of "''abc''"] by simp
qed

text \<open>A text that holds none of the (sufficiently long) secrets passes unchanged.\<close>

lemma Scrub_identity:
  assumes "\<forall>sec \<in> set secrets. sec = '''' \<or> length sec \<ge> 2 \<and> \<not> strings_Contains s sec"
  shows "Scrub s secrets = Inr s"
  using scrub_replace_clean [OF assms] assms
  by (auto simp: Scrub_def scrub_verify_Inr)

lemma DeriveStatus_Down_iff: "DeriveStatus r th = StatusDown \<longleftrightarrow> PR_Status r = StatusDown"
  by (simp add: DeriveStatus_def)

lemma DeriveStatus_Unknown_iff: "DeriveStatus r th = StatusUnknown \<longleftrightarrow> PR_Status r = StatusUnknown"
  by (simp add: DeriveStatus_def)

lemma ParseHarnessMode_String: "ParseHarnessMode (HarnessMode_String m) = Inr m"
  by (cases m)
    (simp_all add: ParseHarnessMode_def HarnessMode_String_def ToLower_ascii
      TrimSpace_ascii is_ascii_def ascii_space_def ascii_lower_def)

end
