(* ===== verification/Store.thy ===== *)
theory Store
  imports Core_Domain Golib "HOL-Library.Product_Lexorder"
begin

text \<open>
  The SQLite store of \<open>internal/store\<close> (\<open>sqlite.go\<close>, \<open>metric_samples.go\<close>, with the
  statements of \<open>queries/*.sql\<close>). A table is the list of its rows in insertion order, so the
  position of a row stands for its \<open>id\<close>. A column holds what the driver stores: status codes
  and Unix milliseconds. The driver itself is a parameter: every operation takes
  \<open>io\<close>, the error the driver returns for this call (\<open>None\<close> when it succeeds); a failing
  statement leaves the tables as they are. JSON columns hold the value they encode.
\<close>

section \<open>Conversions\<close>

definition status_code :: "Status \<Rightarrow> int" where
  "status_code s = (case s of StatusUnknown \<Rightarrow> 0 | StatusUp \<Rightarrow> 1 | StatusDegraded \<Rightarrow> 2 | StatusDown \<Rightarrow> 3)"

definition status_of_code :: "int \<Rightarrow> Status" where
  "status_of_code n =
     (if n = 1 then StatusUp else if n = 2 then StatusDegraded else if n = 3 then StatusDown
      else StatusUnknown)"

definition millisFromTime :: "gotime \<Rightarrow> int" where
  "millisFromTime t = (if IsZero t then 0 else UnixMilli t)"

definition timeFromMillis :: "int \<Rightarrow> gotime" where
  "timeFromMillis ms = (if ms = 0 then zero_time else time_UnixMilli ms)"

section \<open>Rows and tables\<close>

record probe_row =
  pr_service :: string
  pr_status :: int
  pr_latency_ns :: int
  pr_observed_at :: int

record committed_row =
  cr_service :: string
  cr_status :: int
  cr_changed_at :: int

record cycle_row =
  hr_id :: string
  hr_subject :: string
  hr_trigger_status :: int
  hr_mode :: HarnessMode
  hr_started_at :: int
  hr_tool_calls :: "ToolCall list"
  hr_diagnosis :: Diagnosis
  hr_approval :: ApprovalDecision
  hr_approved_by :: string
  hr_approved_at :: int
  hr_resolved_target :: string
  hr_dispatch_result :: string
  hr_dispatched_at :: int
  hr_outcome :: string
  hr_outcome_at :: int
  hr_error :: string

record MetricSample =
  MS_Series :: string
  MS_Subject :: string
  MS_Value :: "int option"
  MS_TextValue :: "string option"
  MS_OK :: bool
  MS_Note :: string
  MS_SampledAt :: gotime

record metric_row =
  mr_series :: string
  mr_subject :: string
  mr_value :: "int option"
  mr_text_value :: "string option"
  mr_ok :: int
  mr_note :: string
  mr_sampled_at :: int

record DB =
  db_probe_samples :: "probe_row list"
  db_committed_status :: "committed_row list"
  db_harness_cycles :: "cycle_row list"
  db_metric_samples :: "metric_row list"

definition empty_DB :: DB where
  "empty_DB = \<lparr>db_probe_samples = [], db_committed_status = [], db_harness_cycles = [], db_metric_samples = []\<rparr>"

type_synonym io = "string option"

text \<open>SQLite's \<open>LIMIT\<close>: a negative bound means no bound.\<close>

definition sql_limit :: "int \<Rightarrow> 'a list \<Rightarrow> 'a list" where
  "sql_limit n xs = (if n < 0 then xs else take (nat n) xs)"

section \<open>Probe samples\<close>

definition RecordProbe :: "io \<Rightarrow> ProbeSample \<Rightarrow> DB \<Rightarrow> string option \<times> DB" where
  "RecordProbe io p db =
     (case io of
        Some e \<Rightarrow> (Some (''record probe for '' @ PS_Service p @ '': '' @ e), db)
      | None \<Rightarrow>
          (None, db\<lparr>db_probe_samples := db_probe_samples db @
            [\<lparr>pr_service = PS_Service p, pr_status = status_code (PS_Status p),
              pr_latency_ns = PS_Latency p, pr_observed_at = UnixMilli (PS_At p)\<rparr>]\<rparr>))"

definition probe_of_row :: "probe_row \<Rightarrow> ProbeSample" where
  "probe_of_row r =
     \<lparr>PS_Service = pr_service r, PS_Status = status_of_code (pr_status r),
      PS_Latency = pr_latency_ns r, PS_At = time_UnixMilli (pr_observed_at r)\<rparr>"

text \<open>\<open>ORDER BY observed_at DESC, id DESC LIMIT ?\<close>: the stable ascending sort, reversed.\<close>

definition ListProbeSamples :: "string \<Rightarrow> int \<Rightarrow> DB \<Rightarrow> probe_row list" where
  "ListProbeSamples service limit db =
     sql_limit limit
       (rev (sort_key pr_observed_at (filter (\<lambda>r. pr_service r = service) (db_probe_samples db))))"

definition LoadProbeSamples :: "io \<Rightarrow> string \<Rightarrow> int \<Rightarrow> DB \<Rightarrow> string + ProbeSample list" where
  "LoadProbeSamples io service limit db =
     (case io of
        Some e \<Rightarrow> Inl (''load probe samples for '' @ service @ '': '' @ e)
      | None \<Rightarrow> Inr (map probe_of_row (rev (ListProbeSamples service limit db))))"

definition PruneProbeSamples :: "io \<Rightarrow> string \<Rightarrow> gotime \<Rightarrow> DB \<Rightarrow> string option \<times> DB" where
  "PruneProbeSamples io service before db =
     (case io of
        Some e \<Rightarrow> (Some (''prune probe samples for '' @ service @ '': '' @ e), db)
      | None \<Rightarrow>
          (None, db\<lparr>db_probe_samples :=
             filter (\<lambda>r. \<not> (pr_service r = service \<and> pr_observed_at r < UnixMilli before))
               (db_probe_samples db)\<rparr>))"

section \<open>Committed statuses\<close>

definition committed_to_row :: "CommittedStatus \<Rightarrow> committed_row" where
  "committed_to_row cs =
     \<lparr>cr_service = CS_Service cs, cr_status = status_code (CS_Status cs),
      cr_changed_at = UnixMilli (CS_ChangedAt cs)\<rparr>"

definition committed_of_row :: "committed_row \<Rightarrow> CommittedStatus" where
  "committed_of_row r =
     \<lparr>CS_Service = cr_service r, CS_Status = status_of_code (cr_status r),
      CS_ChangedAt = time_UnixMilli (cr_changed_at r)\<rparr>"

definition SaveCommittedStatus :: "io \<Rightarrow> CommittedStatus \<Rightarrow> DB \<Rightarrow> string option \<times> DB" where
  "SaveCommittedStatus io cs db =
     (case io of
        Some e \<Rightarrow> (Some (''save committed status for '' @ CS_Service cs @ '': '' @ e), db)
      | None \<Rightarrow>
          (None, db\<lparr>db_committed_status :=
             upsert_row cr_service (committed_to_row cs) (db_committed_status db)\<rparr>))"

definition LoadCommittedStatuses :: "io \<Rightarrow> DB \<Rightarrow> string + CommittedStatus list" where
  "LoadCommittedStatuses io db =
     (case io of
        Some e \<Rightarrow> Inl (''load committed statuses: '' @ e)
      | None \<Rightarrow> Inr (map committed_of_row (sort_key cr_service (db_committed_status db))))"

section \<open>Harness cycles\<close>

definition cycle_to_row :: "HarnessCycle \<Rightarrow> cycle_row" where
  "cycle_to_row c =
     \<lparr>hr_id = HC_ID c, hr_subject = HC_Subject c,
      hr_trigger_status = status_code (HC_TriggerStatus c), hr_mode = HC_Mode c,
      hr_started_at = millisFromTime (HC_StartedAt c), hr_tool_calls = HC_ToolCalls c,
      hr_diagnosis = HC_Diagnosis c, hr_approval = HC_Approval c,
      hr_approved_by = HC_ApprovedBy c, hr_approved_at = millisFromTime (HC_ApprovedAt c),
      hr_resolved_target = HC_ResolvedTarget c, hr_dispatch_result = HC_DispatchResult c,
      hr_dispatched_at = millisFromTime (HC_DispatchedAt c), hr_outcome = HC_Outcome c,
      hr_outcome_at = millisFromTime (HC_OutcomeAt c), hr_error = HC_Error c\<rparr>"

text \<open>The tool calls and the diagnosis are stored as JSON. The row holds them as they were encoded; reading decodes them, with the text that
  JSON can carry. The argument names are those of the tools.\<close>

definition json_call :: "ToolCall \<Rightarrow> ToolCall" where
  "json_call t = t\<lparr>TC_Tool := json_text (TC_Tool t), TC_Args := map (map_prod json_text json_text) (TC_Args t),
     TC_Output := json_text (TC_Output t), TC_Err := json_text (TC_Err t)\<rparr>"

definition json_diagnosis :: "Diagnosis \<Rightarrow> Diagnosis" where
  "json_diagnosis d =
     d\<lparr>D_Summary := json_text (D_Summary d),
       D_Proposed := \<lparr>PA_Kind = json_text (PA_Kind (D_Proposed d)), PA_Subject = json_text (PA_Subject (D_Proposed d)),
                      PA_Rationale = json_text (PA_Rationale (D_Proposed d))\<rparr>,
       D_Usage := (D_Usage d)\<lparr>U_Backend := json_text (U_Backend (D_Usage d)), U_Model := json_text (U_Model (D_Usage d))\<rparr>\<rparr>"

definition cycle_of_row :: "cycle_row \<Rightarrow> HarnessCycle" where
  "cycle_of_row r =
     \<lparr>HC_ID = hr_id r, HC_Subject = hr_subject r,
      HC_TriggerStatus = status_of_code (hr_trigger_status r), HC_Mode = hr_mode r,
      HC_StartedAt = timeFromMillis (hr_started_at r), HC_ToolCalls = map json_call (hr_tool_calls r),
      HC_Diagnosis = json_diagnosis (hr_diagnosis r), HC_Approval = hr_approval r,
      HC_ApprovedBy = hr_approved_by r, HC_ApprovedAt = timeFromMillis (hr_approved_at r),
      HC_ResolvedTarget = hr_resolved_target r, HC_DispatchResult = hr_dispatch_result r,
      HC_DispatchedAt = timeFromMillis (hr_dispatched_at r), HC_Outcome = hr_outcome r,
      HC_OutcomeAt = timeFromMillis (hr_outcome_at r), HC_Error = hr_error r\<rparr>"

definition SaveHarnessCycle :: "io \<Rightarrow> HarnessCycle \<Rightarrow> DB \<Rightarrow> string option \<times> DB" where
  "SaveHarnessCycle io c db =
     (case io of
        Some e \<Rightarrow> (Some (''save harness cycle '' @ HC_ID c @ '': '' @ e), db)
      | None \<Rightarrow>
          (None, db\<lparr>db_harness_cycles := upsert_row hr_id (cycle_to_row c) (db_harness_cycles db)\<rparr>))"

definition ListHarnessCycles :: "io \<Rightarrow> int \<Rightarrow> DB \<Rightarrow> string + HarnessCycle list" where
  "ListHarnessCycles io limit db =
     (case io of
        Some e \<Rightarrow> Inl (''list harness cycles: '' @ e)
      | None \<Rightarrow>
          Inr (map cycle_of_row
            (sql_limit limit (sort_key (\<lambda>r. - hr_started_at r) (db_harness_cycles db)))))"

definition GetHarnessCycle :: "io \<Rightarrow> string \<Rightarrow> DB \<Rightarrow> string + HarnessCycle" where
  "GetHarnessCycle io cid db =
     (case io of
        Some e \<Rightarrow> Inl (''get harness cycle '' @ cid @ '': '' @ e)
      | None \<Rightarrow>
          (case find_row hr_id cid (db_harness_cycles db) of
             None \<Rightarrow> Inl (''harness cycle '' @ cid @ '': not found'')
           | Some r \<Rightarrow> Inr (cycle_of_row r)))"

section \<open>Metric samples\<close>

definition metric_to_row :: "MetricSample \<Rightarrow> metric_row" where
  "metric_to_row m =
     \<lparr>mr_series = MS_Series m, mr_subject = MS_Subject m, mr_value = MS_Value m,
      mr_text_value = MS_TextValue m, mr_ok = (if MS_OK m then 1 else 0), mr_note = MS_Note m,
      mr_sampled_at = UnixMilli (MS_SampledAt m)\<rparr>"

definition metric_of_row :: "metric_row \<Rightarrow> MetricSample" where
  "metric_of_row r =
     \<lparr>MS_Series = mr_series r, MS_Subject = mr_subject r, MS_Value = mr_value r,
      MS_TextValue = mr_text_value r, MS_OK = (mr_ok r \<noteq> 0), MS_Note = mr_note r,
      MS_SampledAt = time_UnixMilli (mr_sampled_at r)\<rparr>"

definition RecordMetricSample :: "io \<Rightarrow> MetricSample \<Rightarrow> DB \<Rightarrow> string option \<times> DB" where
  "RecordMetricSample io m db =
     (case io of
        Some e \<Rightarrow> (Some (''record metric sample '' @ MS_Series m @ ''/'' @ MS_Subject m @ '': '' @ e), db)
      | None \<Rightarrow> (None, db\<lparr>db_metric_samples := db_metric_samples db @ [metric_to_row m]\<rparr>))"

definition LoadMetricSamples ::
  "io \<Rightarrow> string \<Rightarrow> string \<Rightarrow> gotime \<Rightarrow> gotime \<Rightarrow> DB \<Rightarrow> string + MetricSample list" where
  "LoadMetricSamples io series subject t_from t_to db =
     (case io of
        Some e \<Rightarrow> Inl (''load metric samples '' @ series @ ''/'' @ subject @ '': '' @ e)
      | None \<Rightarrow>
          Inr (map metric_of_row
            (sort_key mr_sampled_at
              (filter (\<lambda>r. mr_series r = series \<and> mr_subject r = subject \<and>
                 mr_sampled_at r \<ge> UnixMilli t_from \<and> mr_sampled_at r \<le> UnixMilli t_to)
                (db_metric_samples db)))))"

datatype metric_err = MetricNoRows | MetricIO string

definition LatestMetricSample :: "io \<Rightarrow> string \<Rightarrow> string \<Rightarrow> DB \<Rightarrow> metric_err + MetricSample" where
  "LatestMetricSample io series subject db =
     (case io of
        Some e \<Rightarrow> Inl (MetricIO (''latest metric sample '' @ series @ ''/'' @ subject @ '': '' @ e))
      | None \<Rightarrow>
          (case rev (sort_key mr_sampled_at
                  (filter (\<lambda>r. mr_series r = series \<and> mr_subject r = subject) (db_metric_samples db))) of
             [] \<Rightarrow> Inl MetricNoRows
           | r # _ \<Rightarrow> Inr (metric_of_row r)))"

definition ListMetricSeries :: "io \<Rightarrow> DB \<Rightarrow> string + (string \<times> string) list" where
  "ListMetricSeries io db =
     (case io of
        Some e \<Rightarrow> Inl (''list metric series: '' @ e)
      | None \<Rightarrow> Inr (sort (remdups (map (\<lambda>r. (mr_series r, mr_subject r)) (db_metric_samples db)))))"

definition PruneMetricSamples :: "io \<Rightarrow> gotime \<Rightarrow> DB \<Rightarrow> string option \<times> DB" where
  "PruneMetricSamples io before db =
     (case io of
        Some e \<Rightarrow> (Some (''prune metric samples: '' @ e), db)
      | None \<Rightarrow>
          (None, db\<lparr>db_metric_samples :=
             filter (\<lambda>r. \<not> mr_sampled_at r < UnixMilli before) (db_metric_samples db)\<rparr>))"

lemmas store_write_defs = RecordProbe_def PruneProbeSamples_def SaveCommittedStatus_def
  SaveHarnessCycle_def RecordMetricSample_def PruneMetricSamples_def

section \<open>Lemmas\<close>

lemma status_roundtrip [simp]: "status_of_code (status_code s) = s"
  by (cases s) (simp_all add: status_code_def status_of_code_def)

text \<open>A stored time loses its sub-millisecond part; an instant within the first millisecond
  of the epoch is not distinguishable from "not yet set".\<close>

definition trunc_ms :: "gotime \<Rightarrow> gotime" where
  "trunc_ms t = (if IsZero t \<or> UnixMilli t = 0 then zero_time else time_UnixMilli (UnixMilli t))"

lemma timeFromMillis_millisFromTime: "timeFromMillis (millisFromTime t) = trunc_ms t"
  by (simp add: timeFromMillis_def millisFromTime_def trunc_ms_def)

definition trunc_cycle :: "HarnessCycle \<Rightarrow> HarnessCycle" where
  "trunc_cycle c = c\<lparr>HC_StartedAt := trunc_ms (HC_StartedAt c), HC_ApprovedAt := trunc_ms (HC_ApprovedAt c),
     HC_DispatchedAt := trunc_ms (HC_DispatchedAt c), HC_OutcomeAt := trunc_ms (HC_OutcomeAt c),
     HC_ToolCalls := map json_call (HC_ToolCalls c), HC_Diagnosis := json_diagnosis (HC_Diagnosis c)\<rparr>"

lemma json_call_idem: "json_call (json_call t) = json_call t"
  by (simp add: json_call_def json_text_idem case_prod_unfold map_prod_def)

lemma json_diagnosis_idem: "json_diagnosis (json_diagnosis d) = json_diagnosis d"
  by (simp add: json_diagnosis_def json_text_idem)

lemma cycle_row_roundtrip: "cycle_of_row (cycle_to_row c) = trunc_cycle c"
  by (simp add: cycle_of_row_def cycle_to_row_def trunc_cycle_def timeFromMillis_millisFromTime)

lemma trunc_ms_idem: "trunc_ms (trunc_ms t) = trunc_ms t"
  by (simp add: trunc_ms_def IsZero_def zero_time_def UnixMilli_time_UnixMilli)

lemma trunc_cycle_idem: "trunc_cycle (trunc_cycle c) = trunc_cycle c"
  by (simp add: trunc_cycle_def trunc_ms_idem json_call_idem json_diagnosis_idem)

lemma trunc_cycle_fields [simp]:
  "HC_ID (trunc_cycle c) = HC_ID c" "HC_Subject (trunc_cycle c) = HC_Subject c"
  "HC_Approval (trunc_cycle c) = HC_Approval c" "HC_Outcome (trunc_cycle c) = HC_Outcome c"
  "HC_Error (trunc_cycle c) = HC_Error c" "HC_ApprovedBy (trunc_cycle c) = HC_ApprovedBy c"
  "HC_ResolvedTarget (trunc_cycle c) = HC_ResolvedTarget c"
  "HC_Mode (trunc_cycle c) = HC_Mode c"
  by (simp_all add: trunc_cycle_def)

lemma cycle_to_row_id [simp]: "hr_id (cycle_to_row c) = HC_ID c"
  by (simp add: cycle_to_row_def)

lemma committed_to_row_key [simp]: "cr_service (committed_to_row cs) = CS_Service cs"
  by (simp add: committed_to_row_def)

section \<open>The keyed tables meet the shared contract\<close>

interpretation cycle_tab: keyed_rows hr_id "upsert_row hr_id" "find_row hr_id" "\<lambda>t. distinct (map hr_id t)"
  by unfold_locales (auto simp: find_row_upsert upsert_row_distinct dest: find_row_Some_key)

interpretation status_tab: keyed_rows cr_service "upsert_row cr_service" "find_row cr_service"
    "\<lambda>t. distinct (map cr_service t)"
  by unfold_locales (auto simp: find_row_upsert upsert_row_distinct dest: find_row_Some_key)

text \<open>The keys of both tables stay unique under every store operation.\<close>

definition wf_DB :: "DB \<Rightarrow> bool" where
  "wf_DB db \<longleftrightarrow> distinct (map hr_id (db_harness_cycles db)) \<and> distinct (map cr_service (db_committed_status db))"

lemma wf_DB_empty: "wf_DB empty_DB"
  by (simp add: wf_DB_def empty_DB_def)

lemma wf_DB_RecordProbe: "wf_DB db \<Longrightarrow> wf_DB (snd (RecordProbe io p db))"
  by (simp add: RecordProbe_def wf_DB_def split: option.split)

lemma wf_DB_PruneProbe: "wf_DB db \<Longrightarrow> wf_DB (snd (PruneProbeSamples io s b db))"
  by (simp add: PruneProbeSamples_def wf_DB_def split: option.split)

lemma wf_DB_SaveCommitted: "wf_DB db \<Longrightarrow> wf_DB (snd (SaveCommittedStatus io cs db))"
  by (simp add: SaveCommittedStatus_def wf_DB_def status_tab.wf_put split: option.split)

lemma wf_DB_SaveCycle: "wf_DB db \<Longrightarrow> wf_DB (snd (SaveHarnessCycle io c db))"
  by (simp add: SaveHarnessCycle_def wf_DB_def cycle_tab.wf_put split: option.split)

lemma wf_DB_RecordMetric: "wf_DB db \<Longrightarrow> wf_DB (snd (RecordMetricSample io m db))"
  by (simp add: RecordMetricSample_def wf_DB_def split: option.split)

lemma wf_DB_PruneMetric: "wf_DB db \<Longrightarrow> wf_DB (snd (PruneMetricSamples io b db))"
  by (simp add: PruneMetricSamples_def wf_DB_def split: option.split)

section \<open>Properties\<close>

text \<open>C4: the audit record round-trips. A saved harness cycle is read back under its id with
  every field intact, times cut to the millisecond and bytes of a tool call or of the diagnosis that are not UTF-8 replaced by U+FFFD,
  whatever other cycles are saved after it under different ids.\<close>

theorem HarnessCycle_roundtrip:
  assumes "wf_DB db" and "HC_ID c \<notin> HC_ID ` set later"
  shows "GetHarnessCycle None (HC_ID c)
      (fold (\<lambda>x d. snd (SaveHarnessCycle None x d)) later (snd (SaveHarnessCycle None c db))) =
    Inr (trunc_cycle c)"
proof -
  let ?save = "\<lambda>x d. snd (SaveHarnessCycle None x d)"
  let ?put = "\<lambda>xs t. fold (upsert_row hr_id) (map cycle_to_row xs) t"
  have rows: "db_harness_cycles (fold ?save xs d) = ?put xs (db_harness_cycles d)" for xs d
    by (induction xs arbitrary: d) (simp_all add: SaveHarnessCycle_def)
  have "find (\<lambda>r. hr_id r = HC_ID c) (rev (map cycle_to_row later)) = None"
    using assms(2) by (auto simp: find_None_iff image_iff)
  moreover have "distinct (map hr_id (db_harness_cycles (?save c db)))"
    using wf_DB_SaveCycle [OF assms(1)] by (simp add: wf_DB_def)
  ultimately have "find_row hr_id (HC_ID c) (db_harness_cycles (fold ?save later (?save c db))) =
      find_row hr_id (HC_ID c) (db_harness_cycles (?save c db))"
    by (simp add: rows cycle_tab.get_puts)
  then show ?thesis
    by (simp add: GetHarnessCycle_def SaveHarnessCycle_def find_row_upsert cycle_row_roundtrip)
qed

definition sample_cycle :: "string \<Rightarrow> HarnessCycle" where
  "sample_cycle i =
     \<lparr>HC_ID = i, HC_Subject = ''plex'', HC_TriggerStatus = StatusDown, HC_Mode = HarnessLive,
      HC_StartedAt = 1500000, HC_ToolCalls = [], HC_Diagnosis = zero_Diagnosis,
      HC_Approval = ApprovalPending, HC_ApprovedBy = '''', HC_ApprovedAt = zero_time,
      HC_ResolvedTarget = '''', HC_DispatchResult = '''', HC_DispatchedAt = zero_time,
      HC_Outcome = '''', HC_OutcomeAt = zero_time, HC_Error = ''''\<rparr>"

theorem HarnessCycle_roundtrip_witness:
  "GetHarnessCycle None ''a''
     (snd (SaveHarnessCycle None (sample_cycle ''b'') (snd (SaveHarnessCycle None (sample_cycle ''a'') empty_DB)))) =
   Inr (trunc_cycle (sample_cycle ''a''))"
  using HarnessCycle_roundtrip [OF wf_DB_empty, of "sample_cycle ''a''" "[sample_cycle ''b'']"]
  by (simp add: sample_cycle_def)

text \<open>History reads are a newest-first window. With no driver error, \<open>LoadProbeSamples\<close>
  with a non-negative limit returns the last \<open>limit\<close> entries of the subject's complete
  history (the unlimited read), which lists only that subject, oldest first.\<close>

theorem LoadProbeSamples_window:
  assumes "0 \<le> limit"
  shows "\<exists>older xs. LoadProbeSamples None svc limit db = Inr xs \<and>
    LoadProbeSamples None svc (- 1) db = Inr (older @ xs) \<and>
    length xs = min (nat limit) (length (older @ xs)) \<and>
    sorted (map PS_At (older @ xs)) \<and> (\<forall>p \<in> set (older @ xs). PS_Service p = svc)"
proof -
  define S where "S = sort_key pr_observed_at (filter (\<lambda>r. pr_service r = svc) (db_probe_samples db))"
  have win: "rev (take (nat limit) (rev S)) = drop (length S - nat limit) S"
    by (simp add: rev_take)
  have "sorted (map pr_observed_at S)" by (simp add: S_def)
  then have srt: "sorted (map PS_At (map probe_of_row S))"
    by (auto simp: probe_of_row_def time_UnixMilli_def sorted_iff_nth_mono)
  have svc: "\<forall>p \<in> set (map probe_of_row S). PS_Service p = svc"
    by (auto simp: S_def probe_of_row_def)
  let ?older = "map probe_of_row (take (length S - nat limit) S)"
  let ?xs = "map probe_of_row (drop (length S - nat limit) S)"
  have split: "?older @ ?xs = map probe_of_row S"
    by (metis append_take_drop_id map_append)
  show ?thesis
    by (rule exI [of _ ?older], rule exI [of _ ?xs])
      (use assms win srt svc in \<open>auto simp add: LoadProbeSamples_def ListProbeSamples_def sql_limit_def
        split S_def [symmetric] simp del: map_append\<close>)
qed

definition sample_history :: DB where
  "sample_history =
     fold (\<lambda>p d. snd (RecordProbe None p d))
       [\<lparr>PS_Service = ''plex'', PS_Status = StatusUp, PS_Latency = 5, PS_At = 9000000\<rparr>,
        \<lparr>PS_Service = ''nas'', PS_Status = StatusDown, PS_Latency = 0, PS_At = 3000000\<rparr>,
        \<lparr>PS_Service = ''plex'', PS_Status = StatusDown, PS_Latency = 7, PS_At = 4000000\<rparr>] empty_DB"

theorem LoadProbeSamples_window_witness:
  "\<exists>older xs. LoadProbeSamples None ''plex'' 1 sample_history = Inr xs \<and>
    LoadProbeSamples None ''plex'' (- 1) sample_history = Inr (older @ xs) \<and>
    length xs = min (nat 1) (length (older @ xs)) \<and>
    sorted (map PS_At (older @ xs)) \<and> (\<forall>p \<in> set (older @ xs). PS_Service p = ''plex'')"
  by (rule LoadProbeSamples_window) simp

text \<open>Pruning drops exactly the subject's rows before the cut and nothing else.\<close>

lemma PruneProbeSamples_frame:
  "db_harness_cycles (snd (PruneProbeSamples io svc t db)) = db_harness_cycles db"
  "db_committed_status (snd (PruneProbeSamples io svc t db)) = db_committed_status db"
  "db_metric_samples (snd (PruneProbeSamples io svc t db)) = db_metric_samples db"
  by (simp_all add: PruneProbeSamples_def split: option.split)

lemma PruneProbeSamples_rows:
  "r \<in> set (db_probe_samples (snd (PruneProbeSamples None svc t db))) \<longleftrightarrow>
     r \<in> set (db_probe_samples db) \<and> (pr_service r = svc \<longrightarrow> UnixMilli t \<le> pr_observed_at r)"
  by (auto simp: PruneProbeSamples_def)

lemma find_committed_Save:
  "find_row cr_service k (db_committed_status (snd (SaveCommittedStatus None cs db))) =
     (if k = CS_Service cs then Some (committed_to_row cs) else find_row cr_service k (db_committed_status db))"
  by (simp add: SaveCommittedStatus_def find_row_upsert)

end
