(* ===== verification/Sandbox.thy ===== *)
theory Sandbox
  imports Prelude
begin

text \<open>
  The dry-run executor and its rejection predicate, \<open>internal/scripts/sandbox.go\<close>,
  \<open>predicate.go\<close> and \<open>check.go\<close>. What the host does is a parameter: whether namespaces are
  available, which file operations fail, how the process ended, and the contents of the transcript
  and of the strace log. The line formats are deterministic regular expressions (neighbouring
  classes are disjoint), so each is a parser that takes the longest run of every class.
\<close>

section \<open>Files and lines\<close>

datatype hostfile = FileMissing | FileError string | FileData string

definition maxTokenSize :: int where
  "maxTokenSize = 4 * 1024 * 1024"

fun split_lines :: "string \<Rightarrow> string \<Rightarrow> string list" where
  "split_lines acc [] = (if acc = [] then [] else [rev acc])"
| "split_lines acc (c # cs) = (if c = CHR 0x0A then rev acc # split_lines [] cs else split_lines (c # acc) cs)"

definition dropCR :: "string \<Rightarrow> string" where
  "dropCR s = (if s \<noteq> [] \<and> last s = CHR 0x0D then butlast s else s)"

text \<open>
  \<open>bufio.Scanner\<close> with \<open>ScanLines\<close> and a buffer of \<open>maxTokenSize\<close>: the lines it delivers
  and whether it stopped at one that does not fit the buffer.
\<close>

fun scan_tokens :: "string list \<Rightarrow> string list \<times> bool" where
  "scan_tokens [] = ([], False)"
| "scan_tokens (l # ls) =
     (if int (length l) < maxTokenSize then (let (rest, err) = scan_tokens ls in (dropCR l # rest, err))
      else ([], True))"

definition scan_file :: "string \<Rightarrow> string list \<times> bool" where
  "scan_file s = scan_tokens (split_lines [] s)"

section \<open>The two lists\<close>

definition mutatingBinaries :: "string list" where
  "mutatingBinaries =
     [''docker'', ''rm'', ''mv'', ''cp'', ''chmod'', ''chown'', ''mkfs'', ''dd'', ''rsync'', ''ln'', ''tee'', ''truncate'',
      ''mkdir'']"

definition safeReadonlyBinaries :: "string list" where
  "safeReadonlyBinaries =
     [''bash'', ''sh'', ''cat'', ''ls'', ''grep'', ''egrep'', ''fgrep'', ''find'', ''echo'', ''printf'',
      ''date'', ''sleep'', ''test'', ''['', ''awk'', ''sed'', ''curl'', ''head'', ''tail'', ''wc'', ''sort'',
      ''uniq'', ''basename'', ''dirname'', ''hostname'', ''id'', ''whoami'', ''true'', ''false'',
      ''stat'', ''du'', ''df'', ''ps'', ''pgrep'', ''jq'', ''mountpoint'', ''cut'', ''xargs'', ''tr'',
      ''flock'', ''logger'', ''timeout'', ''realpath'']"

fun containsBase :: "string list \<Rightarrow> string \<Rightarrow> bool" where
  "containsBase [] base = False"
| "containsBase (s # ss) base = (if s = base then True else containsBase ss base)"

section \<open>Transcript lines\<close>

definition re_space :: "char \<Rightarrow> bool" where
  "re_space c \<longleftrightarrow> c = CHR 0x09 \<or> c = CHR 0x0A \<or> c = CHR 0x0C \<or> c = CHR 0x0D \<or> c = CHR 0x20"

text \<open>One or more characters of a class, as many as there are.\<close>

definition run1 :: "(char \<Rightarrow> bool) \<Rightarrow> string \<Rightarrow> (string \<times> string) option" where
  "run1 P s = (let t = takeWhile P s in if t = [] then None else Some (t, dropWhile P s))"

definition lit :: "string \<Rightarrow> string \<Rightarrow> string option" where
  "lit w s = (if strings_HasPrefix s w then Some (drop (length w) s) else None)"

text \<open>\<open>^\[([^]]+)]\s+(\d+)\s+\<close>, the common head of both formats: time, process id, rest.\<close>

definition line_head :: "string \<Rightarrow> (string \<times> string \<times> string) option" where
  "line_head s =
     Option.bind (lit ''['' s) (\<lambda>s1.
     Option.bind (run1 (\<lambda>c. c \<noteq> CHR '']'') s1) (\<lambda>(ts, s2).
     Option.bind (lit '']'' s2) (\<lambda>s3.
     Option.bind (run1 re_space s3) (\<lambda>(_, s4).
     Option.bind (run1 is_digit s4) (\<lambda>(pid, s5).
     Option.bind (run1 re_space s5) (\<lambda>(_, s6). Some (ts, pid, s6)))))))"

text \<open>\<open>key=(\S+)\<close>\<close>

definition re_field :: "string \<Rightarrow> string \<Rightarrow> (string \<times> string) option" where
  "re_field key s = Option.bind (lit key s) (run1 (\<lambda>c. \<not> re_space c))"

definition violationLineRE :: "string \<Rightarrow> (string \<times> string \<times> string \<times> string \<times> string) option" where
  "violationLineRE s =
     Option.bind (line_head s) (\<lambda>(ts, pid, s1).
     Option.bind (lit ''VIOLATION'' s1) (\<lambda>s2.
     Option.bind (run1 re_space s2) (\<lambda>(_, s3).
     Option.bind (re_field ''cmd='' s3) (\<lambda>(cmd, s4).
     Option.bind (run1 re_space s4) (\<lambda>(_, s5).
     Option.bind (re_field ''target='' s5) (\<lambda>(target, s6).
     Option.bind (run1 re_space s6) (\<lambda>(_, s7).
     Option.bind (re_field ''reason='' s7) (\<lambda>(reason, s8).
       if s8 = [] then Some (ts, pid, cmd, target, reason) else None))))))))"

definition cmdLineRE :: "string \<Rightarrow> (string \<times> string \<times> string) option" where
  "cmdLineRE s =
     Option.bind (line_head s) (\<lambda>(ts, pid, s1).
     Option.bind (lit ''CMD'' s1) (\<lambda>s2.
     Option.bind (run1 re_space s2) (\<lambda>(_, rest). Some (ts, pid, rest))))"

record TranscriptEntry =
  TE_Time :: gotime
  TE_PID :: int
  TE_Kind :: string
  TE_Raw :: string

text \<open>\<open>strconv.Atoi\<close> on a run of digits: out of range it returns the largest \<open>int\<close>.\<close>

definition digits_val :: "string \<Rightarrow> int" where
  "digits_val s = foldl (\<lambda>n c. 10 * n + (int (of_char c) - 48)) 0 s"

definition atoi_digits :: "string \<Rightarrow> int" where
  "atoi_digits s = min (digits_val s) (2 ^ 63 - 1)"

text \<open>One line's contribution; \<open>parse_ts\<close> is \<open>time.Parse\<close> with the shim's layout, zero on error.\<close>

definition transcript_line ::
  "(string \<Rightarrow> gotime) \<Rightarrow> string \<Rightarrow> TranscriptEntry list \<times> string list" where
  "transcript_line parse_ts line =
     (case violationLineRE line of
        Some (ts, pid, cmd, target, reason) \<Rightarrow>
          ([\<lparr>TE_Time = parse_ts ts, TE_PID = atoi_digits pid, TE_Kind = ''VIOLATION'', TE_Raw = line\<rparr>],
           [''(c) cmd='' @ cmd @ '' target='' @ target @ '' reason='' @ reason])
      | None \<Rightarrow>
          (case cmdLineRE line of
             Some (ts, pid, rest) \<Rightarrow>
               ([\<lparr>TE_Time = parse_ts ts, TE_PID = atoi_digits pid, TE_Kind = ''CMD'', TE_Raw = rest\<rparr>], [])
           | None \<Rightarrow> ([], [])))"

definition parseTranscript ::
  "(string \<Rightarrow> gotime) \<Rightarrow> hostfile \<Rightarrow> TranscriptEntry list \<times> string list \<times> string option" where
  "parseTranscript parse_ts f =
     (case f of
        FileMissing \<Rightarrow> ([], [], None)
      | FileError e \<Rightarrow> ([], [], Some (''open transcript: '' @ e))
      | FileData s \<Rightarrow>
          (let (ls, err) = scan_file s;
               parts = map (transcript_line parse_ts) ls
           in (concat (map fst parts), concat (map snd parts),
               if err then Some (''scan transcript: bufio.Scanner: token too long'') else None)))"

section \<open>Executed binaries\<close>

text \<open>\<open>execve\("([^"]+)"\<close>, leftmost match.\<close>

definition execve_at :: "string \<Rightarrow> string option" where
  "execve_at s =
     Option.bind (lit (''execve('' @ [CHR 0x22]) s) (\<lambda>s1.
     Option.bind (run1 (\<lambda>c. c \<noteq> CHR 0x22) s1) (\<lambda>(p, s2).
     if s2 = [] then None else Some p))"

fun execveRE :: "string \<Rightarrow> string option" where
  "execveRE [] = None"
| "execveRE (c # s) = (case execve_at (c # s) of Some p \<Rightarrow> Some p | None \<Rightarrow> execveRE s)"

definition filepath_Base :: "string \<Rightarrow> string" where
  "filepath_Base p =
     (if p = [] then ''.''
      else (let q = rev (dropWhile (\<lambda>c. c = CHR ''/'') (rev p)) in
            if q = [] then ''/'' else rev (takeWhile (\<lambda>c. c \<noteq> CHR ''/'') (rev q))))"

definition em_dash :: string where
  "em_dash = [CHR 0xE2, CHR 0x80, CHR 0x94]"

definition exec_reason :: "string \<Rightarrow> string \<Rightarrow> string list" where
  "exec_reason shimDir p =
     (let base = filepath_Base p in
      if strings_HasPrefix p (shimDir @ ''/'') \<or> containsBase safeReadonlyBinaries base then []
      else if containsBase mutatingBinaries base
      then [''(b) shimmed command '' @ go_quote base @ '' was invoked via a path outside the shim dir ('' @ p @
             '') '' @ em_dash @ '' PATH-shim bypass'']
      else [''(b) unshimmed binary invoked: '' @ p @ '' (not on the read-only-safe allowlist, not a known-mutating shim)''])"

fun exec_loop :: "string \<Rightarrow> string list \<Rightarrow> string list \<Rightarrow> string list" where
  "exec_loop shimDir seen [] = []"
| "exec_loop shimDir seen (l # ls) =
     (case execveRE l of
        None \<Rightarrow> exec_loop shimDir seen ls
      | Some p \<Rightarrow>
          if p \<in> set seen then exec_loop shimDir seen ls
          else exec_reason shimDir p @ exec_loop shimDir (p # seen) ls)"

definition unshimmedMutationReasons :: "hostfile \<Rightarrow> string \<Rightarrow> string list \<times> bool" where
  "unshimmedMutationReasons f shimDir =
     (case f of
        FileData s \<Rightarrow> (let ls = fst (scan_file s) in (exec_loop shimDir [] ls, ls \<noteq> []))
      | _ \<Rightarrow> ([], False))"

section \<open>The verdict\<close>

definition timeout_reason :: string where
  "timeout_reason = ''(a) did not terminate within the timeout (script was killed) '' @ em_dash @
     '' a dry run that never finishes proves nothing''"

definition no_trace_warning :: string where
  "no_trace_warning = ''ground-truth exec trace unavailable (strace missing or produced no output): '' @
     ''absolute-path bypass of the PATH shims cannot be detected for this run''"

definition verdict ::
  "(string \<Rightarrow> gotime) \<Rightarrow> hostfile \<Rightarrow> hostfile \<Rightarrow> string \<Rightarrow> int \<Rightarrow> bool \<Rightarrow>
   bool \<times> string list \<times> string list \<times> TranscriptEntry list" where
  "verdict parse_ts transcript strace shimDir exitCode timedOut =
     (let aReasons = (if timedOut then [timeout_reason]
            else if exitCode \<noteq> 0 then [''(a) script exited nonzero: '' @ itoa exitCode] else []);
          (bReasons, sawTrace) = unshimmedMutationReasons strace shimDir;
          warnings = (if sawTrace then [] else [no_trace_warning]);
          (entries, cReasons, _) = parseTranscript parse_ts transcript;
          reasons = aReasons @ bReasons @ cReasons
      in (reasons = [], reasons, warnings, entries))"

section \<open>Shell quoting\<close>

definition shellQuote :: "string \<Rightarrow> string" where
  "shellQuote s =
     [CHR 0x27] @ strings_ReplaceAll s [CHR 0x27] [CHR 0x27, CHR 0x5C, CHR 0x27, CHR 0x27] @ [CHR 0x27]"

definition shellQuoteArgv :: "string list \<Rightarrow> string" where
  "shellQuoteArgv argv = strings_Join (map shellQuote argv) '' ''"

section \<open>The executor\<close>

datatype sbErr =
    ErrArgumentsRejected "string list"
  | ErrSandboxUnavailable string string
  | ErrProtectedPathGuardFailed string
  | ErrSandboxIO string

definition sbErr_Error :: "sbErr \<Rightarrow> string" where
  "sbErr_Error e =
     (case e of
        ErrArgumentsRejected args \<Rightarrow> ''scripts: scripts never receive arguments: ['' @ strings_Join args '' '' @ '']''
      | ErrSandboxUnavailable bin out \<Rightarrow> ''scripts: dry-run sandbox unavailable on this host: '' @ bin @ '': '' @ out
      | ErrProtectedPathGuardFailed out \<Rightarrow>
          ''scripts: failed to establish protected-path read-only guard; script did not run: '' @ out
      | ErrSandboxIO msg \<Rightarrow> msg)"

record Executor =
  EX_DryRunTimeout :: duration
  EX_RunTimeout :: duration
  EX_ProtectedPaths :: "string list"
  EX_DryRunScratch :: string
  EX_UnshareBin :: string
  EX_StraceBin :: string
  EX_BashBin :: string

definition unshareBin :: "Executor \<Rightarrow> string" where
  "unshareBin e = (if EX_UnshareBin e \<noteq> '''' then EX_UnshareBin e else ''unshare'')"

definition straceBin :: "Executor \<Rightarrow> string" where
  "straceBin e = (if EX_StraceBin e \<noteq> '''' then EX_StraceBin e else ''strace'')"

definition bashBin :: "Executor \<Rightarrow> string" where
  "bashBin e = (if EX_BashBin e \<noteq> '''' then EX_BashBin e else ''bash'')"

definition dryRunTimeout :: "Executor \<Rightarrow> duration" where
  "dryRunTimeout e = (if EX_DryRunTimeout e > 0 then EX_DryRunTimeout e else 15 * nsSecond)"

definition runTimeout :: "Executor \<Rightarrow> duration" where
  "runTimeout e = (if EX_RunTimeout e > 0 then EX_RunTimeout e else 5 * nsMinute)"

definition protectedPaths :: "Executor \<Rightarrow> string list" where
  "protectedPaths e = (if EX_ProtectedPaths e \<noteq> [] then EX_ProtectedPaths e else [''/boot''])"

text \<open>
  \<open>probeCapability\<close>: the first call runs \<open>unshare\<close> and its outcome is kept (\<open>capOnce\<close>).
  \<open>probe\<close> is the stderr of a failed attempt; the kept outcome is \<open>None\<close> before the first call.
\<close>

definition probeCapability :: "Executor \<Rightarrow> string option \<Rightarrow> sbErr option option \<Rightarrow> sbErr option \<times> sbErr option option" where
  "probeCapability e probe capOnce =
     (let capErr = (case capOnce of
            Some kept \<Rightarrow> kept
          | None \<Rightarrow> map_option (\<lambda>stderr. ErrSandboxUnavailable (unshareBin e) (strings_TrimSpace stderr)) probe)
      in (capErr, Some capErr))"

definition scriptArgv :: "string \<Rightarrow> string \<Rightarrow> string list \<Rightarrow> sbErr + string list" where
  "scriptArgv bash scriptPath extraArgs =
     (if extraArgs \<noteq> [] then Inl (ErrArgumentsRejected extraArgs) else Inr [bash, scriptPath])"

text \<open>How a started command ended; a process killed by a signal has exit code -1.\<close>

datatype proc_end = StartFailed | Exited int | Signalled | WaitFailed | OutlivedTimeout

definition runWithTimeout :: "proc_end \<Rightarrow> int \<times> bool" where
  "runWithTimeout p =
     (case p of
        StartFailed \<Rightarrow> (- 1, False)
      | Exited n \<Rightarrow> (n, False)
      | Signalled \<Rightarrow> (- 1, False)
      | WaitFailed \<Rightarrow> (- 1, False)
      | OutlivedTimeout \<Rightarrow> (124, True))"

record DryRunResult =
  DR_Approved :: bool
  DR_ExitCode :: int
  DR_TimedOut :: bool
  DR_Reasons :: "string list"
  DR_Warnings :: "string list"
  DR_Transcript :: "TranscriptEntry list"

record RunResult =
  RR_ExitCode :: int
  RR_Succeeded :: bool
  RR_TimedOut :: bool
  RR_Output :: string

text \<open>
  The embedded \<open>shims\<close> directory in the order of the walk, and \<open>extractShims\<close>: what the walk reports for a path,
  and what writing a file returned. The second result is the files that were written, in order.
\<close>

definition shim_names :: "string list" where
  "shim_names = [''_common.sh'', ''chmod'', ''chown'', ''cp'', ''dd'', ''docker'', ''ln'', ''mkdir'', ''mkfs'', ''mv'', ''rm'',
     ''rsync'', ''tee'', ''truncate'']"

datatype walk_entry = WalkFailed string | WalkDirectory | WalkFile "string + string"

fun extractShims :: "(string \<Rightarrow> string option) \<Rightarrow> string \<Rightarrow> (string \<times> walk_entry) list \<Rightarrow> string option \<times> (string \<times> string) list" where
  "extractShims put dir [] = (None, [])"
| "extractShims put dir ((p, WalkFailed e) # es) = (Some e, [])"
| "extractShims put dir ((p, WalkDirectory) # es) = extractShims put dir es"
| "extractShims put dir ((p, WalkFile (Inl e)) # es) = (Some e, [])"
| "extractShims put dir ((p, WalkFile (Inr contents)) # es) =
     (let path = dir @ ''/'' @ filepath_Base p in
      case put path of
        Some e \<Rightarrow> (Some e, [])
      | None \<Rightarrow> let (r, files) = extractShims put dir es in (r, (path, contents) # files))"

lemma extractShims_all:
  "fst (extractShims put dir es) = None \<Longrightarrow>
   list_all (\<lambda>(p, x). x = WalkDirectory \<or> (\<exists>d. x = WalkFile (Inr d) \<and> put (dir @ ''/'' @ filepath_Base p) = None)) es \<and>
   snd (extractShims put dir es) = concat (map (\<lambda>(p, x). case x of WalkFile (Inr d) \<Rightarrow> [(dir @ ''/'' @ filepath_Base p, d)] | _ \<Rightarrow> []) es)"
  by (induction put dir es rule: extractShims.induct) (auto simp: Let_def split: option.splits prod.splits)

lemma shims_extracted:
  "extractShims (\<lambda>_. None) ''/w/bin'' ((''shims'', WalkDirectory) # map (\<lambda>n. (''shims/'' @ n, WalkFile (Inr n))) shim_names) =
     (None, map (\<lambda>n. (''/w/bin/'' @ n, n)) shim_names)"
  by code_simp

lemma shimmed_by_path_rejected: "list_all (\<lambda>n. exec_reason ''/w/bin'' (''/usr/bin/'' @ n) \<noteq> []) (tl shim_names)"
  by code_simp

text \<open>
  The host's side of one attempt: the work directory or the error of creating it, the error of
  each further file operation in order (for \<open>ho_shims\<close> what \<open>extractShims\<close> returned), how a command line ended with what combined output, and
  the two files afterwards.
\<close>

record host =
  ho_probe :: "string option"
  ho_work :: "string + string"
  ho_shim_mkdir :: "string option"
  ho_shims :: "string option"
  ho_script :: "string option"
  ho_transcript_create :: "string option"
  ho_strace_create :: "string option"
  ho_exec :: "string list \<Rightarrow> proc_end \<times> string"
  ho_transcript :: hostfile
  ho_strace :: hostfile
  ho_parse_ts :: "string \<Rightarrow> gotime"

definition sandbox_nl :: string where
  "sandbox_nl = [CHR 0x0A]"

definition dry_inner :: "Executor \<Rightarrow> string list \<Rightarrow> string" where
  "dry_inner e argv =
     ''set -uo pipefail'' @ sandbox_nl @
     ''mount --bind / / 2>/dev/null'' @ sandbox_nl @
     ''mount -o remount,bind,ro / 2>/dev/null'' @ sandbox_nl @
     ''cd /'' @ sandbox_nl @
     ''if command -v '' @ straceBin e @ '' >/dev/null 2>&1; then'' @ sandbox_nl @
     ''  exec '' @ straceBin e @ '' -f -qq -e trace=execve -o /proc/self/fd/4 '' @ shellQuoteArgv argv @ sandbox_nl @
     ''else'' @ sandbox_nl @
     ''  exec '' @ shellQuoteArgv argv @ sandbox_nl @
     ''fi'' @ sandbox_nl"

definition dry_command :: "Executor \<Rightarrow> string list \<Rightarrow> string list" where
  "dry_command e argv =
     [unshareBin e, ''--user'', ''--map-root-user'', ''--mount'', ''--net'', ''--fork'', ''--'',
      bashBin e, ''-c'', ''ip link set lo up >/dev/null 2>&1; '' @ dry_inner e argv]"

definition DryRun ::
  "Executor \<Rightarrow> host \<Rightarrow> sbErr option option \<Rightarrow> string \<Rightarrow> (sbErr + DryRunResult) \<times> sbErr option option" where
  "DryRun e h cap body =
     (let (capErr, cap') = probeCapability e (ho_probe h) cap in
      ((case capErr of
        Some err \<Rightarrow>
          Inr \<lparr>DR_Approved = False, DR_ExitCode = 0, DR_TimedOut = False, DR_Reasons = [sbErr_Error err],
               DR_Warnings = [], DR_Transcript = []\<rparr>
      | None \<Rightarrow>
      (case ho_work h of
        Inl m \<Rightarrow> Inl (ErrSandboxIO (''scripts: create dry-run workdir: '' @ m))
      | Inr work \<Rightarrow>
      (case ho_shim_mkdir h of
        Some m \<Rightarrow> Inl (ErrSandboxIO (''scripts: create shim dir: '' @ m))
      | None \<Rightarrow>
      (case ho_shims h of
        Some m \<Rightarrow> Inl (ErrSandboxIO (''scripts: extract shims: '' @ m))
      | None \<Rightarrow>
      (case ho_script h of
        Some m \<Rightarrow> Inl (ErrSandboxIO (''scripts: write script: '' @ m))
      | None \<Rightarrow>
      (case scriptArgv (bashBin e) (work @ ''/script.sh'') [] of
        Inl err \<Rightarrow> Inl err
      | Inr argv \<Rightarrow>
      (case ho_transcript_create h of
        Some m \<Rightarrow> Inl (ErrSandboxIO (''scripts: create transcript: '' @ m))
      | None \<Rightarrow>
      (case ho_strace_create h of
        Some m \<Rightarrow> Inl (ErrSandboxIO (''scripts: create strace log: '' @ m))
      | None \<Rightarrow>
          (let (exitCode, timedOut) = runWithTimeout (fst (ho_exec h (dry_command e argv)));
               (approved, reasons, warnings, entries) =
                 verdict (ho_parse_ts h) (ho_transcript h) (ho_strace h) (work @ ''/bin'') exitCode timedOut
           in Inr \<lparr>DR_Approved = approved, DR_ExitCode = exitCode, DR_TimedOut = timedOut, DR_Reasons = reasons,
                   DR_Warnings = warnings, DR_Transcript = entries\<rparr>))))))))), cap'))"

definition bootGuardBindFailedExit :: int where
  "bootGuardBindFailedExit = 97"

definition bootGuardROFailedExit :: int where
  "bootGuardROFailedExit = 98"

text \<open>The guard of one protected path: the argument vectors of its two mounts and their failure exits.\<close>

definition guard_line :: "string list \<Rightarrow> string \<Rightarrow> int \<Rightarrow> string" where
  "guard_line opts msg code =
     strings_Join (''mount'' # opts) '' '' @ '' || { echo '' @ shellQuote msg @ '' >&2; exit '' @ itoa code @ ''; }'' @ sandbox_nl"

definition guard_lines :: "string \<Rightarrow> string" where
  "guard_lines p =
     guard_line [''--bind'', shellQuote p, shellQuote p]
       (''scripts: bind mount failed for protected path '' @ p) bootGuardBindFailedExit @
     guard_line [''-o'', ''remount,bind,ro'', shellQuote p]
       (''scripts: read-only remount failed for protected path '' @ p) bootGuardROFailedExit"

definition run_inner :: "Executor \<Rightarrow> string list \<Rightarrow> string" where
  "run_inner e argv =
     ''set -uo pipefail'' @ sandbox_nl @ concat (map guard_lines (protectedPaths e)) @ sandbox_nl @
     ''exec '' @ shellQuoteArgv argv @ sandbox_nl"

definition run_command :: "Executor \<Rightarrow> string list \<Rightarrow> string list" where
  "run_command e argv =
     [unshareBin e, ''--user'', ''--map-root-user'', ''--mount'', ''--fork'', ''--'', bashBin e, ''-c'', run_inner e argv]"

definition Run :: "Executor \<Rightarrow> host \<Rightarrow> sbErr option option \<Rightarrow> string \<Rightarrow> (sbErr + RunResult) \<times> sbErr option option" where
  "Run e h cap body =
     (let (capErr, cap') = probeCapability e (ho_probe h) cap in
      ((case capErr of
        Some err \<Rightarrow> Inl err
      | None \<Rightarrow>
      (case ho_work h of
        Inl m \<Rightarrow> Inl (ErrSandboxIO (''scripts: create run workdir: '' @ m))
      | Inr work \<Rightarrow>
      (case ho_script h of
        Some m \<Rightarrow> Inl (ErrSandboxIO (''scripts: write script: '' @ m))
      | None \<Rightarrow>
      (case scriptArgv (bashBin e) (work @ ''/script.sh'') [] of
        Inl err \<Rightarrow> Inl err
      | Inr argv \<Rightarrow>
          (let (p, out) = ho_exec h (run_command e argv);
               (exitCode, timedOut) = runWithTimeout p
           in if \<not> timedOut \<and> (exitCode = bootGuardBindFailedExit \<or> exitCode = bootGuardROFailedExit)
              then Inl (ErrProtectedPathGuardFailed (strings_TrimSpace out))
              else Inr \<lparr>RR_ExitCode = exitCode, RR_Succeeded = (exitCode = 0 \<and> \<not> timedOut),
                        RR_TimedOut = timedOut, RR_Output = out\<rparr>))))), cap'))"

record CheckResult =
  CK_Valid :: bool
  CK_Reasons :: "string list"
  CK_Warnings :: "string list"

definition Check :: "Executor \<Rightarrow> host \<Rightarrow> sbErr option option \<Rightarrow> string \<Rightarrow> (sbErr + CheckResult) \<times> sbErr option option" where
  "Check e h cap text =
     (case DryRun e h cap text of
        (Inl err, cap') \<Rightarrow> (Inl err, cap')
      | (Inr res, cap') \<Rightarrow>
          (Inr \<lparr>CK_Valid = DR_Approved res, CK_Reasons = DR_Reasons res, CK_Warnings = DR_Warnings res\<rparr>, cap'))"

section \<open>Quoting against the shell's reading\<close>

text \<open>
  How a POSIX shell reads a line of plain words: blanks separate words, single quotes keep
  everything up to the next single quote, a backslash outside quotes keeps the next character. A
  line with any other special character outside quotes is more than plain words (\<open>None\<close>).
  \<open>cur\<close> is the word being read, newest character first.
\<close>

definition sh_special :: "char \<Rightarrow> bool" where
  "sh_special c \<longleftrightarrow> c \<in> set ''|&;<>()$`*?[]#~=%!{}'' \<or> c = CHR 0x22 \<or> c = CHR 0x0A"

fun sh_read :: "bool \<Rightarrow> string option \<Rightarrow> string \<Rightarrow> string list option" where
  "sh_read True cur [] = None"
| "sh_read False cur [] = Some (case cur of None \<Rightarrow> [] | Some w \<Rightarrow> [rev w])"
| "sh_read True cur (c # s) =
     (if c = CHR 0x27 then sh_read False cur s
      else sh_read True (Some (c # (case cur of None \<Rightarrow> [] | Some w \<Rightarrow> w))) s)"
| "sh_read False cur (c # s) =
     (if c = CHR 0x20 \<or> c = CHR 0x09
      then (case cur of None \<Rightarrow> sh_read False None s | Some w \<Rightarrow> map_option (Cons (rev w)) (sh_read False None s))
      else if c = CHR 0x27 then sh_read True (Some (case cur of None \<Rightarrow> [] | Some w \<Rightarrow> w)) s
      else if c = CHR 0x5C then
        (case s of [] \<Rightarrow> None
         | d # s' \<Rightarrow> sh_read False (Some (d # (case cur of None \<Rightarrow> [] | Some w \<Rightarrow> w))) s')
      else if sh_special c then None
      else sh_read False (Some (c # (case cur of None \<Rightarrow> [] | Some w \<Rightarrow> w))) s)"

definition sh_words :: "string \<Rightarrow> string list option" where
  "sh_words s = sh_read False None s"

lemma sh_read_body:
  "sh_read True (Some w) (strings_ReplaceAll s [CHR 0x27] [CHR 0x27, CHR 0x5C, CHR 0x27, CHR 0x27] @ CHR 0x27 # rest) =
     sh_read False (Some (rev s @ w)) rest"
  by (induction s arbitrary: w) (simp_all add: ReplaceAll_single)

lemma sh_read_quote: "sh_read False None (shellQuote s @ rest) = sh_read False (Some (rev s)) rest"
  by (simp add: shellQuote_def sh_read_body)

lemma sh_read_argv: "sh_read False None (shellQuoteArgv argv) = Some argv"
proof (induction argv rule: induct_list012)
  case 1
  show ?case by (simp add: shellQuoteArgv_def)
next
  case (2 a)
  show ?case using sh_read_quote [of a "[]"] by (simp add: shellQuoteArgv_def)
next
  case (3 a b argv)
  then show ?case using sh_read_quote [of a "CHR 0x20 # shellQuoteArgv (b # argv)"]
    by (simp add: shellQuoteArgv_def)
qed

section \<open>Properties\<close>

text \<open>C22: no quoting escape. Whatever bytes the arguments contain, quotes and line breaks included,
  the shell reads the text of \<open>shellQuoteArgv\<close> back as exactly those words and nothing else.\<close>

theorem shellQuoteArgv_roundtrip: "sh_words (shellQuoteArgv argv) = Some argv"
  by (simp add: sh_words_def sh_read_argv)

definition file_lines :: "hostfile \<Rightarrow> string list" where
  "file_lines f = (case f of FileData s \<Rightarrow> fst (scan_file s) | _ \<Rightarrow> [])"

text \<open>What the two line formats are, said without reference to the matchers: a violation report is a bracketed time, a process id,
  the word VIOLATION and the fields \<open>cmd=\<close>, \<open>target=\<close> and \<open>reason=\<close>, none of them empty or with a blank in it, up to the
  end of the line; a trace line shows the binary that is quoted behind its first \<open>execve(\<close>.\<close>

definition run_of :: "char set \<Rightarrow> string \<Rightarrow> bool" where
  "run_of A s \<longleftrightarrow> s \<noteq> [] \<and> set s \<subseteq> A"

definition blanks :: "char set" where
  "blanks = {CHR 0x09, CHR 0x0A, CHR 0x0C, CHR 0x0D, CHR 0x20}"

definition violation_report :: "string \<Rightarrow> bool" where
  "violation_report l \<longleftrightarrow>
     (\<exists>ts b1 pid b2 b3 cmd b4 target b5 reason.
        l = ''['' @ ts @ '']'' @ b1 @ pid @ b2 @ ''VIOLATION'' @ b3 @ ''cmd='' @ cmd @ b4 @ ''target='' @ target @ b5 @ ''reason='' @ reason \<and>
        run_of (- {CHR '']''}) ts \<and> run_of (set ''0123456789'') pid \<and>
        run_of blanks b1 \<and> run_of blanks b2 \<and> run_of blanks b3 \<and> run_of blanks b4 \<and> run_of blanks b5 \<and>
        run_of (- blanks) cmd \<and> run_of (- blanks) target \<and> run_of (- blanks) reason)"

definition exec_text :: "string \<Rightarrow> string" where
  "exec_text p = ''execve('' @ [CHR 0x22] @ p @ [CHR 0x22]"

definition shows_exec :: "string \<Rightarrow> string \<Rightarrow> bool" where
  "shows_exec l p \<longleftrightarrow>
     (\<exists>pre post. l = pre @ exec_text p @ post \<and> run_of (- {CHR 0x22}) p \<and>
        (\<forall>pre' p' post'. l = pre' @ exec_text p' @ post' \<and> run_of (- {CHR 0x22}) p' \<longrightarrow> length pre \<le> length pre'))"

definition contained_exec :: "string \<Rightarrow> string \<Rightarrow> bool" where
  "contained_exec shimDir l \<longleftrightarrow>
     (\<forall>p. shows_exec l p \<longrightarrow> prefix (shimDir @ ''/'') p \<or> filepath_Base p \<in> set safeReadonlyBinaries)"

text \<open>The matchers recognise exactly these formats.\<close>

lemma lit_Some: "lit w s = Some r \<longleftrightarrow> s = w @ r"
  by (auto simp: lit_def strings_HasPrefix_def) (metis append_take_drop_id)

lemma run1_Some: "run1 P s = Some (t, r) \<longleftrightarrow> s = t @ r \<and> t \<noteq> [] \<and> (\<forall>c \<in> set t. P c) \<and> (r = [] \<or> \<not> P (hd r))"
proof
  assume "run1 P s = Some (t, r)"
  then have tr: "t = takeWhile P s" "r = dropWhile P s" "t \<noteq> []" by (auto simp: run1_def Let_def split: if_splits)
  then show "s = t @ r \<and> t \<noteq> [] \<and> (\<forall>c \<in> set t. P c) \<and> (r = [] \<or> \<not> P (hd r))"
    using hd_dropWhile [of P s] by (auto dest: set_takeWhileD)
next
  assume a: "s = t @ r \<and> t \<noteq> [] \<and> (\<forall>c \<in> set t. P c) \<and> (r = [] \<or> \<not> P (hd r))"
  then have "takeWhile P s = t" "dropWhile P s = r" by (cases r; auto simp: takeWhile_tail)+
  then show "run1 P s = Some (t, r)" using a by (simp add: run1_def)
qed

lemma re_space_blanks: "re_space c \<longleftrightarrow> c \<in> blanks"
  by (simp add: re_space_def blanks_def)

lemma is_digit_set: "is_digit c \<longleftrightarrow> c \<in> set ''0123456789''"
proof -
  have "48 \<le> n \<and> n \<le> 57 \<longleftrightarrow> n \<in> {48, 49, 50, 51, 52, 53, 54, 55, 56, 57}" for n :: nat
    unfolding insert_iff empty_iff by presburger
  then show ?thesis by (simp add: is_digit_def of_char_eq_iff [symmetric, where 'a = nat])
qed

lemma run_of_run1:
  "run_of A t \<Longrightarrow> (\<And>c. P c \<longleftrightarrow> c \<in> A) \<Longrightarrow> r = [] \<or> hd r \<notin> A \<Longrightarrow> run1 P (t @ r) = Some (t, r)"
  by (auto simp: run1_Some run_of_def)

lemma run_of_hd: "run_of A t \<Longrightarrow> hd (t @ r) \<in> A"
  by (cases t) (auto simp: run_of_def)

lemma blanks_Some: "run1 re_space s = Some (b, r) \<Longrightarrow> s = b @ r \<and> run_of blanks b"
  by (auto simp: run1_Some run_of_def re_space_blanks)

lemma re_field_Some: "re_field key s = Some (v, r) \<Longrightarrow> s = key @ v @ r \<and> run_of (- blanks) v"
  by (auto simp: re_field_def bind_eq_Some_conv lit_Some run1_Some run_of_def re_space_blanks)

lemma line_head_Some:
  assumes "line_head s = Some (ts, pid, r)"
  shows "\<exists>b1 b2. s = ''['' @ ts @ '']'' @ b1 @ pid @ b2 @ r \<and> run_of (- {CHR '']''}) ts \<and> run_of (set ''0123456789'') pid \<and>
    run_of blanks b1 \<and> run_of blanks b2"
proof -
  obtain s1 s2 s3 s4 s5 b1 b2 where m: "lit ''['' s = Some s1" "run1 (\<lambda>c. c \<noteq> CHR '']'') s1 = Some (ts, s2)" "lit '']'' s2 = Some s3"
    "run1 re_space s3 = Some (b1, s4)" "run1 is_digit s4 = Some (pid, s5)" "run1 re_space s5 = Some (b2, r)"
    using assms by (auto simp: line_head_def bind_eq_Some_conv)
  have "s4 = pid @ s5 \<and> run_of (set ''0123456789'') pid" using m(5) unfolding run1_Some is_digit_set run_of_def by blast
  moreover have "s1 = ts @ s2 \<and> run_of (- {CHR '']''}) ts" using m(2) unfolding run1_Some run_of_def by blast
  moreover have "s = ''['' @ s1" "s2 = '']'' @ s3" using m(1,3) by (simp_all only: lit_Some)
  ultimately show ?thesis using blanks_Some [OF m(4)] blanks_Some [OF m(6)]
    by (intro exI [of _ b1] exI [of _ b2]) simp
qed

lemma violationLineRE_iff: "violationLineRE l \<noteq> None \<longleftrightarrow> violation_report l"
proof
  assume "violationLineRE l \<noteq> None"
  then obtain ts pid s1 s2 b3 s3 cmd s4 b4 s5 target s6 b5 s7 reason where m: "line_head l = Some (ts, pid, s1)" "lit ''VIOLATION'' s1 = Some s2"
    "run1 re_space s2 = Some (b3, s3)" "re_field ''cmd='' s3 = Some (cmd, s4)" "run1 re_space s4 = Some (b4, s5)"
    "re_field ''target='' s5 = Some (target, s6)" "run1 re_space s6 = Some (b5, s7)" "re_field ''reason='' s7 = Some (reason, [])"
    by (auto simp: violationLineRE_def bind_eq_Some_conv split: if_splits)
  obtain b1 b2 where "l = ''['' @ ts @ '']'' @ b1 @ pid @ b2 @ s1" and h: "run_of (- {CHR '']''}) ts" "run_of (set ''0123456789'') pid"
    "run_of blanks b1" "run_of blanks b2"
    using line_head_Some [OF m(1)] by blast
  moreover have "s1 = ''VIOLATION'' @ s2" using m(2) by (simp only: lit_Some)
  moreover have b: "s2 = b3 @ s3" "s4 = b4 @ s5" "s6 = b5 @ s7" "run_of blanks b3" "run_of blanks b4" "run_of blanks b5"
    using blanks_Some [OF m(3)] blanks_Some [OF m(5)] blanks_Some [OF m(7)] by blast+
  moreover have f: "s3 = ''cmd='' @ cmd @ s4" "s5 = ''target='' @ target @ s6" "s7 = ''reason='' @ reason @ []"
    "run_of (- blanks) cmd" "run_of (- blanks) target" "run_of (- blanks) reason"
    using re_field_Some [OF m(4)] re_field_Some [OF m(6)] re_field_Some [OF m(8)] by blast+
  ultimately have "l = ''['' @ ts @ '']'' @ b1 @ pid @ b2 @ ''VIOLATION'' @ b3 @ ''cmd='' @ cmd @ b4 @ ''target='' @ target @ b5 @ ''reason='' @ reason"
    by (simp only: append_Nil2 append_assoc)
  then show "violation_report l" unfolding violation_report_def using h b f
    by - (intro exI conjI, assumption+)
next
  assume "violation_report l"
  then obtain ts b1 pid b2 b3 cmd b4 target b5 reason where
    l: "l = ''['' @ ts @ '']'' @ b1 @ pid @ b2 @ ''VIOLATION'' @ b3 @ ''cmd='' @ cmd @ b4 @ ''target='' @ target @ b5 @ ''reason='' @ reason" and
    r: "run_of (- {CHR '']''}) ts" "run_of (set ''0123456789'') pid" "run_of blanks b1" "run_of blanks b2" "run_of blanks b3"
      "run_of blanks b4" "run_of blanks b5" "run_of (- blanks) cmd" "run_of (- blanks) target" "run_of (- blanks) reason"
    unfolding violation_report_def by blast
  have digits: "set ''0123456789'' \<inter> blanks = {}" by (simp add: blanks_def)
  have sp: "run1 re_space (b @ u) = Some (b, u)" if "run_of blanks b" "u = [] \<or> hd u \<notin> blanks" for b u
    using that by (intro run_of_run1 [where A = blanks]) (auto simp: re_space_blanks)
  have nsp: "run1 (\<lambda>c. \<not> re_space c) (b @ u) = Some (b, u)" if "run_of (- blanks) b" "u = [] \<or> hd u \<in> blanks" for b u
    using that by (intro run_of_run1 [where A = "- blanks"]) (auto simp: re_space_blanks)
  have "run1 (\<lambda>c. c \<noteq> CHR '']'') (ts @ '']'' @ u) = Some (ts, '']'' @ u)" for u
    using r(1) by (intro run_of_run1 [where A = "- {CHR '']''}"]) auto
  moreover have "run1 is_digit (pid @ b2 @ u) = Some (pid, b2 @ u)" for u
    using r(2) run_of_hd [OF r(4), of u] digits by (intro run_of_run1 [where A = "set ''0123456789''"]) (auto simp: is_digit_set)
  moreover have "hd (pid @ u) \<notin> blanks" for u using run_of_hd [OF r(2), of u] digits by blast
  moreover have "CHR ''V'' \<notin> blanks" "CHR ''c'' \<notin> blanks" "CHR ''t'' \<notin> blanks" "CHR ''r'' \<notin> blanks" by (simp_all add: blanks_def)
  moreover have "run1 (\<lambda>c. \<not> re_space c) reason = Some (reason, [])" using nsp [OF r(10), of "[]"] by simp
  ultimately have "violationLineRE l = Some (ts, pid, cmd, target, reason)"
    unfolding l violationLineRE_def line_head_def re_field_def
    using sp [OF r(3)] sp [OF r(4)] sp [OF r(5)] sp [OF r(6)] sp [OF r(7)] nsp [OF r(8)] nsp [OF r(9)]
      run_of_hd [OF r(6)] run_of_hd [OF r(7)]
    by (simp add: lit_def strings_HasPrefix_def)
  then show "violationLineRE l \<noteq> None" by simp
qed

lemma execve_at_iff: "execve_at s = Some p \<longleftrightarrow> (\<exists>post. s = exec_text p @ post) \<and> run_of (- {CHR 0x22}) p"
proof
  assume "execve_at s = Some p"
  then show "(\<exists>post. s = exec_text p @ post) \<and> run_of (- {CHR 0x22}) p"
    by (auto simp: execve_at_def lit_Some run1_Some exec_text_def run_of_def neq_Nil_conv split: Option.bind_splits if_splits) blast+
next
  assume "(\<exists>post. s = exec_text p @ post) \<and> run_of (- {CHR 0x22}) p"
  then obtain post where s: "s = exec_text p @ post" and p: "run_of (- {CHR 0x22}) p" by blast
  have "run1 (\<lambda>c. c \<noteq> CHR 0x22) (p @ CHR 0x22 # post) = Some (p, CHR 0x22 # post)"
    using p by (intro run_of_run1 [where A = "- {CHR 0x22}"]) auto
  then show "execve_at s = Some p" by (simp add: s execve_at_def exec_text_def lit_def strings_HasPrefix_def)
qed

lemma execveRE_first:
  "case execveRE l of
     None \<Rightarrow> \<forall>k. execve_at (drop k l) = None
   | Some p \<Rightarrow> \<exists>k. execve_at (drop k l) = Some p \<and> (\<forall>j < k. execve_at (drop j l) = None)"
proof (induction l)
  case Nil
  show ?case by (simp add: execve_at_def lit_def strings_HasPrefix_def)
next
  case (Cons c l)
  show ?case
  proof (cases "execve_at (c # l)")
    case (Some p)
    then show ?thesis by (auto intro!: exI [of _ 0])
  next
    case None
    have skip: "execve_at (drop j (c # l)) = None \<longleftrightarrow> j = 0 \<or> execve_at (drop (j - 1) l) = None" for j
      using None by (cases j) auto
    show ?thesis
    proof (cases "execveRE l")
      case (Some p)
      then obtain k where "execve_at (drop k l) = Some p" "\<forall>j < k. execve_at (drop j l) = None" using Cons by auto
      then have "execve_at (drop (Suc k) (c # l)) = Some p \<and> (\<forall>j < Suc k. execve_at (drop j (c # l)) = None)"
        unfolding skip by (auto simp: less_Suc_eq_0_disj)
      then show ?thesis unfolding execveRE.simps None option.case Some by blast
    qed (use None Cons in \<open>auto simp: skip\<close>)
  qed
qed

lemma execveRE_iff: "execveRE l = Some p \<longleftrightarrow> shows_exec l p"
proof -
  have at: "execve_at (drop (length pre) l) = Some q" if "l = pre @ exec_text q @ post" "run_of (- {CHR 0x22}) q" for pre q post
    using that by (simp add: execve_at_iff)
  have shown: "shows_exec l q" if re: "execveRE l = Some q" for q
  proof -
    obtain k where k: "execve_at (drop k l) = Some q" "\<forall>j < k. execve_at (drop j l) = None" using execveRE_first [of l] re by auto
    then obtain post where post: "drop k l = exec_text q @ post" "run_of (- {CHR 0x22}) q" by (auto simp: execve_at_iff)
    then have "l = take k l @ exec_text q @ post" by (metis append_take_drop_id)
    moreover have "length (take k l) \<le> length pre'" if "l = pre' @ exec_text q' @ post'" "run_of (- {CHR 0x22}) q'" for pre' q' post'
    proof -
      have "\<not> length pre' < k" using at [OF that] k(2) by force
      then show ?thesis by simp
    qed
    ultimately show ?thesis using post(2) unfolding shows_exec_def by metis
  qed
  moreover have "q = p" if "shows_exec l q" "shows_exec l p" for q
  proof -
    from that obtain a b c d where ab: "l = a @ exec_text q @ b" "l = c @ exec_text p @ d" "run_of (- {CHR 0x22}) q" "run_of (- {CHR 0x22}) p"
      "length a \<le> length c" "length c \<le> length a"
      unfolding shows_exec_def by metis
    then have "execve_at (drop (length a) l) = Some q" "execve_at (drop (length a) l) = Some p" using at by (metis, metis le_antisym)
    then show ?thesis by simp
  qed
  moreover have "execveRE l \<noteq> None" if sh: "shows_exec l p"
  proof -
    obtain pre post where "l = pre @ exec_text p @ post" "run_of (- {CHR 0x22}) p" using sh unfolding shows_exec_def by blast
    then have "execve_at (drop (length pre) l) \<noteq> None" using at by simp
    then show ?thesis using execveRE_first [of l] by (cases "execveRE l") auto
  qed
  ultimately show ?thesis by auto
qed

lemma containsBase_set: "containsBase xs b \<longleftrightarrow> b \<in> set xs"
  by (induction xs) auto

lemma exec_reason_none:
  "exec_reason shimDir p = [] \<longleftrightarrow> strings_HasPrefix p (shimDir @ ''/'') \<or> filepath_Base p \<in> set safeReadonlyBinaries"
  by (simp add: exec_reason_def containsBase_set Let_def)

lemma exec_loop_none:
  "\<forall>p \<in> set seen. exec_reason shimDir p = [] \<Longrightarrow>
   exec_loop shimDir seen ls = [] \<longleftrightarrow> list_all (contained_exec shimDir) ls"
proof (induction ls arbitrary: seen)
  case (Cons l ls)
  show ?case
  proof (cases "execveRE l")
    case None
    then have "contained_exec shimDir l" by (auto simp: contained_exec_def simp flip: execveRE_iff)
    then show ?thesis using Cons None by simp
  next
    case (Some p)
    then have "contained_exec shimDir l \<longleftrightarrow> exec_reason shimDir p = []"
      by (auto simp: contained_exec_def exec_reason_none HasPrefix_iff_prefix simp flip: execveRE_iff)
    then show ?thesis using Some Cons.IH [of seen] Cons.IH [of "p # seen"] Cons.prems by auto
  qed
qed simp

lemma unshimmed_none:
  "fst (unshimmedMutationReasons f shimDir) = [] \<longleftrightarrow> list_all (contained_exec shimDir) (file_lines f)"
  by (cases f) (simp_all add: unshimmedMutationReasons_def file_lines_def exec_loop_none Let_def)

lemma violations_none:
  "fst (snd (parseTranscript ts f)) = [] \<longleftrightarrow> list_all (\<lambda>l. \<not> violation_report l) (file_lines f)"
proof -
  have "snd (transcript_line ts l) = [] \<longleftrightarrow> \<not> violation_report l" for l
    by (auto simp: transcript_line_def simp flip: violationLineRE_iff split: option.split)
  then show ?thesis
    by (cases f) (simp_all add: parseTranscript_def file_lines_def concat_eq_Nil_conv list_all_iff split: prod.split)
qed

lemma verdict_iff:
  "fst (verdict ts tr st shimDir ec to) \<longleftrightarrow>
     \<not> to \<and> ec = 0 \<and> list_all (contained_exec shimDir) (file_lines st) \<and>
     list_all (\<lambda>l. \<not> violation_report l) (file_lines tr)"
  "fst (snd (verdict ts tr st shimDir ec to)) = [] \<longleftrightarrow> fst (verdict ts tr st shimDir ec to)"
  using unshimmed_none [of st shimDir] violations_none [of ts tr]
  by (auto simp: verdict_def Let_def split: prod.split)


section \<open>How the shell runs the inner text\<close>

text \<open>
  The fragment of the shell that \<open>run_inner\<close> is written in. The lexer reads words as \<open>sh_read\<close> does and, outside quotes, the
  line break and the operators of the guard lines; any other special character is outside the
  fragment. A line is empty, a simple command, a simple command with a failure branch
  \<open>|| { echo m >&2; exit n; }\<close>, or an \<open>exec\<close>. Without \<open>set -e\<close> a failing command alone does not stop the shell.
  \<open>cmd\<close> says which commands succeed, \<open>prog\<close> how the program that replaces the shell ends.
\<close>

datatype sh_tok = Word string | Op string

definition end_word :: "string option \<Rightarrow> sh_tok list option \<Rightarrow> sh_tok list option" where
  "end_word cur r = (case cur of None \<Rightarrow> r | Some w \<Rightarrow> map_option (Cons (Word (rev w))) r)"

definition grow_word :: "char \<Rightarrow> string option \<Rightarrow> string option" where
  "grow_word c cur = Some (c # (case cur of None \<Rightarrow> [] | Some w \<Rightarrow> w))"

fun sh_lex :: "bool \<Rightarrow> string option \<Rightarrow> string \<Rightarrow> sh_tok list option" where
  "sh_lex True cur [] = None"
| "sh_lex False cur [] = end_word cur (Some [])"
| "sh_lex True cur (c # s) = (if c = CHR 0x27 then sh_lex False cur s else sh_lex True (grow_word c cur) s)"
| "sh_lex False cur (c # s) =
     (if c = CHR 0x20 \<or> c = CHR 0x09 then end_word cur (sh_lex False None s)
      else if c = CHR 0x27 then sh_lex True (Some (case cur of None \<Rightarrow> [] | Some w \<Rightarrow> w)) s
      else if c = CHR 0x5C then (case s of [] \<Rightarrow> None | d # s' \<Rightarrow> sh_lex False (grow_word d cur) s')
      else if c = CHR 0x0A \<or> c = CHR '';'' \<or> c = CHR 0x7B \<or> c = CHR 0x7D
      then end_word cur (map_option (Cons (Op [c])) (sh_lex False None s))
      else if c = CHR ''|'' \<or> c = CHR ''>''
      then (case s of [] \<Rightarrow> None
            | d # s' \<Rightarrow> if c = CHR ''|'' \<and> d = CHR ''|'' \<or> c = CHR ''>'' \<and> d = CHR ''&''
                then end_word cur (map_option (Cons (Op [c, d])) (sh_lex False None s')) else None)
      else if sh_special c then None
      else sh_lex False (grow_word c cur) s)"

fun sh_lines :: "sh_tok list \<Rightarrow> sh_tok list \<Rightarrow> sh_tok list list" where
  "sh_lines acc [] = [rev acc]"
| "sh_lines acc (t # ts) = (if t = Op [CHR 0x0A] then rev acc # sh_lines [] ts else sh_lines (t # acc) ts)"

fun is_word :: "sh_tok \<Rightarrow> bool" where
  "is_word (Word w) \<longleftrightarrow> True"
| "is_word (Op o') \<longleftrightarrow> False"

fun tok_text :: "sh_tok \<Rightarrow> string" where
  "tok_text (Word w) = w"
| "tok_text (Op o') = o'"

datatype sh_cmd = ShEmpty | ShSimple "string list" "int option" | ShExec "string list"

definition sh_num :: "string \<Rightarrow> int" where
  "sh_num s = foldl (\<lambda>n c. n * 10 + (of_char c - 48)) 0 s"

definition sh_branch :: "sh_tok list \<Rightarrow> int option" where
  "sh_branch ts =
     (case ts of
        [o1, o2, e, m, r, two, o3, x, n, o4, o5] \<Rightarrow>
          if [o1, o2, e, r, two, o3, x, o4, o5] =
               [Op ''||'', Op [CHR 0x7B], Word ''echo'', Op ''>&'', Word ''2'', Op '';'', Word ''exit'', Op '';'', Op [CHR 0x7D]] \<and>
             is_word m \<and> is_word n
          then Some (sh_num (tok_text n)) else None
      | _ \<Rightarrow> None)"

definition sh_line :: "sh_tok list \<Rightarrow> sh_cmd option" where
  "sh_line ts =
     (let ws = map tok_text (takeWhile is_word ts); rest = dropWhile is_word ts in
      if rest = [] then
        Some (if ws = [] then ShEmpty else if hd ws = ''exec'' then ShExec (tl ws) else ShSimple ws None)
      else if ws = [] then None
      else map_option (\<lambda>n. ShSimple ws (Some n)) (sh_branch rest))"

fun sh_exec :: "(string list \<Rightarrow> bool) \<Rightarrow> (string list \<Rightarrow> proc_end) \<Rightarrow> sh_tok list list \<Rightarrow> proc_end option" where
  "sh_exec cmd prog [] = None"
| "sh_exec cmd prog (l # ls) =
     (case sh_line l of
        None \<Rightarrow> None
      | Some ShEmpty \<Rightarrow> sh_exec cmd prog ls
      | Some (ShExec ws) \<Rightarrow> Some (prog ws)
      | Some (ShSimple ws onfail) \<Rightarrow>
          if hd ws = ''set'' \<or> cmd ws then sh_exec cmd prog ls
          else (case onfail of Some n \<Rightarrow> Some (Exited n) | None \<Rightarrow> sh_exec cmd prog ls))"

definition sh_run :: "(string list \<Rightarrow> bool) \<Rightarrow> (string list \<Rightarrow> proc_end) \<Rightarrow> string \<Rightarrow> proc_end option" where
  "sh_run cmd prog text = Option.bind (sh_lex False None text) (\<lambda>ts. sh_exec cmd prog (sh_lines [] ts))"

text \<open>The lexer on quoted words and on whole lines.\<close>

lemma sh_lex_body:
  "sh_lex True (Some w) (strings_ReplaceAll s [CHR 0x27] [CHR 0x27, CHR 0x5C, CHR 0x27, CHR 0x27] @ CHR 0x27 # rest) =
     sh_lex False (Some (rev s @ w)) rest"
  by (induction s arbitrary: w) (simp_all add: ReplaceAll_single grow_word_def)

lemma sh_lex_quote: "sh_lex False None (shellQuote s @ rest) = sh_lex False (Some (rev s)) rest"
  by (simp add: shellQuote_def sh_lex_body)

lemmas lex_simps = end_word_def grow_word_def sh_special_def sh_lex_quote option.map_comp

lemma exit_texts: "itoa bootGuardBindFailedExit = ''97''" "itoa bootGuardROFailedExit = ''98''"
  by code_simp+

definition branch_toks :: "string \<Rightarrow> string \<Rightarrow> sh_tok list" where
  "branch_toks msg n = [Op ''||'', Op [CHR 0x7B], Word ''echo'', Word msg, Op ''>&'', Word ''2'', Op '';'',
     Word ''exit'', Word n, Op '';'', Op [CHR 0x7D]]"

lemma sh_lex_branch:
  assumes "n \<in> {''97'', ''98''}"
  shows "sh_lex False None (''|| { echo '' @ shellQuote msg @ '' >&2; exit '' @ n @ ''; }'' @ sandbox_nl @ rest) =
     map_option (\<lambda>r. (branch_toks msg n @ [Op [CHR 0x0A]]) @ r) (sh_lex False None rest)"
  using assms by (auto simp: lex_simps sandbox_nl_def branch_toks_def comp_def)

definition guard_toks :: "string \<Rightarrow> sh_tok list list" where
  "guard_toks p =
     [map Word [''mount'', ''--bind'', p, p] @ branch_toks (''scripts: bind mount failed for protected path '' @ p) ''97'',
      map Word [''mount'', ''-o'', ''remount,bind,ro'', p] @ branch_toks (''scripts: read-only remount failed for protected path '' @ p) ''98'']"

lemma sh_lex_bind:
  "sh_lex False None (''mount --bind '' @ shellQuote p @ '' '' @ shellQuote p @ '' '' @ rest) =
     map_option (\<lambda>r. map Word [''mount'', ''--bind'', p, p] @ r) (sh_lex False None rest)"
  by (simp add: lex_simps comp_def)

lemma sh_lex_remount:
  "sh_lex False None (''mount -o remount,bind,ro '' @ shellQuote p @ '' '' @ rest) =
     map_option (\<lambda>r. map Word [''mount'', ''-o'', ''remount,bind,ro'', p] @ r) (sh_lex False None rest)"
  by (simp add: lex_simps comp_def)

lemma guard_lines_text:
  "guard_lines p =
     (''mount --bind '' @ shellQuote p @ '' '' @ shellQuote p @ '' '' @
       (''|| { echo '' @ shellQuote (''scripts: bind mount failed for protected path '' @ p) @ '' >&2; exit '' @ ''97'' @ ''; }'' @ sandbox_nl @
     (''mount -o remount,bind,ro '' @ shellQuote p @ '' '' @
       (''|| { echo '' @ shellQuote (''scripts: read-only remount failed for protected path '' @ p) @ '' >&2; exit '' @ ''98'' @ ''; }'' @ sandbox_nl))))"
  by (simp add: guard_lines_def guard_line_def exit_texts)

definition join_lines :: "sh_tok list list \<Rightarrow> sh_tok list" where
  "join_lines ls = concat (map (\<lambda>l. l @ [Op [CHR 0x0A]]) ls)"

lemma sh_lex_guard:
  "sh_lex False None (guard_lines p @ rest) = map_option (\<lambda>r. join_lines (guard_toks p) @ r) (sh_lex False None rest)"
proof -
  have n: "''97'' \<in> {''97'', ''98''}" "''98'' \<in> {''97'', ''98''}" by simp_all
  have "join_lines (guard_toks p) @ r =
      map Word [''mount'', ''--bind'', p, p] @
      ((branch_toks (''scripts: bind mount failed for protected path '' @ p) ''97'' @ [Op [CHR 0x0A]]) @
      (map Word [''mount'', ''-o'', ''remount,bind,ro'', p] @
      ((branch_toks (''scripts: read-only remount failed for protected path '' @ p) ''98'' @ [Op [CHR 0x0A]]) @ r)))" for r
    by (simp add: join_lines_def guard_toks_def)
  then show ?thesis
    unfolding guard_lines_text append_assoc sh_lex_bind sh_lex_remount
      sh_lex_branch [OF n(1)] sh_lex_branch [OF n(2)] option.map_comp comp_def
    by (simp only: append_assoc)
qed

lemma sh_lex_guards:
  "sh_lex False None (concat (map guard_lines ps) @ rest) =
     map_option (\<lambda>r. join_lines (concat (map guard_toks ps)) @ r) (sh_lex False None rest)"
proof (induction ps)
  case Nil
  show ?case by (simp add: join_lines_def option.map_ident)
next
  case (Cons p ps)
  then show ?case
    using sh_lex_guard [of p "concat (map guard_lines ps) @ rest"]
    by (simp add: option.map_comp comp_def join_lines_def)
qed

lemma sh_lex_argv: "sh_lex False None (shellQuoteArgv argv @ sandbox_nl) = Some (map Word argv @ [Op [CHR 0x0A]])"
proof (induction argv rule: induct_list012)
  case 1
  show ?case by (simp add: shellQuoteArgv_def sandbox_nl_def lex_simps)
next
  case (2 a)
  show ?case using sh_lex_quote [of a sandbox_nl] by (simp add: shellQuoteArgv_def sandbox_nl_def lex_simps)
next
  case (3 a b argv)
  then show ?case using sh_lex_quote [of a "CHR 0x20 # shellQuoteArgv (b # argv) @ sandbox_nl"]
    by (simp add: shellQuoteArgv_def lex_simps)
qed

text \<open>The inner text is its prologue, two lines per protected path, a blank line and the \<open>exec\<close>.\<close>

definition inner_lines :: "string list \<Rightarrow> string list \<Rightarrow> sh_tok list list" where
  "inner_lines ps argv =
     map Word [''set'', ''-uo'', ''pipefail''] # concat (map guard_toks ps) @ [[], map Word (''exec'' # argv)]"

lemma run_inner_toks: "sh_lex False None (run_inner e argv) = Some (join_lines (inner_lines (protectedPaths e) argv))"
proof -
  have prologue: "sh_lex False None (''set -uo pipefail'' @ sandbox_nl @ rest) =
      map_option (\<lambda>r. (map Word [''set'', ''-uo'', ''pipefail''] @ [Op [CHR 0x0A]]) @ r) (sh_lex False None rest)" for rest
    by (simp add: lex_simps sandbox_nl_def comp_def)
  have epilogue: "sh_lex False None (sandbox_nl @ ''exec '' @ shellQuoteArgv argv @ sandbox_nl) =
      Some (Op [CHR 0x0A] # map Word (''exec'' # argv) @ [Op [CHR 0x0A]])"
    using sh_lex_argv [of argv] by (simp add: lex_simps sandbox_nl_def)
  show ?thesis
    unfolding run_inner_def prologue sh_lex_guards epilogue
    by (simp add: join_lines_def inner_lines_def)
qed

lemma sh_lines_prefix:
  "Op [CHR 0x0A] \<notin> set l \<Longrightarrow> sh_lines acc (l @ Op [CHR 0x0A] # ts) = (rev acc @ l) # sh_lines [] ts"
  by (induction l arbitrary: acc) auto

lemma sh_lines_join: "list_all (\<lambda>l. Op [CHR 0x0A] \<notin> set l) ls \<Longrightarrow> sh_lines [] (join_lines ls) = ls @ [[]]"
  by (induction ls) (simp_all add: join_lines_def sh_lines_prefix)

lemma inner_lines_plain: "list_all (\<lambda>l. Op [CHR 0x0A] \<notin> set l) (inner_lines ps argv)"
  by (induction ps) (auto simp: inner_lines_def guard_toks_def branch_toks_def)

text \<open>What the shell does with those lines: the first mount that fails ends it with its code,
  and only after all of them it becomes the script.\<close>

fun guard_end :: "(string list \<Rightarrow> bool) \<Rightarrow> string list \<Rightarrow> proc_end \<Rightarrow> proc_end" where
  "guard_end cmd [] script = script"
| "guard_end cmd (p # ps) script =
     (if \<not> cmd [''mount'', ''--bind'', p, p] then Exited bootGuardBindFailedExit
      else if \<not> cmd [''mount'', ''-o'', ''remount,bind,ro'', p] then Exited bootGuardROFailedExit
      else guard_end cmd ps script)"

lemma sh_line_words: "sh_line (map Word ws) = Some (if ws = [] then ShEmpty else if hd ws = ''exec'' then ShExec (tl ws) else ShSimple ws None)"
proof -
  have words: "takeWhile is_word (map Word ws) = map Word ws" "dropWhile is_word (map Word ws) = []"
    by (induction ws) simp_all
  have "map tok_text (map Word ws) = ws" by (simp add: comp_def)
  then show ?thesis unfolding sh_line_def words by (simp add: Let_def)
qed

lemma sh_line_branch:
  assumes "ws \<noteq> []"
  shows "sh_line (map Word ws @ branch_toks msg n) = Some (ShSimple ws (Some (sh_num n)))"
proof -
  have "takeWhile is_word (map Word ws @ branch_toks msg n) = map Word ws"
    "dropWhile is_word (map Word ws @ branch_toks msg n) = branch_toks msg n"
    by (induction ws) (simp_all add: branch_toks_def)
  moreover have "sh_branch (branch_toks msg n) = Some (sh_num n)"
    by (simp add: sh_branch_def branch_toks_def)
  moreover have "branch_toks msg n \<noteq> []" by (simp add: branch_toks_def)
  ultimately show ?thesis using assms by (simp add: sh_line_def comp_def)
qed

lemma sh_exec_guards:
  "sh_exec cmd prog (concat (map guard_toks ps) @ [[], map Word (''exec'' # argv)] @ [[]]) =
     Some (guard_end cmd ps (prog argv))"
proof (induction ps)
  case Nil
  show ?case using sh_line_words [of "[]"] sh_line_words [of "''exec'' # argv"] by simp
next
  case (Cons p ps)
  have "sh_num ''97'' = bootGuardBindFailedExit" "sh_num ''98'' = bootGuardROFailedExit" by code_simp+
  then show ?case using Cons
      sh_line_branch [of "[''mount'', ''--bind'', p, p]" "''scripts: bind mount failed for protected path '' @ p" "''97''"]
      sh_line_branch [of "[''mount'', ''-o'', ''remount,bind,ro'', p]" "''scripts: read-only remount failed for protected path '' @ p" "''98''"]
    by (simp add: guard_toks_def)
qed

lemma sh_run_inner: "sh_run cmd prog (run_inner e argv) = Some (guard_end cmd (protectedPaths e) (prog argv))"
  using sh_line_words [of "[''set'', ''-uo'', ''pipefail'']"] sh_exec_guards [of cmd prog "protectedPaths e" argv]
  by (simp add: sh_run_def run_inner_toks sh_lines_join [OF inner_lines_plain]) (simp add: inner_lines_def)

definition guard_mounted :: "(string list \<Rightarrow> bool) \<Rightarrow> string \<Rightarrow> bool" where
  "guard_mounted cmd p \<longleftrightarrow> cmd [''mount'', ''--bind'', p, p] \<and> cmd [''mount'', ''-o'', ''remount,bind,ro'', p]"

lemma guard_end_ok: "list_all (guard_mounted cmd) ps \<Longrightarrow> guard_end cmd ps script = script"
  by (induction ps) (simp_all add: guard_mounted_def)

lemma guard_end_fail:
  "\<not> list_all (guard_mounted cmd) ps \<Longrightarrow>
   guard_end cmd ps script \<in> {Exited bootGuardBindFailedExit, Exited bootGuardROFailedExit}"
  by (induction ps) (auto simp: guard_mounted_def split: if_splits)

lemma Run_result:
  assumes "fst (Run e h cap body) = Inr res"
  shows "\<exists>work. let x = runWithTimeout (fst (ho_exec h (run_command e [bashBin e, work @ ''/script.sh'']))) in
    ho_work h = Inr work \<and>
    fst (probeCapability e (ho_probe h) cap) = None \<and> (RR_ExitCode res, RR_TimedOut res) = x \<and>
    x \<noteq> (bootGuardBindFailedExit, False) \<and> x \<noteq> (bootGuardROFailedExit, False) \<and>
    (RR_Succeeded res \<longleftrightarrow> x = (0, False))"
proof -
  obtain capErr cap' where cap: "probeCapability e (ho_probe h) cap = (capErr, cap')" by fastforce
  obtain work where w: "capErr = None" "ho_work h = Inr work" "ho_script h = None"
    using assms cap by (auto simp: Run_def split: option.splits sum.splits)
  let ?argv = "[bashBin e, work @ ''/script.sh'']"
  obtain pr out where x: "ho_exec h (run_command e ?argv) = (pr, out)" by fastforce
  obtain ec to where y: "runWithTimeout pr = (ec, to)" by fastforce
  show ?thesis
    using assms cap w x y
    by (intro exI [of _ work]) (auto simp: Run_def scriptArgv_def split: if_splits)
qed

text \<open>C24: a real run never happens unguarded. Where \<open>unshare \<dots> bash -c text\<close> ends as the shell
  ends on \<open>text\<close> (\<open>sh_run\<close>: \<open>cmd\<close> says which commands succeed, \<open>prog\<close> how the program that
  replaces the shell ends), a result of \<open>Run\<close> implies that namespaces were available and that both
  mounts of every protected path, of which there is always at least one, succeeded; the
  reported exit code is then that of the stored script run by the configured shell, and success
  means that it exited 0 in time.\<close>

theorem Run_never_unguarded:
  assumes shell: "\<And>text p. sh_run cmd prog text = Some p \<Longrightarrow>
      fst (ho_exec h [unshareBin e, ''--user'', ''--map-root-user'', ''--mount'', ''--fork'', ''--'', bashBin e, ''-c'', text]) = p"
    and res: "fst (Run e h cap body) = Inr res"
  shows "fst (probeCapability e (ho_probe h) cap) = None \<and> protectedPaths e \<noteq> [] \<and>
    list_all (\<lambda>p. cmd [''mount'', ''--bind'', p, p] \<and> cmd [''mount'', ''-o'', ''remount,bind,ro'', p]) (protectedPaths e) \<and>
    (\<exists>work. ho_work h = Inr work \<and>
      (let x = runWithTimeout (prog [bashBin e, work @ ''/script.sh'']) in
       (RR_ExitCode res, RR_TimedOut res) = x \<and> (RR_Succeeded res \<longleftrightarrow> x = (0, False))))"
proof -
  have run: "fst (ho_exec h (run_command e argv)) = guard_end cmd (protectedPaths e) (prog argv)" for argv
    using shell [OF sh_run_inner [of cmd prog e argv]] by (simp add: run_command_def)
  obtain work where w: "ho_work h = Inr work" and
    r: "let x = runWithTimeout (guard_end cmd (protectedPaths e) (prog [bashBin e, work @ ''/script.sh''])) in
      fst (probeCapability e (ho_probe h) cap) = None \<and> (RR_ExitCode res, RR_TimedOut res) = x \<and>
      x \<noteq> (bootGuardBindFailedExit, False) \<and> x \<noteq> (bootGuardROFailedExit, False) \<and> (RR_Succeeded res \<longleftrightarrow> x = (0, False))"
    using Run_result [OF res] unfolding Let_def run by blast
  have all: "list_all (guard_mounted cmd) (protectedPaths e)"
  proof (rule ccontr)
    assume "\<not> ?thesis"
    from guard_end_fail [OF this, of "prog [bashBin e, work @ ''/script.sh'']"] r show False
      by (auto simp: Let_def runWithTimeout_def)
  qed
  have "protectedPaths e \<noteq> []" by (simp add: protectedPaths_def)
  with all w r [unfolded guard_end_ok [OF all]] show ?thesis
    by (auto simp: Let_def guard_mounted_def list_all_iff)
qed

definition guard_executor :: Executor where
  "guard_executor = \<lparr>EX_DryRunTimeout = 0, EX_RunTimeout = 0, EX_ProtectedPaths = [], EX_DryRunScratch = [],
     EX_UnshareBin = [], EX_StraceBin = [], EX_BashBin = []\<rparr>"

definition guard_host :: "proc_end \<Rightarrow> host" where
  "guard_host p = \<lparr>ho_probe = None, ho_work = Inr ''/tmp/sa'', ho_shim_mkdir = None, ho_shims = None, ho_script = None,
     ho_transcript_create = None, ho_strace_create = None, ho_exec = (\<lambda>_. (p, ''out'')),
     ho_transcript = FileData [], ho_strace = FileData [], ho_parse_ts = (\<lambda>_. zero_time)\<rparr>"

lemma sh_exec_one: "sh_exec cmd (\<lambda>_. q) ls = Some p \<Longrightarrow> cmd = (\<lambda>_. True) \<Longrightarrow> p = q"
  by (induction ls) (auto split: option.splits sh_cmd.splits)

theorem Run_never_unguarded_witness:
  "fst (Run guard_executor (guard_host (Exited 0)) None ''true'') =
     Inr \<lparr>RR_ExitCode = 0, RR_Succeeded = True, RR_TimedOut = False, RR_Output = ''out''\<rparr> \<and>
   sh_run (\<lambda>_. True) (\<lambda>_. Exited 0) (run_inner guard_executor [''bash'', ''/tmp/sa/script.sh'']) = Some (Exited 0) \<and>
   protectedPaths guard_executor \<noteq> []"
proof -
  have shell: "fst (ho_exec (guard_host (Exited 0)) [unshareBin guard_executor, ''--user'', ''--map-root-user'', ''--mount'',
      ''--fork'', ''--'', bashBin guard_executor, ''-c'', t]) = p" if "sh_run (\<lambda>_. True) (\<lambda>_. Exited 0) t = Some p" for t p
    using that sh_exec_one [of "\<lambda>_. True" "Exited 0" _ p]
    by (auto simp: guard_host_def sh_run_def split: Option.bind_splits)
  have res: "fst (Run guard_executor (guard_host (Exited 0)) None ''true'') =
      Inr \<lparr>RR_ExitCode = 0, RR_Succeeded = True, RR_TimedOut = False, RR_Output = ''out''\<rparr>"
    by (simp add: Run_def probeCapability_def guard_host_def scriptArgv_def runWithTimeout_def
        bootGuardBindFailedExit_def bootGuardROFailedExit_def)
  from Run_never_unguarded [OF shell res] res show ?thesis
    by (simp add: sh_run_inner) (simp add: protectedPaths_def guard_executor_def)
qed

definition spaced_violation :: string where
  "spaced_violation =
     ''[2026-08-09T17:20:55.1+0800] 7 CMD rm /boot/a b'' @ sandbox_nl @
     ''[2026-08-09T17:20:55.2+0800] 7 VIOLATION cmd=rm target=/boot/a b reason=boot-write-forbidden'' @ sandbox_nl"

definition plain_violation :: string where
  "plain_violation = ''[2026-08-09T17:20:55.2+0800] 7 VIOLATION cmd=rm target=/boot/a reason=boot-write-forbidden'' @ sandbox_nl"

text \<open>Three ways the evidence is lost. (a) The shims print a violation's target
  unquoted, and the format admits no blank in it: a refused write below \<open>/boot\<close> to a name with a
  space is not recognised and the dry run is approved. (b) A script that itself exits with 97 is
  reported as one that never ran. (c) A capability probe that failed once, for
  whatever reason, is kept: every later dry run is rejected although the sandbox works.\<close>

theorem evidence_lost:
  "fst (verdict (\<lambda>_. zero_time) (FileData spaced_violation) (FileData []) ''/tmp/sa/bin'' 0 False) \<and>
   \<not> fst (verdict (\<lambda>_. zero_time) (FileData plain_violation) (FileData []) ''/tmp/sa/bin'' 0 False) \<and>
   fst (Run guard_executor (guard_host (Exited 97)) None ''exit 97'') = Inl (ErrProtectedPathGuardFailed ''out'') \<and>
   (let cap = snd (DryRun guard_executor ((guard_host (Exited 0))\<lparr>ho_probe := Some ''context canceled''\<rparr>) None ''true'')
    in map_sum id DR_Approved (fst (DryRun guard_executor (guard_host (Exited 0)) cap ''true'')) = Inr False \<and>
       map_sum id DR_Approved (fst (DryRun guard_executor (guard_host (Exited 0)) None ''true'')) = Inr True)"
  by code_simp

end
