(* ===== verification/Scripts.thy ===== *)
theory Scripts
  imports Store Sandbox Sha256
begin

text \<open>
  The script registry of \<open>internal/scripts\<close>: \<open>domain.go\<close> (scripts, proposals and their state
  machine, grants), \<open>store.go\<close> with its SQL, \<open>registry.go\<close> (the proposal lifecycle) and
  \<open>grants.go\<close>. An operation is a function from the world (the four tables, a tick that indexes
  the environment, and logs of the dry and the real runs) to its error or result and the new world.
  The environment supplies what the code reads from outside at each tick: the clock, random ids,
  store failures, the outcome of a dry run, of a precondition check and of a real run. The
  hash is a parameter too; the program's is \<open>hashScript\<close>, and nothing below depends on it.
\<close>

section \<open>Domain\<close>

definition hashScript :: "string \<Rightarrow> string" where
  "hashScript body = hex_EncodeToString (Sum256 body)"

record Script =
  SC_SHA256 :: string
  SC_Body :: string
  SC_CreatedAt :: gotime

definition NewScript :: "(string \<Rightarrow> string) \<Rightarrow> string \<Rightarrow> gotime \<Rightarrow> Script" where
  "NewScript hash body now = \<lparr>SC_SHA256 = hash body, SC_Body = body, SC_CreatedAt = now\<rparr>"

text \<open>\<open>StateEmpty\<close> is the empty string, the source of a proposal's first audit entry.\<close>

datatype ProposalState =
    StateEmpty | StateProposed | StateDryRunOK | StateDryRunFailed | StateAwaitingApproval | StateApproved
  | StateDenied | StateExpired | StateRunning | StateSucceeded | StateFailed | StatePreconditionFailed

fun transitions :: "ProposalState \<Rightarrow> ProposalState list" where
  "transitions StateProposed = [StateDryRunOK, StateDryRunFailed]"
| "transitions StateDryRunOK = [StateAwaitingApproval]"
| "transitions StateDryRunFailed = [StateProposed]"
| "transitions StateAwaitingApproval = [StateApproved, StateDenied, StateExpired, StateProposed]"
| "transitions StateApproved = [StateRunning, StateProposed]"
| "transitions StateDenied = []"
| "transitions StateExpired = []"
| "transitions StateRunning = [StateSucceeded, StateFailed, StatePreconditionFailed]"
| "transitions StateSucceeded = []"
| "transitions StatePreconditionFailed = [StateAwaitingApproval]"
| "transitions StateFailed = []"
| "transitions StateEmpty = []"

definition CanTransitionTo :: "ProposalState \<Rightarrow> ProposalState \<Rightarrow> bool" where
  "CanTransitionTo s next \<longleftrightarrow> next \<in> set (transitions s)"

definition Terminal :: "ProposalState \<Rightarrow> bool" where
  "Terminal s \<longleftrightarrow> length (transitions s) = 0"

record Proposal =
  P_ID :: string
  P_ScriptHash :: string
  P_State :: ProposalState
  P_CreatedAt :: gotime
  P_UpdatedAt :: gotime
  P_RejectReasons :: "string list"
  P_Warnings :: "string list"
  P_Transcript :: "TranscriptEntry list"
  P_ApprovedBy :: string
  P_ApprovedAt :: gotime
  P_DeniedBy :: string
  P_DeniedAt :: gotime
  P_DenyReason :: string

record AuditEntry =
  A_ID :: string
  A_ProposalID :: string
  A_FromState :: ProposalState
  A_ToState :: ProposalState
  A_Actor :: string
  A_Reason :: string
  A_At :: gotime

datatype GrantScope = ScopeSession | ScopeStanding | ScopeOther string

record Grant =
  G_ID :: string
  G_ScriptHash :: string
  G_Scope :: GrantScope
  G_SessionID :: string
  G_APIKeyID :: string
  G_GrantedAt :: gotime
  G_ExpiresAt :: gotime
  G_LastRunAt :: gotime
  G_RevokedAt :: gotime

definition Grant_Expired :: "Grant \<Rightarrow> gotime \<Rightarrow> bool" where
  "Grant_Expired g now \<longleftrightarrow> \<not> IsZero (G_ExpiresAt g) \<and> \<not> now < G_ExpiresAt g"

definition Grant_Revoked :: "Grant \<Rightarrow> bool" where
  "Grant_Revoked g \<longleftrightarrow> \<not> IsZero (G_RevokedAt g)"

datatype regErr =
    ErrInvalidTransition ProposalState ProposalState
  | ErrDryRunRequired ProposalState
  | ErrGrantExpired | ErrGrantRevoked | ErrGrantNotApproved
  | ErrPreconditionFailed string
  | ErrProposalNotFound | ErrScriptNotFound | ErrGrantNotFound
  | ErrIdenticalEdit | ErrSessionRequired
  | ErrDriver string
  | ErrSandbox sbErr
  | ErrWrap string regErr

section \<open>World and environment\<close>

record World =
  w_scripts :: "Script list"
  w_proposals :: "Proposal list"
  w_audit :: "AuditEntry list"
  w_grants :: "Grant list"
  w_tick :: nat
  w_dry :: "(string \<times> bool) list"
  w_runs :: "(string \<times> string) list"

record Env =
  e_now :: "nat \<Rightarrow> gotime"
  e_id :: "nat \<Rightarrow> string"
  e_fail :: "nat \<Rightarrow> string option"
  e_dry :: "nat \<Rightarrow> string \<Rightarrow> sbErr + DryRunResult"
  e_run :: "nat \<Rightarrow> string \<Rightarrow> sbErr + RunResult"
  e_precond :: "(nat \<Rightarrow> string \<Rightarrow> string option) option"
  e_hash :: "string \<Rightarrow> string"

definition empty_World :: World where
  "empty_World = \<lparr>w_scripts = [], w_proposals = [], w_audit = [], w_grants = [], w_tick = 0, w_dry = [], w_runs = []\<rparr>"

type_synonym 'a op = "World \<Rightarrow> (regErr + 'a) \<times> World"

definition op_return :: "'a \<Rightarrow> 'a op" where
  "op_return x w = (Inr x, w)"

definition op_fail :: "regErr \<Rightarrow> 'a op" where
  "op_fail e w = (Inl e, w)"

definition op_bind :: "'a op \<Rightarrow> ('a \<Rightarrow> 'b op) \<Rightarrow> 'b op" where
  "op_bind m f w = (case m w of (Inl e, w') \<Rightarrow> (Inl e, w') | (Inr x, w') \<Rightarrow> f x w')"

definition op_wrap :: "string \<Rightarrow> 'a op \<Rightarrow> 'a op" where
  "op_wrap msg m w = (case m w of (Inl e, w') \<Rightarrow> (Inl (ErrWrap msg e), w') | r \<Rightarrow> r)"

definition tick :: "World \<Rightarrow> World" where
  "tick w = w\<lparr>w_tick := Suc (w_tick w)\<rparr>"

definition r_now :: "Env \<Rightarrow> gotime op" where
  "r_now env w = (Inr (e_now env (w_tick w)), tick w)"

definition r_newID :: "Env \<Rightarrow> string op" where
  "r_newID env w = (Inr (e_id env (w_tick w)), tick w)"

text \<open>A store call that the driver may fail; a failed statement changes nothing.\<close>

definition db_call :: "Env \<Rightarrow> 'a op \<Rightarrow> 'a op" where
  "db_call env f w =
     (case e_fail env (w_tick w) of
        Some e \<Rightarrow> (Inl (ErrDriver e), tick w)
      | None \<Rightarrow> f (tick w))"

section \<open>The store\<close>

text \<open>
  A row is kept as the value it reads back as: times cut to the millisecond with 0 for "not yet
  set", and text that went through JSON as UTF-8. Inserting an existing key fails on the primary key; an update of a missing row changes
  nothing and succeeds.
\<close>

definition row_time :: "gotime \<Rightarrow> gotime" where
  "row_time t = timeFromMillis (millisFromTime t)"

definition script_row :: "Script \<Rightarrow> Script" where
  "script_row s = s\<lparr>SC_CreatedAt := row_time (SC_CreatedAt s)\<rparr>"

text \<open>The reasons, the warnings and the transcript are stored as JSON.\<close>

definition json_entry :: "TranscriptEntry \<Rightarrow> TranscriptEntry" where
  "json_entry t = t\<lparr>TE_Kind := json_text (TE_Kind t), TE_Raw := json_text (TE_Raw t)\<rparr>"

definition proposal_row :: "Proposal \<Rightarrow> Proposal" where
  "proposal_row p = p\<lparr>P_CreatedAt := row_time (P_CreatedAt p), P_UpdatedAt := row_time (P_UpdatedAt p),
     P_ApprovedAt := row_time (P_ApprovedAt p), P_DeniedAt := row_time (P_DeniedAt p),
     P_RejectReasons := map json_text (P_RejectReasons p), P_Warnings := map json_text (P_Warnings p),
     P_Transcript := map json_entry (P_Transcript p)\<rparr>"

definition audit_row :: "AuditEntry \<Rightarrow> AuditEntry" where
  "audit_row a = a\<lparr>A_At := row_time (A_At a)\<rparr>"

definition grant_row :: "Grant \<Rightarrow> Grant" where
  "grant_row g = g\<lparr>G_GrantedAt := row_time (G_GrantedAt g), G_ExpiresAt := row_time (G_ExpiresAt g),
     G_LastRunAt := row_time (G_LastRunAt g), G_RevokedAt := row_time (G_RevokedAt g)\<rparr>"

definition unique_err :: regErr where
  "unique_err = ErrDriver ''UNIQUE constraint failed''"

definition UpsertScript :: "Env \<Rightarrow> Script \<Rightarrow> unit op" where
  "UpsertScript env s = db_call env (\<lambda>w.
     (Inr (), if SC_SHA256 s \<in> SC_SHA256 ` set (w_scripts w) then w
              else w\<lparr>w_scripts := w_scripts w @ [script_row s]\<rparr>))"

definition GetScript :: "Env \<Rightarrow> string \<Rightarrow> Script op" where
  "GetScript env hash = db_call env (\<lambda>w.
     (case find_row SC_SHA256 hash (w_scripts w) of None \<Rightarrow> Inl ErrScriptNotFound | Some s \<Rightarrow> Inr s, w))"

definition InsertProposal :: "Env \<Rightarrow> Proposal \<Rightarrow> unit op" where
  "InsertProposal env p = db_call env (\<lambda>w.
     if P_ID p \<in> P_ID ` set (w_proposals w) then (Inl unique_err, w)
     else (Inr (), w\<lparr>w_proposals := w_proposals w @ [proposal_row p]\<rparr>))"

text \<open>The \<open>UPDATE\<close> leaves \<open>created_at\<close> as it is.\<close>

definition UpdateProposal :: "Env \<Rightarrow> Proposal \<Rightarrow> unit op" where
  "UpdateProposal env p = db_call env (\<lambda>w.
     (Inr (), w\<lparr>w_proposals := map (\<lambda>r. if P_ID r = P_ID p
        then (proposal_row p)\<lparr>P_CreatedAt := P_CreatedAt r\<rparr> else r) (w_proposals w)\<rparr>))"

definition store_GetProposal :: "Env \<Rightarrow> string \<Rightarrow> Proposal op" where
  "store_GetProposal env i = db_call env (\<lambda>w.
     (case find_row P_ID i (w_proposals w) of None \<Rightarrow> Inl ErrProposalNotFound | Some p \<Rightarrow> Inr p, w))"

definition ListPendingProposals :: "Env \<Rightarrow> Proposal list op" where
  "ListPendingProposals env = db_call env (\<lambda>w.
     (Inr (sort_key (\<lambda>p. millisFromTime (P_CreatedAt p)) (filter (\<lambda>p. P_State p = StateAwaitingApproval) (w_proposals w))), w))"

definition FindApprovedProposalByHash :: "Env \<Rightarrow> string \<Rightarrow> Proposal option op" where
  "FindApprovedProposalByHash env hash = db_call env (\<lambda>w.
     (Inr (case sort_key (\<lambda>p. - millisFromTime (P_ApprovedAt p))
              (filter (\<lambda>p. P_ScriptHash p = hash \<and> P_State p = StateApproved) (w_proposals w)) of
             [] \<Rightarrow> None | p # _ \<Rightarrow> Some p), w))"

definition AppendAudit :: "Env \<Rightarrow> AuditEntry \<Rightarrow> unit op" where
  "AppendAudit env a = db_call env (\<lambda>w.
     if A_ID a \<in> A_ID ` set (w_audit w) then (Inl unique_err, w)
     else (Inr (), w\<lparr>w_audit := w_audit w @ [audit_row a]\<rparr>))"

definition ListAudit :: "Env \<Rightarrow> string \<Rightarrow> AuditEntry list op" where
  "ListAudit env i = db_call env (\<lambda>w.
     (Inr (sort_key (\<lambda>a. millisFromTime (A_At a)) (filter (\<lambda>a. A_ProposalID a = i) (w_audit w))), w))"

definition InsertGrant :: "Env \<Rightarrow> Grant \<Rightarrow> unit op" where
  "InsertGrant env g = db_call env (\<lambda>w.
     if G_ID g \<in> G_ID ` set (w_grants w) then (Inl unique_err, w)
     else (Inr (), w\<lparr>w_grants := w_grants w @ [grant_row g]\<rparr>))"

definition GetGrant :: "Env \<Rightarrow> string \<Rightarrow> Grant op" where
  "GetGrant env i = db_call env (\<lambda>w.
     (case find_row G_ID i (w_grants w) of None \<Rightarrow> Inl ErrGrantNotFound | Some g \<Rightarrow> Inr g, w))"

definition store_ListGrants :: "Env \<Rightarrow> Grant list op" where
  "store_ListGrants env = db_call env (\<lambda>w. (Inr (sort_key (\<lambda>g. - millisFromTime (G_GrantedAt g)) (w_grants w)), w))"

definition store_RevokeGrant :: "Env \<Rightarrow> string \<Rightarrow> gotime \<Rightarrow> unit op" where
  "store_RevokeGrant env i at = db_call env (\<lambda>w.
     (Inr (), w\<lparr>w_grants := map (\<lambda>g. if G_ID g = i then g\<lparr>G_RevokedAt := row_time at\<rparr> else g) (w_grants w)\<rparr>))"

definition TouchGrantLastRun :: "Env \<Rightarrow> string \<Rightarrow> gotime \<Rightarrow> unit op" where
  "TouchGrantLastRun env i at = db_call env (\<lambda>w.
     (Inr (), w\<lparr>w_grants := map (\<lambda>g. if G_ID g = i then g\<lparr>G_LastRunAt := row_time at\<rparr> else g) (w_grants w)\<rparr>))"

section \<open>The registry\<close>

fun state_name :: "ProposalState \<Rightarrow> string" where
  "state_name StateEmpty = ''''"
| "state_name StateProposed = ''proposed''"
| "state_name StateDryRunOK = ''dry_run_ok''"
| "state_name StateDryRunFailed = ''dry_run_failed''"
| "state_name StateAwaitingApproval = ''awaiting_approval''"
| "state_name StateApproved = ''approved''"
| "state_name StateDenied = ''denied''"
| "state_name StateExpired = ''expired''"
| "state_name StateRunning = ''running''"
| "state_name StateSucceeded = ''succeeded''"
| "state_name StateFailed = ''failed''"
| "state_name StatePreconditionFailed = ''precondition_failed''"

text \<open>\<open>transition\<close> returns the proposal the pointer then holds.\<close>

definition transition :: "Env \<Rightarrow> Proposal \<Rightarrow> ProposalState \<Rightarrow> string \<Rightarrow> string \<Rightarrow> Proposal op" where
  "transition env p next actor reason =
     (if \<not> CanTransitionTo (P_State p) next then op_fail (ErrInvalidTransition (P_State p) next)
      else op_bind (r_now env) (\<lambda>now.
        let p1 = p\<lparr>P_State := next, P_UpdatedAt := now\<rparr> in
        op_bind (op_wrap (''scripts: persist transition '' @ state_name (P_State p) @ ''->'' @ state_name next)
                  (UpdateProposal env p1)) (\<lambda>_.
        op_bind (r_newID env) (\<lambda>aid.
        op_bind (r_now env) (\<lambda>at.
        op_bind (AppendAudit env \<lparr>A_ID = aid, A_ProposalID = P_ID p, A_FromState = P_State p, A_ToState = next,
                   A_Actor = actor, A_Reason = reason, A_At = at\<rparr>) (\<lambda>_. op_return p1))))))"

fun join_tail :: "string list \<Rightarrow> string" where
  "join_tail [] = []"
| "join_tail (r # rs) = ''; '' @ r @ join_tail rs"

definition joinReasons :: "string list \<Rightarrow> string" where
  "joinReasons reasons = (case reasons of [] \<Rightarrow> ''(no reasons recorded)'' | r # rs \<Rightarrow> r @ join_tail rs)"

text \<open>\<open>r.exec.DryRun\<close>, noted in the log of dry runs.\<close>

definition r_dry :: "Env \<Rightarrow> string \<Rightarrow> DryRunResult op" where
  "r_dry env body w =
     (case e_dry env (w_tick w) body of
        Inl e \<Rightarrow> (Inl (ErrSandbox e), tick w)
      | Inr r \<Rightarrow> (Inr r, (tick w)\<lparr>w_dry := w_dry w @ [(body, DR_Approved r)]\<rparr>))"

definition runDryRunAndAdvance :: "Env \<Rightarrow> Proposal \<Rightarrow> Script \<Rightarrow> string \<Rightarrow> Proposal op" where
  "runDryRunAndAdvance env p script actor =
     op_bind (op_wrap ''scripts: dry run'' (r_dry env (SC_Body script))) (\<lambda>result.
       let p1 = p\<lparr>P_RejectReasons := DR_Reasons result, P_Warnings := DR_Warnings result,
                  P_Transcript := DR_Transcript result\<rparr> in
       if \<not> DR_Approved result
       then transition env p1 StateDryRunFailed actor (''dry run rejected: '' @ joinReasons (DR_Reasons result))
       else op_bind (transition env p1 StateDryRunOK actor ''dry run approved-for-review'') (\<lambda>p2.
            transition env p2 StateAwaitingApproval actor ''clean dry run: awaiting human approval''))"

definition new_proposal :: "string \<Rightarrow> string \<Rightarrow> gotime \<Rightarrow> gotime \<Rightarrow> Proposal" where
  "new_proposal i hash created updated =
     \<lparr>P_ID = i, P_ScriptHash = hash, P_State = StateProposed, P_CreatedAt = created, P_UpdatedAt = updated,
      P_RejectReasons = [], P_Warnings = [], P_Transcript = [], P_ApprovedBy = '''', P_ApprovedAt = zero_time,
      P_DeniedBy = '''', P_DeniedAt = zero_time, P_DenyReason = ''''\<rparr>"

definition Propose :: "Env \<Rightarrow> string \<Rightarrow> string \<Rightarrow> Proposal op" where
  "Propose env txt actor =
     op_bind (r_now env) (\<lambda>now.
       let script = NewScript (e_hash env) txt now in
     op_bind (op_wrap ''scripts: store script'' (UpsertScript env script)) (\<lambda>_.
     op_bind (r_newID env) (\<lambda>i.
     op_bind (r_now env) (\<lambda>created.
     op_bind (r_now env) (\<lambda>updated.
       let p = new_proposal i (SC_SHA256 script) created updated in
     op_bind (op_wrap ''scripts: store proposal'' (InsertProposal env p)) (\<lambda>_.
     op_bind (r_newID env) (\<lambda>aid.
     op_bind (r_now env) (\<lambda>at.
     op_bind (AppendAudit env \<lparr>A_ID = aid, A_ProposalID = P_ID p, A_FromState = StateEmpty, A_ToState = StateProposed,
                A_Actor = actor, A_Reason = ''proposed'', A_At = at\<rparr>) (\<lambda>_.
     runDryRunAndAdvance env p script actor)))))))))"

definition countLines :: "string \<Rightarrow> int" where
  "countLines s = foldl (\<lambda>n c. if c = CHR 0x0A then n + 1 else n) 1 s"

definition diffSummary :: "string \<Rightarrow> string \<Rightarrow> string" where
  "diffSummary oldBody newBody =
     itoa (int (length oldBody)) @ '' -> '' @ itoa (int (length newBody)) @ '' bytes, '' @
     itoa (countLines oldBody) @ '' -> '' @ itoa (countLines newBody) @ '' lines''"

definition Edit :: "Env \<Rightarrow> string \<Rightarrow> string \<Rightarrow> string \<Rightarrow> Proposal op" where
  "Edit env proposalID newText actor =
     op_bind (store_GetProposal env proposalID) (\<lambda>p.
     op_bind (GetScript env (P_ScriptHash p)) (\<lambda>oldScript.
     op_bind (r_now env) (\<lambda>now.
       let newScript = NewScript (e_hash env) newText now in
       if SC_SHA256 newScript = SC_SHA256 oldScript then op_fail ErrIdenticalEdit
       else op_bind (op_wrap ''scripts: store edited script'' (UpsertScript env newScript)) (\<lambda>_.
            op_bind (transition env (p\<lparr>P_ScriptHash := SC_SHA256 newScript\<rparr>) StateProposed actor
                       (''edited: '' @ diffSummary (SC_Body oldScript) (SC_Body newScript))) (\<lambda>p1.
            runDryRunAndAdvance env p1 newScript actor)))))"

definition reg_Approve :: "Env \<Rightarrow> string \<Rightarrow> string \<Rightarrow> Proposal op" where
  "reg_Approve env proposalID actor =
     op_bind (store_GetProposal env proposalID) (\<lambda>p.
       if P_State p \<noteq> StateAwaitingApproval then op_fail (ErrDryRunRequired (P_State p))
       else op_bind (r_now env) (\<lambda>now.
            transition env (p\<lparr>P_ApprovedBy := actor, P_ApprovedAt := now\<rparr>) StateApproved actor ''approved''))"

definition reg_Deny :: "Env \<Rightarrow> string \<Rightarrow> string \<Rightarrow> string \<Rightarrow> Proposal op" where
  "reg_Deny env proposalID actor reason =
     op_bind (store_GetProposal env proposalID) (\<lambda>p.
     op_bind (r_now env) (\<lambda>now.
       transition env (p\<lparr>P_DeniedBy := actor, P_DeniedAt := now, P_DenyReason := reason\<rparr>) StateDenied actor reason))"

definition reg_Expire :: "Env \<Rightarrow> string \<Rightarrow> string \<Rightarrow> Proposal op" where
  "reg_Expire env proposalID actor =
     op_bind (store_GetProposal env proposalID) (\<lambda>p. transition env p StateExpired actor ''expired'')"

text \<open>The precondition checker, and \<open>r.exec.Run\<close> noted in the log of real runs.\<close>

definition r_precond :: "Env \<Rightarrow> string \<Rightarrow> string option op" where
  "r_precond env body w =
     (case e_precond env of
        None \<Rightarrow> (Inr None, w)
      | Some check \<Rightarrow> (Inr (check (w_tick w) body), tick w))"

definition r_run :: "Env \<Rightarrow> string \<Rightarrow> string \<Rightarrow> (sbErr + RunResult) op" where
  "r_run env proposalID body w =
     (Inr (e_run env (w_tick w) body), (tick w)\<lparr>w_runs := w_runs w @ [(proposalID, body)]\<rparr>)"

text \<open>
  \<open>Execute\<close> returns a proposal with a result, or a proposal with an error, or an error alone.
  \<open>execute_from\<close> is its body behind the first read.
\<close>

definition execute_from :: "Env \<Rightarrow> string \<Rightarrow> Proposal \<Rightarrow> (Proposal \<times> (regErr + RunResult)) op" where
  "execute_from env actor p =
     op_bind (GetScript env (P_ScriptHash p)) (\<lambda>script.
     op_bind (r_precond env (SC_Body script)) (\<lambda>perr.
       case perr of
         Some e \<Rightarrow>
           op_bind (transition env p StateRunning actor ''starting execution'') (\<lambda>p1.
           op_bind (transition env p1 StatePreconditionFailed actor (''precondition check failed: '' @ e)) (\<lambda>p2.
           op_bind (transition env p2 StateAwaitingApproval actor ''returned to pending: grant survives, run does not'') (\<lambda>p3.
             op_return (p3, Inl (ErrPreconditionFailed e)))))
       | None \<Rightarrow>
           op_bind (transition env p StateRunning actor ''starting execution'') (\<lambda>p1.
           op_bind (r_run env (P_ID p1) (SC_Body script)) (\<lambda>outcome.
             case outcome of
               Inl runErr \<Rightarrow>
                 op_bind (transition env p1 StateFailed actor (''execution error: '' @ sbErr_Error runErr)) (\<lambda>p2.
                   op_return (p2, Inl (ErrSandbox runErr)))
             | Inr result \<Rightarrow>
                 op_bind (transition env p1 (if RR_Succeeded result then StateSucceeded else StateFailed) actor
                           (''exit code '' @ itoa (RR_ExitCode result))) (\<lambda>p2.
                   op_return (p2, Inr result))))))"

definition Execute :: "Env \<Rightarrow> string \<Rightarrow> string \<Rightarrow> (Proposal \<times> (regErr + RunResult)) op" where
  "Execute env proposalID actor = op_bind (store_GetProposal env proposalID) (execute_from env actor)"

section \<open>Grants\<close>

record GrantTTLs =
  ttl_Session :: duration
  ttl_Standing :: duration

definition forScope :: "GrantTTLs \<Rightarrow> GrantScope \<Rightarrow> duration" where
  "forScope t scope =
     (if scope = ScopeStanding
      then (if ttl_Standing t > 0 then ttl_Standing t else 90 * 24 * nsHour)
      else (if ttl_Session t > 0 then ttl_Session t else 4 * nsHour))"

definition IssueGrant :: "Env \<Rightarrow> string \<Rightarrow> GrantScope \<Rightarrow> string \<Rightarrow> string \<Rightarrow> GrantTTLs \<Rightarrow> Grant op" where
  "IssueGrant env scriptHash scope apiKeyID sessionID ttls =
     (if scope = ScopeSession \<and> sessionID = '''' then op_fail ErrSessionRequired
      else op_bind (r_now env) (\<lambda>now.
           op_bind (r_newID env) (\<lambda>i.
             let g = \<lparr>G_ID = i, G_ScriptHash = scriptHash, G_Scope = scope, G_SessionID = sessionID, G_APIKeyID = apiKeyID,
                      G_GrantedAt = now, G_ExpiresAt = now + forScope ttls scope, G_LastRunAt = zero_time,
                      G_RevokedAt = zero_time\<rparr> in
           op_bind (op_wrap ''scripts: store grant'' (InsertGrant env g)) (\<lambda>_. op_return g))))"

definition CheckGrant :: "Env \<Rightarrow> string \<Rightarrow> gotime \<Rightarrow> Grant op" where
  "CheckGrant env grantID now =
     op_bind (GetGrant env grantID) (\<lambda>g.
       if Grant_Revoked g then op_fail ErrGrantRevoked
       else if Grant_Expired g now then op_fail ErrGrantExpired
       else op_bind (FindApprovedProposalByHash env (G_ScriptHash g)) (\<lambda>found.
              case found of None \<Rightarrow> op_fail ErrGrantNotApproved | Some _ \<Rightarrow> op_return g))"

definition TouchGrant :: "Env \<Rightarrow> string \<Rightarrow> gotime \<Rightarrow> unit op" where
  "TouchGrant env grantID at = TouchGrantLastRun env grantID at"

definition reg_RevokeGrant :: "Env \<Rightarrow> string \<Rightarrow> string \<Rightarrow> unit op" where
  "reg_RevokeGrant env grantID actor = op_bind (r_now env) (\<lambda>now. store_RevokeGrant env grantID now)"

definition reg_ListGrants :: "Env \<Rightarrow> Grant list op" where
  "reg_ListGrants env = store_ListGrants env"

text \<open>Every call that changes the world, for runs over the registry.\<close>

datatype rcall =
    CPropose string string | CEdit string string string | CApprove string string | CDeny string string string
  | CExpire string string | CExecute string string
  | CIssue string GrantScope string string GrantTTLs | CTouch string gotime | CRevoke string string

fun rstep :: "Env \<Rightarrow> rcall \<Rightarrow> World \<Rightarrow> World" where
  "rstep env (CPropose txt actor) w = snd (Propose env txt actor w)"
| "rstep env (CEdit i txt actor) w = snd (Edit env i txt actor w)"
| "rstep env (CApprove i actor) w = snd (reg_Approve env i actor w)"
| "rstep env (CDeny i actor reason) w = snd (reg_Deny env i actor reason w)"
| "rstep env (CExpire i actor) w = snd (reg_Expire env i actor w)"
| "rstep env (CExecute i actor) w = snd (Execute env i actor w)"
| "rstep env (CIssue h sc key ses ttls) w = snd (IssueGrant env h sc key ses ttls w)"
| "rstep env (CTouch i at) w = snd (TouchGrant env i at w)"
| "rstep env (CRevoke i actor) w = snd (reg_RevokeGrant env i actor w)"

end
