(* ===== verification/Scripts_Props.thy ===== *)
theory Scripts_Props
  imports Scripts
begin

text \<open>
  What the script registry guarantees over every sequence of calls, whatever the environment
  does: triples for its operations (\<open>valid\<close>), the invariant that ties a proposal's state to
  a successful dry run of its text, the runs, the audit trail and the grants.
\<close>

section \<open>Triples\<close>

named_theorems op_rules \<open>triples for the primitive operations\<close>

definition valid :: "(World \<Rightarrow> bool) \<Rightarrow> 'a op \<Rightarrow> ('a \<Rightarrow> World \<Rightarrow> bool) \<Rightarrow> (World \<Rightarrow> bool) \<Rightarrow> bool" where
  "valid P m Q E \<longleftrightarrow> (\<forall>w. P w \<longrightarrow> (case m w of (Inl e, w') \<Rightarrow> E w' | (Inr x, w') \<Rightarrow> Q x w'))"

lemma valid_bind: "valid P m R E \<Longrightarrow> (\<And>x. valid (R x) (f x) Q E) \<Longrightarrow> valid P (op_bind m f) Q E"
  by (fastforce simp: valid_def op_bind_def split: prod.splits sum.splits)

lemma valid_wrap: "valid P m Q E \<Longrightarrow> valid P (op_wrap msg m) Q E"
  by (fastforce simp: valid_def op_wrap_def split: prod.splits sum.splits)

lemma valid_return: "(\<And>w. P w \<Longrightarrow> Q x w) \<Longrightarrow> valid P (op_return x) Q E"
  by (simp add: valid_def op_return_def)

lemma valid_fail: "(\<And>w. P w \<Longrightarrow> E w) \<Longrightarrow> valid P (op_fail e) Q E"
  by (simp add: valid_def op_fail_def)

lemma valid_pre: "valid P m Q E \<Longrightarrow> (\<And>w. P' w \<Longrightarrow> P w) \<Longrightarrow> valid P' m Q E"
  by (simp add: valid_def)

lemma valid_post: "valid P m Q E \<Longrightarrow> (\<And>x w. Q x w \<Longrightarrow> Q' x w) \<Longrightarrow> valid P m Q' E"
  by (fastforce simp: valid_def split: prod.splits sum.splits)

lemma valid_world:
  assumes "valid P m (\<lambda>_. E) E" "P w"
  shows "E (snd (m w))"
  using assms by (cases "m w"; cases "fst (m w)") (auto simp: valid_def)

section \<open>The invariant\<close>

text \<open>States a proposal can only be in after a dry run of its text was approved.\<close>

fun past_dry_run :: "ProposalState \<Rightarrow> bool" where
  "past_dry_run StateEmpty = False"
| "past_dry_run StateProposed = False"
| "past_dry_run StateDryRunFailed = False"
| "past_dry_run _ = True"

definition proven :: "Env \<Rightarrow> (string \<times> bool) list \<Rightarrow> string \<Rightarrow> bool" where
  "proven env dry hash \<longleftrightarrow> (\<exists>body. e_hash env body = hash \<and> (body, True) \<in> set dry)"

definition reg_inv :: "Env \<Rightarrow> World \<Rightarrow> bool" where
  "reg_inv env w \<longleftrightarrow>
     (\<forall>s \<in> set (w_scripts w). SC_SHA256 s = e_hash env (SC_Body s)) \<and>
     distinct (map P_ID (w_proposals w)) \<and>
     (\<forall>p \<in> set (w_proposals w). past_dry_run (P_State p) \<longrightarrow> proven env (w_dry w) (P_ScriptHash p))"

text \<open>The invariant with the log of real runs fixed, and with the log of dry runs fixed too.\<close>

definition calm :: "Env \<Rightarrow> (string \<times> string) list \<Rightarrow> World \<Rightarrow> bool" where
  "calm env runs w \<longleftrightarrow> reg_inv env w \<and> w_runs w = runs"

definition quiet :: "Env \<Rightarrow> (string \<times> string) list \<Rightarrow> (string \<times> bool) list \<Rightarrow> World \<Rightarrow> bool" where
  "quiet env runs dry w \<longleftrightarrow> calm env runs w \<and> w_dry w = dry"

lemma past_dry_run_edge:
  "CanTransitionTo s next \<Longrightarrow> past_dry_run next \<Longrightarrow> s = StateProposed \<and> next = StateDryRunOK \<or> past_dry_run s"
  by (cases s) (auto simp: CanTransitionTo_def)

lemma tick_frame [simp]:
  "w_scripts (tick w) = w_scripts w" "w_proposals (tick w) = w_proposals w" "w_audit (tick w) = w_audit w"
  "w_grants (tick w) = w_grants w" "w_dry (tick w) = w_dry w" "w_runs (tick w) = w_runs w"
  "w_tick (tick w) = Suc (w_tick w)"
  by (simp_all add: tick_def)

lemma proposal_row_keep [simp]:
  "P_ID (proposal_row p) = P_ID p" "P_State (proposal_row p) = P_State p" "P_ScriptHash (proposal_row p) = P_ScriptHash p"
  by (simp_all add: proposal_row_def)

lemma script_row_keep [simp]: "SC_SHA256 (script_row s) = SC_SHA256 s" "SC_Body (script_row s) = SC_Body s"
  by (simp_all add: script_row_def)

lemmas quiet_defs = quiet_def calm_def reg_inv_def

lemma quiet_calm: "quiet env runs dry w \<Longrightarrow> calm env runs w"
  by (simp add: quiet_def)

lemma proven_mono: "proven env dry h \<Longrightarrow> set dry \<subseteq> set dry' \<Longrightarrow> proven env dry' h"
  by (auto simp: proven_def)

lemma now_inv: "valid (quiet env runs dry) (r_now env) (\<lambda>_. quiet env runs dry) E"
  by (auto simp: valid_def r_now_def quiet_defs)

lemma newID_inv: "valid (quiet env runs dry) (r_newID env) (\<lambda>_. quiet env runs dry) E"
  by (auto simp: valid_def r_newID_def quiet_defs)

lemma UpsertScript_inv:
  assumes "SC_SHA256 s = e_hash env (SC_Body s)"
  shows "valid (quiet env runs dry) (UpsertScript env s) (\<lambda>_. quiet env runs dry) (calm env runs)"
  using assms
  by (auto simp: valid_def UpsertScript_def db_call_def quiet_defs split: option.split)

lemma UpdateProposal_inv:
  assumes "past_dry_run (P_State p) \<Longrightarrow> proven env dry (P_ScriptHash p)"
  shows "valid (quiet env runs dry) (UpdateProposal env p) (\<lambda>_. quiet env runs dry) (calm env runs)"
proof -
  have ids: "map P_ID (map (\<lambda>r. if P_ID r = P_ID p then (proposal_row p)\<lparr>P_CreatedAt := P_CreatedAt r\<rparr> else r) ps) =
      map P_ID ps" for ps
    by (induction ps) simp_all
  show ?thesis using assms
    by (auto simp: valid_def UpdateProposal_def db_call_def quiet_defs ids split: option.split simp del: map_map)
qed

lemma InsertProposal_inv:
  assumes "\<not> past_dry_run (P_State p)"
  shows "valid (quiet env runs dry) (InsertProposal env p) (\<lambda>_. quiet env runs dry) (calm env runs)"
  using assms
  by (auto simp: valid_def InsertProposal_def db_call_def quiet_defs split: option.split)

lemma AppendAudit_inv:
  "valid (quiet env runs dry) (AppendAudit env a) (\<lambda>_. quiet env runs dry) (calm env runs)"
  by (auto simp: valid_def AppendAudit_def db_call_def quiet_defs split: option.split)

lemma GetProposal_inv:
  "valid (quiet env runs dry) (store_GetProposal env i)
     (\<lambda>p w. quiet env runs dry w \<and> (past_dry_run (P_State p) \<longrightarrow> proven env dry (P_ScriptHash p))) (calm env runs)"
  by (auto simp: valid_def store_GetProposal_def db_call_def quiet_defs
      split: option.split dest: find_row_Some_key)

lemma GetScript_inv:
  "valid (quiet env runs dry) (GetScript env h)
     (\<lambda>s w. quiet env runs dry w \<and> SC_SHA256 s = h \<and> e_hash env (SC_Body s) = h) (calm env runs)"
  by (auto simp: valid_def GetScript_def db_call_def quiet_defs split: option.split dest!: find_row_Some_key)

lemma transition_inv:
  assumes "CanTransitionTo (P_State p) next \<Longrightarrow> past_dry_run next \<Longrightarrow> proven env dry (P_ScriptHash p)"
  shows "valid (quiet env runs dry) (transition env p next actor reason)
    (\<lambda>p1 w. quiet env runs dry w \<and> P_ID p1 = P_ID p \<and> P_ScriptHash p1 = P_ScriptHash p \<and> P_State p1 = next \<and>
       CanTransitionTo (P_State p) next) (calm env runs)"
proof (cases "CanTransitionTo (P_State p) next")
  case False
  then show ?thesis by (simp add: transition_def valid_fail quiet_calm)
next
  case True
  then have t: "(\<not> CanTransitionTo (P_State p) next) = False" by simp
  show ?thesis
    unfolding transition_def Let_def t if_False
    by (rule valid_bind [OF now_inv] valid_bind [OF newID_inv] valid_bind [OF valid_wrap [OF UpdateProposal_inv]]
        valid_bind [OF AppendAudit_inv] valid_return | simp add: True assms)+
qed

lemma valid_bind_pure:
  assumes "valid P m (\<lambda>x w. R w \<and> F x) E" "\<And>x. F x \<Longrightarrow> valid R (f x) Q E"
  shows "valid P (op_bind m f) Q E"
  by (rule valid_bind [OF assms(1)]) (use assms(2) in \<open>auto simp: valid_def\<close>)

lemma dry_inv:
  "valid (quiet env runs dry) (r_dry env body) (\<lambda>r. quiet env runs (dry @ [(body, DR_Approved r)])) (calm env runs)"
proof -
  have "proven env (dry @ xs) h" if "proven env dry h" for xs h using that by (auto simp: proven_def)
  then show ?thesis by (auto simp: valid_def r_dry_def quiet_defs split: sum.split)
qed

lemma transition_calm:
  assumes "CanTransitionTo (P_State p) next \<Longrightarrow> past_dry_run next \<Longrightarrow> proven env dry (P_ScriptHash p)"
  shows "valid (quiet env runs dry) (transition env p next actor reason) (\<lambda>_. calm env runs) (calm env runs)"
  by (rule valid_post [OF transition_inv]) (auto simp: quiet_calm intro: assms)

lemma runDryRun_inv:
  assumes "e_hash env (SC_Body script) = P_ScriptHash p"
  shows "valid (quiet env runs dry) (runDryRunAndAdvance env p script actor) (\<lambda>_. calm env runs) (calm env runs)"
proof -
  have adv: "valid (quiet env runs (dry @ [(SC_Body script, DR_Approved r)]))
      (let p1 = p\<lparr>P_RejectReasons := DR_Reasons r, P_Warnings := DR_Warnings r, P_Transcript := DR_Transcript r\<rparr> in
       if \<not> DR_Approved r
       then transition env p1 StateDryRunFailed actor (''dry run rejected: '' @ joinReasons (DR_Reasons r))
       else op_bind (transition env p1 StateDryRunOK actor ''dry run approved-for-review'') (\<lambda>p2.
            transition env p2 StateAwaitingApproval actor ''clean dry run: awaiting human approval''))
      (\<lambda>_. calm env runs) (calm env runs)" for r
  proof (cases "DR_Approved r")
    case False
    then show ?thesis by (simp only: Let_def if_True not_False_eq_True) (rule transition_calm, simp)
  next
    case True
    then have pr: "proven env (dry @ [(SC_Body script, DR_Approved r)]) (P_ScriptHash p)"
      using assms(1) by (auto simp: proven_def)
    show ?thesis
      unfolding Let_def if_not_P [of "\<not> DR_Approved r", unfolded not_not, OF True]
      by (rule valid_bind_pure [OF transition_inv] transition_calm | simp add: pr)+
  qed
  show ?thesis
    unfolding runDryRunAndAdvance_def
    by (rule valid_bind [OF valid_wrap [OF dry_inv]]) (rule adv)
qed

lemma Propose_inv: "valid (quiet env runs dry) (Propose env txt actor) (\<lambda>_. calm env runs) (calm env runs)"
  unfolding Propose_def Let_def
  by (rule valid_bind [OF now_inv] valid_bind [OF newID_inv] valid_bind [OF valid_wrap [OF UpsertScript_inv]]
      valid_bind [OF valid_wrap [OF InsertProposal_inv]] valid_bind [OF AppendAudit_inv] runDryRun_inv
      | simp add: NewScript_def new_proposal_def)+

lemma valid_if: "(b \<Longrightarrow> valid P m Q E) \<Longrightarrow> (\<not> b \<Longrightarrow> valid P m' Q E) \<Longrightarrow> valid P (if b then m else m') Q E"
  by simp

lemma valid_case_option:
  "valid P m Q E \<Longrightarrow> (\<And>y. valid P (f y) Q E) \<Longrightarrow> valid P (case x of None \<Rightarrow> m | Some y \<Rightarrow> f y) Q E"
  by (simp split: option.split)

lemma valid_case_sum:
  "(\<And>y. valid P (f y) Q E) \<Longrightarrow> (\<And>y. valid P (g y) Q E) \<Longrightarrow> valid P (case x of Inl y \<Rightarrow> f y | Inr y \<Rightarrow> g y) Q E"
  by (simp split: sum.split)

lemma Edit_inv: "valid (quiet env runs dry) (Edit env i txt actor) (\<lambda>_. calm env runs) (calm env runs)"
  unfolding Edit_def Let_def
  by (rule valid_bind_pure [OF GetProposal_inv] valid_bind_pure [OF GetScript_inv] valid_bind [OF now_inv]
      valid_if valid_fail valid_bind [OF valid_wrap [OF UpsertScript_inv]] valid_bind_pure [OF transition_inv]
      runDryRun_inv quiet_calm | assumption | simp add: NewScript_def)+

lemma Approve_inv: "valid (quiet env runs dry) (reg_Approve env i actor) (\<lambda>_. calm env runs) (calm env runs)"
  unfolding reg_Approve_def
  by (rule valid_bind_pure [OF GetProposal_inv] valid_if valid_fail valid_bind [OF now_inv] transition_calm quiet_calm
      | assumption | simp)+

lemma Deny_inv: "valid (quiet env runs dry) (reg_Deny env i actor reason) (\<lambda>_. calm env runs) (calm env runs)"
  unfolding reg_Deny_def
  by (rule valid_bind_pure [OF GetProposal_inv] valid_bind [OF now_inv] transition_calm
      | auto dest: past_dry_run_edge)+

lemma Expire_inv: "valid (quiet env runs dry) (reg_Expire env i actor) (\<lambda>_. calm env runs) (calm env runs)"
  unfolding reg_Expire_def
  by (rule valid_bind_pure [OF GetProposal_inv] transition_calm | auto dest: past_dry_run_edge)+

text \<open>The grant operations leave everything the invariant is about alone.\<close>

lemma grants_inv:
  "valid (quiet env runs dry) (IssueGrant env h sc key ses ttls) (\<lambda>_. calm env runs) (calm env runs)"
  "valid (quiet env runs dry) (TouchGrant env i at) (\<lambda>_. calm env runs) (calm env runs)"
  "valid (quiet env runs dry) (reg_RevokeGrant env i actor) (\<lambda>_. calm env runs) (calm env runs)"
proof -
  have "valid (quiet env runs dry) (InsertGrant env g) (\<lambda>_. quiet env runs dry) (calm env runs)" for g
    by (auto simp: valid_def InsertGrant_def db_call_def quiet_defs split: option.split)
  then show "valid (quiet env runs dry) (IssueGrant env h sc key ses ttls) (\<lambda>_. calm env runs) (calm env runs)"
    unfolding IssueGrant_def Let_def
    by - (rule valid_if valid_fail valid_bind [OF now_inv] valid_bind [OF newID_inv] valid_bind [OF valid_wrap]
        valid_return quiet_calm | assumption)+
  show "valid (quiet env runs dry) (TouchGrant env i at) (\<lambda>_. calm env runs) (calm env runs)"
    by (auto simp: valid_def TouchGrant_def TouchGrantLastRun_def db_call_def quiet_defs split: option.split)
  have "valid (quiet env runs dry) (store_RevokeGrant env i at) (\<lambda>_. calm env runs) (calm env runs)" for at
    by (auto simp: valid_def store_RevokeGrant_def db_call_def quiet_defs split: option.split)
  then show "valid (quiet env runs dry) (reg_RevokeGrant env i actor) (\<lambda>_. calm env runs) (calm env runs)"
    unfolding reg_RevokeGrant_def by - (rule valid_bind [OF now_inv])
qed

section \<open>Real runs\<close>

lemma valid_err: "valid P m Q E \<Longrightarrow> (\<And>w. E w \<Longrightarrow> E' w) \<Longrightarrow> valid P m Q E'"
  by (fastforce simp: valid_def split: prod.splits sum.splits)

text \<open>After \<open>Execute\<close> on proposal \<open>p\<close>: nothing ran, or the text of the approved proposal did.\<close>

definition ran :: "Env \<Rightarrow> Proposal \<Rightarrow> (string \<times> string) list \<Rightarrow> World \<Rightarrow> bool" where
  "ran env p runs w \<longleftrightarrow> reg_inv env w \<and>
     (w_runs w = runs \<or>
      P_State p = StateApproved \<and> (\<exists>body. e_hash env body = P_ScriptHash p \<and> w_runs w = runs @ [(P_ID p, body)]))"

lemma calm_ran: "calm env runs w \<Longrightarrow> ran env p runs w"
  by (simp add: ran_def calm_def)

lemma precond_inv: "valid (quiet env runs dry) (r_precond env body) (\<lambda>_. quiet env runs dry) E"
  by (auto simp: valid_def r_precond_def quiet_defs split: option.split)

lemma run_inv:
  "valid (quiet env runs dry) (r_run env i body) (\<lambda>_. quiet env (runs @ [(i, body)]) dry) E"
  by (auto simp: valid_def r_run_def quiet_defs)

lemma start_inv:
  assumes "past_dry_run (P_State p) \<Longrightarrow> proven env dry (P_ScriptHash p)"
  shows "valid (quiet env runs dry) (transition env p StateRunning actor reason)
    (\<lambda>p1 w. quiet env runs dry w \<and> (P_ID p1 = P_ID p \<and> P_ScriptHash p1 = P_ScriptHash p \<and>
       P_State p = StateApproved \<and> proven env dry (P_ScriptHash p))) (calm env runs)"
proof -
  have app: "CanTransitionTo s StateRunning \<Longrightarrow> s = StateApproved" for s
    by (cases s) (simp_all add: CanTransitionTo_def)
  have pr: "proven env dry (P_ScriptHash p)" if "CanTransitionTo (P_State p) StateRunning"
    using app [OF that] assms by simp
  show ?thesis
    by (rule valid_post [OF transition_inv]) (use app pr in auto)
qed

lemma finish_inv:
  assumes "proven env dry (P_ScriptHash q)" "\<And>w. calm env runs w \<Longrightarrow> X w"
  shows "valid (quiet env runs dry) (op_bind (transition env q nx actor reason) (\<lambda>q1. op_return (q1, y))) (\<lambda>_. X) X"
  by (rule valid_bind [OF valid_err [OF transition_calm]] valid_return | use assms in simp)+

lemma execute_from_inv:
  assumes proven: "past_dry_run (P_State p) \<Longrightarrow> proven env dry (P_ScriptHash p)"
  shows "valid (quiet env runs dry) (execute_from env actor p) (\<lambda>_. ran env p runs) (ran env p runs)"
proof -
  have pre: "valid (quiet env runs dry)
      (op_bind (transition env p StateRunning actor r1) (\<lambda>p1.
       op_bind (transition env p1 StatePreconditionFailed actor r2) (\<lambda>p2.
       op_bind (transition env p2 StateAwaitingApproval actor r3) (\<lambda>p3. op_return (p3, y)))))
      (\<lambda>_. ran env p runs) (ran env p runs)" for r1 r2 r3 y
    by (rule valid_bind_pure [OF valid_err [OF start_inv [OF proven] calm_ran]]
        valid_bind_pure [OF valid_err [OF transition_inv calm_ran]] finish_inv calm_ran | assumption | simp)+
  have run: "valid (quiet env runs dry)
      (op_bind (transition env p StateRunning actor r1) (\<lambda>p1.
       op_bind (r_run env (P_ID p1) body) (\<lambda>outcome.
         case outcome of
           Inl runErr \<Rightarrow> op_bind (transition env p1 StateFailed actor (r2 runErr)) (\<lambda>p2. op_return (p2, Inl (ErrSandbox runErr)))
         | Inr result \<Rightarrow>
             op_bind (transition env p1 (if RR_Succeeded result then StateSucceeded else StateFailed) actor (r3 result))
               (\<lambda>p2. op_return (p2, Inr result)))))
      (\<lambda>_. ran env p runs) (ran env p runs)" if "e_hash env body = P_ScriptHash p" for r1 r2 r3 body
    apply (rule valid_bind_pure [OF valid_err [OF start_inv [OF proven] calm_ran]], assumption+)
    apply (rule valid_bind [OF run_inv])
    subgoal for p1 outcome
      by (cases outcome; simp only: sum.case; rule finish_inv) (use that in \<open>auto simp: ran_def calm_def\<close>)
    done
  show ?thesis
    unfolding execute_from_def
    apply (rule valid_bind_pure [OF valid_err [OF GetScript_inv calm_ran]], assumption)
    apply (rule valid_bind [OF precond_inv])
    subgoal for script perr
      by (cases perr; simp only: option.case) (use run pre in auto)
    done
qed

lemma quiet_start: "reg_inv env w \<Longrightarrow> quiet env (w_runs w) (w_dry w) w"
  by (simp add: quiet_def calm_def)

lemma GetProposal_found:
  "store_GetProposal env i w = (Inr p, w1) \<Longrightarrow>
   find_row P_ID i (w_proposals w) = Some p \<and> w1 = tick w"
  by (auto simp: store_GetProposal_def db_call_def split: option.splits)

lemma Execute_ran:
  assumes "reg_inv env w"
  shows "reg_inv env (snd (Execute env i actor w)) \<and>
    (w_runs (snd (Execute env i actor w)) = w_runs w \<or>
     (\<exists>p body. find_row P_ID i (w_proposals w) = Some p \<and> P_State p = StateApproved \<and>
        e_hash env body = P_ScriptHash p \<and> proven env (w_dry w) (P_ScriptHash p) \<and>
        w_runs (snd (Execute env i actor w)) = w_runs w @ [(i, body)]))"
proof (cases "store_GetProposal env i w")
  case (Pair r w1)
  show ?thesis
  proof (cases r)
    case (Inl e)
    have "calm env (w_runs w) w1"
      using GetProposal_inv [of env "w_runs w" "w_dry w" i] quiet_start [OF assms] Pair Inl
      by (fastforce simp: valid_def)
    then show ?thesis using Pair Inl by (simp add: Execute_def op_bind_def calm_def)
  next
    case (Inr p)
    then have found: "find_row P_ID i (w_proposals w) = Some p" and w1: "w1 = tick w"
      using GetProposal_found [of env i w p w1] Pair by auto
    have pr: "past_dry_run (P_State p) \<Longrightarrow> proven env (w_dry w) (P_ScriptHash p)"
      using assms found by (auto simp: reg_inv_def dest!: find_row_Some_key)
    have "quiet env (w_runs w) (w_dry w) w1" using assms w1 by (simp add: quiet_defs)
    then have "ran env p (w_runs w) (snd (execute_from env actor p w1))"
      by (rule valid_world [OF execute_from_inv, rotated]) (rule pr)
    moreover have "snd (Execute env i actor w) = snd (execute_from env actor p w1)"
      using Pair Inr by (simp add: Execute_def op_bind_def)
    ultimately show ?thesis using found pr find_row_Some_key [OF found] by (auto simp: ran_def)
  qed
qed

lemma reg_inv_rstep:
  assumes "reg_inv env w"
  shows "reg_inv env (rstep env c w)"
proof -
  note q = quiet_start [OF assms]
  have c: "calm env (w_runs w) w' \<Longrightarrow> reg_inv env w'" for w' by (simp add: calm_def)
  show ?thesis
    by (cases c)
      (use c [OF valid_world [OF Propose_inv q]] c [OF valid_world [OF Edit_inv q]] c [OF valid_world [OF Approve_inv q]]
        c [OF valid_world [OF Deny_inv q]] c [OF valid_world [OF Expire_inv q]] Execute_ran [OF assms]
        c [OF valid_world [OF grants_inv(1) q]] c [OF valid_world [OF grants_inv(2) q]]
        c [OF valid_world [OF grants_inv(3) q]] in simp_all)
qed

lemma reg_inv_empty: "reg_inv env empty_World"
  by (simp add: reg_inv_def empty_World_def)

interpretation registry: step_invariant "\<lambda>w. w = empty_World" "rstep env" "\<lambda>_. True" "reg_inv env" for env
  by unfold_locales (simp_all add: reg_inv_rstep reg_inv_empty)

lemma reg_inv_run: "reg_inv env (fold (rstep env) cs empty_World)"
  by (rule registry.inv_run) (auto simp: list_all_iff)

text \<open>C26: no approval without a dry run of that very text. In every world the registry can reach,
  whatever fails on the way, each proposal that is awaiting approval, approved, running or
  finished carries the hash of a text whose dry run was approved; no two proposals share an id and
  every stored script is filed under its own hash.\<close>

theorem approval_requires_dry_run:
  "let w = fold (rstep env) cs empty_World in
     list_all (\<lambda>p. P_State p \<in> {StateProposed, StateDryRunFailed, StateEmpty} \<or>
        (\<exists>body. e_hash env body = P_ScriptHash p \<and> (body, True) \<in> set (w_dry w))) (w_proposals w) \<and>
     distinct (map P_ID (w_proposals w)) \<and>
     list_all (\<lambda>s. SC_SHA256 s = e_hash env (SC_Body s)) (w_scripts w)"
proof -
  have "past_dry_run s \<or> s \<in> {StateProposed, StateDryRunFailed, StateEmpty}" for s by (cases s) simp_all
  then show ?thesis
    using reg_inv_run [of env cs] unfolding reg_inv_def Let_def list_all_iff proven_def by blast
qed

text \<open>C27: only an approved script ever runs for real. One call on a reachable registry adds at most
  one real run, and only a call of \<open>Execute\<close> does, on a proposal that is \<open>approved\<close> at that
  moment; the text that runs has the hash the proposal was approved under, and that hash
  belongs to a text with an approved dry run.\<close>

theorem execute_runs_only_approved:
  "let w = fold (rstep env) cs empty_World in
     w_runs (rstep env c w) = w_runs w \<or>
     (\<exists>i actor p body. c = CExecute i actor \<and> find_row P_ID i (w_proposals w) = Some p \<and>
        P_State p = StateApproved \<and> e_hash env body = P_ScriptHash p \<and>
        w_runs (rstep env c w) = w_runs w @ [(i, body)] \<and>
        (\<exists>proven. e_hash env proven = P_ScriptHash p \<and> (proven, True) \<in> set (w_dry w)))"
proof -
  define w where "w = fold (rstep env) cs empty_World"
  have inv: "reg_inv env w" unfolding w_def by (rule reg_inv_run)
  note q = quiet_start [OF inv]
  have c: "calm env (w_runs w) w' \<Longrightarrow> w_runs w' = w_runs w" for w' by (simp add: calm_def)
  show ?thesis
    unfolding Let_def w_def [symmetric]
  proof (cases "\<exists>i actor. c = CExecute i actor")
    case True
    then obtain i actor where "c = CExecute i actor" by blast
    then show "w_runs (rstep env c w) = w_runs w \<or>
     (\<exists>i actor p body. c = CExecute i actor \<and> find_row P_ID i (w_proposals w) = Some p \<and>
        P_State p = StateApproved \<and> e_hash env body = P_ScriptHash p \<and>
        w_runs (rstep env c w) = w_runs w @ [(i, body)] \<and>
        (\<exists>proven. e_hash env proven = P_ScriptHash p \<and> (proven, True) \<in> set (w_dry w)))"
      using Execute_ran [OF inv, of i actor] unfolding proven_def by fastforce
  next
    case False
    then have "w_runs (rstep env c w) = w_runs w"
      by (cases c)
        (use c [OF valid_world [OF Propose_inv q]] c [OF valid_world [OF Edit_inv q]] c [OF valid_world [OF Approve_inv q]]
          c [OF valid_world [OF Deny_inv q]] c [OF valid_world [OF Expire_inv q]]
          c [OF valid_world [OF grants_inv(1) q]] c [OF valid_world [OF grants_inv(2) q]]
          c [OF valid_world [OF grants_inv(3) q]] in simp_all)
    then show "w_runs (rstep env c w) = w_runs w \<or> (\<exists>i actor p body. c = CExecute i actor \<and> find_row P_ID i (w_proposals w) = Some p \<and>
        P_State p = StateApproved \<and> e_hash env body = P_ScriptHash p \<and>
        w_runs (rstep env c w) = w_runs w @ [(i, body)] \<and>
        (\<exists>proven. e_hash env proven = P_ScriptHash p \<and> (proven, True) \<in> set (w_dry w)))" ..
  qed
qed

section \<open>What the proposal operations do not touch\<close>

text \<open>
  The interface between the proposal lifecycle and the rest: a fact about the world that no
  change of the script, proposal, audit, dry-run and run tables affects is kept by every
  lifecycle operation.
\<close>

locale lifecycle_frame =
  fixes env :: Env and F :: "World \<Rightarrow> bool"
  assumes F_tick: "F w \<Longrightarrow> F (tick w)"
    and F_scripts: "F w \<Longrightarrow> F (w\<lparr>w_scripts := xs\<rparr>)"
    and F_proposals: "F w \<Longrightarrow> F (w\<lparr>w_proposals := ps\<rparr>)"
    and F_audit: "F w \<Longrightarrow> F (w\<lparr>w_audit := es\<rparr>)"
    and F_dry: "F w \<Longrightarrow> F (w\<lparr>w_dry := ds\<rparr>)"
    and F_runs: "F w \<Longrightarrow> F (w\<lparr>w_runs := rs\<rparr>)"
begin

lemma call_frame: "(\<And>w. F w \<Longrightarrow> F (snd (m w))) \<Longrightarrow> valid F (db_call env m) (\<lambda>_. F) F"
  by (auto simp: valid_def db_call_def F_tick split: option.split prod.split sum.split)
    (metis F_tick snd_conv)+

lemma prim_frame:
  "valid F (r_now env) (\<lambda>_. F) F" "valid F (r_newID env) (\<lambda>_. F) F" "valid F (r_dry env body) (\<lambda>_. F) F"
  "valid F (r_run env i body) (\<lambda>_. F) F" "valid F (r_precond env body) (\<lambda>_. F) F"
  by (auto simp: valid_def r_now_def r_newID_def r_dry_def r_run_def r_precond_def F_tick F_dry F_runs
      split: sum.split option.split)

lemma store_frame:
  "valid F (UpsertScript env s) (\<lambda>_. F) F" "valid F (GetScript env h) (\<lambda>_. F) F"
  "valid F (InsertProposal env p) (\<lambda>_. F) F" "valid F (UpdateProposal env p) (\<lambda>_. F) F"
  "valid F (store_GetProposal env j) (\<lambda>_. F) F" "valid F (AppendAudit env a) (\<lambda>_. F) F"
  unfolding UpsertScript_def GetScript_def InsertProposal_def UpdateProposal_def store_GetProposal_def AppendAudit_def
  by (rule call_frame; simp add: F_scripts F_proposals F_audit)+

lemmas frames = prim_frame store_frame

lemma transition_frame: "valid F (transition env p nx actor reason) (\<lambda>_. F) F"
  unfolding transition_def Let_def
  by (rule valid_if valid_fail valid_return valid_bind frames valid_wrap | assumption)+

lemma dry_run_frame: "valid F (runDryRunAndAdvance env p script actor) (\<lambda>_. F) F"
  unfolding runDryRunAndAdvance_def Let_def
  by (rule valid_if transition_frame valid_bind frames valid_wrap)+

lemma execute_frame: "valid F (execute_from env actor p) (\<lambda>_. F) F"
  unfolding execute_from_def
  by (rule transition_frame valid_return valid_bind frames valid_case_option valid_case_sum | assumption)+

lemma lifecycle_frame:
  "valid F (Propose env txt actor) (\<lambda>_. F) F" "valid F (Edit env j txt actor) (\<lambda>_. F) F"
  "valid F (reg_Approve env j actor) (\<lambda>_. F) F" "valid F (reg_Deny env j actor reason) (\<lambda>_. F) F"
  "valid F (reg_Expire env j actor) (\<lambda>_. F) F" "valid F (Execute env j actor) (\<lambda>_. F) F"
  unfolding Propose_def Edit_def reg_Approve_def reg_Deny_def reg_Expire_def Execute_def Let_def
  by (rule valid_if valid_fail transition_frame dry_run_frame execute_frame valid_bind frames valid_wrap | assumption)+

end

text \<open>The grants are such a fact.\<close>

interpretation grants_kept: lifecycle_frame env "\<lambda>w. w_grants w = G" for env G
  by unfold_locales simp_all

definition revoked_for_good :: "string \<Rightarrow> World \<Rightarrow> bool" where
  "revoked_for_good i w \<longleftrightarrow> i \<in> set (map G_ID (w_grants w)) \<and> (\<forall>g \<in> set (w_grants w). G_ID g = i \<longrightarrow> Grant_Revoked g)"

lemma grant_ids_map:
  "(\<And>g. G_ID (f g) = G_ID g) \<Longrightarrow> map G_ID (map (\<lambda>g. if G_ID g = j then f g else g) gs) = map G_ID gs"
  by (induction gs) simp_all

lemma revoked_rstep:
  assumes clock: "\<And>t. \<not> IsZero (row_time (e_now env t))" and rev: "revoked_for_good i w"
  shows "revoked_for_good i (rstep env c w)"
proof -
  note keep = grants_kept.lifecycle_frame [where env = env and G = "w_grants w", THEN valid_world, OF refl]
  have issue: "revoked_for_good i (snd (IssueGrant env h sc key ses ttls w))" for h sc key ses ttls
    using rev
    by (auto simp: IssueGrant_def op_fail_def op_bind_def op_wrap_def op_return_def r_now_def r_newID_def InsertGrant_def
        db_call_def revoked_for_good_def Let_def grant_row_def split: option.split)
  note ids = grant_ids_map
  have touch: "revoked_for_good i (snd (TouchGrant env j at w))" for j at
    using rev
    by (auto simp: TouchGrant_def TouchGrantLastRun_def db_call_def revoked_for_good_def Grant_Revoked_def ids
        simp del: map_map set_map split: option.split)
      (auto split: if_splits)
  have revoke: "revoked_for_good i (snd (reg_RevokeGrant env j actor w))" for j actor
    using rev clock
    by (auto simp: reg_RevokeGrant_def store_RevokeGrant_def op_bind_def r_now_def db_call_def revoked_for_good_def
        Grant_Revoked_def ids simp del: map_map set_map split: option.split)
      (auto split: if_splits)
  show ?thesis
    by (cases c) (use keep rev issue touch revoke in \<open>simp_all add: revoked_for_good_def\<close>)
qed

section \<open>Grants\<close>

lemma sort_key_Nil_iff: "sort_key f xs = [] \<longleftrightarrow> xs = []"
  by (metis length_0_conv length_sort)

lemma CheckGrant_eval:
  assumes "e_fail env (w_tick w) = None" "e_fail env (Suc (w_tick w)) = None"
  shows "fst (CheckGrant env i now w) =
    (case find_row G_ID i (w_grants w) of
       None \<Rightarrow> Inl ErrGrantNotFound
     | Some g \<Rightarrow>
         if Grant_Revoked g then Inl ErrGrantRevoked
         else if Grant_Expired g now then Inl ErrGrantExpired
         else if list_ex (\<lambda>p. P_ScriptHash p = G_ScriptHash g \<and> P_State p = StateApproved) (w_proposals w) then Inr g
         else Inl ErrGrantNotApproved)"
  using assms
  by (auto simp: CheckGrant_def op_bind_def op_fail_def op_return_def GetGrant_def FindApprovedProposalByHash_def
      db_call_def list_ex_iff filter_empty_conv sort_key_Nil_iff split: option.split list.split)

text \<open>when a grant is good. With the store answering, \<open>CheckGrant\<close> accepts exactly a stored
  grant that is not revoked, whose expiry is unset or still ahead, and whose script hash is the
  hash of a proposal that is approved at this moment; each refusal names the first of these that
  fails.\<close>

theorem CheckGrant_accepts_iff:
  assumes "e_fail env (w_tick w) = None" "e_fail env (Suc (w_tick w)) = None"
  shows "fst (CheckGrant env i now w) = Inr g \<longleftrightarrow>
    find_row G_ID i (w_grants w) = Some g \<and> G_RevokedAt g = zero_time \<and>
    (G_ExpiresAt g = zero_time \<or> now < G_ExpiresAt g) \<and>
    (\<exists>p \<in> set (w_proposals w). P_ScriptHash p = G_ScriptHash g \<and> P_State p = StateApproved)"
  unfolding CheckGrant_eval [OF assms]
  by (auto simp: Grant_Revoked_def Grant_Expired_def IsZero_def list_ex_iff split: option.split)

text \<open>Revocation is instant and final. Once a revocation of an existing grant has succeeded, and
  with a clock that has left the epoch's first millisecond, no check of that grant is ever
  accepted again, whatever calls follow and whenever it is checked.\<close>

theorem revocation_is_final:
  assumes "fst (reg_RevokeGrant env i actor w) = Inr ()" "i \<in> set (map G_ID (w_grants w))"
    and clock: "\<And>t. \<not> IsZero (row_time (e_now env t))"
  shows "fst (CheckGrant env i now (fold (rstep env) cs (snd (reg_RevokeGrant env i actor w)))) \<noteq> Inr g"
proof -
  let ?f = "\<lambda>g. g\<lparr>G_RevokedAt := row_time (e_now env (w_tick w))\<rparr>"
  have gs: "w_grants (snd (reg_RevokeGrant env i actor w)) = map (\<lambda>g. if G_ID g = i then ?f g else g) (w_grants w)"
    using assms(1)
    by (auto simp: reg_RevokeGrant_def store_RevokeGrant_def op_bind_def r_now_def db_call_def split: option.splits)
  have "Grant_Revoked (?f g)" for g using clock by (simp add: Grant_Revoked_def)
  then have "revoked_for_good i (snd (reg_RevokeGrant env i actor w))"
    unfolding revoked_for_good_def gs using assms(2) grant_ids_map [of ?f i "w_grants w"] by auto
  then have rev: "revoked_for_good i (fold (rstep env) cs (snd (reg_RevokeGrant env i actor w)))" (is "revoked_for_good i ?w")
    by (induction cs rule: rev_induct) (simp_all add: revoked_rstep [OF clock])
  have "Grant_Revoked h" if "find_row G_ID i (w_grants ?w) = Some h" for h
    using rev find_row_Some_key [OF that] by (simp add: revoked_for_good_def)
  then show ?thesis
    by (auto simp: CheckGrant_def op_bind_def op_fail_def GetGrant_def db_call_def split: option.split)
qed

section \<open>The audit trail\<close>

text \<open>The states a list of audit entries leads through, starting from \<open>s\<close>.\<close>

fun audit_chain :: "ProposalState \<Rightarrow> AuditEntry list \<Rightarrow> ProposalState option" where
  "audit_chain s [] = Some s"
| "audit_chain s (a # as) =
     (if A_FromState a = s \<and> (CanTransitionTo s (A_ToState a) \<or> s = StateEmpty \<and> A_ToState a = StateProposed)
      then audit_chain (A_ToState a) as else None)"

lemma audit_chain_snoc:
  "audit_chain s (as @ [a]) =
     (case audit_chain s as of
        None \<Rightarrow> None
      | Some t \<Rightarrow> if A_FromState a = t \<and> (CanTransitionTo t (A_ToState a) \<or> t = StateEmpty \<and> A_ToState a = StateProposed)
          then Some (A_ToState a) else None)"
  by (induction as arbitrary: s) auto

definition entries :: "string \<Rightarrow> World \<Rightarrow> AuditEntry list" where
  "entries i w = filter (\<lambda>a. A_ProposalID a = i) (w_audit w)"

text \<open>The trail invariant; \<open>x\<close> names a proposal that has just been inserted and has no entry yet.\<close>

definition trail_inv :: "Env \<Rightarrow> string option \<Rightarrow> World \<Rightarrow> bool" where
  "trail_inv env x w \<longleftrightarrow>
     A_ID ` set (w_audit w) \<subseteq> e_id env ` {..<w_tick w} \<and>
     A_ProposalID ` set (w_audit w) \<subseteq> P_ID ` set (w_proposals w) \<and>
     distinct (map P_ID (w_proposals w)) \<and>
     (\<forall>p \<in> set (w_proposals w).
        if x = Some (P_ID p) then entries (P_ID p) w = [] \<and> P_State p = StateProposed
        else audit_chain StateEmpty (entries (P_ID p) w) = Some (P_State p))"

definition stored_as :: "Proposal \<Rightarrow> World \<Rightarrow> bool" where
  "stored_as p w \<longleftrightarrow> (\<exists>r \<in> set (w_proposals w). P_ID r = P_ID p \<and> P_State r = P_State p)"

lemma trail_tick: "trail_inv env x w \<Longrightarrow> trail_inv env x (tick w)"
proof -
  assume "trail_inv env x w"
  moreover have "e_id env ` {..<w_tick w} \<subseteq> e_id env ` {..<Suc (w_tick w)}" by auto
  moreover have "entries i (tick w) = entries i w" for i by (simp add: entries_def)
  ultimately show ?thesis by (auto simp: trail_inv_def)
qed

lemma stored_tick [simp]: "stored_as p (tick w) = stored_as p w"
  by (simp add: stored_as_def)

lemma fresh_id:
  assumes "inj (e_id env)" "trail_inv env x w" "w_tick w \<le> t"
  shows "e_id env t \<notin> A_ID ` set (w_audit w)"
proof
  assume "e_id env t \<in> A_ID ` set (w_audit w)"
  then obtain k where "k < w_tick w" "e_id env t = e_id env k" using assms(2) by (auto simp: trail_inv_def)
  then show False using injD [OF assms(1)] assms(3) by fastforce
qed

lemma transition_eval:
  assumes "\<And>t. e_fail env t = None" "CanTransitionTo (P_State p) nx" "e_id env (w_tick w + 2) \<notin> A_ID ` set (w_audit w)"
  shows "transition env p nx actor reason w =
    (let p1 = p\<lparr>P_State := nx, P_UpdatedAt := e_now env (w_tick w)\<rparr> in
     (Inr p1, w\<lparr>w_proposals := map (\<lambda>r. if P_ID r = P_ID p
          then (proposal_row p1)\<lparr>P_CreatedAt := P_CreatedAt r\<rparr> else r) (w_proposals w),
        w_audit := w_audit w @ [audit_row \<lparr>A_ID = e_id env (w_tick w + 2), A_ProposalID = P_ID p,
          A_FromState = P_State p, A_ToState = nx, A_Actor = actor, A_Reason = reason, A_At = e_now env (w_tick w + 3)\<rparr>],
        w_tick := w_tick w + 5\<rparr>))"
  using assms
  by (simp add: transition_def op_bind_def op_wrap_def op_return_def r_now_def r_newID_def UpdateProposal_def
      AppendAudit_def db_call_def tick_def Let_def eval_nat_numeral)

lemma audit_row_keep [simp]:
  "A_ID (audit_row a) = A_ID a" "A_ProposalID (audit_row a) = A_ProposalID a"
  "A_FromState (audit_row a) = A_FromState a" "A_ToState (audit_row a) = A_ToState a"
  by (simp_all add: audit_row_def)

lemma transition_trail:
  assumes nf: "\<And>t. e_fail env t = None" and inj: "inj (e_id env)"
  shows "valid (\<lambda>w. trail_inv env None w \<and> stored_as p w) (transition env p nx actor reason)
    (\<lambda>p1 w. trail_inv env None w \<and> stored_as p1 w) (trail_inv env None)"
proof -
  have "case transition env p nx actor reason w of
      (Inl e, w') \<Rightarrow> trail_inv env None w' | (Inr p1, w') \<Rightarrow> trail_inv env None w' \<and> stored_as p1 w'"
    if inv: "trail_inv env None w" and st: "stored_as p w" for w
  proof (cases "CanTransitionTo (P_State p) nx")
    case False
    then show ?thesis using inv by (simp add: transition_def op_fail_def)
  next
    case True
    have ids: "A_ID ` set (w_audit w) \<subseteq> e_id env ` {..<w_tick w}" using inv by (simp add: trail_inv_def)
    have fresh: "e_id env (w_tick w + 2) \<notin> A_ID ` set (w_audit w)" by (rule fresh_id [OF inj inv]) simp
    define p1 where "p1 = p\<lparr>P_State := nx, P_UpdatedAt := e_now env (w_tick w)\<rparr>"
    define a where "a = audit_row \<lparr>A_ID = e_id env (w_tick w + 2), A_ProposalID = P_ID p,
          A_FromState = P_State p, A_ToState = nx, A_Actor = actor, A_Reason = reason, A_At = e_now env (w_tick w + 3)\<rparr>"
    define upd where "upd = (\<lambda>r. if P_ID r = P_ID p then (proposal_row p1)\<lparr>P_CreatedAt := P_CreatedAt r\<rparr> else r)"
    define w' where "w' = w\<lparr>w_proposals := map upd (w_proposals w), w_audit := w_audit w @ [a], w_tick := w_tick w + 5\<rparr>"
    have ev: "transition env p nx actor reason w = (Inr p1, w')"
      using transition_eval [OF nf True fresh] by (simp add: p1_def a_def upd_def w'_def Let_def)
    have upd_id: "P_ID (upd r) = P_ID r" for r by (simp add: upd_def p1_def)
    have pids: "map P_ID (w_proposals w') = map P_ID (w_proposals w)" by (simp add: w'_def upd_id)
    obtain r where r: "r \<in> set (w_proposals w)" "P_ID r = P_ID p" "P_State r = P_State p" using st by (auto simp: stored_as_def)
    have chain: "audit_chain StateEmpty (entries (P_ID q) w') = Some (P_State q)" if q: "q \<in> set (w_proposals w')" for q
    proof -
      obtain q0 where q0: "q0 \<in> set (w_proposals w)" "q = upd q0" using q by (auto simp: w'_def)
      have old: "audit_chain StateEmpty (entries (P_ID q0) w) = Some (P_State q0)" using inv q0(1) by (simp add: trail_inv_def)
      show ?thesis
      proof (cases "P_ID q0 = P_ID p")
        case True
        then have "q0 = r" using inv q0(1) r by (auto simp: trail_inv_def distinct_map inj_on_def)
        then have "entries (P_ID q) w' = entries (P_ID q0) w @ [a]" using True q0 by (simp add: entries_def w'_def a_def upd_id)
        then show ?thesis using old \<open>q0 = r\<close> r(3) q0(2) True \<open>CanTransitionTo (P_State p) nx\<close>
          by (simp add: audit_chain_snoc a_def upd_def p1_def)
      next
        case False
        then show ?thesis using old q0 by (simp add: entries_def w'_def a_def upd_def)
      qed
    qed
    have "A_ID ` set (w_audit w') \<subseteq> e_id env ` {..<w_tick w'}" using ids by (auto simp: w'_def a_def)
    moreover have "A_ProposalID ` set (w_audit w') \<subseteq> P_ID ` set (w_proposals w')"
    proof -
      have "P_ID ` set (w_proposals w') = P_ID ` set (w_proposals w)" using pids by (metis list.set_map)
      then show ?thesis using inv r by (auto simp: trail_inv_def w'_def a_def rev_image_eqI)
    qed
    moreover have "distinct (map P_ID (w_proposals w'))" using inv pids by (simp add: trail_inv_def)
    moreover have "stored_as p1 w'"
      unfolding stored_as_def by (rule bexI [of _ "upd r"]) (use r in \<open>simp_all add: w'_def upd_def p1_def\<close>)
    ultimately show ?thesis using ev chain by (simp add: trail_inv_def)
  qed
  then show ?thesis by (simp add: valid_def)
qed

text \<open>The other steps of the operations keep the trail.\<close>

lemma trail_proposals_frame:
  "trail_inv env x w \<Longrightarrow> w_proposals w' = w_proposals w \<Longrightarrow> w_audit w' = w_audit w \<Longrightarrow> w_tick w' = w_tick w \<Longrightarrow>
   trail_inv env x w'"
proof -
  assume fr: "trail_inv env x w" "w_proposals w' = w_proposals w" "w_audit w' = w_audit w" "w_tick w' = w_tick w"
  then have "entries i w' = entries i w" for i by (simp add: entries_def)
  with fr show ?thesis by (simp add: trail_inv_def)
qed

lemma trail_prims:
  assumes F: "F = (\<lambda>w. trail_inv env x w \<and> (case q of None \<Rightarrow> True | Some p \<Rightarrow> stored_as p w))"
  shows "valid F (r_now env) (\<lambda>_. F) E" "valid F (r_newID env) (\<lambda>_. F) E" "valid F (r_precond env body) (\<lambda>_. F) E"
    "valid F (r_dry env body) (\<lambda>_. F) F" "valid F (r_run env i body) (\<lambda>_. F) E"
    "valid F (UpsertScript env s) (\<lambda>_. F) F" "valid F (GetScript env h) (\<lambda>_. F) F"
  unfolding F
  by (auto simp: valid_def r_now_def r_newID_def r_precond_def r_dry_def r_run_def UpsertScript_def GetScript_def
      db_call_def trail_tick stored_as_def split: option.split sum.split
      elim!: trail_proposals_frame [OF trail_tick])

lemma GetProposal_trail:
  "valid (trail_inv env None) (store_GetProposal env i) (\<lambda>p w. trail_inv env None w \<and> stored_as p w) (trail_inv env None)"
  by (auto simp: valid_def store_GetProposal_def db_call_def trail_tick stored_as_def split: option.split
      dest!: find_row_Some_key)

definition fresh_audit :: "Env \<Rightarrow> string \<Rightarrow> World \<Rightarrow> bool" where
  "fresh_audit env aid w \<longleftrightarrow> aid \<notin> A_ID ` set (w_audit w) \<and> aid \<in> e_id env ` {..<w_tick w}"

lemma newID_fresh:
  assumes "inj (e_id env)"
  shows "valid (\<lambda>w. trail_inv env x w \<and> stored_as p w) (r_newID env)
    (\<lambda>aid w. (trail_inv env x w \<and> stored_as p w) \<and> fresh_audit env aid w) E"
  using fresh_id [OF assms] by (auto simp: valid_def r_newID_def trail_tick fresh_audit_def)

lemma now_fresh:
  "valid (\<lambda>w. (trail_inv env x w \<and> stored_as p w) \<and> fresh_audit env aid w) (r_now env)
    (\<lambda>_ w. (trail_inv env x w \<and> stored_as p w) \<and> fresh_audit env aid w) E"
  by (auto simp: valid_def r_now_def trail_tick fresh_audit_def)

lemma Insert_trail:
  assumes nf: "\<And>t. e_fail env t = None" and p: "P_State p = StateProposed"
  shows "valid (trail_inv env None) (InsertProposal env p)
    (\<lambda>_ w. trail_inv env (Some (P_ID p)) w \<and> stored_as p w) (trail_inv env None)"
proof -
  have key: "trail_inv env (Some (P_ID p)) (w\<lparr>w_proposals := w_proposals w @ [proposal_row p]\<rparr>)"
    if w: "trail_inv env None w" and new: "P_ID p \<notin> P_ID ` set (w_proposals w)" for w
  proof -
    have "entries i (w\<lparr>w_proposals := ps\<rparr>) = entries i w" for i ps by (simp add: entries_def)
    moreover have "entries (P_ID p) w = []"
    proof -
      have sub: "A_ProposalID ` set (w_audit w) \<subseteq> P_ID ` set (w_proposals w)" using w by (simp add: trail_inv_def)
      have "A_ProposalID b \<noteq> P_ID p" if "b \<in> set (w_audit w)" for b
        using subsetD [OF sub imageI [OF that]] new by metis
      then show ?thesis by (simp add: entries_def filter_empty_conv)
    qed
    moreover have "P_ID p \<noteq> P_ID q" if "q \<in> set (w_proposals w)" for q using new that by (metis image_eqI)
    moreover have "A_ProposalID ` set (w_audit w) \<subseteq> insert (P_ID p) (P_ID ` set (w_proposals w))"
      using w by (auto simp: trail_inv_def)
    ultimately show ?thesis using w new p by (simp add: trail_inv_def)
  qed
  have "case InsertProposal env p w of (Inl e, w') \<Rightarrow> trail_inv env None w'
      | (Inr x, w') \<Rightarrow> trail_inv env (Some (P_ID p)) w' \<and> stored_as p w'" if w: "trail_inv env None w" for w
    using key [of "tick w"] trail_tick [OF w] nf by (simp add: InsertProposal_def db_call_def stored_as_def)
  then show ?thesis by (simp add: valid_def)
qed

lemma first_audit_trail:
  assumes nf: "\<And>t. e_fail env t = None" and p: "P_State p = StateProposed"
    and a: "A_ID a = aid" "A_ProposalID a = P_ID p" "A_FromState a = StateEmpty" "A_ToState a = StateProposed"
  shows "valid (\<lambda>w. (trail_inv env (Some (P_ID p)) w \<and> stored_as p w) \<and> fresh_audit env aid w) (AppendAudit env a)
    (\<lambda>_ w. trail_inv env None w \<and> stored_as p w) E"
proof -
  have key: "trail_inv env None (w\<lparr>w_audit := w_audit w @ [audit_row a]\<rparr>)"
    if w: "trail_inv env (Some (P_ID p)) w" "stored_as p w" "fresh_audit env aid w" for w
  proof -
    let ?w = "w\<lparr>w_audit := w_audit w @ [audit_row a]\<rparr>"
    have es: "entries i ?w = entries i w @ (if i = P_ID p then [audit_row a] else [])" for i by (simp add: entries_def a)
    have "audit_chain StateEmpty (entries (P_ID q) ?w) = Some (P_State q)" if q: "q \<in> set (w_proposals w)" for q
    proof (cases "P_ID q = P_ID p")
      case True
      then have "entries (P_ID q) w = []" "P_State q = StateProposed" using w(1) q by (auto simp: trail_inv_def)
      then show ?thesis using True es by (simp add: a)
    next
      case False
      then have "audit_chain StateEmpty (entries (P_ID q) w) = Some (P_State q)" using w(1) q by (auto simp: trail_inv_def)
      then show ?thesis using False es by simp
    qed
    moreover obtain r where "r \<in> set (w_proposals w)" "P_ID p = P_ID r" using w(2) by (auto simp: stored_as_def)
    ultimately show ?thesis using w by (auto simp: trail_inv_def fresh_audit_def a)
  qed
  have ft: "fresh_audit env aid w \<Longrightarrow> fresh_audit env aid (tick w)" for w by (auto simp: fresh_audit_def)
  have "case AppendAudit env a w of (Inl e, w') \<Rightarrow> E w' | (Inr x, w') \<Rightarrow> trail_inv env None w' \<and> stored_as p w'"
    if w: "trail_inv env (Some (P_ID p)) w" "stored_as p w" "fresh_audit env aid w" for w
    using key [of "tick w"] trail_tick [OF w(1)] w(2,3) ft [OF w(3)] nf
    by (simp add: AppendAudit_def db_call_def a) (simp add: fresh_audit_def stored_as_def)
  then show ?thesis by (simp add: valid_def)
qed

lemma dry_run_trail:
  assumes nf: "\<And>t. e_fail env t = None" and inj: "inj (e_id env)"
  shows "valid (\<lambda>w. trail_inv env None w \<and> stored_as p w) (runDryRunAndAdvance env p script actor)
    (\<lambda>_. trail_inv env None) (trail_inv env None)"
proof -
  note tr = transition_trail [OF nf inj]
  note dry = trail_prims(4) [where q = "Some p", simplified option.case, OF refl]
  have st: "stored_as (p\<lparr>P_RejectReasons := a, P_Warnings := b, P_Transcript := c\<rparr>) = stored_as p" for a b c
    by (intro ext) (simp add: stored_as_def)
  have tr': "valid (\<lambda>w. trail_inv env None w \<and> stored_as p w)
      (transition env (p\<lparr>P_RejectReasons := a, P_Warnings := b, P_Transcript := c\<rparr>) nx actor reason)
      (\<lambda>p1 w. trail_inv env None w \<and> stored_as p1 w) (trail_inv env None)" for a b c nx reason
    using tr [of "p\<lparr>P_RejectReasons := a, P_Warnings := b, P_Transcript := c\<rparr>" nx actor reason] by (simp add: st)
  show ?thesis
    unfolding runDryRunAndAdvance_def Let_def
    by (rule valid_bind [OF valid_err [OF valid_wrap [OF dry]]] valid_if valid_bind [OF tr'] valid_post [OF tr']
        valid_post [OF tr] | simp | elim conjE, assumption)+
qed

lemma lifecycle_trail:
  assumes nf: "\<And>t. e_fail env t = None" and inj: "inj (e_id env)"
  shows "valid (trail_inv env None) (Propose env txt actor) (\<lambda>_. trail_inv env None) (trail_inv env None)"
    "valid (trail_inv env None) (Edit env i txt actor) (\<lambda>_. trail_inv env None) (trail_inv env None)"
    "valid (trail_inv env None) (reg_Approve env i actor) (\<lambda>_. trail_inv env None) (trail_inv env None)"
    "valid (trail_inv env None) (reg_Deny env i actor reason) (\<lambda>_. trail_inv env None) (trail_inv env None)"
    "valid (trail_inv env None) (reg_Expire env i actor) (\<lambda>_. trail_inv env None) (trail_inv env None)"
    "valid (trail_inv env None) (Execute env i actor) (\<lambda>_. trail_inv env None) (trail_inv env None)"
proof -
  let ?T = "trail_inv env None"
  note prim0 = trail_prims [where q = None and env = env and x = None, simplified option.case simp_thms, OF refl]
  note prim = trail_prims [where q = "Some p" for p, simplified option.case, OF refl]
  have step: "valid (\<lambda>w. ?T w \<and> stored_as p w) (transition env q nx actor reason) (\<lambda>q1 w. ?T w \<and> stored_as q1 w) ?T"
    if "P_ID q = P_ID p" "P_State q = P_State p" for p q nx reason
    using transition_trail [OF nf inj, of q nx actor reason] that by (simp add: stored_as_def)
  have last: "valid (\<lambda>w. ?T w \<and> stored_as p w) (transition env q nx actor reason) (\<lambda>_. ?T) ?T"
    if "P_ID q = P_ID p" "P_State q = P_State p" for p q nx reason
    by (rule valid_post [OF step]) (use that in simp_all)
  have get: "valid ?T (store_GetProposal env i) (\<lambda>p w. ?T w \<and> stored_as p w) ?T" by (rule GetProposal_trail)
  show "valid ?T (Propose env txt actor) (\<lambda>_. ?T) ?T"
    unfolding Propose_def Let_def
    by (rule valid_bind [OF prim0(1)] valid_bind [OF prim0(2)] valid_bind [OF valid_wrap [OF prim0(6)]]
        valid_bind [OF valid_wrap [OF Insert_trail [OF nf]]] valid_bind [OF newID_fresh [OF inj]] valid_bind [OF now_fresh]
        valid_bind [OF first_audit_trail [OF nf]] dry_run_trail [OF nf inj] | simp add: new_proposal_def)+
  show "valid ?T (Edit env i txt actor) (\<lambda>_. ?T) ?T"
    unfolding Edit_def Let_def
    by (rule valid_bind [OF get] valid_bind [OF valid_err [OF prim(7)]] valid_bind [OF prim(1)] valid_if valid_fail
        valid_bind [OF valid_err [OF valid_wrap [OF prim(6)]]] valid_bind [OF step] dry_run_trail [OF nf inj]
        | simp | elim conjE, assumption)+
  show "valid ?T (reg_Approve env i actor) (\<lambda>_. ?T) ?T"
    unfolding reg_Approve_def
    by (rule valid_bind [OF get] valid_if valid_fail valid_bind [OF prim(1)] last | simp)+
  show "valid ?T (reg_Deny env i actor reason) (\<lambda>_. ?T) ?T"
    unfolding reg_Deny_def by (rule valid_bind [OF get] valid_bind [OF prim(1)] last | simp)+
  show "valid ?T (reg_Expire env i actor) (\<lambda>_. ?T) ?T"
    unfolding reg_Expire_def by (rule valid_bind [OF get] last | simp)+
  show "valid ?T (Execute env i actor) (\<lambda>_. ?T) ?T"
    unfolding Execute_def execute_from_def
    by (rule valid_bind [OF get] valid_bind [OF valid_err [OF prim(7)]] valid_bind [OF prim(3)] valid_bind [OF prim(5)]
        valid_case_option valid_case_sum valid_bind [OF step] valid_return | simp)+
qed

lemma grants_trail:
  "valid (trail_inv env x) (IssueGrant env h sc key ses ttls) (\<lambda>_. trail_inv env x) (trail_inv env x)"
  "valid (trail_inv env x) (TouchGrant env i at) (\<lambda>_. trail_inv env x) (trail_inv env x)"
  "valid (trail_inv env x) (reg_RevokeGrant env i actor) (\<lambda>_. trail_inv env x) (trail_inv env x)"
proof -
  have g: "trail_inv env x (w\<lparr>w_grants := gs\<rparr>)" if "trail_inv env x w" for w gs
    by (rule trail_proposals_frame [OF that]) simp_all
  have now: "valid (trail_inv env x) (r_now env) (\<lambda>_. trail_inv env x) (trail_inv env x)"
    "valid (trail_inv env x) (r_newID env) (\<lambda>_. trail_inv env x) (trail_inv env x)"
    by (simp_all add: valid_def r_now_def r_newID_def trail_tick)
  have ins: "valid (trail_inv env x) (InsertGrant env gr) (\<lambda>_. trail_inv env x) (trail_inv env x)"
    and rev: "valid (trail_inv env x) (store_RevokeGrant env i at) (\<lambda>_. trail_inv env x) (trail_inv env x)" for gr at
    by (simp_all add: valid_def InsertGrant_def store_RevokeGrant_def db_call_def trail_tick g split: option.split)
  show "valid (trail_inv env x) (TouchGrant env i at) (\<lambda>_. trail_inv env x) (trail_inv env x)"
    by (simp add: valid_def TouchGrant_def TouchGrantLastRun_def db_call_def trail_tick g split: option.split)
  show "valid (trail_inv env x) (IssueGrant env h sc key ses ttls) (\<lambda>_. trail_inv env x) (trail_inv env x)"
    unfolding IssueGrant_def Let_def
    by (rule valid_if valid_fail valid_bind [OF now(1)] valid_bind [OF now(2)] valid_bind [OF valid_wrap [OF ins]] valid_return
        | assumption)+
  show "valid (trail_inv env x) (reg_RevokeGrant env i actor) (\<lambda>_. trail_inv env x) (trail_inv env x)"
    unfolding reg_RevokeGrant_def by (rule valid_bind [OF now(1) rev])
qed

lemma trail_rstep:
  assumes "\<And>t. e_fail env t = None" "inj (e_id env)" "trail_inv env None w"
  shows "trail_inv env None (rstep env c w)"
  by (cases c)
    (use lifecycle_trail [OF assms(1,2), THEN valid_world, OF assms(3)] grants_trail [THEN valid_world, OF assms(3)]
      in simp_all)

text \<open>C30: the audit trail is complete. As long as the store does not fail and fresh ids are
  fresh, the audit entries of every proposal, in the order they were written, lead step by step
  along legal transitions from its creation to exactly the state it is in.\<close>

theorem audit_trail_complete:
  assumes "\<And>t. e_fail env t = None" "inj (e_id env)"
  shows "let w = fold (rstep env) cs empty_World in
    list_all (\<lambda>p. audit_chain StateEmpty (filter (\<lambda>a. A_ProposalID a = P_ID p) (w_audit w)) = Some (P_State p)) (w_proposals w)"
proof -
  have "trail_inv env None (fold (rstep env) cs empty_World)"
    by (induction cs rule: rev_induct) (simp_all add: trail_rstep [OF assms], simp add: trail_inv_def empty_World_def)
  then show ?thesis by (auto simp: trail_inv_def entries_def list_all_iff Let_def)
qed

section \<open>Editing an approved script\<close>

lemma keep_proposals:
  "valid (\<lambda>w. Q (w_proposals w)) (r_now env) (\<lambda>_ w. Q (w_proposals w)) E"
  "valid (\<lambda>w. Q (w_proposals w)) (r_newID env) (\<lambda>_ w. Q (w_proposals w)) E"
  "valid (\<lambda>w. Q (w_proposals w)) (r_dry env body) (\<lambda>_ w. Q (w_proposals w)) (\<lambda>_. True)"
  "valid (\<lambda>w. Q (w_proposals w)) (UpsertScript env s) (\<lambda>_ w. Q (w_proposals w)) (\<lambda>_. True)"
  "valid (\<lambda>w. Q (w_proposals w)) (AppendAudit env a) (\<lambda>_ w. Q (w_proposals w)) (\<lambda>_. True)"
  "valid (\<lambda>w. Q (w_proposals w)) (GetScript env h) (\<lambda>s w. Q (w_proposals w) \<and> SC_SHA256 s = h) (\<lambda>_. True)"
  "valid (\<lambda>w. Q (w_proposals w)) (store_GetProposal env i)
     (\<lambda>p w. Q (w_proposals w) \<and> find_row P_ID i (w_proposals w) = Some p) (\<lambda>_. True)"
  by (auto simp: valid_def r_now_def r_newID_def r_dry_def UpsertScript_def AppendAudit_def GetScript_def
      store_GetProposal_def db_call_def split: option.split sum.split dest!: find_row_Some_key)

text \<open>The proposals other than \<open>i\<close> are \<open>rest\<close>, and \<open>i\<close> is filed under \<open>h\<close>.\<close>

definition repointed :: "string \<Rightarrow> string \<Rightarrow> Proposal list \<Rightarrow> Proposal list \<Rightarrow> bool" where
  "repointed i h rest ps \<longleftrightarrow>
     filter (\<lambda>q. P_ID q \<noteq> i) ps = rest \<and> (\<forall>q \<in> set ps. P_ID q = i \<longrightarrow> P_ScriptHash q = h)"

lemma Update_repoints:
  assumes "P_ID p = i" "P_ScriptHash p = h"
  shows "valid (\<lambda>w. filter (\<lambda>q. P_ID q \<noteq> i) (w_proposals w) = rest) (UpdateProposal env p)
    (\<lambda>_ w. repointed i h rest (w_proposals w)) (\<lambda>_. True)"
proof -
  have "filter (\<lambda>q. P_ID q \<noteq> i) (map (\<lambda>r. if P_ID r = i then (proposal_row p)\<lparr>P_CreatedAt := P_CreatedAt r\<rparr> else r) ps) =
      filter (\<lambda>q. P_ID q \<noteq> i) ps" for ps
    using assms by (induction ps) simp_all
  then show ?thesis using assms
    by (auto simp: valid_def UpdateProposal_def db_call_def repointed_def split: option.split)
qed

lemma transition_repoints:
  assumes "P_ID p = i" "P_ScriptHash p = h"
  shows "valid (\<lambda>w. filter (\<lambda>q. P_ID q \<noteq> i) (w_proposals w) = rest) (transition env p nx actor reason)
    (\<lambda>p1 w. repointed i h rest (w_proposals w) \<and> P_ID p1 = i \<and> P_ScriptHash p1 = h) (\<lambda>_. True)"
  unfolding transition_def Let_def
  by (rule valid_if valid_fail valid_bind [OF keep_proposals(1) [where Q = "\<lambda>ps. filter (\<lambda>q. P_ID q \<noteq> i) ps = rest"]]
      valid_bind [OF valid_wrap [OF Update_repoints]] valid_bind [OF keep_proposals(2)] valid_bind [OF keep_proposals(1)]
      valid_bind [OF keep_proposals(5)] valid_return | use assms in simp)+

lemma transition_stays:
  assumes "P_ID p = i" "P_ScriptHash p = h"
  shows "valid (\<lambda>w. repointed i h rest (w_proposals w)) (transition env p nx actor reason)
    (\<lambda>p1 w. repointed i h rest (w_proposals w) \<and> P_ID p1 = i \<and> P_ScriptHash p1 = h) (\<lambda>_. True)"
  by (rule valid_pre [OF transition_repoints [OF assms]]) (simp add: repointed_def)

lemma dry_run_stays:
  assumes "P_ID p = i" "P_ScriptHash p = h"
  shows "valid (\<lambda>w. repointed i h rest (w_proposals w)) (runDryRunAndAdvance env p script actor)
    (\<lambda>_ w. repointed i h rest (w_proposals w)) (\<lambda>_. True)"
  unfolding runDryRunAndAdvance_def Let_def
  by (rule valid_bind [OF valid_wrap [OF keep_proposals(3)]] valid_if valid_bind_pure [OF transition_stays]
      valid_post [OF transition_stays] | use assms in simp)+

lemma valid_Inr:
  assumes "valid P m Q E" "P w" "fst (m w) = Inr a"
  shows "Q a (snd (m w))"
  using assms unfolding valid_def by (cases "m w") force

lemma Edit_repoints:
  assumes "find_row P_ID i ps = Some p"
  shows "valid (\<lambda>w. w_proposals w = ps) (Edit env i txt actor)
    (\<lambda>_ w. repointed i (e_hash env txt) (filter (\<lambda>q. P_ID q \<noteq> i) ps) (w_proposals w) \<and> e_hash env txt \<noteq> P_ScriptHash p)
    (\<lambda>_. True)"
proof -
  have i: "P_ID p = i" using assms find_row_Some_key by metis
  have get: "valid (\<lambda>w. w_proposals w = ps) (store_GetProposal env i) (\<lambda>q w. w_proposals w = ps \<and> q = p) (\<lambda>_. True)"
    using assms by (auto simp: valid_def store_GetProposal_def db_call_def split: option.split)
  have stays: "valid (\<lambda>w. w_proposals w = ps) (transition env (p\<lparr>P_ScriptHash := e_hash env txt\<rparr>) nx actor reason)
      (\<lambda>p1 w. repointed i (e_hash env txt) (filter (\<lambda>q. P_ID q \<noteq> i) ps) (w_proposals w) \<and>
         (P_ID p1 = i \<and> P_ScriptHash p1 = e_hash env txt)) (\<lambda>_. True)" for nx reason
    by (rule valid_pre [OF transition_repoints]) (use i in auto)
  have fin: "valid (\<lambda>w. repointed i h rest (w_proposals w)) (runDryRunAndAdvance env q script actor)
      (\<lambda>_ w. repointed i h rest (w_proposals w) \<and> h \<noteq> h') (\<lambda>_. True)"
    if "P_ID q = i \<and> P_ScriptHash q = h" "h \<noteq> h'" for h h' rest q script
    by (rule valid_post [OF dry_run_stays]) (use that in auto)
  show ?thesis
    unfolding Edit_def Let_def
    by (rule valid_bind_pure [OF get] valid_bind_pure [OF keep_proposals(6) [where Q = "\<lambda>x. x = ps"]]
        valid_bind [OF keep_proposals(1) [where Q = "\<lambda>x. x = ps"]] valid_if valid_fail
        valid_bind [OF valid_wrap [OF keep_proposals(4) [where Q = "\<lambda>x. x = ps"]]]
        valid_bind_pure [OF stays] fin dry_run_stays | simp add: NewScript_def)+
qed

lemma head_of_sorted: "sort_key k (filter P xs) = q # qs \<Longrightarrow> q \<in> set xs \<and> P q"
  by (metis filter_is_subset list.set_intros(1) mem_Collect_eq set_filter set_sort subsetD)

lemma CheckGrant_finds:
  assumes "fst (CheckGrant env gid now w) = Inr gr"
  obtains q where "q \<in> set (w_proposals w)" "P_ScriptHash q = G_ScriptHash gr" "P_State q = StateApproved"
  using assms
  by (auto simp: CheckGrant_def op_bind_def op_fail_def op_return_def GetGrant_def FindApprovedProposalByHash_def
      db_call_def dest!: head_of_sorted split: option.splits list.splits if_splits sum.splits prod.splits)

text \<open>an edit takes the approval away. When the only approved proposal of a hash is edited
  successfully, no check of a grant for that hash is accepted any more.\<close>

theorem edit_invalidates_grants:
  assumes ok: "fst (Edit env i txt actor w) = Inr p'"
    and p: "find_row P_ID i (w_proposals w) = Some p"
    and sole: "\<And>q. q \<in> set (w_proposals w) \<Longrightarrow> P_State q = StateApproved \<Longrightarrow> P_ScriptHash q = P_ScriptHash p \<Longrightarrow> P_ID q = i"
    and grant: "G_ScriptHash gr = P_ScriptHash p"
  shows "fst (CheckGrant env gid now (snd (Edit env i txt actor w))) \<noteq> Inr gr"
proof
  let ?w = "snd (Edit env i txt actor w)"
  assume acc: "fst (CheckGrant env gid now ?w) = Inr gr"
  have rep: "repointed i (e_hash env txt) (filter (\<lambda>q. P_ID q \<noteq> i) (w_proposals w)) (w_proposals ?w)"
    and new: "e_hash env txt \<noteq> P_ScriptHash p"
    using valid_Inr [OF Edit_repoints [OF p] refl ok] by simp_all
  obtain q where q: "q \<in> set (w_proposals ?w)" "P_ScriptHash q = G_ScriptHash gr" "P_State q = StateApproved"
    using CheckGrant_finds [OF acc] by blast
  show False
  proof (cases "P_ID q = i")
    case True
    then have "P_ScriptHash q = e_hash env txt" using rep q(1) by (simp add: repointed_def)
    then show False using q(2) grant new by simp
  next
    case False
    then have "q \<in> set (filter (\<lambda>q. P_ID q \<noteq> i) (w_proposals ?w))" using q(1) by simp
    also have "\<dots> = set (filter (\<lambda>q. P_ID q \<noteq> i) (w_proposals w))" using rep by (metis repointed_def)
    finally have "q \<in> set (w_proposals w)" by simp
    then show False using sole [OF _ q(3)] q(2) grant False by simp
  qed
qed

section \<open>Concrete runs\<close>

text \<open>An environment whose dry runs approve, whose runs succeed, and whose ids are distinct.\<close>

definition sample_env :: Env where
  "sample_env = \<lparr>e_now = (\<lambda>t. int t * 5000000 + 5000000), e_id = (\<lambda>t. replicate t (CHR ''i'')), e_fail = (\<lambda>_. None),
     e_dry = (\<lambda>_ body. Inr \<lparr>DR_Approved = (body \<noteq> ''bad''), DR_ExitCode = 0, DR_TimedOut = False, DR_Reasons = [],
        DR_Warnings = [], DR_Transcript = []\<rparr>),
     e_run = (\<lambda>_ _. Inr \<lparr>RR_ExitCode = 0, RR_Succeeded = True, RR_TimedOut = False, RR_Output = []\<rparr>),
     e_precond = None, e_hash = (\<lambda>b. CHR ''#'' # b)\<rparr>"

definition sample_ttls :: GrantTTLs where
  "sample_ttls = \<lparr>ttl_Session = 0, ttl_Standing = 0\<rparr>"

text \<open>The first proposal gets the id drawn at tick 2; it is approved and a standing grant is issued
  for its hash.\<close>

definition run_approved :: World where
  "run_approved = fold (rstep sample_env) [CPropose ''a'' ''llm'', CApprove ''ii'' ''op'',
     CIssue ''#a'' ScopeStanding ''key'' '''' sample_ttls] empty_World"

text \<open>The world this run leads to, evaluated once for the examples below.\<close>

lemma run_approved_world [code]:
  "run_approved =
     \<lparr>w_scripts = [\<lparr>SC_SHA256 = ''#a'', SC_Body = ''a'', SC_CreatedAt = 5000000\<rparr>],
      w_proposals =
        [\<lparr>P_ID = ''ii'', P_ScriptHash = ''#a'', P_State = StateApproved, P_CreatedAt = 20000000, P_UpdatedAt = 115000000,
          P_RejectReasons = [], P_Warnings = [], P_Transcript = [], P_ApprovedBy = ''op'', P_ApprovedAt = 110000000,
          P_DeniedBy = [], P_DeniedAt = zero_time, P_DenyReason = []\<rparr>],
      w_audit =
        [\<lparr>A_ID = ''iiiiii'', A_ProposalID = ''ii'', A_FromState = StateEmpty, A_ToState = StateProposed, A_Actor = ''llm'',
          A_Reason = ''proposed'', A_At = 40000000\<rparr>,
         \<lparr>A_ID = ''iiiiiiiiiiii'', A_ProposalID = ''ii'', A_FromState = StateProposed, A_ToState = StateDryRunOK, A_Actor = ''llm'',
          A_Reason = ''dry run approved-for-review'', A_At = 70000000\<rparr>,
         \<lparr>A_ID = ''iiiiiiiiiiiiiiiii'', A_ProposalID = ''ii'', A_FromState = StateDryRunOK, A_ToState = StateAwaitingApproval,
          A_Actor = ''llm'', A_Reason = ''clean dry run: awaiting human approval'', A_At = 95000000\<rparr>,
         \<lparr>A_ID = ''iiiiiiiiiiiiiiiiiiiiiiii'', A_ProposalID = ''ii'', A_FromState = StateAwaitingApproval, A_ToState = StateApproved,
          A_Actor = ''op'', A_Reason = ''approved'', A_At = 130000000\<rparr>],
      w_grants =
        [\<lparr>G_ID = ''iiiiiiiiiiiiiiiiiiiiiiiiiiii'', G_ScriptHash = ''#a'', G_Scope = ScopeStanding, G_SessionID = [],
          G_APIKeyID = ''key'', G_GrantedAt = 140000000, G_ExpiresAt = 7776000140000000, G_LastRunAt = zero_time,
          G_RevokedAt = zero_time\<rparr>],
      w_tick = 30, w_dry = [(''a'', True)], w_runs = []\<rparr>"
  by code_simp

text \<open>The id of that grant.\<close>

definition grant_id :: string where
  "grant_id = replicate 28 (CHR ''i'')"

theorem CheckGrant_accepts_iff_witness:
  "fst (CheckGrant sample_env grant_id 0 run_approved) = Inr (hd (w_grants run_approved))"
proof -
  have "find_row G_ID grant_id (w_grants run_approved) = Some (hd (w_grants run_approved)) \<and>
      G_RevokedAt (hd (w_grants run_approved)) = zero_time \<and> 0 < G_ExpiresAt (hd (w_grants run_approved)) \<and>
      list_ex (\<lambda>p. P_ScriptHash p = G_ScriptHash (hd (w_grants run_approved)) \<and> P_State p = StateApproved)
        (w_proposals run_approved)"
    by code_simp
  then show ?thesis
    using CheckGrant_accepts_iff [of sample_env run_approved grant_id 0] by (auto simp: sample_env_def list_ex_iff)
qed

lemma sample_env_never_fails: "e_fail sample_env t = None"
  by (simp add: sample_env_def)

lemma sample_env_fresh: "inj (e_id sample_env)"
proof (rule injI)
  fix x y assume "e_id sample_env x = e_id sample_env y"
  then have "length (replicate x (CHR ''i'')) = length (replicate y (CHR ''i''))" by (simp add: sample_env_def)
  then show "x = y" by simp
qed

lemma sample_env_clock: "\<not> IsZero (row_time (e_now sample_env t))"
  by (simp add: sample_env_def row_time_def IsZero_def timeFromMillis_def millisFromTime_def zero_time_def
      UnixMilli_def time_UnixMilli_def)

theorem revocation_is_final_witness:
  "fst (CheckGrant sample_env grant_id 0 (fold (rstep sample_env) [CPropose ''b'' ''llm'']
     (snd (reg_RevokeGrant sample_env grant_id ''op'' run_approved)))) \<noteq> Inr (hd (w_grants run_approved))"
proof -
  have "fst (reg_RevokeGrant sample_env grant_id ''op'' run_approved) = Inr ()" by code_simp
  moreover have "grant_id \<in> set (map G_ID (w_grants run_approved))" by code_simp
  ultimately show ?thesis by (rule revocation_is_final) (rule sample_env_clock)
qed

theorem audit_trail_complete_witness:
  "let w = fold (rstep sample_env) [CPropose ''a'' ''llm'', CApprove ''ii'' ''op''] empty_World in
    list_all (\<lambda>p. audit_chain StateEmpty (filter (\<lambda>a. A_ProposalID a = P_ID p) (w_audit w)) = Some (P_State p)) (w_proposals w)"
  by (rule audit_trail_complete [OF sample_env_never_fails sample_env_fresh])

theorem edit_invalidates_grants_witness:
  "fst (CheckGrant sample_env grant_id 0 (snd (Edit sample_env ''ii'' ''b'' ''op'' run_approved))) \<noteq> Inr (hd (w_grants run_approved))"
proof (rule edit_invalidates_grants)
  have "P_ID (hd (w_proposals run_approved)) = ''ii'' \<and> tl (w_proposals run_approved) = [] \<and> w_proposals run_approved \<noteq> []"
    by code_simp
  then have row: "w_proposals run_approved = [hd (w_proposals run_approved)]" and "P_ID (hd (w_proposals run_approved)) = ''ii''"
    by (cases "w_proposals run_approved", simp_all)
  then show "P_ID q = ''ii''" if "q \<in> set (w_proposals run_approved)" for q using that by (metis list.set(1,2) empty_iff insert_iff)
  show "fst (Edit sample_env ''ii'' ''b'' ''op'' run_approved) =
      Inr (projr (fst (Edit sample_env ''ii'' ''b'' ''op'' run_approved)))" by code_simp
  show "find_row P_ID ''ii'' (w_proposals run_approved) = Some (hd (w_proposals run_approved))" by code_simp
  show "G_ScriptHash (hd (w_grants run_approved)) = P_ScriptHash (hd (w_proposals run_approved))" by code_simp
qed

text \<open>A second proposal of the same text, approved as well.\<close>

definition run_twins :: World where
  "run_twins = fold (rstep sample_env) [CPropose ''a'' ''llm'', CApprove (replicate 32 (CHR ''i'')) ''op''] run_approved"

text \<open>The environment in which the audit insert of the first approval fails.\<close>

definition full_disk_env :: Env where
  "full_disk_env = sample_env\<lparr>e_fail := (\<lambda>t. if t = 26 then Some ''disk full'' else None)\<rparr>"

definition run_proposed :: World where
  "run_proposed = rstep full_disk_env (CPropose ''a'' ''llm'') empty_World"

lemma double_run:
  "w_runs (snd (execute_from sample_env ''bob'' (hd (w_proposals run_approved))
     (snd (execute_from sample_env ''alice'' (hd (w_proposals run_approved)) run_approved)))) = [(''ii'', ''a''), (''ii'', ''a'')]"
  by code_simp

lemma twin_keeps_grant:
  "isl (fst (CheckGrant sample_env grant_id 0 (snd (Edit sample_env ''ii'' ''b'' ''op'' run_twins)))) = False"
  by code_simp

lemma unaudited_approval:
  "fst (reg_Approve full_disk_env ''ii'' ''op'' run_proposed) = Inl (ErrDriver ''disk full'')"
  "map P_State (w_proposals (rstep full_disk_env (CApprove ''ii'' ''op'') run_proposed)) = [StateApproved]"
  "map A_ToState (w_audit (rstep full_disk_env (CApprove ''ii'' ''op'') run_proposed)) =
     [StateProposed, StateDryRunOK, StateAwaitingApproval]"
  by code_simp+

lemma grant_unusable_after_run:
  "fst (CheckGrant sample_env grant_id 0 (rstep sample_env (CExecute ''ii'' ''op'') run_approved)) = Inl ErrGrantNotApproved"
  by code_simp

text \<open>What the registry does not exclude. Two calls of \<open>Execute\<close> that read the approved proposal
  before either moved it run the script twice; an edit leaves a grant good when a second approved
  proposal has the same text; a write that fails between the update and the audit row leaves
  an approved proposal without its audit entry; and a standing grant stops being accepted after the
  first run of its script.\<close>

theorem registry_gaps:
  "w_runs (snd (execute_from sample_env ''bob'' (hd (w_proposals run_approved))
       (snd (execute_from sample_env ''alice'' (hd (w_proposals run_approved)) run_approved)))) =
     [(''ii'', ''a''), (''ii'', ''a'')] \<and>
   isl (fst (CheckGrant sample_env grant_id 0 (snd (Edit sample_env ''ii'' ''b'' ''op'' run_twins)))) = False \<and>
   fst (reg_Approve full_disk_env ''ii'' ''op'' run_proposed) = Inl (ErrDriver ''disk full'') \<and>
   map P_State (w_proposals (rstep full_disk_env (CApprove ''ii'' ''op'') run_proposed)) = [StateApproved] \<and>
   map A_ToState (w_audit (rstep full_disk_env (CApprove ''ii'' ''op'') run_proposed)) =
     [StateProposed, StateDryRunOK, StateAwaitingApproval] \<and>
   fst (CheckGrant sample_env grant_id 0 (rstep sample_env (CExecute ''ii'' ''op'') run_approved)) = Inl ErrGrantNotApproved"
  using double_run twin_keeps_grant unaudited_approval grant_unusable_after_run by blast

end
