(* ===== verification/Unraid_Domain.thy ===== *)
theory Unraid_Domain
  imports Core_Domain Golib Complex_Main
begin

text \<open>
  The Unraid state surface of \<open>internal/core/unraid.go\<close>: the readings of the Host, the array, the
  shares, the containers and the SMART attributes, and the errors a read can end in. A pointer
  field is an option, a floating-point field a rational number, computed exactly.
\<close>

text \<open>A read fails because the disk sleeps, because the credential was rejected, or otherwise;
  the text is what \<open>Error\<close> returns.\<close>

datatype readErr = DiskStandby string | Unauthenticated string | ReadFailed string

definition ErrDiskStandby :: string where
  "ErrDiskStandby = ''disk in standby; not woken''"

definition ErrUnauthenticated :: string where
  "ErrUnauthenticated = ''unraid api credential rejected''"

definition readErr_Error :: "readErr \<Rightarrow> string" where
  "readErr_Error e = (case e of DiskStandby s \<Rightarrow> s | Unauthenticated s \<Rightarrow> s | ReadFailed s \<Rightarrow> s)"

text \<open>\<open>fmt.Errorf("...: %w", err)\<close> keeps the kind of the error.\<close>

definition wrap_read :: "string \<Rightarrow> readErr \<Rightarrow> readErr" where
  "wrap_read msg e =
     (case e of DiskStandby s \<Rightarrow> DiskStandby (msg @ '': '' @ s) | Unauthenticated s \<Rightarrow> Unauthenticated (msg @ '': '' @ s)
        | ReadFailed s \<Rightarrow> ReadFailed (msg @ '': '' @ s))"

datatype StateSource = SourceUnraidAPI | SourceEmhttp | SourceProcfs

record HostInfo =
  HI_Hostname :: string
  HI_UnraidVersion :: string
  HI_CPUModel :: string
  HI_CPUCores :: int
  HI_CPUPercent :: rat
  HI_MemTotalBytes :: int
  HI_MemUsedBytes :: int
  HI_UptimeSeconds :: int
  HI_Source :: StateSource
  HI_CollectedAt :: gotime

record Disk =
  Dk_Name :: string
  Dk_Device :: string
  Dk_Role :: string
  Dk_SizeBytes :: int
  Dk_UsedBytes :: int
  Dk_TempC :: "int option"
  Dk_SmartStatus :: string
  Dk_SpunDown :: bool

record ArrayState =
  Ar_State :: string
  Ar_ParityCheckActive :: bool
  Ar_ParityCheckProgress :: rat
  Ar_ParityLastCheck :: "gotime option"
  Ar_ParityLastErrors :: int
  Ar_Source :: StateSource
  Ar_Disks :: "Disk list"
  Ar_CollectedAt :: gotime

record Share =
  Sh_Name :: string
  Sh_SizeBytes :: int
  Sh_FreeBytes :: int
  Sh_UsedBytes :: int
  Sh_Allocator :: string
  Sh_CachePool :: string
  Sh_Exported :: bool
  Sh_Accessible :: bool
  Sh_Source :: StateSource

record Container =
  Ct_Name :: string
  Ct_Image :: string
  Ct_State :: string
  Ct_Status :: string
  Ct_Ports :: "string list"
  Ct_AutoRun :: bool

record SmartAttr =
  At_ID :: int
  At_Name :: string
  At_Value :: int
  At_Worst :: int
  At_Threshold :: int
  At_RawValue :: int

record SmartAttrs =
  SA_Device :: string
  SA_ModelName :: string
  SA_SerialHash :: string
  SA_TemperatureCelsius :: "int option"
  SA_Attributes :: "SmartAttr list"
  SA_CollectedAt :: gotime

end
