(* ===== verification/Emhttp.thy ===== *)
theory Emhttp
  imports Sandbox Unraid_Domain "HOL-Library.AList"
begin

text \<open>
  The readers of Unraid's state files of \<open>internal/unraid/emhttp.go\<close>: the INI parser, the flat
  \<open>var.ini\<close> reader, and the array and share readings built from them. A Go map is an association
  list without repeated keys, in the order of first insertion; the loops over a map visit it in some
  order, here the order of the list. The file system is the argument \<open>files\<close>, and \<open>stat\<close> says
  whether a path can be read; \<open>ctx\<close> is the error of the context, if it has one. The theorem is
  that the parser reads back a printed file.
\<close>

type_synonym gomap = "(string \<times> string) list"
type_synonym sections = "(string \<times> gomap) list"

text \<open>Reading a missing key of a map gives the zero value.\<close>

definition fld :: "gomap \<Rightarrow> string \<Rightarrow> string" where
  "fld m k = (case map_of m k of None \<Rightarrow> '''' | Some v \<Rightarrow> v)"

definition sec_fields :: "sections \<Rightarrow> string \<Rightarrow> gomap" where
  "sec_fields m k = (case map_of m k of None \<Rightarrow> [] | Some v \<Rightarrow> v)"

section \<open>Lines\<close>

text \<open>\<open>bufio.Scanner\<close> with its default buffer.\<close>

definition defaultTokenSize :: int where
  "defaultTokenSize = 64 * 1024"

fun default_tokens :: "string list \<Rightarrow> string list \<times> bool" where
  "default_tokens [] = ([], False)"
| "default_tokens (l # ls) =
     (if int (length l) < defaultTokenSize then (let (rest, err) = default_tokens ls in (dropCR l # rest, err))
      else ([], True))"

definition scan_lines :: "string \<Rightarrow> string list \<times> bool" where
  "scan_lines s = default_tokens (split_lines [] s)"

definition ErrTooLong :: string where
  "ErrTooLong = ''bufio.Scanner: token too long''"

section \<open>The INI parser\<close>

definition ini_line :: "string \<times> sections \<Rightarrow> string \<Rightarrow> string \<times> sections" where
  "ini_line st raw =
     (case st of (current, m) \<Rightarrow>
      let line = strings_TrimSpace raw in
      if line = '''' then st
      else if strings_HasPrefix line ''['' \<and> strings_HasSuffix line '']''
      then (let name = strings_Trim line [CHR ''['', CHR '']'', CHR 0x22] in (name, AList.update name [] m))
      else (case strings_Cut line (CHR ''='') of
          None \<Rightarrow> st
        | Some (key, val) \<Rightarrow>
            if current = '''' then st
            else (current, AList.update current
                    (AList.update (strings_TrimSpace key) (strings_Trim (strings_TrimSpace val) [CHR 0x22]) (sec_fields m current)) m)))"

definition parseINI :: "string \<Rightarrow> string + sections" where
  "parseINI text_of =
     (case scan_lines text_of of (lines, too_long) \<Rightarrow>
        if too_long then Inl ErrTooLong else Inr (snd (foldl ini_line ('''', []) lines)))"

type_synonym files = "string \<Rightarrow> hostfile"

definition emhttpDir :: string where
  "emhttpDir = ''/var/local/emhttp''"

definition emhttp_path :: "string \<Rightarrow> string" where
  "emhttp_path name = emhttpDir @ ''/'' @ name"

text \<open>\<open>os.Open\<close> and the read behind it.\<close>

definition open_read :: "files \<Rightarrow> string \<Rightarrow> string + string" where
  "open_read files path =
     (case files path of
        FileMissing \<Rightarrow> Inl (''open '' @ path @ '': no such file or directory'')
      | FileError e \<Rightarrow> Inl e
      | FileData d \<Rightarrow> Inr d)"

definition readINI :: "files \<Rightarrow> string option \<Rightarrow> string \<Rightarrow> readErr + sections" where
  "readINI files ctx name =
     (case ctx of
        Some e \<Rightarrow> Inl (ReadFailed e)
      | None \<Rightarrow>
          let path = emhttp_path name in
          res_bind (res_wrap (\<lambda>e. ReadFailed (''unraid emhttp: open '' @ path @ '': '' @ e)) (open_read files path)) (\<lambda>d.
          res_wrap (\<lambda>e. ReadFailed (''unraid emhttp: parse '' @ path @ '': '' @ e)) (parseINI d)))"

section \<open>Shares\<close>

record shareGaps =
  sg_cachePool :: string
  sg_exported :: bool

definition exportedFromSec :: "gomap \<Rightarrow> bool" where
  "exportedFromSec flds \<longleftrightarrow> fld flds ''export'' \<noteq> ''-'' \<and> fld flds ''export'' \<noteq> ''''"

definition readShareGaps :: "files \<Rightarrow> string option \<Rightarrow> readErr + (string \<times> shareGaps) list" where
  "readShareGaps files ctx =
     res_bind (readINI files ctx ''shares.ini'') (\<lambda>shares.
     res_bind (readINI files ctx ''sec.ini'') (\<lambda>sec.
     Inr (map (\<lambda>(name, flds). (name, \<lparr>sg_cachePool = fld flds ''cachePool'',
                                        sg_exported = exportedFromSec (sec_fields sec name)\<rparr>)) shares)))"

definition userSharesRoot :: string where
  "userSharesRoot = ''/mnt/user''"

definition shareAccessible :: "(string \<Rightarrow> bool) \<Rightarrow> string \<Rightarrow> bool" where
  "shareAccessible stat name = stat (userSharesRoot @ ''/'' @ name)"

definition parseINIInt :: "string \<Rightarrow> int option" where
  "parseINIInt s = ParseInt s"

definition kibToBytes :: "int \<Rightarrow> int" where
  "kibToBytes v = wrap64 (v * 1024)"

definition kibField :: "gomap \<Rightarrow> string \<Rightarrow> int" where
  "kibField flds key = kibToBytes (case parseINIInt (fld flds key) of None \<Rightarrow> 0 | Some n \<Rightarrow> n)"

definition readSharesFromEmhttp :: "files \<Rightarrow> (string \<Rightarrow> bool) \<Rightarrow> string option \<Rightarrow> readErr + Share list" where
  "readSharesFromEmhttp files stat ctx =
     res_bind (readINI files ctx ''shares.ini'') (\<lambda>shares.
     res_bind (readINI files ctx ''sec.ini'') (\<lambda>sec.
     Inr (map (\<lambda>(name, flds).
       \<lparr>Sh_Name = name, Sh_SizeBytes = kibField flds ''size'', Sh_FreeBytes = kibField flds ''free'',
        Sh_UsedBytes = kibField flds ''used'', Sh_Allocator = fld flds ''allocator'', Sh_CachePool = fld flds ''cachePool'',
        Sh_Exported = exportedFromSec (sec_fields sec name), Sh_Accessible = shareAccessible stat name,
        Sh_Source = SourceEmhttp\<rparr>) shares)))"

section \<open>The array\<close>

definition var_line :: "gomap \<Rightarrow> string \<Rightarrow> gomap" where
  "var_line m raw =
     (let line = strings_TrimSpace raw in
      if line = '''' then m
      else (case strings_Cut line (CHR ''='') of
          None \<Rightarrow> m
        | Some (key, val) \<Rightarrow> AList.update (strings_TrimSpace key) (strings_Trim (strings_TrimSpace val) [CHR 0x22]) m))"

definition readVars :: "files \<Rightarrow> string option \<Rightarrow> readErr + gomap" where
  "readVars files ctx =
     (case ctx of
        Some e \<Rightarrow> Inl (ReadFailed e)
      | None \<Rightarrow>
          let path = emhttp_path ''var.ini'' in
          res_bind (res_wrap (\<lambda>e. ReadFailed (''unraid emhttp: open '' @ path @ '': '' @ e)) (open_read files path)) (\<lambda>d.
          case scan_lines d of (lines, too_long) \<Rightarrow>
            if too_long then Inl (ReadFailed (''unraid emhttp: parse '' @ path @ '': '' @ ErrTooLong))
            else Inr (foldl var_line [] lines)))"

text \<open>\<open>normalizeDevice\<close> is in \<open>source.go\<close>.\<close>

definition normalizeDevice :: "string \<Rightarrow> string" where
  "normalizeDevice device =
     (if device = '''' \<or> strings_HasPrefix device ''/dev/'' then device else ''/dev/'' @ device)"

definition diskFromEmhttp :: "string \<Rightarrow> gomap \<Rightarrow> Disk option" where
  "diskFromEmhttp name flds =
     (if fld flds ''device'' = '''' then None
      else Some \<lparr>Dk_Name = name, Dk_Device = normalizeDevice (fld flds ''device''),
        Dk_Role = strings_ToLower (fld flds ''type''), Dk_SizeBytes = kibField flds ''size'',
        Dk_UsedBytes = kibField flds ''fsUsed'', Dk_TempC = parseINIInt (fld flds ''temp''),
        Dk_SmartStatus = (if fld flds ''status'' = ''DISK_OK'' then ''OK'' else ''UNKNOWN''),
        Dk_SpunDown = (fld flds ''spundown'' = ''1'')\<rparr>)"

definition emhttp_disks :: "sections \<Rightarrow> Disk list" where
  "emhttp_disks secs =
     List.map_filter (\<lambda>(name, flds). if name = ''flash'' then None else diskFromEmhttp name flds) secs"

definition readArrayStateFromEmhttp :: "files \<Rightarrow> string option \<Rightarrow> gotime \<Rightarrow> readErr + ArrayState" where
  "readArrayStateFromEmhttp files ctx now =
     res_bind (readVars files ctx) (\<lambda>vars.
     res_bind (readINI files ctx ''disks.ini'') (\<lambda>secs.
       let active = (case parseINIInt (fld vars ''mdResync'') of None \<Rightarrow> False | Some n \<Rightarrow> n \<noteq> 0);
           num = (\<lambda>k. case parseINIInt (fld vars k) of None \<Rightarrow> 0 | Some n \<Rightarrow> n) in
       Inr \<lparr>Ar_State = fld vars ''mdState'', Ar_ParityCheckActive = active,
         Ar_ParityCheckProgress =
           (if active then of_int (float64_round (num ''mdResyncPos'')) / (of_int (float64_round (num ''mdResync'')) / 100 + 1) else 0),
         Ar_ParityLastCheck = (case parseINIInt (fld vars ''sbSynced2'') of
            None \<Rightarrow> None | Some n \<Rightarrow> if n > 0 then Some (n * nsSecond) else None),
         Ar_ParityLastErrors = num ''sbSyncErrs'', Ar_Source = SourceEmhttp, Ar_Disks = emhttp_disks secs,
         Ar_CollectedAt = now\<rparr>))"

section \<open>Reading back a printed file\<close>

definition print_key :: "string \<times> string \<Rightarrow> string" where
  "print_key = (\<lambda>(k, v). k @ [CHR ''='', CHR 0x22] @ v @ [CHR 0x22])"

definition print_head :: "string \<Rightarrow> string" where
  "print_head name = [CHR ''['', CHR 0x22] @ name @ [CHR 0x22, CHR '']'']"

definition ini_lines :: "sections \<Rightarrow> string list" where
  "ini_lines secs = concat (map (\<lambda>(name, kvs). print_head name # map print_key kvs) secs)"

definition print_ini :: "sections \<Rightarrow> string" where
  "print_ini secs = concat (map (\<lambda>l. l @ [CHR 0x0A]) (ini_lines secs))"

definition ends_free :: "string \<Rightarrow> string \<Rightarrow> bool" where
  "ends_free cs s \<longleftrightarrow> s = [] \<or> hd s \<notin> set cs \<and> last s \<notin> set cs"

text \<open>What can be printed: names without line breaks, keys without line breaks and white space at their ends, values without line
  breaks and quotes at their ends, lines that fit the scanner's buffer, nothing repeated.\<close>

definition key_ok :: "string \<times> string \<Rightarrow> bool" where
  "key_ok = (\<lambda>(k, v). CHR 0x0A \<notin> set k \<and> CHR ''='' \<notin> set k \<and> tight k \<and>
     CHR 0x0A \<notin> set v \<and> ends_free [CHR 0x22] v \<and> int (length k + length v) + 3 < defaultTokenSize)"

definition section_ok :: "string \<times> gomap \<Rightarrow> bool" where
  "section_ok = (\<lambda>(name, kvs). name \<noteq> [] \<and> CHR 0x0A \<notin> set name \<and> ends_free [CHR ''['', CHR '']'', CHR 0x22] name \<and>
     int (length name) + 4 < defaultTokenSize \<and> list_all key_ok kvs \<and> distinct (map fst kvs))"

definition printable :: "sections \<Rightarrow> bool" where
  "printable secs \<longleftrightarrow> list_all section_ok secs \<and> distinct (map fst secs)"

lemma split_lines_line: "CHR 0x0A \<notin> set l \<Longrightarrow> split_lines acc (l @ CHR 0x0A # rest) = (rev acc @ l) # split_lines [] rest"
  by (induction l arbitrary: acc) auto

definition line_ok :: "string \<Rightarrow> bool" where
  "line_ok l \<longleftrightarrow> CHR 0x0A \<notin> set l \<and> l \<noteq> [] \<and> last l \<noteq> CHR 0x0D \<and> int (length l) < defaultTokenSize"

lemma scan_printed:
  "list_all line_ok ls \<Longrightarrow> scan_lines (concat (map (\<lambda>l. l @ [CHR 0x0A]) ls)) = (ls, False)"
  by (induction ls) (simp_all add: line_ok_def scan_lines_def split_lines_line [where acc = "[]"] dropCR_def)

lemma update_fresh: "k \<notin> fst ` set al \<Longrightarrow> AList.update k v al = al @ [(k, v)]"
  by (induction al) auto

lemma update_end: "k \<notin> fst ` set al \<Longrightarrow> AList.update k v (al @ [(k, u)]) = al @ [(k, v)]"
  by (induction al) auto

lemma fields_end: "k \<notin> fst ` set al \<Longrightarrow> sec_fields (al @ [(k, u)]) k = u"
  by (simp add: sec_fields_def map_add_def map_of_eq_None_iff [symmetric] del: map_of_eq_None_iff)

text \<open>What bounds a text with bytes that occur in no white space leaves nothing to trim; and neither does a key that begins tight.\<close>

lemma space_seqs_bytes: "w \<in> set space_seqs \<Longrightarrow> w \<noteq> [] \<and> set w \<inter> {CHR ''='', CHR ''['', CHR '']'', CHR 0x22} = {}"
proof -
  have "list_all (\<lambda>w. w \<noteq> [] \<and> set w \<inter> {CHR ''='', CHR ''['', CHR '']'', CHR 0x22} = {}) space_seqs"
    by (simp add: space_seqs_def)
  then show "w \<in> set space_seqs \<Longrightarrow> w \<noteq> [] \<and> set w \<inter> {CHR ''='', CHR ''['', CHR '']'', CHR 0x22} = {}"
    unfolding list_all_iff by blast
qed

lemma no_prefix:
  assumes "w \<in> set space_seqs" "\<not> prefix w k" "c \<in> {CHR ''='', CHR ''['', CHR '']'', CHR 0x22}"
  shows "\<not> prefix w (k @ c # t)"
  using assms space_seqs_bytes [of w] by (auto simp: prefix_append prefix_Cons)

lemma no_suffix:
  assumes "w \<in> set space_seqs" "c \<in> {CHR ''='', CHR ''['', CHR '']'', CHR 0x22}"
  shows "\<not> suffix w (t @ [c])"
  using assms space_seqs_bytes [of w] by (auto simp: suffix_snoc)

lemma tight_between:
  assumes "tight k" "c \<in> {CHR ''='', CHR ''['', CHR '']'', CHR 0x22}" "d \<in> {CHR ''='', CHR ''['', CHR '']'', CHR 0x22}"
  shows "tight (k @ c # t @ [d])"
  using assms no_prefix [of _ k c] no_suffix [of _ d "k @ c # t"] by (auto simp: tight_def)

lemma tight_Nil: "tight []"
  using space_seqs_bytes by (auto simp: tight_def)

lemma ini_line_head:
  assumes "section_ok (name, kvs)"
  shows "ini_line (cur, m) (print_head name) = (name, AList.update name [] m)"
proof -
  have "strings_TrimSpace (print_head name) = print_head name"
    using TrimSpace_ends [OF tight_between [OF tight_Nil, of "CHR ''[''" "CHR '']''" "CHR 0x22 # name @ [CHR 0x22]"]]
    by (simp add: print_head_def)
  moreover have "strings_Trim (print_head name) [CHR ''['', CHR '']'', CHR 0x22] = name"
    using Trim_quoted [of name "[CHR ''['', CHR '']'', CHR 0x22]" "[CHR ''['', CHR 0x22]" "[CHR 0x22, CHR '']'']"] assms
    by (auto simp: print_head_def section_ok_def ends_free_def)
  moreover have "strings_HasPrefix (print_head name) ''['' \<and> strings_HasSuffix (print_head name) '']'' \<and> print_head name \<noteq> []"
    by (simp add: print_head_def strings_HasPrefix_def strings_HasSuffix_def)
  ultimately show ?thesis by (simp add: ini_line_def Let_def)
qed

lemma ini_line_key:
  assumes "key_ok (k, v)" "cur \<noteq> []"
  shows "ini_line (cur, m) (print_key (k, v)) = (cur, AList.update cur (AList.update k v (sec_fields m cur)) m)"
proof -
  have line: "print_key (k, v) = k @ CHR ''='' # CHR 0x22 # v @ [CHR 0x22]" by (simp add: print_key_def)
  have "strings_TrimSpace (print_key (k, v)) = print_key (k, v)"
    using TrimSpace_ends [OF tight_between [of k "CHR ''=''" "CHR 0x22" "CHR 0x22 # v"]] assms by (simp add: line key_ok_def)
  moreover have "\<not> strings_HasSuffix (print_key (k, v)) '']''"
    by (simp add: line strings_HasSuffix_def strings_HasPrefix_def)
  moreover have "strings_Cut (print_key (k, v)) (CHR ''='') = Some (k, CHR 0x22 # v @ [CHR 0x22])"
    unfolding line using assms by (intro Cut_append) (simp add: key_ok_def)
  moreover have "strings_TrimSpace k = k"
    by (rule TrimSpace_ends) (use assms in \<open>simp add: key_ok_def\<close>)
  moreover have "strings_TrimSpace (CHR 0x22 # v @ [CHR 0x22]) = CHR 0x22 # v @ [CHR 0x22]"
    using TrimSpace_ends [OF tight_between [OF tight_Nil, of "CHR 0x22" "CHR 0x22" v]] by simp
  moreover have "strings_Trim (CHR 0x22 # v @ [CHR 0x22]) [CHR 0x22] = v"
    using Trim_quoted [of v "[CHR 0x22]" "[CHR 0x22]" "[CHR 0x22]"] assms by (auto simp: key_ok_def ends_free_def)
  ultimately show ?thesis using assms(2) by (simp add: ini_line_def Let_def line)
qed

lemma ini_keys:
  assumes "name \<noteq> []" "name \<notin> fst ` set pre" "list_all key_ok kvs" "distinct (map fst (acc @ kvs))"
  shows "foldl ini_line (name, pre @ [(name, acc)]) (map print_key kvs) = (name, pre @ [(name, acc @ kvs)])"
  using assms(3,4)
proof (induction kvs arbitrary: acc)
  case Nil
  show ?case by simp
next
  case (Cons kv kvs)
  obtain k v where kv: "kv = (k, v)" by (cases kv)
  have "ini_line (name, pre @ [(name, acc)]) (print_key kv) = (name, pre @ [(name, acc @ [kv])])"
    using Cons.prems assms(1,2) by (simp add: kv ini_line_key fields_end update_fresh update_end)
  then show ?case using Cons.IH [of "acc @ [kv]"] Cons.prems by simp
qed

lemma ini_sections:
  assumes "list_all section_ok secs" "distinct (map fst (pre @ secs))"
  shows "snd (foldl ini_line (cur, pre) (ini_lines secs)) = pre @ secs"
  using assms
proof (induction secs arbitrary: cur pre)
  case Nil
  show ?case by (simp add: ini_lines_def)
next
  case (Cons sec secs)
  obtain name kvs where sec: "sec = (name, kvs)" by (cases sec)
  have "foldl ini_line (cur, pre) (ini_lines (sec # secs)) =
      foldl ini_line (foldl ini_line (ini_line (cur, pre) (print_head name)) (map print_key kvs)) (ini_lines secs)"
    by (simp add: ini_lines_def sec)
  also have "\<dots> = foldl ini_line (name, pre @ [(name, kvs)]) (ini_lines secs)"
    using Cons.prems ini_keys [of name pre kvs "[]"] ini_line_head [of name kvs cur pre]
    by (simp add: sec section_ok_def update_fresh)
  finally show ?case using Cons.IH [of "pre @ [sec]" name] Cons.prems by (simp add: sec)
qed

lemma head_line_ok: "section_ok (name, kvs) \<Longrightarrow> line_ok (print_head name)"
  by (simp add: section_ok_def line_ok_def print_head_def)

lemma key_line_ok: "key_ok kv \<Longrightarrow> line_ok (print_key kv)"
  by (simp add: key_ok_def line_ok_def print_key_def split: prod.splits)

lemma ini_lines_ok: "list_all section_ok secs \<Longrightarrow> list_all line_ok (ini_lines secs)"
proof (induction secs)
  case Nil
  show ?case by (simp add: ini_lines_def)
next
  case (Cons sec secs)
  obtain name kvs where sec: "sec = (name, kvs)" by (cases sec)
  have "list_all line_ok (print_head name # map print_key kvs)"
    using Cons.prems head_line_ok [of name kvs] key_line_ok by (simp add: sec section_ok_def list_all_iff)
  then show ?case using Cons by (simp add: ini_lines_def sec)
qed

lemma parseINI_printed: "printable secs \<Longrightarrow> parseINI (print_ini secs) = Inr secs"
  using scan_printed [OF ini_lines_ok, of secs] ini_sections [of secs "[]" "''''"]
  by (simp add: printable_def parseINI_def print_ini_def)

text \<open>The Go value that a result stands for: a map from section names to maps from keys to values.\<close>

definition go_sections :: "sections \<Rightarrow> (string \<rightharpoonup> (string \<rightharpoonup> string))" where
  "go_sections m = (\<lambda>name. map_option map_of (map_of m name))"


text \<open>A small \<open>disks.ini\<close>.\<close>

definition sample_disks :: sections where
  "sample_disks = [(''disk1'', [(''device'', ''sdc''), (''temp'', ''*''), (''size'', ''5860522532''), (''type'', ''Data'')]),
     (''flash'', [(''device'', ''sda'')])]"


lemma sample_disks_read:
  "map (\<lambda>d. (Dk_Device d, Dk_TempC d, Dk_SizeBytes d, Dk_Role d)) (emhttp_disks sample_disks) =
     [(''/dev/sdc'', None, 6001175072768, ''data'')]"
  by code_simp

end
