(* ===== verification/Unraid.thy ===== *)
theory Unraid
  imports Emhttp Sha256
begin

text \<open>
  The concrete Unraid source of \<open>internal/unraid\<close>: the GraphQL client's treatment of a reply
  (\<open>graphql.go\<close>), the smartctl reader (\<open>smart.go\<close>), the container list (\<open>docker.go\<close>), the host
  vitals from procfs (\<open>procfs.go\<close>), the reachability self-check (\<open>reachability.go\<close>) and the methods
  of \<open>Source\<close> with their fallbacks (\<open>source.go\<close>). What the world answers (HTTP replies with their decoded
  JSON, the exit of smartctl and tailscale, file contents) and the text conversions of floating-point
  numbers, RFC 3339 times and \<open>host:port\<close> pairs are arguments. Floating-point arithmetic is
  exact. The theorem shows that a fallback is taken for a rejected credential only and that every
  reading names the path it came from.
\<close>

section \<open>GraphQL\<close>

record graphqlError =
  GE_Message :: string
  GE_Code :: string

text \<open>\<open>strings.EqualFold\<close> against a constant of ASCII letters other than K and S, the only use here. No rune outside ASCII folds to
  such a letter, so that comparing ASCII-lowered bytes is exact.\<close>

definition EqualFold :: "string \<Rightarrow> string \<Rightarrow> bool" where
  "EqualFold a b \<longleftrightarrow> map ascii_lower a = map ascii_lower b"

definition isAuthError :: "graphqlError \<Rightarrow> bool" where
  "isAuthError e \<longleftrightarrow> EqualFold (GE_Code e) ''UNAUTHENTICATED'' \<or> EqualFold (GE_Code e) ''FORBIDDEN'' \<or>
     (let msg = strings_ToLower (GE_Message e) in
      strings_Contains msg ''csrf'' \<or> strings_Contains msg ''session'' \<or> strings_Contains msg ''unauthorized'' \<or>
      strings_Contains msg ''unauthenticated'')"

text \<open>The reply of the server: it could not be asked, or it answered with a status and a body, which decodes to
  a list of errors and a data object, itself decoded into the caller's type.\<close>

datatype 'a gql_reply =
    GqlBuildFailed string | GqlRequestFailed string | GqlAnswered int "string + (graphqlError list \<times> (string + 'a))"

definition gql_do :: "'a gql_reply \<Rightarrow> readErr + 'a" where
  "gql_do reply =
     (case reply of
        GqlBuildFailed e \<Rightarrow> Inl (ReadFailed (''unraid graphql: build request: '' @ e))
      | GqlRequestFailed e \<Rightarrow> Inl (ReadFailed (''unraid graphql: request failed: '' @ e))
      | GqlAnswered code body \<Rightarrow>
          if code = 401 \<or> code = 403
          then Inl (Unauthenticated (''unraid graphql: http '' @ itoa code @ '': '' @ ErrUnauthenticated))
          else (case body of
              Inl e \<Rightarrow> Inl (ReadFailed (''unraid graphql: decode response: '' @ e))
            | Inr (errs, data) \<Rightarrow>
                (case errs of
                   first # _ \<Rightarrow>
                     if isAuthError first
                     then Inl (Unauthenticated (''unraid graphql: '' @ GE_Message first @ '': '' @ ErrUnauthenticated))
                     else Inl (ReadFailed (''unraid graphql: '' @ GE_Message first))
                 | [] \<Rightarrow> res_wrap (\<lambda>e. ReadFailed (''unraid graphql: decode data: '' @ e)) data)))"

text \<open>The custom scalar: a JSON number or a quoted one.\<close>

definition bigInt_UnmarshalJSON :: "string \<Rightarrow> string + int" where
  "bigInt_UnmarshalJSON data =
     (let s = strings_Trim data [CHR 0x22] in
      if s = '''' \<or> s = ''null'' then Inr 0
      else (case ParseInt s of None \<Rightarrow> Inl (''unraid graphql: decode BigInt '' @ go_quote s) | Some v \<Rightarrow> Inr v))"

record hostInfoResponse =
  HR_Hostname :: string
  HR_Uptime :: string
  HR_Manufacturer :: string
  HR_Brand :: string
  HR_Cores :: int
  HR_Version :: string
  HR_PercentTotal :: rat
  HR_MemTotal :: int
  HR_MemUsed :: int

record arrayDiskFragment =
  Fr_Name :: string
  Fr_Device :: string
  Fr_Size :: int
  Fr_Temp :: "int option"
  Fr_FsUsed :: int
  Fr_Type :: string
  Fr_IsSpinning :: "bool option"

record arrayResponse =
  AR_State :: string
  AR_Running :: bool
  AR_Progress :: "int option"
  AR_Date :: "string option"
  AR_Errors :: "int option"
  AR_Disks :: "arrayDiskFragment list"
  AR_Caches :: "arrayDiskFragment list"
  AR_Parities :: "arrayDiskFragment list"
  AR_SmartStatus :: "(string \<times> string) list"

record shareResponse =
  SR_Name :: string
  SR_Size :: int
  SR_Free :: int
  SR_Used :: int
  SR_Allocator :: string

section \<open>SMART\<close>

definition smartctlArgs :: "string \<Rightarrow> string list" where
  "smartctlArgs device = [''-n'', ''standby'', ''-i'', ''-A'', ''-j'', device]"

definition standbyExitBit :: int where
  "standbyExitBit = 2"

record smartctlOutput =
  SO_ModelName :: string
  SO_SerialNumber :: string
  SO_Table :: "SmartAttr list"
  SO_Temperature :: "int option"

text \<open>How the process ended: not started, exited with a code and an error text, or finished with an output that
  decodes or does not.\<close>

datatype smartctl_end = SmartNotRun string | SmartExit int string string | SmartDone "string + smartctlOutput"

definition hashSerial :: "string \<Rightarrow> string" where
  "hashSerial serial = take 16 (hex_EncodeToString (Sum256 serial))"

definition exit_bit :: "int \<Rightarrow> bool" where
  "exit_bit code \<longleftrightarrow> odd (code div standbyExitBit)"

definition runSmartctl :: "(string list \<Rightarrow> smartctl_end) \<Rightarrow> gotime \<Rightarrow> string \<Rightarrow> readErr + SmartAttrs" where
  "runSmartctl run now device =
     (case run (smartctlArgs device) of
        SmartExit code stderr err \<Rightarrow>
          if exit_bit code then Inl (DiskStandby (''unraid smart '' @ device @ '': '' @ ErrDiskStandby))
          else Inl (ReadFailed (''unraid smart '' @ device @ '': smartctl exit '' @ itoa code @ '': '' @ stderr @ '': '' @ err))
      | SmartNotRun e \<Rightarrow> Inl (ReadFailed (''unraid smart '' @ device @ '': run smartctl: '' @ e))
      | SmartDone (Inl e) \<Rightarrow> Inl (ReadFailed (''unraid smart '' @ device @ '': decode smartctl json: '' @ e))
      | SmartDone (Inr out) \<Rightarrow>
          Inr \<lparr>SA_Device = device, SA_ModelName = SO_ModelName out, SA_SerialHash = hashSerial (SO_SerialNumber out),
               SA_TemperatureCelsius = SO_Temperature out, SA_Attributes = SO_Table out, SA_CollectedAt = now\<rparr>)"

section \<open>Containers\<close>

record dockerPort =
  DP_IP :: string
  DP_PrivatePort :: int
  DP_PublicPort :: int
  DP_Type :: string

record dockerContainerSummary =
  DC_ID :: string
  DC_Names :: "string list"
  DC_Image :: string
  DC_State :: string
  DC_Status :: string
  DC_Ports :: "dockerPort list"

datatype 'a docker_answer = DockerBuildFailed string | DockerFailed string | DockerAnswered int "string + 'a"

definition docker_get :: "string \<Rightarrow> 'a docker_answer \<Rightarrow> string + 'a" where
  "docker_get path reply =
     (case reply of
        DockerBuildFailed e \<Rightarrow> Inl (''unraid docker: build request '' @ path @ '': '' @ e)
      | DockerFailed e \<Rightarrow> Inl (''unraid docker: request '' @ path @ '': '' @ e)
      | DockerAnswered code body \<Rightarrow>
          if code \<noteq> 200 then Inl (''unraid docker: '' @ path @ '' returned http '' @ itoa code)
          else res_wrap (\<lambda>e. ''unraid docker: decode '' @ path @ '': '' @ e) body)"

definition firstName :: "string list \<Rightarrow> string" where
  "firstName names = (case names of [] \<Rightarrow> '''' | n # _ \<Rightarrow> n)"

definition formatPorts :: "dockerPort list \<Rightarrow> string list" where
  "formatPorts ports = map (\<lambda>p.
     if DP_PublicPort p \<noteq> 0
     then DP_IP p @ '':'' @ itoa (DP_PublicPort p) @ ''->'' @ itoa (DP_PrivatePort p) @ ''/'' @ DP_Type p
     else itoa (DP_PrivatePort p) @ ''/'' @ DP_Type p) ports"

definition containers ::
  "dockerContainerSummary list docker_answer \<Rightarrow> (string \<Rightarrow> string docker_answer) \<Rightarrow> string + Container list" where
  "containers listed inspect =
     res_bind (docker_get ''/containers/json?all=true'' listed) (\<lambda>summaries.
     res_map (\<lambda>s.
       let name = strings_TrimPrefix (firstName (DC_Names s)) ''/'' in
       res_bind (res_wrap (\<lambda>e. ''unraid docker: inspect '' @ name @ '': '' @ e)
                  (docker_get (''/containers/'' @ DC_ID s @ ''/json'') (inspect (DC_ID s)))) (\<lambda>restart.
       Inr \<lparr>Ct_Name = name, Ct_Image = DC_Image s, Ct_State = DC_State s, Ct_Status = DC_Status s,
            Ct_Ports = formatPorts (DC_Ports s), Ct_AutoRun = (restart = ''always'' \<or> restart = ''unless-stopped'')\<rparr>)) summaries)"

section \<open>Procfs\<close>

text \<open>Conversion of a floating-point value to \<open>int64\<close>: the fraction is cut.\<close>

definition trunc :: "rat \<Rightarrow> int" where
  "trunc r = (if r < 0 then - \<lfloor>- r\<rfloor> else \<lfloor>r\<rfloor>)"

definition proc_path :: "string \<Rightarrow> string \<Rightarrow> string" where
  "proc_path proc name = proc @ ''/'' @ name"

definition kv_line :: "char \<Rightarrow> gomap \<Rightarrow> string \<Rightarrow> gomap" where
  "kv_line sep m line =
     (case strings_Cut line sep of
        None \<Rightarrow> m
      | Some (key, val) \<Rightarrow> AList.update (strings_TrimSpace key) (strings_TrimSpace val) m)"

definition readKVFile :: "files \<Rightarrow> string \<Rightarrow> char \<Rightarrow> string + gomap" where
  "readKVFile files path sep =
     res_bind (res_wrap (\<lambda>e. ''open '' @ path @ '': '' @ e) (open_read files path)) (\<lambda>d.
     case scan_lines d of (lines, too_long) \<Rightarrow>
       if too_long then Inl (''parse '' @ path @ '': '' @ ErrTooLong) else Inr (foldl (kv_line sep) [] lines))"

definition parseMemInfoKB :: "string \<Rightarrow> int option" where
  "parseMemInfoKB raw = (case strings_Fields raw of [] \<Rightarrow> None | f # _ \<Rightarrow> parseINIInt f)"

definition readMemInfo :: "files \<Rightarrow> string \<Rightarrow> string + int \<times> int" where
  "readMemInfo files proc =
     res_bind (readKVFile files (proc_path proc ''meminfo'') (CHR '':'')) (\<lambda>m.
     case parseMemInfoKB (fld m ''MemTotal'') of
       None \<Rightarrow> Inl ''meminfo: missing or unparseable MemTotal''
     | Some totl \<Rightarrow>
         (case parseMemInfoKB (fld m ''MemAvailable'') of
            None \<Rightarrow> Inl ''meminfo: missing or unparseable MemAvailable''
          | Some avail \<Rightarrow> Inr (wrap64 (totl * 1024), wrap64 ((totl - avail) * 1024))))"

definition readUptimeSeconds :: "(string \<Rightarrow> rat option) \<Rightarrow> files \<Rightarrow> string \<Rightarrow> string + int" where
  "readUptimeSeconds parse_float files proc =
     res_bind (res_wrap (\<lambda>e. ''uptime: '' @ e) (open_read files (proc_path proc ''uptime''))) (\<lambda>raw.
     case strings_Fields raw of
       [] \<Rightarrow> Inl ''uptime: empty file''
     | f # _ \<Rightarrow> (case parse_float f of None \<Rightarrow> Inl (''uptime: parse '' @ go_quote f) | Some v \<Rightarrow> Inr (trunc v)))"

definition cpuinfo_line :: "string \<times> int \<Rightarrow> string \<Rightarrow> string \<times> int" where
  "cpuinfo_line st line =
     (case st of (model, cores) \<Rightarrow>
      case strings_Cut line (CHR '':'') of
        None \<Rightarrow> st
      | Some (k, v) \<Rightarrow>
          let key = strings_TrimSpace k; val = strings_TrimSpace v in
          if key = ''processor'' then (model, cores + 1)
          else if key = ''model name'' then (if model = '''' then (val, cores) else st)
          else st)"

definition readCPUInfo :: "files \<Rightarrow> string \<Rightarrow> string + string \<times> int" where
  "readCPUInfo files proc =
     res_bind (res_wrap (\<lambda>e. ''cpuinfo: '' @ e) (open_read files (proc_path proc ''cpuinfo''))) (\<lambda>d.
     case scan_lines d of (lines, too_long) \<Rightarrow>
       if too_long then Inl (''cpuinfo: '' @ ErrTooLong)
       else (case foldl cpuinfo_line ('''', 0) lines of (model, cores) \<Rightarrow>
         if cores = 0 then Inl ''cpuinfo: no processor lines found'' else Inr (model, cores)))"

record cpuStatSample =
  cs_idle :: int
  cs_total :: int

text \<open>The fields of the aggregate line from position \<open>i\<close>; the counters are \<open>uint64\<close>.\<close>

fun stat_fields :: "int \<Rightarrow> string list \<Rightarrow> cpuStatSample \<Rightarrow> string + cpuStatSample" where
  "stat_fields i [] s = Inr s"
| "stat_fields i (tok # toks) s =
     (case ParseUint tok of
        None \<Rightarrow> Inl (''stat: parse cpu field '' @ itoa i @ '' ('' @ go_quote tok @ '')'')
      | Some v \<Rightarrow> stat_fields (i + 1) toks
          \<lparr>cs_idle = (if i = 3 \<or> i = 4 then (cs_idle s + v) mod two64 else cs_idle s), cs_total = (cs_total s + v) mod two64\<rparr>)"

fun stat_scan :: "string list \<Rightarrow> bool \<Rightarrow> string + cpuStatSample" where
  "stat_scan [] too_long = Inl (if too_long then ''stat: '' @ ErrTooLong else ''stat: no aggregate cpu line found'')"
| "stat_scan (l # ls) too_long =
     (let f = strings_Fields l in
      if length f < 5 \<or> hd f \<noteq> ''cpu'' then stat_scan ls too_long
      else stat_fields 0 (tl f) \<lparr>cs_idle = 0, cs_total = 0\<rparr>)"

definition readCPUStatSample :: "files \<Rightarrow> string \<Rightarrow> string + cpuStatSample" where
  "readCPUStatSample files proc =
     res_bind (res_wrap (\<lambda>e. ''stat: '' @ e) (open_read files (proc_path proc ''stat''))) (\<lambda>d.
     case scan_lines d of (lines, too_long) \<Rightarrow> stat_scan lines too_long)"

definition cpuPercentFromSamples :: "cpuStatSample \<Rightarrow> cpuStatSample \<Rightarrow> string + rat" where
  "cpuPercentFromSamples first second =
     (let totalDelta = wrap64 (wrap64 (cs_total second) - wrap64 (cs_total first)) in
      if totalDelta \<le> 0
      then Inl (''cpu percent: non-positive total jiffy delta ('' @ itoa totalDelta @ ''); cannot compute a real reading'')
      else Inr (100 * (1 - of_int (wrap64 (wrap64 (cs_idle second) - wrap64 (cs_idle first))) / of_int totalDelta)))"

text \<open>Two samples, of the files before and after the wait; \<open>wait\<close> is the error of a context that ended first.\<close>

definition readCPUPercent :: "files \<Rightarrow> string option \<Rightarrow> files \<Rightarrow> string \<Rightarrow> string + rat" where
  "readCPUPercent before wait after proc =
     res_bind (readCPUStatSample before proc) (\<lambda>first.
     case wait of
       Some e \<Rightarrow> Inl e
     | None \<Rightarrow> res_bind (readCPUStatSample after proc) (\<lambda>second. cpuPercentFromSamples first second))"

section \<open>The source\<close>

record unraid_world =
  uw_host :: "hostInfoResponse gql_reply"
  uw_array :: "arrayResponse gql_reply"
  uw_shares :: "shareResponse list gql_reply"
  uw_files :: files
  uw_later :: files
  uw_stat :: "string \<Rightarrow> bool"
  uw_ctx :: "string option"
  uw_now :: gotime
  uw_root :: string
  uw_float :: "string \<Rightarrow> rat option"
  uw_time :: "string \<Rightarrow> gotime option"

definition hostInfoFromProcfs :: "unraid_world \<Rightarrow> string + HostInfo" where
  "hostInfoFromProcfs w =
     (if uw_root w = '''' then Inl ''unraid procfs: host_proc_path not configured''
      else (case uw_ctx w of
          Some e \<Rightarrow> Inl e
        | None \<Rightarrow>
            res_bind (res_wrap (\<lambda>e. ''unraid procfs: '' @ e) (readMemInfo (uw_files w) (uw_root w))) (\<lambda>(totl, used).
            res_bind (res_wrap (\<lambda>e. ''unraid procfs: '' @ e) (readUptimeSeconds (uw_float w) (uw_files w) (uw_root w))) (\<lambda>uptime.
            res_bind (res_wrap (\<lambda>e. ''unraid procfs: '' @ e) (readCPUInfo (uw_files w) (uw_root w))) (\<lambda>(model, cores).
            res_bind (res_wrap (\<lambda>e. ''unraid procfs: '' @ e) (readCPUPercent (uw_files w) None (uw_later w) (uw_root w))) (\<lambda>percent.
              let vars = (case readVars (uw_files w) None of Inl _ \<Rightarrow> [] | Inr m \<Rightarrow> m) in
              Inr \<lparr>HI_Hostname = fld vars ''NAME'', HI_UnraidVersion = fld vars ''version'', HI_CPUModel = model,
                   HI_CPUCores = cores, HI_CPUPercent = percent, HI_MemTotalBytes = totl, HI_MemUsedBytes = used,
                   HI_UptimeSeconds = uptime, HI_Source = SourceProcfs, HI_CollectedAt = uw_now w\<rparr>))))))"

text \<open>The uptime text: a number of seconds, or fields such as \<open>3d 4h\<close>. Slicing the last byte of an empty field
  panics.\<close>

datatype 'a go_result = Panics | Returns 'a

fun human_fields :: "(string \<Rightarrow> rat option) \<Rightarrow> string list \<Rightarrow> duration \<times> bool \<Rightarrow> (duration \<times> bool) go_result" where
  "human_fields parse_float [] st = Returns st"
| "human_fields parse_float (f0 # fs) (totl, matched) =
     (let f = strings_TrimSuffix f0 '','' in
      if f = '''' then Panics
      else
        let mult = (if last f = CHR ''d'' then Some (24 * nsHour) else if last f = CHR ''h'' then Some nsHour
                    else if last f = CHR ''m'' then Some nsMinute else if last f = CHR ''s'' then Some nsSecond else None) in
        (case mult of
           None \<Rightarrow> human_fields parse_float fs (totl, matched)
         | Some u \<Rightarrow>
             (case parse_float (butlast f) of
                None \<Rightarrow> human_fields parse_float fs (totl, matched)
              | Some n \<Rightarrow> human_fields parse_float fs (wrap64 (totl + trunc (n * of_int u)), True))))"

definition parseHumanUptime :: "(string \<Rightarrow> rat option) \<Rightarrow> string \<Rightarrow> (string + duration) go_result" where
  "parseHumanUptime parse_float raw =
     (case strings_Fields raw of
        [] \<Rightarrow> Returns (Inl ''empty'')
      | fs \<Rightarrow> (case human_fields parse_float fs (0, False) of
          Panics \<Rightarrow> Panics
        | Returns (totl, matched) \<Rightarrow>
            Returns (if matched then Inr totl else Inl (''no recognizable duration fields in '' @ go_quote raw))))"

definition parseUptimeSeconds :: "(string \<Rightarrow> rat option) \<Rightarrow> string \<Rightarrow> (string + int) go_result" where
  "parseUptimeSeconds parse_float raw0 =
     (let raw = strings_TrimSpace raw0 in
      if raw = '''' then Returns (Inl ''unraid host info: empty uptime value'')
      else (case parse_float raw of
          Some v \<Rightarrow> Returns (Inr (trunc v))
        | None \<Rightarrow>
            (case parseHumanUptime parse_float raw of
               Panics \<Rightarrow> Panics
             | Returns (Inr d) \<Rightarrow> Returns (Inr (trunc (of_int d / of_int nsSecond)))
             | Returns (Inl _) \<Rightarrow> Returns (Inl (''unraid host info: unrecognized uptime format '' @ go_quote raw)))))"

definition hostInfoFromGraphQL :: "unraid_world \<Rightarrow> (readErr + HostInfo) go_result" where
  "hostInfoFromGraphQL w =
     (case gql_do (uw_host w) of
        Inl e \<Rightarrow> Returns (Inl (wrap_read ''unraid host info'' e))
      | Inr resp \<Rightarrow>
          (case parseUptimeSeconds (uw_float w) (HR_Uptime resp) of
             Panics \<Rightarrow> Panics
           | Returns (Inl e) \<Rightarrow> Returns (Inl (ReadFailed (''unraid host info: '' @ e)))
           | Returns (Inr uptime) \<Rightarrow>
               Returns (Inr \<lparr>HI_Hostname = HR_Hostname resp, HI_UnraidVersion = HR_Version resp,
                 HI_CPUModel = (if HR_Brand resp = '''' then strings_TrimSpace (HR_Manufacturer resp) else HR_Brand resp),
                 HI_CPUCores = HR_Cores resp, HI_CPUPercent = HR_PercentTotal resp, HI_MemTotalBytes = HR_MemTotal resp,
                 HI_MemUsedBytes = HR_MemUsed resp, HI_UptimeSeconds = uptime, HI_Source = SourceUnraidAPI,
                 HI_CollectedAt = uw_now w\<rparr>)))"

definition is_unauthenticated :: "readErr \<Rightarrow> bool" where
  "is_unauthenticated e = (case e of Unauthenticated _ \<Rightarrow> True | _ \<Rightarrow> False)"

definition Source_HostInfo :: "unraid_world \<Rightarrow> (readErr + HostInfo) go_result" where
  "Source_HostInfo w =
     (case hostInfoFromGraphQL w of
        Panics \<Rightarrow> Panics
      | Returns (Inr info) \<Rightarrow> Returns (Inr info)
      | Returns (Inl e) \<Rightarrow>
          if \<not> is_unauthenticated e then Returns (Inl e)
          else Returns (res_wrap (\<lambda>f. ReadFailed (''unraid host info: procfs fallback: '' @ f)) (hostInfoFromProcfs w)))"

definition mapArrayDisks :: "arrayDiskFragment list \<Rightarrow> gomap \<Rightarrow> Disk list" where
  "mapArrayDisks fragments smartStatus = map (\<lambda>d.
     let device = normalizeDevice (Fr_Device d) in
     \<lparr>Dk_Name = Fr_Name d, Dk_Device = device, Dk_Role = strings_ToLower (Fr_Type d), Dk_SizeBytes = kibToBytes (Fr_Size d),
      Dk_UsedBytes = kibToBytes (Fr_FsUsed d), Dk_TempC = Fr_Temp d,
      Dk_SmartStatus = (case map_of smartStatus device of None \<Rightarrow> ''UNKNOWN'' | Some s \<Rightarrow> s),
      Dk_SpunDown = (case Fr_IsSpinning d of None \<Rightarrow> False | Some b \<Rightarrow> \<not> b)\<rparr>) fragments"

definition arrayFromGraphQL :: "unraid_world \<Rightarrow> readErr + ArrayState" where
  "arrayFromGraphQL w =
     res_bind (res_wrap (wrap_read ''unraid array'') (gql_do (uw_array w))) (\<lambda>resp.
       let smartStatus = foldl (\<lambda>m (dev, s). AList.update (normalizeDevice dev) s m) [] (AR_SmartStatus resp) in
       Inr \<lparr>Ar_State = AR_State resp, Ar_ParityCheckActive = AR_Running resp,
         Ar_ParityCheckProgress = (case AR_Progress resp of None \<Rightarrow> 0 | Some p \<Rightarrow> of_int (float64_round p)),
         Ar_ParityLastCheck = (case AR_Date resp of None \<Rightarrow> None | Some d \<Rightarrow> if d = '''' then None else uw_time w d),
         Ar_ParityLastErrors = (case AR_Errors resp of None \<Rightarrow> 0 | Some n \<Rightarrow> n), Ar_Source = SourceUnraidAPI,
         Ar_Disks = mapArrayDisks (AR_Disks resp) smartStatus @ mapArrayDisks (AR_Caches resp) smartStatus @
           mapArrayDisks (AR_Parities resp) smartStatus,
         Ar_CollectedAt = uw_now w\<rparr>)"

definition arrayFromEmhttp :: "unraid_world \<Rightarrow> readErr + ArrayState" where
  "arrayFromEmhttp w =
     res_wrap (wrap_read ''unraid array: emhttp fallback'') (readArrayStateFromEmhttp (uw_files w) (uw_ctx w) (uw_now w))"

definition Source_Array :: "unraid_world \<Rightarrow> readErr + ArrayState" where
  "Source_Array w =
     (case arrayFromGraphQL w of
        Inr array \<Rightarrow> Inr array
      | Inl e \<Rightarrow> if \<not> is_unauthenticated e then Inl e else arrayFromEmhttp w)"

definition no_gaps :: shareGaps where
  "no_gaps = \<lparr>sg_cachePool = '''', sg_exported = False\<rparr>"

definition sharesFromGraphQL :: "unraid_world \<Rightarrow> readErr + Share list" where
  "sharesFromGraphQL w =
     res_bind (res_wrap (wrap_read ''unraid shares'') (gql_do (uw_shares w))) (\<lambda>resp.
     res_bind (res_wrap (wrap_read ''unraid shares'') (readShareGaps (uw_files w) (uw_ctx w))) (\<lambda>gaps.
     Inr (map (\<lambda>sh.
       let g = (case map_of gaps (SR_Name sh) of None \<Rightarrow> no_gaps | Some g \<Rightarrow> g) in
       \<lparr>Sh_Name = SR_Name sh, Sh_SizeBytes = kibToBytes (SR_Size sh), Sh_FreeBytes = kibToBytes (SR_Free sh),
        Sh_UsedBytes = kibToBytes (SR_Used sh), Sh_Allocator = SR_Allocator sh, Sh_CachePool = sg_cachePool g,
        Sh_Exported = sg_exported g, Sh_Accessible = shareAccessible (uw_stat w) (SR_Name sh),
        Sh_Source = SourceUnraidAPI\<rparr>) resp)))"

definition sharesFromEmhttp :: "unraid_world \<Rightarrow> readErr + Share list" where
  "sharesFromEmhttp w =
     res_wrap (wrap_read ''unraid shares: emhttp fallback'') (readSharesFromEmhttp (uw_files w) (uw_stat w) (uw_ctx w))"

definition Source_Shares :: "unraid_world \<Rightarrow> readErr + Share list" where
  "Source_Shares w =
     (case sharesFromGraphQL w of
        Inr shares \<Rightarrow> Inr shares
      | Inl e \<Rightarrow> if \<not> is_unauthenticated e then Inl e else sharesFromEmhttp w)"

definition Source_Containers ::
  "dockerContainerSummary list docker_answer \<Rightarrow> (string \<Rightarrow> string docker_answer) \<Rightarrow> readErr + Container list" where
  "Source_Containers listed inspect = res_wrap (\<lambda>e. ReadFailed (''unraid containers: '' @ e)) (containers listed inspect)"

text \<open>The second component says whether the error is logged.\<close>

definition isDiskStandby :: "readErr \<Rightarrow> bool" where
  "isDiskStandby e = strings_Contains (readErr_Error e) ErrDiskStandby"

definition Source_SmartFor :: "(string list \<Rightarrow> smartctl_end) \<Rightarrow> gotime \<Rightarrow> string \<Rightarrow> (readErr + SmartAttrs) \<times> bool" where
  "Source_SmartFor run now device =
     (let r = runSmartctl run now device in (r, case r of Inl e \<Rightarrow> \<not> isDiskStandby e | Inr _ \<Rightarrow> False))"

section \<open>Reachability\<close>

datatype ReachState = ReachAbsent | ReachTailnet | ReachFunnel | ReachFailing

record Reachability =
  Rb_State :: ReachState
  Rb_PublicURL :: string
  Rb_TailnetURL :: string
  Rb_Detail :: string
  Rb_CollectedAt :: gotime

record tailscaleStatus =
  TS_BackendState :: string
  TS_Online :: bool
  TS_DNSName :: string
  TS_TailscaleIPs :: "string list"

text \<open>The serve configuration: for every \<open>host:port\<close> its root handler's proxy target, if it has one, and the
  funnel flags, in the order the loop visits the map.\<close>

record tailscaleServeConfig =
  TC_Web :: "(string \<times> string option) list"
  TC_AllowFunnel :: "(string \<times> bool) list"

record reach_world =
  rw_status :: "string + (string + tailscaleStatus)"
  rw_serve :: "string + (string + tailscaleServeConfig)"
  rw_port :: "string + string"
  rw_probe :: "string \<Rightarrow> bool"
  rw_now :: gotime

definition absent :: "string \<Rightarrow> gotime \<Rightarrow> Reachability" where
  "absent detail now = \<lparr>Rb_State = ReachAbsent, Rb_PublicURL = '''', Rb_TailnetURL = '''', Rb_Detail = detail, Rb_CollectedAt = now\<rparr>"

definition own_mapping :: "tailscaleServeConfig \<Rightarrow> string \<Rightarrow> (string \<times> string \<times> bool) option" where
  "own_mapping serve port =
     (case find (\<lambda>(hp, _). strings_HasSuffix hp ('':'' @ port)) (TC_Web serve) of
        None \<Rightarrow> None
      | Some (hp, h) \<Rightarrow> Some (hp, case h of None \<Rightarrow> '''' | Some p \<Rightarrow> p,
          case map_of (TC_AllowFunnel serve) hp of None \<Rightarrow> False | Some b \<Rightarrow> b))"

definition reach_Reachability :: "reach_world \<Rightarrow> string \<Rightarrow> string + Reachability" where
  "reach_Reachability w dashboardAddr =
     (case rw_status w of
        Inl e \<Rightarrow> Inr (absent (''tailscale CLI unavailable: '' @ e) (rw_now w))
      | Inr (Inl e) \<Rightarrow> Inl (''unraid reachability: decode tailscale status: '' @ e)
      | Inr (Inr status) \<Rightarrow>
          if TS_BackendState status \<noteq> ''Running'' \<or> \<not> TS_Online status
          then Inr (absent (''tailscale installed but not running (backend state '' @ go_quote (TS_BackendState status) @ '')'') (rw_now w))
          else
            let dns = strings_TrimSuffix (TS_DNSName status) ''.'';
                tailnetHost = (if dns = '''' \<and> TS_TailscaleIPs status \<noteq> [] then hd (TS_TailscaleIPs status) else dns) in
            (case rw_port w of
               Inl e \<Rightarrow> Inl (''unraid reachability: parse dashboard address '' @ go_quote dashboardAddr @ '': '' @ e)
             | Inr port \<Rightarrow>
                 (case rw_serve w of
                    Inl e \<Rightarrow> Inl (''unraid reachability: run tailscale serve status: '' @ e)
                  | Inr (Inl e) \<Rightarrow> Inl (''unraid reachability: decode tailscale serve status: '' @ e)
                  | Inr (Inr serve) \<Rightarrow>
                      let tailnetURL = ''http://'' @ tailnetHost @ '':'' @ port in
                      Inr (case own_mapping serve port of
                         None \<Rightarrow> \<lparr>Rb_State = ReachTailnet, Rb_PublicURL = '''', Rb_TailnetURL = tailnetURL,
                           Rb_Detail = ''reachable on the tailnet; no `tailscale serve`/`funnel` mapping configured for this port yet'',
                           Rb_CollectedAt = rw_now w\<rparr>
                       | Some (hostport, proxyTarget, funnelOn) \<Rightarrow>
                           if proxyTarget \<noteq> '''' \<and> \<not> rw_probe w proxyTarget
                           then \<lparr>Rb_State = ReachFailing, Rb_PublicURL = '''', Rb_TailnetURL = tailnetURL,
                             Rb_Detail = (if funnelOn then ''funnel mapping configured'' else ''tailnet-only mapping configured'') @
                               '' for '' @ hostport @ '', but '' @ proxyTarget @ '' does not answer'', Rb_CollectedAt = rw_now w\<rparr>
                           else if funnelOn
                           then \<lparr>Rb_State = ReachFunnel, Rb_PublicURL = ''https://'' @ hostport, Rb_TailnetURL = tailnetURL,
                             Rb_Detail = ''served publicly via Tailscale Funnel'', Rb_CollectedAt = rw_now w\<rparr>
                           else \<lparr>Rb_State = ReachTailnet, Rb_PublicURL = '''', Rb_TailnetURL = tailnetURL,
                             Rb_Detail = ''reachable on the tailnet only via `tailscale serve` (not Funnel-exposed)'',
                             Rb_CollectedAt = rw_now w\<rparr>))))"

definition Source_Reachability :: "reach_world \<Rightarrow> string \<Rightarrow> readErr + Reachability" where
  "Source_Reachability w dashboardAddr =
     res_wrap (\<lambda>e. ReadFailed (''unraid reachability: '' @ e)) (reach_Reachability w dashboardAddr)"

section \<open>Properties\<close>

lemma wrap_read_kind [simp]: "is_unauthenticated (wrap_read m e) = is_unauthenticated e"
  by (simp add: is_unauthenticated_def wrap_read_def split: readErr.split)

lemma readINI_kind: "readINI f ctx n = Inl e \<Longrightarrow> \<not> is_unauthenticated e"
  by (auto simp: readINI_def Let_def res_bind_def res_wrap_def is_unauthenticated_def split: option.splits sum.splits)

lemma readShareGaps_kind: "readShareGaps f ctx = Inl e \<Longrightarrow> \<not> is_unauthenticated e"
  by (auto simp: readShareGaps_def res_bind_def dest: readINI_kind split: sum.splits)

lemma emhttp_array_source: "arrayFromEmhttp w = Inr a \<Longrightarrow> Ar_Source a = SourceEmhttp"
  by (auto simp: arrayFromEmhttp_def readArrayStateFromEmhttp_def res_iff Let_def)

lemma emhttp_shares_source: "sharesFromEmhttp w = Inr shs \<Longrightarrow> list_all (\<lambda>s. Sh_Source s = SourceEmhttp) shs"
  by (auto simp: sharesFromEmhttp_def readSharesFromEmhttp_def res_iff list_all_iff)

lemma procfs_source: "hostInfoFromProcfs w = Inr i \<Longrightarrow> HI_Source i = SourceProcfs"
  by (auto simp: hostInfoFromProcfs_def res_iff Let_def split: if_splits option.splits prod.splits)

lemma graphql_shares:
  "gql_do (uw_shares w) = Inr resp \<Longrightarrow> sharesFromGraphQL w = Inr shs \<Longrightarrow>
     list_all (\<lambda>s. Sh_Source s = SourceUnraidAPI) shs \<and> map Sh_Name shs = map SR_Name resp"
  by (auto simp: sharesFromGraphQL_def res_iff list_all_iff Let_def)

text \<open>
  What a reply means, read off the reply itself. It answers the query when it has a status other than 401 and 403, no errors, and data
  of the expected shape. It rejects the credential when its status is 401 or 403, or when the first error it
  lists carries the code \<open>UNAUTHENTICATED\<close> or \<open>FORBIDDEN\<close> in any case, or has a message that, lowered, holds one
  of four words.
\<close>

definition names_credential :: "graphqlError \<Rightarrow> bool" where
  "names_credential e \<longleftrightarrow>
     map ascii_lower (GE_Code e) \<in> {''unauthenticated'', ''forbidden''} \<or>
     (\<exists>word \<in> {''csrf'', ''session'', ''unauthorized'', ''unauthenticated''}. sublist word (strings_ToLower (GE_Message e)))"

definition reply_data :: "'a gql_reply \<Rightarrow> 'a option" where
  "reply_data r = (case r of GqlAnswered code (Inr ([], Inr x)) \<Rightarrow> if code \<in> {401, 403} then None else Some x | _ \<Rightarrow> None)"

definition reply_rejects :: "'a gql_reply \<Rightarrow> bool" where
  "reply_rejects r \<longleftrightarrow>
     (\<exists>code body. r = GqlAnswered code body \<and> code \<in> {401, 403}) \<or>
     (\<exists>code e es data. r = GqlAnswered code (Inr (e # es, data)) \<and> names_credential e)"

lemma isAuthError_iff: "isAuthError e \<longleftrightarrow> names_credential e"
proof -
  have "map ascii_lower ''UNAUTHENTICATED'' = ''unauthenticated''" "map ascii_lower ''FORBIDDEN'' = ''forbidden''" by code_simp+
  then show ?thesis
    unfolding isAuthError_def names_credential_def EqualFold_def Let_def Contains_iff_sublist
    by (simp only: insert_iff empty_iff simp_thms bex_simps disj_assoc)
qed

lemma gql_do_data: "reply_data r = Some x \<Longrightarrow> gql_do r = Inr x"
  by (auto simp: reply_data_def gql_do_def res_wrap_def split: gql_reply.splits sum.splits list.splits if_splits)

lemma gql_do_none: "reply_data r = None \<Longrightarrow> \<exists>e. gql_do r = Inl e \<and> (is_unauthenticated e \<longleftrightarrow> reply_rejects r)"
  by (auto simp: reply_data_def reply_rejects_def gql_do_def isAuthError_iff res_wrap_def is_unauthenticated_def
      split: gql_reply.splits sum.splits list.splits if_splits)

text \<open>The uptime text. A field such as \<open>3d,\<close> counts when what stands before its unit is a number.\<close>

definition uptime_fields :: "string \<Rightarrow> string list" where
  "uptime_fields raw = strings_Fields (strings_TrimSpace raw)"

definition uptime_number :: "(string \<Rightarrow> rat option) \<Rightarrow> string \<Rightarrow> bool" where
  "uptime_number pf raw \<longleftrightarrow> strings_TrimSpace raw \<noteq> '''' \<and> pf (strings_TrimSpace raw) \<noteq> None"

definition duration_field :: "(string \<Rightarrow> rat option) \<Rightarrow> string \<Rightarrow> bool" where
  "duration_field pf f \<longleftrightarrow> (\<exists>num. \<exists>u \<in> set ''dhms''. pf num \<noteq> None \<and> f \<in> {num @ [u], num @ [u] @ '',''})"

lemma TrimSuffix_comma: "strings_TrimSuffix f '','' = (if f \<noteq> [] \<and> last f = CHR '','' then butlast f else f)"
  by (cases f rule: rev_cases) (auto simp: strings_TrimSuffix_def strings_HasSuffix_def strings_HasPrefix_def)

lemma duration_field_iff:
  "duration_field pf f \<longleftrightarrow> (let g = strings_TrimSuffix f '','' in g \<noteq> '''' \<and> last g \<in> set ''dhms'' \<and> pf (butlast g) \<noteq> None)"
proof -
  have u: "u \<noteq> CHR '',''" if "u \<in> set ''dhms''" for u using that by auto
  have "strings_TrimSuffix f '','' = num @ [u] \<longleftrightarrow> f \<in> {num @ [u], num @ [u] @ '',''}" if "u \<in> set ''dhms''" for num u
    using u [OF that] by (cases f rule: rev_cases) (auto simp: TrimSuffix_comma)
  then have "duration_field pf f \<longleftrightarrow> (\<exists>num. \<exists>u \<in> set ''dhms''. pf num \<noteq> None \<and> strings_TrimSuffix f '','' = num @ [u])"
    unfolding duration_field_def by blast
  also have "\<dots> \<longleftrightarrow> (let g = strings_TrimSuffix f '','' in g \<noteq> '''' \<and> last g \<in> set ''dhms'' \<and> pf (butlast g) \<noteq> None)"
    by (cases "strings_TrimSuffix f '',''" rule: rev_cases) auto
  finally show ?thesis .
qed

lemma human_fields_spec:
  assumes "[] \<notin> set fs"
  shows "case human_fields pf fs (t, m) of
     Panics \<Rightarrow> '','' \<in> set fs
   | Returns (_, m') \<Rightarrow> '','' \<notin> set fs \<and> (m' \<longleftrightarrow> m \<or> (\<exists>f \<in> set fs. duration_field pf f))"
  using assms
proof (induction fs arbitrary: t m)
  case (Cons f fs)
  let ?g = "strings_TrimSuffix f '',''"
  have empty: "?g = '''' \<longleftrightarrow> f = '',''" using Cons.prems by (cases f rule: rev_cases) (auto simp: TrimSuffix_comma)
  show ?case
  proof (cases "f = '',''")
    case True
    then show ?thesis using empty by simp
  next
    case False
    then have "?g \<noteq> ''''" using empty by simp
    then have "\<exists>t'. human_fields pf (f # fs) (t, m) = human_fields pf fs (t', m \<or> duration_field pf f)"
      by (cases "pf (butlast ?g)") (auto simp: duration_field_iff Let_def)
    then obtain t' where "human_fields pf (f # fs) (t, m) = human_fields pf fs (t', m \<or> duration_field pf f)" by blast
    then show ?thesis using Cons.IH [of "m \<or> duration_field pf f" t'] Cons.prems False
      by (auto split: go_result.splits)
  qed
qed simp

lemma uptime_spec:
  "case parseUptimeSeconds pf raw of
     Panics \<Rightarrow> \<not> uptime_number pf raw \<and> '','' \<in> set (uptime_fields raw)
   | Returns (Inl _) \<Rightarrow> \<not> uptime_number pf raw \<and> '','' \<notin> set (uptime_fields raw) \<and> \<not> (\<exists>f \<in> set (uptime_fields raw). duration_field pf f)
   | Returns (Inr _) \<Rightarrow> uptime_number pf raw \<or> '','' \<notin> set (uptime_fields raw) \<and> (\<exists>f \<in> set (uptime_fields raw). duration_field pf f)"
proof (cases "strings_TrimSpace raw = '''' \<or> uptime_number pf raw")
  case True
  then show ?thesis
    by (auto simp: parseUptimeSeconds_def uptime_number_def uptime_fields_def strings_Fields_def fields_from_ascii is_ascii_def)
next
  case False
  have "[] \<notin> set (uptime_fields raw)" by (simp add: uptime_fields_def strings_Fields_def fields_from_nonempty)
  from human_fields_spec [OF this, where pf = pf and t = 0 and m = False] False show ?thesis
    by (auto simp: parseUptimeSeconds_def uptime_number_def uptime_fields_def parseHumanUptime_def Let_def
        split: go_result.splits list.splits prod.splits if_splits)
qed


section \<open>Readings that go wrong\<close>

text \<open>A comma that stands alone makes the uptime parser panic.\<close>

lemma uptime_panics: "pf ''3d ,'' = None \<Longrightarrow> parseUptimeSeconds pf ''3d ,'' = Panics"
  by (simp add: parseUptimeSeconds_def parseHumanUptime_def TrimSpace_ascii is_ascii_def ascii_space_def strings_Fields_def fields_from_ascii
      strings_TrimSuffix_def strings_HasSuffix_def strings_HasPrefix_def Let_def split: option.split)

text \<open>A smartctl that was killed, for instance by the timeout, has exit code -1 in Go, and the standby bit of -1 is set: the disk
  is reported as asleep and the failure is not logged.\<close>

lemma killed_smartctl_is_standby:
  "Source_SmartFor (\<lambda>_. SmartExit (- 1) '''' ''signal: killed'') now ''/dev/sdc'' =
     (Inl (DiskStandby ''unraid smart /dev/sdc: disk in standby; not woken''), False)"
  by (simp add: Source_SmartFor_def runSmartctl_def exit_bit_def standbyExitBit_def ErrDiskStandby_def isDiskStandby_def
      readErr_Error_def Let_def strings_HasPrefix_def)

text \<open>Guest time is part of user time, and the sum counts it twice: 100 busy ticks of a guest and 100 idle ones read as
  two thirds instead of half.\<close>

lemma guest_time_counted_twice:
  "res_bind (stat_scan [''cpu  100 0 0 100 0 0 0 0 100 0''] False) (\<lambda>second.
     cpuPercentFromSamples \<lparr>cs_idle = 0, cs_total = 0\<rparr> second) = Inr (200 / 3)"
  by code_simp

end
