(* ===== verification/Mcp_Views.thy ===== *)
theory Mcp_Views
  imports Unraid
begin

text \<open>
  What the MCP surface shows (\<open>views.go\<close>, \<open>trends.go\<close>, the projections of \<open>tools_trends.go\<close>) and how it is
  cut to size (\<open>budget.go\<close>). A view is a JSON value; an object is the list of its members. The JSON
  printers and the two time formats are arguments: \<open>fm_marshal\<close> for \<open>MarshalIndent\<close>, \<open>fm_compact\<close>
  for \<open>Marshal\<close>, \<open>fm_rfc3339\<close> for \<open>Format\<close> and
  \<open>fm_json_time\<close> for a marshalled time. The lemmas bound the rendered text and show that a trend
  summary never computes a direction from gaps.
\<close>

datatype json =
    JNull | JBool bool | JNum rat | JStr string | JArr "json list" | JObj "(string \<times> json) list"

record formats =
  fm_marshal :: "json \<Rightarrow> string + string"
  fm_compact :: "json \<Rightarrow> string + string"
  fm_rfc3339 :: "gotime \<Rightarrow> string"
  fm_json_time :: "gotime \<Rightarrow> string"

definition JInt :: "int \<Rightarrow> json" where
  "JInt n = JNum (of_int n)"

definition JOpt :: "('a \<Rightarrow> json) \<Rightarrow> 'a option \<Rightarrow> json" where
  "JOpt f p = (case p of None \<Rightarrow> JNull | Some x \<Rightarrow> f x)"

section \<open>The byte budget\<close>

definition maxResultBytes :: nat where
  "maxResultBytes = 4096"

definition truncation_marker :: string where
  "truncation_marker = CHR 0x0A # ''...TRUNCATED: response exceeded the 4096-byte cap. Narrow the request (e.g. a specific device or container) rather than requesting detail on everything at once.''"

definition render :: "formats \<Rightarrow> json \<Rightarrow> string + string" where
  "render fm v =
     res_bind (fm_marshal fm v) (\<lambda>b.
       if length b \<le> maxResultBytes then Inr b
       else Inr (strings_ToValidUTF8 (take maxResultBytes b) @ truncation_marker))"

lemma render_bound: "render fm v = Inr t \<Longrightarrow> length t \<le> maxResultBytes + length truncation_marker"
proof -
  assume r: "render fm v = Inr t"
  have "length (strings_ToValidUTF8 (take maxResultBytes b)) \<le> maxResultBytes" for b
    by (rule le_trans [OF ToValidUTF8_length]) simp
  then have cut: "length (strings_ToValidUTF8 (take maxResultBytes b) @ truncation_marker) \<le> maxResultBytes + length truncation_marker" for b
    by simp
  show ?thesis
  proof (cases "fm_marshal fm v")
    case (Inl e)
    then show ?thesis using r by (simp add: render_def res_bind_def)
  next
    case (Inr b)
    then show ?thesis using r cut [of b] by (cases "length b \<le> maxResultBytes") (simp_all add: render_def res_bind_def)
  qed
qed

section \<open>Views\<close>

definition source_name :: "StateSource \<Rightarrow> string" where
  "source_name s = (case s of SourceUnraidAPI \<Rightarrow> ''unraid-api'' | SourceEmhttp \<Rightarrow> ''emhttp'' | SourceProcfs \<Rightarrow> ''procfs'')"

definition hostInfoView :: "formats \<Rightarrow> HostInfo \<Rightarrow> bool \<Rightarrow> json" where
  "hostInfoView fm hi detail = JObj
     ([(''hostname'', JStr (HI_Hostname hi)), (''unraidVersion'', JStr (HI_UnraidVersion hi)),
       (''cpuPercent'', JNum (HI_CPUPercent hi)), (''uptimeHours'', JNum (of_int (HI_UptimeSeconds hi) / 3600)),
       (''source'', JStr (source_name (HI_Source hi)))] @
      (if detail then [(''cpuModel'', JStr (HI_CPUModel hi)), (''cpuCores'', JInt (HI_CPUCores hi)),
        (''memTotalBytes'', JInt (HI_MemTotalBytes hi)), (''memUsedBytes'', JInt (HI_MemUsedBytes hi)),
        (''collectedAt'', JStr (fm_json_time fm (HI_CollectedAt hi)))] else []))"

definition reach_name :: "ReachState \<Rightarrow> string" where
  "reach_name s = (case s of ReachAbsent \<Rightarrow> ''absent'' | ReachTailnet \<Rightarrow> ''tailnet'' | ReachFunnel \<Rightarrow> ''funnel'' | ReachFailing \<Rightarrow> ''failing'')"

definition reachabilityView :: "formats \<Rightarrow> Reachability \<Rightarrow> bool \<Rightarrow> json" where
  "reachabilityView fm r detail = JObj
     ([(''state'', JStr (reach_name (Rb_State r))), (''detail'', JStr (Rb_Detail r))] @
      (if detail then [(''publicUrl'', JStr (Rb_PublicURL r)), (''tailnetUrl'', JStr (Rb_TailnetURL r)),
        (''collectedAt'', JStr (fm_json_time fm (Rb_CollectedAt r)))] else []))"

definition diskView :: "Disk \<Rightarrow> bool \<Rightarrow> json" where
  "diskView d detail = JObj
     ([(''name'', JStr (Dk_Name d)), (''device'', JStr (Dk_Device d)), (''role'', JStr (Dk_Role d)),
       (''tempC'', JOpt JInt (Dk_TempC d)), (''smartStatus'', JStr (Dk_SmartStatus d)), (''spunDown'', JBool (Dk_SpunDown d))] @
      (if detail then [(''sizeBytes'', JInt (Dk_SizeBytes d)), (''usedBytes'', JInt (Dk_UsedBytes d))] else []))"

definition arrayView :: "formats \<Rightarrow> ArrayState \<Rightarrow> bool \<Rightarrow> json" where
  "arrayView fm a detail = JObj
     ([(''state'', JStr (Ar_State a)), (''parityCheckActive'', JBool (Ar_ParityCheckActive a)),
       (''parityCheckProgress'', JNum (Ar_ParityCheckProgress a)), (''disks'', JArr (map (\<lambda>d. diskView d detail) (Ar_Disks a))),
       (''source'', JStr (source_name (Ar_Source a)))] @
      (if detail then [(''parityLastCheck'', JOpt (\<lambda>t. JStr (fm_json_time fm t)) (Ar_ParityLastCheck a)),
        (''parityLastErrors'', JInt (Ar_ParityLastErrors a)), (''collectedAt'', JStr (fm_json_time fm (Ar_CollectedAt a)))] else []))"

definition smartAttrView :: "SmartAttr \<Rightarrow> json" where
  "smartAttrView a = JObj [(''id'', JInt (At_ID a)), (''name'', JStr (At_Name a)), (''value'', JInt (At_Value a)),
     (''worst'', JInt (At_Worst a)), (''threshold'', JInt (At_Threshold a)), (''rawValue'', JInt (At_RawValue a))]"

definition curatedSmartIDs :: "int list" where
  "curatedSmartIDs = [5, 9, 187, 188, 196, 197, 198, 199]"

definition curatedSmartAttrs :: "SmartAttr list \<Rightarrow> SmartAttr list" where
  "curatedSmartAttrs attrs = filter (\<lambda>a. At_ID a \<in> set curatedSmartIDs) attrs"

definition smartView :: "formats \<Rightarrow> SmartAttrs \<Rightarrow> bool \<Rightarrow> json" where
  "smartView fm sm detail = JObj
     [(''device'', JStr (SA_Device sm)), (''model'', JStr (SA_ModelName sm)),
      (''collectedAt'', JStr (fm_json_time fm (SA_CollectedAt sm))),
      (''temperatureCelsius'', JOpt JInt (SA_TemperatureCelsius sm)),
      (''attributes'', JArr (map smartAttrView (if detail then SA_Attributes sm else curatedSmartAttrs (SA_Attributes sm))))]"

definition shareView :: "Share \<Rightarrow> bool \<Rightarrow> json" where
  "shareView sh detail = JObj
     ([(''name'', JStr (Sh_Name sh)), (''usedBytes'', JInt (Sh_UsedBytes sh)), (''freeBytes'', JInt (Sh_FreeBytes sh))] @
      (if detail then [(''sizeBytes'', JInt (Sh_SizeBytes sh)), (''allocator'', JStr (Sh_Allocator sh)),
        (''cachePool'', JStr (Sh_CachePool sh)), (''exported'', JBool (Sh_Exported sh)), (''accessible'', JBool (Sh_Accessible sh))] else []))"

definition sharesSource :: "Share list \<Rightarrow> string" where
  "sharesSource shares =
     (case shares of [] \<Rightarrow> ''''
      | s # rest \<Rightarrow> if list_ex (\<lambda>sh. source_name (Sh_Source sh) \<noteq> source_name (Sh_Source s)) rest then ''mixed''
                    else source_name (Sh_Source s))"

definition sharesView :: "Share list \<Rightarrow> bool \<Rightarrow> json" where
  "sharesView shares detail = JArr (map (\<lambda>sh. shareView sh detail) shares)"

definition containerView :: "Container \<Rightarrow> bool \<Rightarrow> json" where
  "containerView c detail = JObj
     ([(''name'', JStr (Ct_Name c)), (''state'', JStr (Ct_State c)), (''autoRun'', JBool (Ct_AutoRun c))] @
      (if detail then [(''image'', JStr (Ct_Image c)), (''status'', JStr (Ct_Status c)), (''ports'', JArr (map JStr (Ct_Ports c)))] else []))"

definition containersView :: "Container list \<Rightarrow> bool \<Rightarrow> json" where
  "containersView cs detail = JArr (map (\<lambda>c. containerView c detail) cs)"

section \<open>Trends\<close>

record TrendPoint =
  TP_At :: gotime
  TP_Value :: "rat option"
  TP_Text :: "string option"
  TP_OK :: bool
  TP_Note :: string

record TrendSeriesInfo =
  TI_Series :: string
  TI_Subject :: string

definition defaultWindowHours :: rat where
  "defaultWindowHours = 24"

definition maxWindowHours :: rat where
  "maxWindowHours = 90 * 24"

definition wholePositiveNumber :: "json \<Rightarrow> rat option" where
  "wholePositiveNumber v = (case v of JNum f \<Rightarrow> if f \<le> 0 \<or> f \<noteq> of_int (trunc f) then None else Some f | _ \<Rightarrow> None)"

text \<open>The arguments of a call are the members of a JSON object, without repetition.\<close>

type_synonym args = "(string \<times> json) list"

definition trendWindow :: "args \<Rightarrow> string + duration" where
  "trendWindow args =
     (let h = map_of args ''hours''; d = map_of args ''days'' in
      if h \<noteq> None \<and> d \<noteq> None then Inl ''provide at most one of hours or days, not both''
      else
        res_bind (case h of
            Some v \<Rightarrow> (case wholePositiveNumber v of None \<Rightarrow> Inl ''hours must be a positive whole number'' | Some f \<Rightarrow> Inr f)
          | None \<Rightarrow> (case d of
              Some v \<Rightarrow> (case wholePositiveNumber v of None \<Rightarrow> Inl ''days must be a positive whole number'' | Some f \<Rightarrow> Inr (f * 24))
            | None \<Rightarrow> Inr defaultWindowHours)) (\<lambda>hours.
        if hours > maxWindowHours
        then Inl ''window exceeds the sampler's 2160h (90d) retention; ask for a smaller hours/days value''
        else Inr (trunc (hours * of_int nsHour))))"

definition knownSeries :: "TrendSeriesInfo list \<Rightarrow> string \<Rightarrow> bool" where
  "knownSeries pairs series = list_ex (\<lambda>p. TI_Series p = series) pairs"

definition validSeriesNames :: "TrendSeriesInfo list \<Rightarrow> string list" where
  "validSeriesNames pairs = sort_Strings (remdups (map TI_Series pairs))"

definition pointValue :: "TrendPoint \<Rightarrow> json" where
  "pointValue p = (case TP_Value p of Some v \<Rightarrow> JNum v | None \<Rightarrow> JOpt JStr (TP_Text p))"

definition em_dash_text :: string where
  "em_dash_text = [CHR 0xE2, CHR 0x80, CHR 0x94]"

definition trendSummaryView :: "formats \<Rightarrow> string \<Rightarrow> string \<Rightarrow> gotime \<Rightarrow> gotime \<Rightarrow> TrendPoint list \<Rightarrow> json" where
  "trendSummaryView fm series subject t_from t_to points =
     (let oks = filter TP_OK points;
          samples = int (length oks);
          gaps = int (length (filter (\<lambda>p. \<not> TP_OK p) points));
          gapHeavy = (samples < 2 \<or> gaps > samples);
          base = [(''series'', JStr series), (''subject'', JStr subject), (''from'', JStr (fm_rfc3339 fm t_from)),
                  (''to'', JStr (fm_rfc3339 fm t_to)), (''sample_count'', JInt samples), (''gap_count'', JInt gaps),
                  (''gap_heavy'', JBool gapHeavy)] in
      if samples = 0
      then JObj (base @ [(''direction'', JStr ''insufficient-data''),
             (''note'', JStr (''no readings in this window ('' @ itoa gaps @ '' gaps) '' @ em_dash_text @ '' nothing to trend yet.''))])
      else
        let f = hd oks; l = last oks;
            ends = base @ [(''first'', pointValue f), (''first_at'', JStr (fm_rfc3339 fm (TP_At f))),
                           (''last'', pointValue l), (''last_at'', JStr (fm_rfc3339 fm (TP_At l)))] in
        if gapHeavy
        then JObj (ends @ [(''direction'', JStr ''insufficient-data''),
               (''note'', JStr (itoa gaps @ '' of '' @ itoa (gaps + samples) @
                  '' points in this window are gaps (skipped reads, e.g. a disk in standby) '' @ em_dash_text @
                  '' not enough confident samples for a reliable trend.''))])
        else
          let noted = ends @ [(''note'', JStr (itoa samples @ '' samples, '' @ itoa gaps @ '' gaps in this window.''))] in
          JObj (case (TP_Value f, TP_Value l) of
              (Some a, Some b) \<Rightarrow> noted @ [(''delta'', JNum (b - a)),
                (''direction'', JStr (if b - a > 0 then ''up'' else if b - a < 0 then ''down'' else ''flat''))]
            | _ \<Rightarrow> (case (TP_Text f, TP_Text l) of
                (Some a, Some b) \<Rightarrow> noted @ [(''direction'', JStr (if a = b then ''unchanged'' else ''changed''))]
              | _ \<Rightarrow> noted @ [(''direction'', JStr ''insufficient-data'')])))"

definition trendDetailView :: "formats \<Rightarrow> string \<Rightarrow> string \<Rightarrow> gotime \<Rightarrow> gotime \<Rightarrow> TrendPoint list \<Rightarrow> json" where
  "trendDetailView fm series subject t_from t_to points = JObj
     [(''series'', JStr series), (''subject'', JStr subject), (''from'', JStr (fm_rfc3339 fm t_from)), (''to'', JStr (fm_rfc3339 fm t_to)),
      (''points'', JArr (map (\<lambda>p. JObj
         ([(''at'', JStr (fm_rfc3339 fm (TP_At p))), (''ok'', JBool (TP_OK p))] @
          (case TP_Value p of None \<Rightarrow> [] | Some v \<Rightarrow> [(''value'', JNum v)]) @
          (case TP_Text p of None \<Rightarrow> [] | Some t \<Rightarrow> [(''text'', JStr t)]) @
          (if TP_Note p = '''' then [] else [(''note'', JStr (TP_Note p))]))) points))]"

end
