(* ===== verification/Mcp.thy ===== *)
theory Mcp
  imports Mcp_Views
begin

text \<open>
  The MCP endpoint of \<open>internal/mcp\<close>: authentication (\<open>auth.go\<close>), the JSON-RPC dispatcher (\<open>server.go\<close>,
  \<open>jsonrpc.go\<close>), tools and resources (\<open>tool.go\<close>, \<open>resource.go\<close>, \<open>tools_*.go\<close>, \<open>resources_builtin.go\<close>) and the
  polling of proposals (\<open>proposal.go\<close>). The Unraid source, the proposal sink and the trend source are
  given by their answers in \<open>mcp_world\<close>; decoding of a request is \<open>decoders\<close>; the constant
  descriptions and input schemas are given by \<open>catalog_text\<close>. The handler of a tool is a function in the
  server's table, as in the code, and every call of one is logged.
\<close>

section \<open>Tools and resources\<close>

record Annotations =
  An_ReadOnlyHint :: bool
  An_DestructiveHint :: bool
  An_IdempotentHint :: bool
  An_OpenWorldHint :: bool

record ToolResult =
  TR_Content :: string
  TR_IsError :: bool

datatype toolErr = InvalidParamsError string | HandlerError string

record Tool =
  TL_Name :: string
  TL_Category :: string
  TL_Description :: string
  TL_InputSchema :: "json option"
  TL_Required :: "string list"
  TL_Annotations :: Annotations
  TL_Handler :: "args \<Rightarrow> bool \<Rightarrow> toolErr + ToolResult"

record Resource =
  RS_URI :: string
  RS_Name :: string
  RS_Description :: string
  RS_MimeType :: string
  RS_Handler :: "string + string"

definition structuredError :: "formats \<Rightarrow> string \<Rightarrow> string \<Rightarrow> string list \<Rightarrow> ToolResult" where
  "structuredError fm code reason alternatives =
     \<lparr>TR_Content = (case fm_compact fm (JObj ([(''code'', JStr code), (''reason'', JStr reason)] @
         (if alternatives = [] then [] else [(''alternatives'', JArr (map JStr alternatives))]))) of Inl _ \<Rightarrow> '''' | Inr b \<Rightarrow> b),
      TR_IsError = True\<rparr>"

definition boolArg :: "args \<Rightarrow> string \<Rightarrow> bool" where
  "boolArg args name = (case map_of args name of Some (JBool b) \<Rightarrow> b | _ \<Rightarrow> False)"

definition stringArg :: "args \<Rightarrow> string \<Rightarrow> string" where
  "stringArg args name = (case map_of args name of Some (JStr s) \<Rightarrow> s | _ \<Rightarrow> '''')"

definition renderResult :: "formats \<Rightarrow> json \<Rightarrow> toolErr + ToolResult" where
  "renderResult fm v =
     res_bind (res_wrap HandlerError (render fm v)) (\<lambda>t. Inr \<lparr>TR_Content = t, TR_IsError = False\<rparr>)"

definition handleSourceErr :: "formats \<Rightarrow> readErr \<Rightarrow> toolErr + ToolResult" where
  "handleSourceErr fm err =
     (case err of
        Unauthenticated s \<Rightarrow> Inr (structuredError fm ''unauthenticated'' s
          [''ask a human to create an Unraid API key (a host mutation this server cannot do itself)''])
      | DiskStandby s \<Rightarrow> Inr (structuredError fm ''disk_standby''
          ''disk is in standby; not woken to read SMART attributes (expected behavior, not a failure)''
          [''call again after the disk wakes on its own, or accept the gap''])
      | ReadFailed s \<Rightarrow> Inl (HandlerError s))"

section \<open>Proposals\<close>

record ProposalStatus =
  PX_ProposalID :: string
  PX_State :: string
  PX_Reasons :: "string list"
  PX_UpdatedAt :: gotime

datatype sinkErr = SinkNotFound string | SinkNotConfigured string | SinkFailed string

definition ErrProposalsNotConfigured :: string where
  "ErrProposalsNotConfigured = ''proposal tracking is not configured yet''"

definition NoopProposalSink_GetProposal :: "string \<Rightarrow> sinkErr + ProposalStatus" where
  "NoopProposalSink_GetProposal i = Inl (SinkNotConfigured ErrProposalsNotConfigured)"

section \<open>The server\<close>

record mcp_world =
  mw_fm :: formats
  mw_host :: "readErr + HostInfo"
  mw_array :: "readErr + ArrayState"
  mw_shares :: "readErr + Share list"
  mw_containers :: "readErr + Container list"
  mw_smart :: "string \<Rightarrow> readErr + SmartAttrs"
  mw_reach :: "readErr + Reachability"
  mw_proposal :: "string \<Rightarrow> sinkErr + ProposalStatus"
  mw_series :: "string + TrendSeriesInfo list"
  mw_trend :: "string \<Rightarrow> string \<Rightarrow> gotime \<Rightarrow> gotime \<Rightarrow> string + TrendPoint list"
  mw_now :: gotime

record Server =
  SV_dashboardBaseURL :: string
  SV_authToken :: string
  SV_tools :: "Tool list"
  SV_resources :: "Resource list"

definition Register :: "Tool \<Rightarrow> Server \<Rightarrow> Server" where
  "Register t s = s\<lparr>SV_tools := upsert_row TL_Name t (SV_tools s)\<rparr>"

definition RegisterResource :: "Resource \<Rightarrow> Server \<Rightarrow> Server" where
  "RegisterResource r s = s\<lparr>SV_resources := upsert_row RS_URI r (SV_resources s)\<rparr>"

record catalog_text =
  ct_describe :: "string \<Rightarrow> string"
  ct_schema :: "string \<Rightarrow> json option"

definition read_only :: Annotations where
  "read_only = \<lparr>An_ReadOnlyHint = True, An_DestructiveHint = False, An_IdempotentHint = True, An_OpenWorldHint = False\<rparr>"

definition read_tool :: "catalog_text \<Rightarrow> string \<Rightarrow> string \<Rightarrow> string list \<Rightarrow> (args \<Rightarrow> bool \<Rightarrow> toolErr + ToolResult) \<Rightarrow> Tool" where
  "read_tool tx name category required handler =
     \<lparr>TL_Name = name, TL_Category = category, TL_Description = ct_describe tx name, TL_InputSchema = ct_schema tx name,
      TL_Required = required, TL_Annotations = read_only, TL_Handler = handler\<rparr>"

text \<open>The tail of a read tool: classify the error or render the view.\<close>

definition show_read :: "formats \<Rightarrow> readErr + 'a \<Rightarrow> ('a \<Rightarrow> json) \<Rightarrow> toolErr + ToolResult" where
  "show_read fm r view = (case r of Inl e \<Rightarrow> handleSourceErr fm e | Inr x \<Rightarrow> renderResult fm (view x))"

definition registerHostTools :: "catalog_text \<Rightarrow> mcp_world \<Rightarrow> Server \<Rightarrow> Server" where
  "registerHostTools tx w s =
     Register ((read_tool tx ''get_reachability'' ''host'' [] (\<lambda>args detail.
         show_read (mw_fm w) (mw_reach w) (\<lambda>r. reachabilityView (mw_fm w) r detail)))
         \<lparr>TL_Annotations := read_only\<lparr>An_OpenWorldHint := True\<rparr>\<rparr>)
     (Register (read_tool tx ''get_host_info'' ''host'' [] (\<lambda>args detail.
         show_read (mw_fm w) (mw_host w) (\<lambda>hi. hostInfoView (mw_fm w) hi detail))) s)"

definition registerStorageTools :: "catalog_text \<Rightarrow> mcp_world \<Rightarrow> Server \<Rightarrow> Server" where
  "registerStorageTools tx w s =
     Register (read_tool tx ''list_shares'' ''storage'' [] (\<lambda>args detail.
         show_read (mw_fm w) (mw_shares w) (\<lambda>shs. JObj [(''shares'', sharesView shs detail), (''source'', JStr (sharesSource shs))])))
     (Register (read_tool tx ''get_disk_smart'' ''storage'' [''device''] (\<lambda>args detail.
         show_read (mw_fm w) (mw_smart w (stringArg args ''device'')) (\<lambda>sm. smartView (mw_fm w) sm detail)))
     (Register (read_tool tx ''get_array_state'' ''storage'' [] (\<lambda>args detail.
         show_read (mw_fm w) (mw_array w) (\<lambda>a. arrayView (mw_fm w) a detail))) s))"

definition registerContainerTools :: "catalog_text \<Rightarrow> mcp_world \<Rightarrow> Server \<Rightarrow> Server" where
  "registerContainerTools tx w s =
     Register (read_tool tx ''list_containers'' ''containers'' [] (\<lambda>args detail.
         show_read (mw_fm w) (mw_containers w) (\<lambda>cs. JObj [(''containers'', containersView cs detail)]))) s"

definition get_proposal :: "mcp_world \<Rightarrow> string \<Rightarrow> args \<Rightarrow> bool \<Rightarrow> toolErr + ToolResult" where
  "get_proposal w dashboardBaseURL args detail =
     (case mw_proposal w (stringArg args ''id'') of
        Inl (SinkNotFound e) \<Rightarrow> Inr (structuredError (mw_fm w) ''not_found'' e [''re-check the id returned by the mutating tool call''])
      | Inl (SinkNotConfigured e) \<Rightarrow>
          let alt = ''ask a human to finish wiring the mutating-tool grant model (HL-SA-18)'' in
          Inr (structuredError (mw_fm w) ''not_configured'' e
            [if dashboardBaseURL \<noteq> '''' then ''check '' @ dashboardBaseURL @ '' directly; '' @ alt else alt])
      | Inl (SinkFailed e) \<Rightarrow> Inr (structuredError (mw_fm w) ''unavailable'' e
            [''retry; if it persists, ask a human to check the server logs''])
      | Inr p \<Rightarrow> renderResult (mw_fm w) (JObj [(''proposalId'', JStr (PX_ProposalID p)), (''state'', JStr (PX_State p)),
            (''reasons'', JArr (map JStr (PX_Reasons p))), (''updatedAt'', JStr (fm_json_time (mw_fm w) (PX_UpdatedAt p)))]))"

definition registerProposalTools :: "catalog_text \<Rightarrow> mcp_world \<Rightarrow> string \<Rightarrow> Server \<Rightarrow> Server" where
  "registerProposalTools tx w dashboardBaseURL s =
     Register (read_tool tx ''get_proposal'' ''proposals'' [''id''] (get_proposal w dashboardBaseURL)) s"

definition list_trend_series :: "mcp_world \<Rightarrow> args \<Rightarrow> bool \<Rightarrow> toolErr + ToolResult" where
  "list_trend_series w args detail =
     res_bind (res_wrap HandlerError (mw_series w)) (\<lambda>pairs.
       renderResult (mw_fm w) (JObj [(''series'', JArr (map (\<lambda>p.
         JObj [(''series'', JStr (TI_Series p)), (''subject'', JStr (TI_Subject p))]) pairs))]))"

definition get_smart_trend :: "mcp_world \<Rightarrow> args \<Rightarrow> bool \<Rightarrow> toolErr + ToolResult" where
  "get_smart_trend w args detail =
     res_bind (res_wrap InvalidParamsError (trendWindow args)) (\<lambda>window.
     res_bind (res_wrap HandlerError (mw_series w)) (\<lambda>pairs.
       let series = stringArg args ''series''; subject = stringArg args ''subject'' in
       if \<not> knownSeries pairs series
       then Inr (structuredError (mw_fm w) ''unknown_series'' (''no stored history for series '' @ go_quote series) (validSeriesNames pairs))
       else
         res_bind (res_wrap HandlerError (mw_trend w series subject (mw_now w - window) (mw_now w))) (\<lambda>points.
         renderResult (mw_fm w)
           (if detail then trendDetailView (mw_fm w) series subject (mw_now w - window) (mw_now w) points
            else trendSummaryView (mw_fm w) series subject (mw_now w - window) (mw_now w) points))))"

definition registerTrendTools :: "catalog_text \<Rightarrow> mcp_world \<Rightarrow> Server \<Rightarrow> Server" where
  "registerTrendTools tx w s =
     Register (read_tool tx ''get_smart_trend'' ''trends'' [''series'', ''subject''] (get_smart_trend w))
     (Register (read_tool tx ''list_trend_series'' ''trends'' [] (list_trend_series w)) s)"

definition read_resource :: "catalog_text \<Rightarrow> mcp_world \<Rightarrow> string \<Rightarrow> string \<Rightarrow> readErr + json \<Rightarrow> Resource" where
  "read_resource tx w uri name v =
     \<lparr>RS_URI = uri, RS_Name = name, RS_Description = ct_describe tx uri, RS_MimeType = ''application/json'',
      RS_Handler = res_bind (res_wrap readErr_Error v) (render (mw_fm w))\<rparr>"

definition res_fmap :: "('a \<Rightarrow> 'b) \<Rightarrow> 'e + 'a \<Rightarrow> 'e + 'b" where
  "res_fmap f m = res_bind m (\<lambda>x. Inr (f x))"

definition registerBuiltinResources :: "catalog_text \<Rightarrow> mcp_world \<Rightarrow> Server \<Rightarrow> Server" where
  "registerBuiltinResources tx w s =
     RegisterResource (read_resource tx w ''unraid://containers'' ''Containers'' (res_fmap (\<lambda>cs. containersView cs True) (mw_containers w)))
     (RegisterResource (read_resource tx w ''unraid://shares'' ''Shares'' (res_fmap (\<lambda>shs. sharesView shs True) (mw_shares w)))
     (RegisterResource (read_resource tx w ''unraid://array'' ''Array layout'' (res_fmap (\<lambda>a. arrayView (mw_fm w) a True) (mw_array w)))
     (RegisterResource (read_resource tx w ''unraid://host'' ''Host info'' (res_fmap (\<lambda>hi. hostInfoView (mw_fm w) hi True) (mw_host w))) s)))"

record ServerOptions =
  SO_DashboardBaseURL :: string
  SO_AuthToken :: string
  SO_Trends :: bool

definition NewServer :: "catalog_text \<Rightarrow> mcp_world \<Rightarrow> ServerOptions \<Rightarrow> Server" where
  "NewServer tx w opts =
     (let s0 = \<lparr>SV_dashboardBaseURL = SO_DashboardBaseURL opts, SV_authToken = SO_AuthToken opts, SV_tools = [], SV_resources = []\<rparr>;
          s1 = registerProposalTools tx w (SO_DashboardBaseURL opts)
                 (registerContainerTools tx w (registerStorageTools tx w (registerHostTools tx w s0))) in
      registerBuiltinResources tx w (if SO_Trends opts then registerTrendTools tx w s1 else s1))"

section \<open>The wire protocol\<close>

definition protocolVersion :: string where
  "protocolVersion = ''2025-11-25''"

definition codeParseError :: int where "codeParseError = -32700"

definition codeInvalidRequest :: int where "codeInvalidRequest = -32600"

definition codeMethodNotFound :: int where "codeMethodNotFound = -32601"

definition codeInvalidParams :: int where "codeInvalidParams = -32602"

definition codeInternalError :: int where "codeInternalError = -32603"

definition codeResourceNotFound :: int where "codeResourceNotFound = -32002"

definition codeUnauthorized :: int where "codeUnauthorized = -32001"

text \<open>A raw message is its text; the empty text is the absent member.\<close>

record rpcRequest =
  RQ_ID :: string
  RQ_Method :: string
  RQ_Params :: string

record rpcError =
  RE_Code :: int
  RE_Message :: string
  RE_Data :: "(string \<times> string) option"

record rpcResponse =
  RP_ID :: string
  RP_Outcome :: "rpcError + string"

definition rpc_err :: "int \<Rightarrow> string \<Rightarrow> rpcError" where
  "rpc_err code message = \<lparr>RE_Code = code, RE_Message = message, RE_Data = None\<rparr>"

text \<open>The JSON decoder at the four shapes the endpoint reads.\<close>

record decoders =
  jd_request :: "string \<Rightarrow> string + rpcRequest"
  jd_call :: "string \<Rightarrow> string + string \<times> string"
  jd_args :: "string \<Rightarrow> string + args"
  jd_uri :: "string \<Rightarrow> string + string"

datatype handler_call = CallTool string args | ReadResource string

definition marshal_result :: "formats \<Rightarrow> json \<Rightarrow> rpcError + string" where
  "marshal_result fm v = res_wrap (rpc_err codeInternalError) (fm_compact fm v)"

definition handleInitialize :: "formats \<Rightarrow> Server \<Rightarrow> rpcError + string" where
  "handleInitialize fm s =
     marshal_result fm (JObj
       ([(''protocolVersion'', JStr protocolVersion),
         (''capabilities'', JObj [(''tools'', JObj []), (''resources'', JObj [])]),
         (''serverInfo'', JObj [(''name'', JStr ''server-assistant''), (''version'', JStr ''0.1.0'')])] @
        (if SV_dashboardBaseURL s \<noteq> ''''
         then [(''instructions'', JStr (''Mutating actions are not implemented yet; the dashboard at '' @
                 SV_dashboardBaseURL s @ '' is read-only alongside this endpoint.''))]
         else [])))"

definition tool_entry :: "Tool \<Rightarrow> json" where
  "tool_entry t =
     JObj [(''name'', JStr (TL_Name t)), (''description'', JStr (TL_Description t)),
       (''inputSchema'', case TL_InputSchema t of Some sc \<Rightarrow> sc
          | None \<Rightarrow> JObj [(''type'', JStr ''object''), (''additionalProperties'', JBool False)]),
       (''annotations'', JObj [(''readOnlyHint'', JBool (An_ReadOnlyHint (TL_Annotations t))),
          (''destructiveHint'', JBool (An_DestructiveHint (TL_Annotations t))),
          (''idempotentHint'', JBool (An_IdempotentHint (TL_Annotations t))),
          (''openWorldHint'', JBool (An_OpenWorldHint (TL_Annotations t)))]),
       (''_meta'', JObj [(''category'', JStr (TL_Category t))])]"

definition handleToolsList :: "formats \<Rightarrow> Server \<Rightarrow> rpcError + string" where
  "handleToolsList fm s = marshal_result fm (JObj [(''tools'', JArr (map tool_entry (SV_tools s)))])"

definition tool_result_json :: "ToolResult \<Rightarrow> json" where
  "tool_result_json r =
     JObj [(''content'', JArr [JObj [(''type'', JStr ''text''), (''text'', JStr (TR_Content r))]]), (''isError'', JBool (TR_IsError r))]"

definition run_tool :: "formats \<Rightarrow> Tool \<Rightarrow> args \<Rightarrow> rpcError + string" where
  "run_tool fm tool args =
     (case TL_Handler tool args (boolArg args ''detail'') of
        Inl (InvalidParamsError m) \<Rightarrow> Inl (rpc_err codeInvalidParams m)
      | Inl (HandlerError m) \<Rightarrow> marshal_result fm (tool_result_json \<lparr>TR_Content = m, TR_IsError = True\<rparr>)
      | Inr r \<Rightarrow> marshal_result fm (tool_result_json r))"

definition missing_args :: "Tool \<Rightarrow> args \<Rightarrow> string list" where
  "missing_args tool args = filter (\<lambda>n. n \<notin> set (map fst args)) (TL_Required tool)"

definition handleToolsCall :: "formats \<Rightarrow> decoders \<Rightarrow> Server \<Rightarrow> string \<Rightarrow> (rpcError + string) \<times> handler_call list" where
  "handleToolsCall fm jd s params =
     (case jd_call jd params of
        Inl _ \<Rightarrow> (Inl (rpc_err codeInvalidParams ''invalid params: a tool name is required''), [])
      | Inr (name, arguments) \<Rightarrow>
          if name = '''' then (Inl (rpc_err codeInvalidParams ''invalid params: a tool name is required''), [])
          else
            (case find_row TL_Name name (SV_tools s) of
               None \<Rightarrow> (Inl (rpc_err codeInvalidParams (''Unknown tool: '' @ name)), [])
             | Some tool \<Rightarrow>
                 (case (if arguments \<noteq> '''' then jd_args jd arguments else Inr []) of
                    Inl e \<Rightarrow> (Inl (rpc_err codeInvalidParams (''invalid arguments: '' @ e)), [])
                  | Inr args \<Rightarrow>
                      (case missing_args tool args of
                         n # _ \<Rightarrow> (Inl (rpc_err codeInvalidParams (''missing required argument: '' @ n)), [])
                       | [] \<Rightarrow> (run_tool fm tool args, [CallTool name args])))))"

definition handleResourcesList :: "formats \<Rightarrow> Server \<Rightarrow> rpcError + string" where
  "handleResourcesList fm s =
     marshal_result fm (JObj [(''resources'', JArr (map (\<lambda>r.
       JObj [(''uri'', JStr (RS_URI r)), (''name'', JStr (RS_Name r)), (''description'', JStr (RS_Description r)),
             (''mimeType'', JStr (RS_MimeType r))]) (SV_resources s)))])"

definition handleResourcesRead :: "formats \<Rightarrow> decoders \<Rightarrow> Server \<Rightarrow> string \<Rightarrow> (rpcError + string) \<times> handler_call list" where
  "handleResourcesRead fm jd s params =
     (case jd_uri jd params of
        Inl _ \<Rightarrow> (Inl (rpc_err codeInvalidParams ''invalid params: a uri is required''), [])
      | Inr uri \<Rightarrow>
          if uri = '''' then (Inl (rpc_err codeInvalidParams ''invalid params: a uri is required''), [])
          else
            (case find_row RS_URI uri (SV_resources s) of
               None \<Rightarrow> (Inl \<lparr>RE_Code = codeResourceNotFound, RE_Message = ''Resource not found'', RE_Data = Some (''uri'', uri)\<rparr>, [])
             | Some r \<Rightarrow>
                 (res_bind (res_wrap (rpc_err codeInternalError) (RS_Handler r)) (\<lambda>t.
                    marshal_result fm (JObj [(''contents'', JArr [JObj [(''uri'', JStr (RS_URI r)),
                      (''mimeType'', JStr (RS_MimeType r)), (''text'', JStr t)]])])),
                  [ReadResource uri])))"

definition rpc_dispatch :: "formats \<Rightarrow> decoders \<Rightarrow> Server \<Rightarrow> string \<Rightarrow> string \<Rightarrow> (rpcError + string) \<times> handler_call list" where
  "rpc_dispatch fm jd s meth params =
     (if meth = ''initialize'' then (handleInitialize fm s, [])
      else if meth = ''ping'' then (Inr ''{}'', [])
      else if meth = ''tools/list'' then (handleToolsList fm s, [])
      else if meth = ''tools/call'' then handleToolsCall fm jd s params
      else if meth = ''resources/list'' then (handleResourcesList fm s, [])
      else if meth = ''resources/read'' then handleResourcesRead fm jd s params
      else (Inl (rpc_err codeMethodNotFound (''method not found: '' @ meth)), []))"

section \<open>The HTTP endpoint\<close>

definition maxRequestBytes :: nat where
  "maxRequestBytes = 64 * 1024"

definition bearerPrefix :: string where
  "bearerPrefix = ''Bearer ''"

text \<open>
  A request: its method, its \<open>Authorization\<close> header and its body. \<open>hq_body\<close> is what reading the body up
  to the limit gives: an error, or the whole text.
\<close>

record http_request =
  hq_method :: string
  hq_authorization :: string
  hq_body :: "string + string"

datatype http_body = PlainText string | Rpc rpcResponse | NoBody

record http_response =
  hr_status :: nat
  hr_allow :: "string option"
  hr_body :: http_body

definition http_Error :: "string \<Rightarrow> nat \<Rightarrow> http_response" where
  "http_Error m code = \<lparr>hr_status = code, hr_allow = None, hr_body = PlainText m\<rparr>"

definition checkAuth :: "Server \<Rightarrow> http_request \<Rightarrow> bool" where
  "checkAuth s r =
     (let h = hq_authorization r in
      if \<not> strings_HasPrefix h bearerPrefix then False
      else strings_TrimPrefix h bearerPrefix = SV_authToken s)"

definition writeUnauthorized :: http_response where
  "writeUnauthorized =
     \<lparr>hr_status = 401, hr_allow = None,
      hr_body = Rpc \<lparr>RP_ID = ''null'', RP_Outcome = Inl (rpc_err codeUnauthorized ''unauthorized: missing or invalid bearer token'')\<rparr>\<rparr>"

definition writeError :: "string \<Rightarrow> int \<Rightarrow> string \<Rightarrow> http_response" where
  "writeError i code message =
     \<lparr>hr_status = 200, hr_allow = None,
      hr_body = Rpc \<lparr>RP_ID = (if i = '''' then ''null'' else i), RP_Outcome = Inl (rpc_err code message)\<rparr>\<rparr>"

definition handlePost :: "formats \<Rightarrow> decoders \<Rightarrow> Server \<Rightarrow> http_request \<Rightarrow> http_response \<times> handler_call list" where
  "handlePost fm jd s r =
     (case hq_body r of
        Inl _ \<Rightarrow> (http_Error ''failed to read request body'' 400, [])
      | Inr whole \<Rightarrow>
          let body = take (maxRequestBytes + 1) whole in
          if length body > maxRequestBytes then (http_Error ''request body too large'' 413, [])
          else
            (case jd_request jd body of
               Inl e \<Rightarrow> (writeError '''' codeParseError (''parse error: '' @ e), [])
             | Inr req \<Rightarrow>
                 if RQ_Method req = '''' then (writeError (RQ_ID req) codeInvalidRequest ''missing method'', [])
                 else if RQ_ID req = '''' \<or> RQ_ID req = ''null'' then (\<lparr>hr_status = 202, hr_allow = None, hr_body = NoBody\<rparr>, [])
                 else
                   (let (outcome, calls) = rpc_dispatch fm jd s (RQ_Method req) (RQ_Params req) in
                    (\<lparr>hr_status = 200, hr_allow = None, hr_body = Rpc \<lparr>RP_ID = RQ_ID req, RP_Outcome = outcome\<rparr>\<rparr>, calls))))"

definition serveHTTP :: "formats \<Rightarrow> decoders \<Rightarrow> Server \<Rightarrow> http_request \<Rightarrow> http_response \<times> handler_call list" where
  "serveHTTP fm jd s r =
     (if SV_authToken s \<noteq> '''' \<and> \<not> checkAuth s r then (writeUnauthorized, [])
      else if hq_method r \<noteq> ''POST''
      then ((http_Error ''method not allowed'' 405)\<lparr>hr_allow := Some ''POST''\<rparr>, [])
      else handlePost fm jd s r)"

section \<open>What the endpoint guarantees\<close>

lemma list_all_upsert: "P t \<Longrightarrow> list_all P l \<Longrightarrow> list_all P (upsert_row key t l)"
  by (auto simp: upsert_row_def list_all_iff)

lemma checkAuth_iff: "checkAuth s r \<longleftrightarrow> hq_authorization r = bearerPrefix @ SV_authToken s"
  by (auto simp: checkAuth_def Let_def strings_HasPrefix_def strings_TrimPrefix_def) (metis append_take_drop_id)

lemma read_tool_sel [simp]:
  "TL_Name (read_tool tx n c req h) = n"
  "TL_Required (read_tool tx n c req h) = req"
  "TL_Annotations (read_tool tx n c req h) = read_only"
  "TL_Handler (read_tool tx n c req h) = h"
  by (simp_all add: read_tool_def)

lemma NewServer_token [simp]: "SV_authToken (NewServer tx w opts) = SO_AuthToken opts"
  by (simp add: NewServer_def Let_def registerBuiltinResources_def registerTrendTools_def registerProposalTools_def
      registerContainerTools_def registerStorageTools_def registerHostTools_def Register_def RegisterResource_def)

text \<open>A property of every tool of the catalogue is one of the nine that are registered.\<close>

definition small_result :: "toolErr + ToolResult \<Rightarrow> bool" where
  "small_result r \<longleftrightarrow>
     (case r of Inl _ \<Rightarrow> True | Inr x \<Rightarrow> TR_IsError x \<or> length (TR_Content x) \<le> maxResultBytes + length truncation_marker)"

definition tame_tool :: "Tool \<Rightarrow> bool" where
  "tame_tool t \<longleftrightarrow> An_ReadOnlyHint (TL_Annotations t) \<and> \<not> An_DestructiveHint (TL_Annotations t) \<and>
     (\<forall>args detail. small_result (TL_Handler t args detail))"

lemma small_result_Inl [simp]: "small_result (Inl e)"
  by (simp add: small_result_def)

lemma small_renderResult [simp]: "small_result (renderResult fm v)"
  by (cases "render fm v") (auto simp: renderResult_def res_bind_def res_wrap_def small_result_def dest: render_bound)

lemma small_structuredError [simp]: "small_result (Inr (structuredError fm c rs alts))"
  by (simp add: small_result_def structuredError_def)

lemma small_show_read [simp]: "small_result (show_read fm r view)"
  by (auto simp: show_read_def handleSourceErr_def split: sum.split readErr.split)

lemma small_res_bind: "(\<And>x. small_result (f x)) \<Longrightarrow> small_result (res_bind m f)"
  by (simp add: res_bind_def split: sum.split)

lemma small_get_proposal [simp]: "small_result (get_proposal w u args detail)"
  by (auto simp: get_proposal_def Let_def split: sum.split sinkErr.split)

lemma small_trends [simp]:
  "small_result (list_trend_series w args detail)"
  "small_result (get_smart_trend w args detail)"
  by (auto simp: list_trend_series_def get_smart_trend_def Let_def intro!: small_res_bind)

lemma tame_catalogue: "list_all tame_tool (SV_tools (NewServer tx w opts))"
  by (auto simp: NewServer_def Let_def registerBuiltinResources_def registerTrendTools_def registerProposalTools_def
      registerContainerTools_def registerStorageTools_def registerHostTools_def Register_def RegisterResource_def
      tame_tool_def read_only_def intro!: list_all_upsert)

lemma missing_args_Nil: "missing_args t args = [] \<longleftrightarrow> set (TL_Required t) \<subseteq> fst ` set args"
  by (auto simp: missing_args_def filter_empty_conv)

text \<open>A call is admitted when its handler is registered and it has the arguments the tool requires.\<close>

definition admitted_call :: "Server \<Rightarrow> handler_call \<Rightarrow> bool" where
  "admitted_call s c =
     (case c of
        CallTool name args \<Rightarrow> list_ex (\<lambda>t. TL_Name t = name \<and> set (TL_Required t) \<subseteq> fst ` set args) (SV_tools s)
      | ReadResource uri \<Rightarrow> list_ex (\<lambda>x. RS_URI x = uri) (SV_resources s))"

definition at_most_one_call :: "Server \<Rightarrow> handler_call list \<Rightarrow> bool" where
  "at_most_one_call s calls = (case calls of [] \<Rightarrow> True | [c] \<Rightarrow> admitted_call s c | _ \<Rightarrow> False)"

lemma at_most_one_Nil [simp]: "at_most_one_call s []"
  by (simp add: at_most_one_call_def)

lemma handleToolsCall_calls: "at_most_one_call s (snd (handleToolsCall fm jd s params))"
  by (auto simp: handleToolsCall_def at_most_one_call_def admitted_call_def list_ex_iff missing_args_Nil
      split: sum.split option.split list.split dest!: find_row_Some_key)

lemma handleResourcesRead_calls: "at_most_one_call s (snd (handleResourcesRead fm jd s params))"
  by (auto simp: handleResourcesRead_def at_most_one_call_def admitted_call_def list_ex_iff
      split: sum.split option.split dest!: find_row_Some_key)

lemma rpc_dispatch_calls: "at_most_one_call s (snd (rpc_dispatch fm jd s m p))"
  by (simp add: rpc_dispatch_def handleToolsCall_calls handleResourcesRead_calls)

lemma handlePost_calls:
  "at_most_one_call s (snd (handlePost fm jd s r)) \<and>
   (snd (handlePost fm jd s r) = [] \<or> (\<exists>body. hq_body r = Inr body \<and> length body \<le> maxRequestBytes))"
proof -
  have one: "at_most_one_call s calls" if "rpc_dispatch fm jd s m p = (out, calls)" for m p out calls
    using rpc_dispatch_calls [of s fm jd m p] that by simp
  show ?thesis
    by (auto simp: handlePost_def Let_def one split: sum.split prod.split)
qed

text \<open>C40: the MCP endpoint is gated and bounded. With a token configured, a request whose header is not exactly
  \<open>Bearer <token>\<close> gets one fixed answer, whatever else it holds, and runs no handler. Any other request
  runs at most one handler, and only when it is a POST whose body is within the limit and the handler is
  registered and has its required arguments. Every built-in tool is declared read-only, and what it
  answers is an error or within the byte budget plus the truncation marker.
\<close>
theorem mcp_gate:
  "(let s = NewServer tx w opts; (resp, calls) = serveHTTP fm jd s r in
     (if SO_AuthToken opts \<noteq> '''' \<and> hq_authorization r \<noteq> bearerPrefix @ SO_AuthToken opts
      then resp = writeUnauthorized \<and> calls = []
      else at_most_one_call s calls \<and>
        (calls = [] \<or> hq_method r = ''POST'' \<and> (\<exists>body. hq_body r = Inr body \<and> length body \<le> maxRequestBytes))) \<and>
     list_all tame_tool (SV_tools s))"
proof (cases "SO_AuthToken opts \<noteq> '''' \<and> hq_authorization r \<noteq> bearerPrefix @ SO_AuthToken opts")
  case True
  then show ?thesis
    by (simp add: serveHTTP_def checkAuth_iff tame_catalogue Let_def)
next
  case False
  then have "serveHTTP fm jd (NewServer tx w opts) r =
      (if hq_method r \<noteq> ''POST'' then ((http_Error ''method not allowed'' 405)\<lparr>hr_allow := Some ''POST''\<rparr>, [])
       else handlePost fm jd (NewServer tx w opts) r)"
    by (auto simp: serveHTTP_def checkAuth_iff)
  then show ?thesis
    using handlePost_calls [of "NewServer tx w opts" fm jd r] False
    by (auto simp: tame_catalogue Let_def split: prod.split)
qed

end
