(* ===== verification/Sampler.thy ===== *)
theory Sampler
  imports Store Unraid_Domain
begin

text \<open>
  The history sampler of \<open>internal/sampler\<close>: one sampling cycle reads the array, the SMART table of
  every disk and the shares, writes metric rows through the store, and prunes old rows. The state
  keeps the store, the number of driver calls made so far (the driver's answer to a call is
  \<open>sv_io\<close> of its number) and the log of the devices that were asked for SMART data. The stored values are
  \<open>float64(n)\<close> of the integers read, here \<open>float64_round n\<close>, an integer too: the nearest float64, which is \<open>n\<close> itself below
  \<open>2^53\<close>. The theorem shows that every stored row is backed by a reading of the cycle it is stamped with, and that every
  cycle asks each disk once.
\<close>

section \<open>Series\<close>

definition SeriesSMARTReallocatedSectors :: string where
  "SeriesSMARTReallocatedSectors = ''smart.reallocated_sector_ct''"

definition SeriesSMARTPendingSectors :: string where
  "SeriesSMARTPendingSectors = ''smart.current_pending_sector''"

definition SeriesSMARTOfflineUncorrectable :: string where
  "SeriesSMARTOfflineUncorrectable = ''smart.offline_uncorrectable''"

definition SeriesSMARTTemperature :: string where
  "SeriesSMARTTemperature = ''smart.temperature_celsius''"

definition SeriesSMARTPowerOnHours :: string where
  "SeriesSMARTPowerOnHours = ''smart.power_on_hours''"

definition SeriesCapacityDisk :: string where
  "SeriesCapacityDisk = ''capacity.disk''"

definition SeriesCapacityShare :: string where
  "SeriesCapacityShare = ''capacity.share''"

definition SeriesArrayState :: string where
  "SeriesArrayState = ''array.state''"

definition arraySubject :: string where
  "arraySubject = ''array''"

lemmas series_defs = SeriesSMARTReallocatedSectors_def SeriesSMARTPendingSectors_def SeriesSMARTOfflineUncorrectable_def
  SeriesSMARTTemperature_def SeriesSMARTPowerOnHours_def SeriesCapacityDisk_def SeriesCapacityShare_def SeriesArrayState_def
  arraySubject_def

text \<open>The map, in the order in which a loop over it visits the entries (Go leaves it open).\<close>

definition smartAttrSeries :: "(int \<times> string) list" where
  "smartAttrSeries = [(5, SeriesSMARTReallocatedSectors), (9, SeriesSMARTPowerOnHours), (194, SeriesSMARTTemperature),
     (197, SeriesSMARTPendingSectors), (198, SeriesSMARTOfflineUncorrectable)]"

definition smartTemperatureAttrID :: int where
  "smartTemperatureAttrID = 194"

definition minPlausibleTempC :: int where
  "minPlausibleTempC = 0"

definition maxPlausibleTempC :: int where
  "maxPlausibleTempC = 100"

section \<open>Operations\<close>

record Source_reads =
  sv_array :: "readErr + ArrayState"
  sv_shares :: "readErr + Share list"
  sv_smart :: "string \<Rightarrow> readErr + SmartAttrs"
  sv_io :: "nat \<Rightarrow> io"

record SamplerState =
  ss_db :: DB
  ss_calls :: nat
  ss_asked :: "string list"

definition store_sample :: "Source_reads \<Rightarrow> MetricSample \<Rightarrow> SamplerState \<Rightarrow> SamplerState" where
  "store_sample env m st =
     st\<lparr>ss_db := snd (RecordMetricSample (sv_io env (ss_calls st)) m (ss_db st)), ss_calls := Suc (ss_calls st)\<rparr>"

definition sampleArrayState :: "Source_reads \<Rightarrow> ArrayState \<Rightarrow> gotime \<Rightarrow> SamplerState \<Rightarrow> SamplerState" where
  "sampleArrayState env arr now st =
     (let st1 = st\<lparr>ss_calls := Suc (ss_calls st)\<rparr>;
          row = \<lparr>MS_Series = SeriesArrayState, MS_Subject = arraySubject, MS_Value = None, MS_TextValue = Some (Ar_State arr),
                 MS_OK = True, MS_Note = '''', MS_SampledAt = now\<rparr> in
      case LatestMetricSample (sv_io env (ss_calls st)) SeriesArrayState arraySubject (ss_db st) of
        Inl (MetricIO e) \<Rightarrow> st1
      | Inl MetricNoRows \<Rightarrow> store_sample env row st1
      | Inr prev \<Rightarrow> if MS_TextValue prev = Some (Ar_State arr) then st1 else store_sample env row st1)"

definition recordCapacity :: "Source_reads \<Rightarrow> string \<Rightarrow> string \<Rightarrow> int \<Rightarrow> gotime \<Rightarrow> SamplerState \<Rightarrow> SamplerState" where
  "recordCapacity env series subject usedBytes now =
     store_sample env \<lparr>MS_Series = series, MS_Subject = subject, MS_Value = Some (float64_round usedBytes), MS_TextValue = None,
       MS_OK = True, MS_Note = '''', MS_SampledAt = now\<rparr>"

definition sampleDiskCapacity :: "Source_reads \<Rightarrow> Disk \<Rightarrow> gotime \<Rightarrow> SamplerState \<Rightarrow> SamplerState" where
  "sampleDiskCapacity env d now = recordCapacity env SeriesCapacityDisk (Dk_Name d) (Dk_UsedBytes d) now"

definition recordSMARTGap :: "Source_reads \<Rightarrow> string \<Rightarrow> string \<Rightarrow> string \<Rightarrow> gotime \<Rightarrow> SamplerState \<Rightarrow> SamplerState" where
  "recordSMARTGap env series subject note now =
     store_sample env \<lparr>MS_Series = series, MS_Subject = subject, MS_Value = None, MS_TextValue = None, MS_OK = False,
       MS_Note = note, MS_SampledAt = now\<rparr>"

definition recordSMARTTemperature :: "Source_reads \<Rightarrow> SmartAttrs \<Rightarrow> string \<Rightarrow> gotime \<Rightarrow> SamplerState \<Rightarrow> SamplerState" where
  "recordSMARTTemperature env attrs device now =
     (case SA_TemperatureCelsius attrs of
        None \<Rightarrow> recordSMARTGap env SeriesSMARTTemperature device ''device reported no temperature'' now
      | Some celsius \<Rightarrow>
          if celsius < minPlausibleTempC \<or> celsius > maxPlausibleTempC
          then recordSMARTGap env SeriesSMARTTemperature device ''reported value outside plausible range (0-100C)'' now
          else store_sample env \<lparr>MS_Series = SeriesSMARTTemperature, MS_Subject = device, MS_Value = Some (float64_round celsius),
                 MS_TextValue = None, MS_OK = True, MS_Note = '''', MS_SampledAt = now\<rparr>)"

text \<open>One attribute of the table.\<close>

definition sample_attr :: "Source_reads \<Rightarrow> string \<Rightarrow> gotime \<Rightarrow> SmartAttr \<Rightarrow> SamplerState \<Rightarrow> SamplerState" where
  "sample_attr env device now a st =
     (if At_ID a = smartTemperatureAttrID then st
      else (case map_of smartAttrSeries (At_ID a) of
          None \<Rightarrow> st
        | Some series \<Rightarrow>
            store_sample env \<lparr>MS_Series = series, MS_Subject = device, MS_Value = Some (float64_round (At_RawValue a)), MS_TextValue = None,
              MS_OK = True, MS_Note = '''', MS_SampledAt = now\<rparr> st))"

definition sampleSMART :: "Source_reads \<Rightarrow> Disk \<Rightarrow> gotime \<Rightarrow> SamplerState \<Rightarrow> SamplerState" where
  "sampleSMART env d now st =
     (let st1 = st\<lparr>ss_asked := ss_asked st @ [Dk_Device d]\<rparr> in
      case sv_smart env (Dk_Device d) of
        Inl err \<Rightarrow> fold (\<lambda>(_, series). recordSMARTGap env series (Dk_Device d) (readErr_Error err) now) smartAttrSeries st1
      | Inr attrs \<Rightarrow>
          recordSMARTTemperature env attrs (Dk_Device d) now
            (fold (sample_attr env (Dk_Device d) now) (SA_Attributes attrs) st1))"

definition sample_prune :: "Source_reads \<Rightarrow> gotime \<Rightarrow> SamplerState \<Rightarrow> SamplerState" where
  "sample_prune env cutoff st =
     st\<lparr>ss_db := snd (PruneMetricSamples (sv_io env (ss_calls st)) cutoff (ss_db st)), ss_calls := Suc (ss_calls st)\<rparr>"

definition sampleOnce :: "duration \<Rightarrow> Source_reads \<Rightarrow> gotime \<Rightarrow> SamplerState \<Rightarrow> SamplerState" where
  "sampleOnce retention env now st =
     (let st1 = (case sv_array env of
            Inl _ \<Rightarrow> st
          | Inr arr \<Rightarrow> fold (\<lambda>d s. sampleSMART env d now (sampleDiskCapacity env d now s)) (Ar_Disks arr)
              (sampleArrayState env arr now st));
          st2 = (case sv_shares env of
            Inl _ \<Rightarrow> st1
          | Inr shares \<Rightarrow> fold (\<lambda>sh. recordCapacity env SeriesCapacityShare (Sh_Name sh) (Sh_UsedBytes sh) now) shares st1) in
      sample_prune env (now - retention) st2)"

text \<open>\<open>Run\<close>: a cycle at once and one per tick until the context ends; the ticks are the list.\<close>

definition sampler_Run :: "duration \<Rightarrow> (Source_reads \<times> gotime) list \<Rightarrow> SamplerState \<Rightarrow> SamplerState" where
  "sampler_Run retention ticks st = fold (\<lambda>(env, now). sampleOnce retention env now) ticks st"

record Point =
  Pt_At :: gotime
  Pt_Value :: "int option"
  Pt_Text :: "string option"
  Pt_OK :: bool
  Pt_Note :: string

definition Trend :: "io \<Rightarrow> string \<Rightarrow> string \<Rightarrow> gotime \<Rightarrow> gotime \<Rightarrow> DB \<Rightarrow> string + Point list" where
  "Trend io series subject t_from t_to db =
     res_bind (LoadMetricSamples io series subject t_from t_to db) (\<lambda>samples.
       Inr (map (\<lambda>m. \<lparr>Pt_At = MS_SampledAt m, Pt_Value = MS_Value m, Pt_Text = MS_TextValue m, Pt_OK = MS_OK m,
                      Pt_Note = MS_Note m\<rparr>) samples))"

section \<open>Every row is backed by a reading\<close>

definition smart_value :: "SmartAttrs \<Rightarrow> string \<Rightarrow> int \<Rightarrow> bool" where
  "smart_value attrs series v \<longleftrightarrow>
     (if series = SeriesSMARTTemperature then SA_TemperatureCelsius attrs = Some v \<and> 0 \<le> v \<and> v \<le> 100
      else (\<exists>a \<in> set (SA_Attributes attrs). map_of smartAttrSeries (At_ID a) = Some series \<and> float64_round (At_RawValue a) = v))"

definition no_temperature :: "SmartAttrs \<Rightarrow> bool" where
  "no_temperature attrs \<longleftrightarrow> (case SA_TemperatureCelsius attrs of None \<Rightarrow> True | Some c \<Rightarrow> c < 0 \<or> 100 < c)"

text \<open>What a row may say, given what the sources returned in its cycle.\<close>

definition backed :: "Source_reads \<Rightarrow> gotime \<Rightarrow> metric_row \<Rightarrow> bool" where
  "backed env now r \<longleftrightarrow> mr_sampled_at r = UnixMilli now \<and>
     (if mr_series r \<in> snd ` set smartAttrSeries
      then (case sv_smart env (mr_subject r) of
          Inl e \<Rightarrow> mr_ok r = 0 \<and> mr_value r = None \<and> mr_text_value r = None \<and> mr_note r = readErr_Error e
        | Inr attrs \<Rightarrow>
            mr_text_value r = None \<and>
            (case mr_value r of
               Some v \<Rightarrow> mr_ok r = 1 \<and> smart_value attrs (mr_series r) v
             | None \<Rightarrow> mr_ok r = 0 \<and> mr_series r = SeriesSMARTTemperature \<and> no_temperature attrs))
      else mr_ok r = 1 \<and>
        (if mr_series r = SeriesArrayState
         then mr_value r = None \<and> (\<exists>arr. sv_array env = Inr arr \<and> mr_text_value r = Some (Ar_State arr))
         else mr_text_value r = None \<and>
           ((mr_series r = SeriesCapacityDisk \<and>
              (\<exists>arr. sv_array env = Inr arr \<and> (\<exists>d \<in> set (Ar_Disks arr). Dk_Name d = mr_subject r \<and> mr_value r = Some (float64_round (Dk_UsedBytes d))))) \<or>
            (mr_series r = SeriesCapacityShare \<and>
              (\<exists>shs. sv_shares env = Inr shs \<and> (\<exists>s \<in> set shs. Sh_Name s = mr_subject r \<and> mr_value r = Some (float64_round (Sh_UsedBytes s))))))))"

text \<open>The operations that only write rows that are backed, and ask no disk.\<close>

definition writes_backed :: "Source_reads \<Rightarrow> gotime \<Rightarrow> (SamplerState \<Rightarrow> SamplerState) \<Rightarrow> bool" where
  "writes_backed env now f \<longleftrightarrow> (\<forall>st.
     set (db_metric_samples (ss_db (f st))) \<subseteq> set (db_metric_samples (ss_db st)) \<union> Collect (backed env now))"

definition asks :: "string list \<Rightarrow> (SamplerState \<Rightarrow> SamplerState) \<Rightarrow> bool" where
  "asks devs f \<longleftrightarrow> (\<forall>st. ss_asked (f st) = ss_asked st @ devs)"

lemma writes_fold: "(\<And>x. x \<in> set xs \<Longrightarrow> writes_backed env now (f x)) \<Longrightarrow> writes_backed env now (fold f xs)"
  by (induction xs) (fastforce simp: writes_backed_def)+

lemma writes_comp: "writes_backed env now f \<Longrightarrow> writes_backed env now g \<Longrightarrow> writes_backed env now (\<lambda>st. g (f st))"
  by (fastforce simp: writes_backed_def)

lemma asks_comp: "asks xs f \<Longrightarrow> asks ys g \<Longrightarrow> asks (xs @ ys) (\<lambda>st. g (f st))"
  by (simp add: asks_def)

lemma asks_fold: "(\<And>x. asks (h x) (f x)) \<Longrightarrow> asks (concat (map h xs)) (fold f xs)"
  by (induction xs) (simp_all add: asks_def)

lemma store_sample_writes: "backed env now (metric_to_row m) \<Longrightarrow> writes_backed env now (store_sample env m)"
  by (auto simp: writes_backed_def store_sample_def RecordMetricSample_def split: option.split)

lemma store_sample_asks: "asks [] (store_sample env m)"
  by (simp add: asks_def store_sample_def)

lemma series_smart [simp]:
  "map_of smartAttrSeries i = Some s \<Longrightarrow> s \<in> snd ` set smartAttrSeries"
  by (auto dest: map_of_SomeD intro: rev_image_eqI)

lemma series_distinct [simp]:
  "SeriesArrayState \<notin> snd ` set smartAttrSeries" "SeriesCapacityDisk \<notin> snd ` set smartAttrSeries"
  "SeriesCapacityShare \<notin> snd ` set smartAttrSeries" "SeriesSMARTTemperature \<in> snd ` set smartAttrSeries"
  "SeriesCapacityDisk \<noteq> SeriesArrayState" "SeriesCapacityShare \<noteq> SeriesArrayState"
  by (simp_all add: smartAttrSeries_def series_defs)

lemma attr_series_not_temperature:
  "map_of smartAttrSeries i = Some s \<Longrightarrow> i \<noteq> smartTemperatureAttrID \<Longrightarrow> s \<noteq> SeriesSMARTTemperature"
  by (auto simp: smartAttrSeries_def series_defs smartTemperatureAttrID_def split: if_splits)

lemma array_state_writes:
  assumes "sv_array env = Inr arr"
  shows "writes_backed env now (sampleArrayState env arr now)" "asks [] (sampleArrayState env arr now)"
proof -
  define row where "row = \<lparr>MS_Series = SeriesArrayState, MS_Subject = arraySubject, MS_Value = None,
    MS_TextValue = Some (Ar_State arr), MS_OK = True, MS_Note = '''', MS_SampledAt = now\<rparr>"
  have "backed env now (metric_to_row row)"
    by (simp add: backed_def metric_to_row_def row_def assms)
  then have row: "writes_backed env now (store_sample env row)" by (rule store_sample_writes)
  have "sampleArrayState env arr now st = st\<lparr>ss_calls := Suc (ss_calls st)\<rparr> \<or>
      sampleArrayState env arr now st = store_sample env row (st\<lparr>ss_calls := Suc (ss_calls st)\<rparr>)" for st
    by (simp add: sampleArrayState_def Let_def row_def split: sum.split metric_err.split)
  then have "set (db_metric_samples (ss_db (sampleArrayState env arr now st))) \<subseteq>
      set (db_metric_samples (ss_db st)) \<union> Collect (backed env now)" for st
    using row [unfolded writes_backed_def, rule_format, of "st\<lparr>ss_calls := Suc (ss_calls st)\<rparr>"]
    by (metis SamplerState.select_convs(1) SamplerState.surjective SamplerState.update_convs(2) Un_upper1)
  then show "writes_backed env now (sampleArrayState env arr now)" by (simp add: writes_backed_def)
  show "asks [] (sampleArrayState env arr now)"
    by (simp add: asks_def sampleArrayState_def Let_def store_sample_def split: sum.split metric_err.split)
qed

lemma capacity_writes:
  "sv_array env = Inr arr \<Longrightarrow> d \<in> set (Ar_Disks arr) \<Longrightarrow> writes_backed env now (sampleDiskCapacity env d now)"
  "sv_shares env = Inr shs \<Longrightarrow> s \<in> set shs \<Longrightarrow>
     writes_backed env now (recordCapacity env SeriesCapacityShare (Sh_Name s) (Sh_UsedBytes s) now)"
  "asks [] (recordCapacity env series subj v now)"
  by (auto simp: sampleDiskCapacity_def recordCapacity_def backed_def metric_to_row_def intro!: store_sample_writes store_sample_asks)

lemma gap_writes:
  assumes "series \<in> snd ` set smartAttrSeries" "sv_smart env dev = Inl e"
  shows "writes_backed env now (recordSMARTGap env series dev (readErr_Error e) now)"
  unfolding recordSMARTGap_def by (rule store_sample_writes) (use assms in \<open>simp add: backed_def metric_to_row_def\<close>)

lemma temperature_writes:
  assumes "sv_smart env dev = Inr attrs"
  shows "writes_backed env now (recordSMARTTemperature env attrs dev now)"
  using assms
  by (auto simp: recordSMARTTemperature_def recordSMARTGap_def backed_def metric_to_row_def no_temperature_def smart_value_def
      minPlausibleTempC_def maxPlausibleTempC_def float64_round_exact intro!: store_sample_writes split: option.split)

lemma attr_writes:
  assumes "sv_smart env dev = Inr attrs" "a \<in> set (SA_Attributes attrs)"
  shows "writes_backed env now (sample_attr env dev now a)"
proof (cases "At_ID a = smartTemperatureAttrID \<or> map_of smartAttrSeries (At_ID a) = None")
  case True
  then show ?thesis by (auto simp: writes_backed_def sample_attr_def)
next
  case False
  then obtain s where s: "map_of smartAttrSeries (At_ID a) = Some s" "At_ID a \<noteq> smartTemperatureAttrID" by auto
  then have "backed env now (metric_to_row \<lparr>MS_Series = s, MS_Subject = dev, MS_Value = Some (float64_round (At_RawValue a)),
      MS_TextValue = None, MS_OK = True, MS_Note = '''', MS_SampledAt = now\<rparr>)"
    using assms attr_series_not_temperature [OF s] by (auto simp: backed_def metric_to_row_def smart_value_def)
  then show ?thesis
    using s store_sample_writes by (simp add: writes_backed_def sample_attr_def)
qed

lemma asking_writes: "writes_backed env now f \<Longrightarrow> writes_backed env now (\<lambda>st. f (st\<lparr>ss_asked := ss_asked st @ ds\<rparr>))"
  by (force simp: writes_backed_def)

lemma smart_writes: "writes_backed env now (sampleSMART env d now)"
proof (cases "sv_smart env (Dk_Device d)")
  case (Inl e)
  have "writes_backed env now (fold (\<lambda>(_, series). recordSMARTGap env series (Dk_Device d) (readErr_Error e) now) smartAttrSeries)"
    by (rule writes_fold) (auto intro!: gap_writes Inl rev_image_eqI)
  then show ?thesis unfolding sampleSMART_def Let_def Inl sum.case by (rule asking_writes)
next
  case (Inr attrs)
  have "writes_backed env now (\<lambda>st. recordSMARTTemperature env attrs (Dk_Device d) now
      (fold (sample_attr env (Dk_Device d) now) (SA_Attributes attrs) st))"
    by (rule writes_comp [OF writes_fold temperature_writes]) (auto intro: attr_writes Inr)
  then show ?thesis unfolding sampleSMART_def Let_def Inr sum.case by (rule asking_writes)
qed

lemma smart_asks: "asks [Dk_Device d] (sampleSMART env d now)"
proof -
  have gaps: "asks [] (recordSMARTGap env s dev n now)" for s dev n
    by (simp add: recordSMARTGap_def store_sample_asks)
  have "asks (concat (map (\<lambda>_. []) xs)) (fold (\<lambda>(_, s). recordSMARTGap env s dev n now) xs)" for xs :: "(int \<times> string) list" and dev n
    by (rule asks_fold) (simp add: gaps split: prod.split)
  moreover have "asks (concat (map (\<lambda>_. []) xs)) (fold (sample_attr env dev now) xs)" for xs dev
    by (rule asks_fold) (simp add: asks_def sample_attr_def store_sample_def split: option.split)
  moreover have "asks [] (recordSMARTTemperature env attrs dev now)" for attrs dev
    by (simp add: recordSMARTTemperature_def gaps store_sample_asks split: option.split)
  ultimately show ?thesis
    by (simp add: asks_def sampleSMART_def Let_def split: sum.split)
qed

lemma prune_writes: "writes_backed env now (sample_prune env cutoff)" "asks [] (sample_prune env cutoff)"
  by (auto simp: writes_backed_def asks_def sample_prune_def PruneMetricSamples_def split: option.split)

text \<open>The devices one cycle asks.\<close>

definition cycle_devices :: "Source_reads \<Rightarrow> string list" where
  "cycle_devices env = (case sv_array env of Inl _ \<Rightarrow> [] | Inr arr \<Rightarrow> map Dk_Device (Ar_Disks arr))"

lemma id_writes: "writes_backed env now (\<lambda>st. st)" "asks [] (\<lambda>st. st)"
  by (simp_all add: writes_backed_def asks_def)

lemma sampleOnce_parts:
  "writes_backed env now (sampleOnce retention env now)" "asks (cycle_devices env) (sampleOnce retention env now)"
proof -
  define arr_part where "arr_part st = (case sv_array env of Inl _ \<Rightarrow> st | Inr arr \<Rightarrow>
    fold (\<lambda>d s. sampleSMART env d now (sampleDiskCapacity env d now s)) (Ar_Disks arr) (sampleArrayState env arr now st))" for st
  define share_part where "share_part st = (case sv_shares env of Inl _ \<Rightarrow> st | Inr shares \<Rightarrow>
    fold (\<lambda>sh. recordCapacity env SeriesCapacityShare (Sh_Name sh) (Sh_UsedBytes sh) now) shares st)" for st
  have once: "sampleOnce retention env now = (\<lambda>st. sample_prune env (now - retention) (share_part (arr_part st)))"
    by (rule ext) (simp add: sampleOnce_def arr_part_def share_part_def Let_def)
  have arr: "writes_backed env now arr_part \<and> asks (cycle_devices env) arr_part"
  proof (cases "sv_array env")
    case (Inl e)
    then show ?thesis by (simp add: arr_part_def [abs_def] cycle_devices_def id_writes)
  next
    case (Inr arr)
    have "asks ([] @ concat (map (\<lambda>d. [] @ [Dk_Device d]) (Ar_Disks arr))) arr_part"
      unfolding arr_part_def [abs_def] Inr sum.case sampleDiskCapacity_def
      by (rule asks_comp [OF array_state_writes(2) [OF Inr] asks_fold [OF asks_comp [OF capacity_writes(3) smart_asks]]])
    moreover have "concat (map (\<lambda>d. [] @ [Dk_Device d]) ds) = map Dk_Device ds" for ds by (induction ds) simp_all
    moreover have "writes_backed env now arr_part"
      unfolding arr_part_def [abs_def] Inr sum.case
      by (rule writes_comp [OF array_state_writes(1) [OF Inr] writes_fold [OF writes_comp [OF capacity_writes(1) [OF Inr] smart_writes]]])
    ultimately show ?thesis by (simp add: cycle_devices_def Inr)
  qed
  have share: "writes_backed env now share_part \<and> asks [] share_part"
  proof (cases "sv_shares env")
    case (Inl e)
    then show ?thesis by (simp add: share_part_def [abs_def] id_writes)
  next
    case (Inr shs)
    have "asks (concat (map (\<lambda>_. []) shs)) share_part"
      unfolding share_part_def [abs_def] Inr sum.case by (intro asks_fold capacity_writes)
    moreover have "writes_backed env now share_part"
      unfolding share_part_def [abs_def] Inr sum.case by (intro writes_fold capacity_writes(2) [OF Inr])
    moreover have "concat (map (\<lambda>_. []) shs) = ([] :: string list)" by (induction shs) simp_all
    ultimately show ?thesis by simp
  qed
  show "writes_backed env now (sampleOnce retention env now)"
    unfolding once by (rule writes_comp [OF writes_comp prune_writes(1)]) (use arr share in auto)
  have "asks ((cycle_devices env @ []) @ []) (sampleOnce retention env now)"
    unfolding once by (rule asks_comp [OF asks_comp prune_writes(2)]) (use arr share in auto)
  then show "asks (cycle_devices env) (sampleOnce retention env now)" by simp
qed


section \<open>Retention and the transition log\<close>

text \<open>
  The array state is logged when it differs from the last stored one, but the only row of a long
  unchanged state is pruned like any other: the next cycle writes the same state again, as if the
  array had just changed. Here the array stays \<open>STARTED\<close> through three cycles.
\<close>

definition idle_reads :: Source_reads where
  "idle_reads = \<lparr>sv_array = Inr \<lparr>Ar_State = ''STARTED'', Ar_ParityCheckActive = False, Ar_ParityCheckProgress = 0,
       Ar_ParityLastCheck = None, Ar_ParityLastErrors = 0, Ar_Source = SourceEmhttp, Ar_Disks = [], Ar_CollectedAt = 0\<rparr>,
     sv_shares = Inr [], sv_smart = (\<lambda>_. Inl (ReadFailed '''')), sv_io = (\<lambda>_. None)\<rparr>"

lemma array_log_repeats:
  "map (\<lambda>n. map mr_sampled_at (db_metric_samples (ss_db
       (sampler_Run 5000000 (take n [(idle_reads, 0), (idle_reads, 10000000), (idle_reads, 20000000)])
         \<lparr>ss_db = empty_DB, ss_calls = 0, ss_asked = []\<rparr>)))) [1, 2, 3] = [[0], [], [20]]"
  by code_simp

end
