(* ===== verification/Config.thy ===== *)
theory Config
  imports Core_Domain Golib
begin

text \<open>
  The typed configuration of \<open>internal/config\<close>: its blocks, \<open>resolveSecrets\<close>, \<open>validate\<close> with the
  \<open>resolve\<close> method of every block, and \<open>FileSource.Load\<close>. A method that fills in a block returns
  the filled block or the error. The YAML decoder and the file read are arguments of
  \<open>Load\<close>, the process environment is the lookup \<open>look\<close>, and \<open>url.Parse\<close> is the argument
  \<open>parse\<close>. The \<open>targets\<close> map is a list of pairs in the order the loop visits them. A Go error
  is its constant text, with the values it formats and the error it wraps.
\<close>

section \<open>Errors and blocks\<close>

datatype cfgErr =
    Msg string                    \<comment> \<open>\<open>errors.New\<close>\<close>
  | MsgOf string "string list"    \<comment> \<open>\<open>fmt.Errorf\<close> with quoted texts\<close>
  | MsgNum string int             \<comment> \<open>\<open>fmt.Errorf\<close> with a number or a duration\<close>
  | MsgDur durErr                 \<comment> \<open>the error of \<open>time.ParseDuration\<close>\<close>
  | MsgWrap string cfgErr         \<comment> \<open>\<open>fmt.Errorf("...: %w", err)\<close>\<close>

type_synonym 'a cfg = "cfgErr + 'a"

record HistoryConfig =
  Hi_WindowStr :: string
  Hi_window :: duration

record SSHConfig =
  SSH_Address :: string
  SSH_User :: string
  SSH_Password :: string
  SSH_KeyFile :: string
  SSH_HostKey :: string
  SSH_Timeout :: string
  SSH_probeTimeout :: duration

record HostConfig =
  Ho_Name :: string
  Ho_Address :: string
  Ho_PollInterval :: string
  Ho_Timeout :: string
  Ho_DebounceN :: int
  Ho_SSHMetrics :: bool
  Ho_poll :: duration
  Ho_probeTimeout :: duration

record TelegramConfig =
  Te_BotToken :: string
  Te_ChatID :: string

record ServiceConfig =
  Sv_Name :: string
  Sv_URL :: string
  Sv_TCPAddr :: string
  Sv_Container :: string
  Sv_PollInterval :: string
  Sv_Timeout :: string
  Sv_LatencyThreshold :: string
  Sv_DebounceN :: int
  Sv_poll :: duration
  Sv_probeTimeout :: duration
  Sv_threshold :: duration

record ReasonerConfig =
  Re_BaseURL :: string
  Re_Model :: string
  Re_APIKey :: string
  Re_Timeout :: duration
  Re_Cloud :: bool

record Ceilings =
  Ce_MaxToolCalls :: int
  Ce_WallClock :: duration

record HarnessConfig =
  Ha_Mode :: string
  Ha_Reasoner :: ReasonerConfig
  Ha_Ceilings :: Ceilings
  Ha_ApprovalTimeout :: duration
  Ha_Cooldown :: duration
  Ha_OutcomeWindow :: duration
  Ha_Targets :: "(string \<times> string) list"
  Ha_AllowRestart :: "string list"
  Ha_LogLines :: int
  Ha_WriteSSH :: "SSHConfig option"

record SamplerConfig =
  Sa_IntervalStr :: string
  Sa_RetentionStr :: string
  Sa_interval :: duration
  Sa_retention :: duration

record UnraidConfig =
  Un_GraphQLURL :: string
  Un_APIKey :: string
  Un_SmartctlPath :: string
  Un_DockerSocket :: string
  Un_TailscalePath :: string
  Un_HostProcPath :: string
  Un_GraphQLTimeoutStr :: string
  Un_EmhttpTimeoutStr :: string
  Un_SmartTimeoutStr :: string
  Un_DockerTimeoutStr :: string
  Un_ReachabilityTimeoutStr :: string
  Un_CPUSampleIntervalStr :: string
  Un_graphqlTimeout :: duration
  Un_emhttpTimeout :: duration
  Un_smartTimeout :: duration
  Un_dockerTimeout :: duration
  Un_reachabilityTimeout :: duration
  Un_cpuSampleInterval :: duration

record MCPConfig =
  MC_DashboardBaseURL :: string
  MC_AuthToken :: string

record ScriptsConfig =
  Sc_DryRunTimeoutStr :: string
  Sc_RunTimeoutStr :: string
  Sc_SessionGrantTTLStr :: string
  Sc_StandingGrantTTLStr :: string
  Sc_ProtectedPaths :: "string list"
  Sc_dryRunTimeout :: duration
  Sc_runTimeout :: duration
  Sc_sessionGrantTTL :: duration
  Sc_standingGrantTTL :: duration

record CommandsConfig =
  Co_AllowRestart :: "string list"
  Co_TimeoutStr :: string
  Co_timeout :: duration

record Config =
  C_SchemaVersion :: int
  C_HTTPAddr :: string
  C_DatabasePath :: string
  C_Services :: "ServiceConfig list"
  C_Telegram :: TelegramConfig
  C_Host :: "HostConfig option"
  C_SSH :: "SSHConfig option"
  C_History :: HistoryConfig
  C_Harness :: "HarnessConfig option"
  C_Sampler :: SamplerConfig
  C_Unraid :: "UnraidConfig option"
  C_MCP :: MCPConfig
  C_Scripts :: ScriptsConfig
  C_Commands :: CommandsConfig

definition SupportedSchemaVersion :: int where
  "SupportedSchemaVersion = 1"

definition Configured :: "TelegramConfig \<Rightarrow> bool" where
  "Configured t \<longleftrightarrow> Te_BotToken t \<noteq> '''' \<and> Te_ChatID t \<noteq> ''''"

definition ProtectedFSPaths :: "ScriptsConfig \<Rightarrow> string list" where
  "ProtectedFSPaths s = (if length (Sc_ProtectedPaths s) = 0 then [''/boot''] else Sc_ProtectedPaths s)"

section \<open>Secrets\<close>

text \<open>
  \<open>secretResolver\<close>: the state is the set of missing names, here the list of the names in the order
  they were met; the error lists them sorted and without repetition.
\<close>

definition r_expand :: "(string \<Rightarrow> string option) \<Rightarrow> string \<Rightarrow> (string list, string) state" where
  "r_expand look s = State (\<lambda>missing. case os_Expand look s of (out, m) \<Rightarrow> (out, missing @ m))"

definition resolver_err :: "string list \<Rightarrow> cfgErr option" where
  "resolver_err missing =
     (if missing = [] then None
      else Some (MsgOf ''config references unset environment variables'' (sort_Strings (remdups missing))))"

fun expand_services :: "(string \<Rightarrow> string option) \<Rightarrow> ServiceConfig list \<Rightarrow> (string list, ServiceConfig list) state" where
  "expand_services look [] = State_Monad.return []"
| "expand_services look (s # ss) = do {
     url \<leftarrow> r_expand look (Sv_URL s);
     tcp \<leftarrow> r_expand look (Sv_TCPAddr s);
     cont \<leftarrow> r_expand look (Sv_Container s);
     rest \<leftarrow> expand_services look ss;
     State_Monad.return (s\<lparr>Sv_URL := url, Sv_TCPAddr := tcp, Sv_Container := cont\<rparr> # rest) }"

definition expand_ssh :: "(string \<Rightarrow> string option) \<Rightarrow> SSHConfig \<Rightarrow> (string list, SSHConfig) state" where
  "expand_ssh look s = do {
     addr \<leftarrow> r_expand look (SSH_Address s);
     user \<leftarrow> r_expand look (SSH_User s);
     pass \<leftarrow> r_expand look (SSH_Password s);
     key \<leftarrow> r_expand look (SSH_KeyFile s);
     State_Monad.return (s\<lparr>SSH_Address := addr, SSH_User := user, SSH_Password := pass, SSH_KeyFile := key\<rparr>) }"

definition expand_unraid :: "(string \<Rightarrow> string option) \<Rightarrow> UnraidConfig \<Rightarrow> (string list, UnraidConfig) state" where
  "expand_unraid look u = do {
     gql \<leftarrow> r_expand look (Un_GraphQLURL u);
     key \<leftarrow> r_expand look (Un_APIKey u);
     smart \<leftarrow> r_expand look (Un_SmartctlPath u);
     dock \<leftarrow> r_expand look (Un_DockerSocket u);
     tail \<leftarrow> r_expand look (Un_TailscalePath u);
     State_Monad.return (u\<lparr>Un_GraphQLURL := gql, Un_APIKey := key, Un_SmartctlPath := smart, Un_DockerSocket := dock,
       Un_TailscalePath := tail\<rparr>) }"

text \<open>\<open>if p != nil { ... }\<close> around a block.\<close>

definition when_set :: "('a \<Rightarrow> ('s, 'a) state) \<Rightarrow> 'a option \<Rightarrow> ('s, 'a option) state" where
  "when_set f p = (case p of None \<Rightarrow> State_Monad.return None
     | Some x \<Rightarrow> do { y \<leftarrow> f x; State_Monad.return (Some y) })"

definition expand_harness :: "(string \<Rightarrow> string option) \<Rightarrow> HarnessConfig \<Rightarrow> (string list, HarnessConfig) state" where
  "expand_harness look h = do {
     key \<leftarrow> r_expand look (Re_APIKey (Ha_Reasoner h));
     w \<leftarrow> when_set (expand_ssh look) (Ha_WriteSSH h);
     State_Monad.return (h\<lparr>Ha_Reasoner := (Ha_Reasoner h)\<lparr>Re_APIKey := key\<rparr>, Ha_WriteSSH := w\<rparr>) }"

definition expand_host :: "(string \<Rightarrow> string option) \<Rightarrow> HostConfig \<Rightarrow> (string list, HostConfig) state" where
  "expand_host look h = do {
     addr \<leftarrow> r_expand look (Ho_Address h);
     State_Monad.return (h\<lparr>Ho_Address := addr\<rparr>) }"

definition expand_config :: "(string \<Rightarrow> string option) \<Rightarrow> Config \<Rightarrow> (string list, Config) state" where
  "expand_config look c = do {
     http \<leftarrow> r_expand look (C_HTTPAddr c);
     path \<leftarrow> r_expand look (C_DatabasePath c);
     svcs \<leftarrow> expand_services look (C_Services c);
     tok \<leftarrow> r_expand look (Te_BotToken (C_Telegram c));
     chat \<leftarrow> r_expand look (Te_ChatID (C_Telegram c));
     auth \<leftarrow> r_expand look (MC_AuthToken (C_MCP c));
     un \<leftarrow> when_set (expand_unraid look) (C_Unraid c);
     host \<leftarrow> when_set (expand_host look) (C_Host c);
     ssh \<leftarrow> when_set (expand_ssh look) (C_SSH c);
     har \<leftarrow> when_set (expand_harness look) (C_Harness c);
     State_Monad.return (c\<lparr>C_HTTPAddr := http, C_DatabasePath := path, C_Services := svcs,
       C_Telegram := (C_Telegram c)\<lparr>Te_BotToken := tok, Te_ChatID := chat\<rparr>,
       C_MCP := (C_MCP c)\<lparr>MC_AuthToken := auth\<rparr>, C_Unraid := un, C_Host := host, C_SSH := ssh,
       C_Harness := har\<rparr>) }"

definition resolveSecrets :: "(string \<Rightarrow> string option) \<Rightarrow> Config \<Rightarrow> Config cfg" where
  "resolveSecrets look c =
     (case run_state (expand_config look c) [] of (c', missing) \<Rightarrow>
        case resolver_err missing of Some e \<Rightarrow> Inl e | None \<Rightarrow> Inr c')"

section \<open>The blocks' resolve methods\<close>

definition parseDurationDefault :: "string \<Rightarrow> duration \<Rightarrow> duration cfg" where
  "parseDurationDefault v def =
     (if v = '''' then Inr def
      else res_bind (res_wrap MsgDur (ParseDuration v)) (\<lambda>d.
        if d \<le> 0 then Inl (MsgOf ''must be positive, got'' [v]) else Inr d))"

definition strings_ContainsAny :: "string \<Rightarrow> string \<Rightarrow> bool" where
  "strings_ContainsAny s chars \<longleftrightarrow> list_ex (\<lambda>c. c \<in> set chars) s"

definition unsafeNameChars :: string where
  "unsafeNameChars = [CHR '','', CHR 0x0A, CHR 0x0D, CHR 0x22, CHR ''<'', CHR ''>'']"

definition checkDashboardSafeName :: "string \<Rightarrow> unit cfg" where
  "checkDashboardSafeName name =
     (if strings_ContainsAny name unsafeNameChars
      then Inl (MsgOf ''name: contains characters unsafe for dashboard wiring'' [name]) else Inr ())"

definition Service_resolve :: "ServiceConfig \<Rightarrow> ServiceConfig cfg" where
  "Service_resolve s =
     (if Sv_Name s = '''' then Inl (Msg ''name is required'')
      else res_bind (checkDashboardSafeName (Sv_Name s)) (\<lambda>_.
      if length (filter id [Sv_URL s \<noteq> '''', Sv_TCPAddr s \<noteq> '''', Sv_Container s \<noteq> '''']) \<noteq> 1
      then Inl (Msg ''exactly one of url, tcp or container is required'')
      else res_bind (res_wrap (MsgWrap ''poll_interval'') (parseDurationDefault (Sv_PollInterval s) (30 * nsSecond))) (\<lambda>poll.
      res_bind (res_wrap (MsgWrap ''timeout'') (parseDurationDefault (Sv_Timeout s) (10 * nsSecond))) (\<lambda>timeout.
      res_bind (res_wrap (MsgWrap ''latency_threshold'') (parseDurationDefault (Sv_LatencyThreshold s) (1 * nsSecond))) (\<lambda>threshold.
      let n = (if Sv_DebounceN s = 0 then 3 else Sv_DebounceN s) in
      if n < 1 then Inl (MsgNum ''debounce_n must be >= 1, got'' n)
      else Inr (s\<lparr>Sv_DebounceN := n, Sv_poll := poll, Sv_probeTimeout := timeout, Sv_threshold := threshold\<rparr>))))))"

definition SSH_resolve :: "SSHConfig \<Rightarrow> SSHConfig cfg" where
  "SSH_resolve s =
     (if SSH_Address s = '''' then Inl (Msg ''ssh: address is required'')
      else if SSH_User s = '''' then Inl (Msg ''ssh: user is required'')
      else if SSH_Password s = '''' \<and> SSH_KeyFile s = '''' then Inl (Msg ''ssh: password or key_file is required'')
      else res_bind (res_wrap (MsgWrap ''ssh timeout'') (parseDurationDefault (SSH_Timeout s) (10 * nsSecond))) (\<lambda>t.
      Inr (s\<lparr>SSH_probeTimeout := t\<rparr>)))"

definition Host_resolve :: "HostConfig \<Rightarrow> HostConfig cfg" where
  "Host_resolve h =
     (if Ho_Name h = '''' then Inl (Msg ''host: name is required'')
      else res_bind (res_wrap (MsgWrap ''host'') (checkDashboardSafeName (Ho_Name h))) (\<lambda>_.
      if Ho_Address h = '''' then Inl (Msg ''host: address is required'')
      else res_bind (res_wrap (MsgWrap ''host poll_interval'') (parseDurationDefault (Ho_PollInterval h) (30 * nsSecond))) (\<lambda>poll.
      res_bind (res_wrap (MsgWrap ''host timeout'') (parseDurationDefault (Ho_Timeout h) (5 * nsSecond))) (\<lambda>timeout.
      let n = (if Ho_DebounceN h = 0 then 3 else Ho_DebounceN h) in
      if n < 1 then Inl (MsgNum ''host debounce_n must be >= 1, got'' n)
      else Inr (h\<lparr>Ho_DebounceN := n, Ho_poll := poll, Ho_probeTimeout := timeout\<rparr>)))))"

text \<open>\<open>containerNameRe\<close> is \<open>^[A-Za-z0-9_.-]+$\<close>; Go's \<open>$\<close> without the multi-line flag is the end of the text.\<close>

definition containerNameRe :: "string \<Rightarrow> bool" where
  "containerNameRe s \<longleftrightarrow> s \<noteq> [] \<and> list_all (\<lambda>c. isAlphaNum c \<or> c = CHR ''.'' \<or> c = CHR ''-'') s"

definition isLoopbackHost :: "string \<Rightarrow> bool" where
  "isLoopbackHost host \<longleftrightarrow> host = ''127.0.0.1'' \<or> host = ''::1'' \<or> host = ''localhost''"

text \<open>The fields of a parsed URL that are used, and \<open>URL.Hostname\<close>, which strips the port and the brackets.\<close>

record URL =
  URL_Scheme :: string
  URL_Host :: string

definition valid_port :: "string \<Rightarrow> bool" where
  "valid_port p \<longleftrightarrow> p = [] \<or> (hd p = CHR '':'' \<and> list_all is_digit (tl p))"

text \<open>\<open>stripPort\<close> and \<open>splitHostPort\<close> of \<open>net/url\<close>: cut at the last colon when a valid port follows it.\<close>

definition Hostname :: "URL \<Rightarrow> string" where
  "Hostname u =
     (let h = URL_Host u;
          port = CHR '':'' # rev (takeWhile (\<lambda>c. c \<noteq> CHR '':'') (rev h));
          before = rev (tl (dropWhile (\<lambda>c. c \<noteq> CHR '':'') (rev h)));
          host = (if CHR '':'' \<in> set h \<and> valid_port port then before else h) in
      if host \<noteq> [] \<and> hd host = CHR ''['' \<and> last host = CHR '']'' then butlast (tl host) else host)"

definition or_default :: "int \<Rightarrow> int \<Rightarrow> int" where
  "or_default v def = (if v = 0 then def else v)"

text \<open>The defaults, written back into the block before anything is checked.\<close>

definition harness_defaults :: "HarnessConfig \<Rightarrow> HarnessConfig" where
  "harness_defaults h = h\<lparr>
     Ha_Reasoner := (Ha_Reasoner h)\<lparr>Re_Timeout := or_default (Re_Timeout (Ha_Reasoner h)) (60 * nsSecond)\<rparr>,
     Ha_Ceilings := \<lparr>Ce_MaxToolCalls = or_default (Ce_MaxToolCalls (Ha_Ceilings h)) 4,
                     Ce_WallClock = or_default (Ce_WallClock (Ha_Ceilings h)) (120 * nsSecond)\<rparr>,
     Ha_ApprovalTimeout := or_default (Ha_ApprovalTimeout h) (10 * nsMinute),
     Ha_Cooldown := or_default (Ha_Cooldown h) (15 * nsMinute),
     Ha_OutcomeWindow := or_default (Ha_OutcomeWindow h) (3 * nsMinute),
     Ha_LogLines := or_default (Ha_LogLines h) 50\<rparr>"

fun check_targets :: "string list \<Rightarrow> (string \<times> string) list \<Rightarrow> unit cfg" where
  "check_targets names [] = Inr ()"
| "check_targets names ((svc, container) # ts) =
     (if svc \<notin> set names then Inl (MsgOf ''harness: targets key does not name a configured service'' [svc])
      else if \<not> containerNameRe container then Inl (MsgOf ''harness: targets value has invalid characters'' [svc, container])
      else check_targets names ts)"

fun check_allow :: "string list \<Rightarrow> unit cfg" where
  "check_allow [] = Inr ()"
| "check_allow (name # ns) =
     (if \<not> containerNameRe name then Inl (MsgOf ''harness: allow_restart entry has invalid characters'' [name])
      else check_allow ns)"

fun check_narrow :: "string list \<Rightarrow> (string \<times> string) list \<Rightarrow> unit cfg" where
  "check_narrow allowed [] = Inr ()"
| "check_narrow allowed ((svc, container) # ts) =
     (if container \<notin> set allowed then Inl (MsgOf ''harness: live mode target is not in allow_restart'' [svc, container])
      else check_narrow allowed ts)"

text \<open>The checks that hold in every mode.\<close>

definition check_knobs :: "HarnessConfig \<Rightarrow> unit cfg" where
  "check_knobs h =
     (if Ce_MaxToolCalls (Ha_Ceilings h) < 1 \<or> Ce_MaxToolCalls (Ha_Ceilings h) > 20
      then Inl (MsgNum ''harness: ceilings.max_tool_calls must be 1..20, got'' (Ce_MaxToolCalls (Ha_Ceilings h)))
      else if Ha_LogLines h < 1 \<or> Ha_LogLines h > 200
      then Inl (MsgNum ''harness: log_lines must be 1..200, got'' (Ha_LogLines h))
      else if Ce_WallClock (Ha_Ceilings h) \<le> 0
      then Inl (MsgNum ''harness: ceilings.wall_clock must be positive, got'' (Ce_WallClock (Ha_Ceilings h)))
      else if Ha_ApprovalTimeout h \<le> 0
      then Inl (MsgNum ''harness: approval_timeout must be positive, got'' (Ha_ApprovalTimeout h))
      else if Ha_Cooldown h \<le> 0 then Inl (MsgNum ''harness: cooldown must be positive, got'' (Ha_Cooldown h))
      else if Ha_OutcomeWindow h \<le> 0
      then Inl (MsgNum ''harness: outcome_window must be positive, got'' (Ha_OutcomeWindow h))
      else if Re_Timeout (Ha_Reasoner h) \<le> 0
      then Inl (MsgNum ''harness: reasoner.timeout must be positive, got'' (Re_Timeout (Ha_Reasoner h)))
      else Inr ())"

text \<open>The checks on the reasoner when the mode is not off: the egress gate.\<close>

definition check_reasoner :: "(string \<Rightarrow> string + URL) \<Rightarrow> ReasonerConfig \<Rightarrow> unit cfg" where
  "check_reasoner parse r =
     (if Re_BaseURL r = '''' then Inl (Msg ''harness: reasoner.base_url is required when mode is not off'')
      else if Re_Model r = '''' then Inl (Msg ''harness: reasoner.model is required when mode is not off'')
      else (case parse (Re_BaseURL r) of
          Inl _ \<Rightarrow> Inl (MsgOf ''harness: reasoner.base_url must be an absolute http(s) URL, got'' [Re_BaseURL r])
        | Inr u \<Rightarrow>
            if URL_Scheme u = '''' \<or> URL_Host u = '''' \<or> (URL_Scheme u \<noteq> ''http'' \<and> URL_Scheme u \<noteq> ''https'')
            then Inl (MsgOf ''harness: reasoner.base_url must be an absolute http(s) URL, got'' [Re_BaseURL r])
            else if isLoopbackHost (Hostname u) \<and> Re_Cloud r
            then Inl (Msg ''harness: reasoner.cloud must be false for a loopback base_url (ADR 0013 egress gate)'')
            else if \<not> isLoopbackHost (Hostname u) \<and> \<not> Re_Cloud r
            then Inl (Msg ''harness: reasoner.base_url resolves off-box, which requires cloud: true (ADR 0013 egress gate)'')
            else Inr ()))"

text \<open>The checks of live mode; they resolve the write credential.\<close>

definition check_live :: "SSHConfig option \<Rightarrow> HarnessConfig \<Rightarrow> HarnessConfig cfg" where
  "check_live readSSH h =
     res_bind (check_narrow (Ha_AllowRestart h) (Ha_Targets h)) (\<lambda>_.
       case Ha_WriteSSH h of
         None \<Rightarrow> Inl (Msg ''harness: write_ssh is required in live mode'')
       | Some w \<Rightarrow>
           res_bind (res_wrap (MsgWrap ''harness: write_ssh'') (SSH_resolve w)) (\<lambda>w'.
             case readSSH of
               Some r \<Rightarrow>
                 if SSH_User w' = SSH_User r \<and> SSH_KeyFile w' = SSH_KeyFile r \<and> SSH_Password w' = SSH_Password r
                 then Inl (Msg ''harness: write_ssh must be a distinct credential from ssh:'')
                 else Inr (h\<lparr>Ha_WriteSSH := Some w'\<rparr>)
             | None \<Rightarrow> Inr (h\<lparr>Ha_WriteSSH := Some w'\<rparr>)))"

definition Harness_resolve :: "(string \<Rightarrow> string + URL) \<Rightarrow> string list \<Rightarrow> SSHConfig option \<Rightarrow> HarnessConfig \<Rightarrow> HarnessConfig cfg" where
  "Harness_resolve parse serviceNames readSSH h0 =
     res_bind (res_wrap (\<lambda>e. MsgWrap ''harness'' (Msg e)) (ParseHarnessMode (Ha_Mode h0))) (\<lambda>mode.
       let h = harness_defaults h0 in
       res_bind (check_knobs h) (\<lambda>_.
       res_bind (check_targets serviceNames (Ha_Targets h)) (\<lambda>_.
       res_bind (check_allow (Ha_AllowRestart h)) (\<lambda>_.
       if mode = HarnessOff then Inr h
       else res_bind (check_reasoner parse (Ha_Reasoner h)) (\<lambda>_.
         if mode \<noteq> HarnessLive then Inr h else check_live readSSH h)))))"

definition Sampler_resolve :: "SamplerConfig \<Rightarrow> SamplerConfig cfg" where
  "Sampler_resolve s =
     res_bind (res_wrap (MsgWrap ''sampler interval'') (parseDurationDefault (Sa_IntervalStr s) (15 * nsMinute))) (\<lambda>i.
     res_bind (res_wrap (MsgWrap ''sampler retention'') (parseDurationDefault (Sa_RetentionStr s) (90 * 24 * nsHour))) (\<lambda>r.
     Inr (s\<lparr>Sa_interval := i, Sa_retention := r\<rparr>)))"

definition str_default :: "string \<Rightarrow> string \<Rightarrow> string" where
  "str_default s def = (if s = '''' then def else s)"

definition Unraid_resolve :: "UnraidConfig \<Rightarrow> UnraidConfig cfg" where
  "Unraid_resolve u =
     (let v = u\<lparr>Un_GraphQLURL := str_default (Un_GraphQLURL u) ''http://127.0.0.1/graphql'',
                Un_SmartctlPath := str_default (Un_SmartctlPath u) ''smartctl'',
                Un_DockerSocket := str_default (Un_DockerSocket u) ''/var/run/docker.sock'',
                Un_TailscalePath := str_default (Un_TailscalePath u) ''tailscale'',
                Un_HostProcPath := str_default (Un_HostProcPath u) ''/host/proc''\<rparr> in
      res_bind (res_wrap (MsgWrap ''unraid graphql_timeout'') (parseDurationDefault (Un_GraphQLTimeoutStr u) (10 * nsSecond))) (\<lambda>g.
      res_bind (res_wrap (MsgWrap ''unraid emhttp_timeout'') (parseDurationDefault (Un_EmhttpTimeoutStr u) (2 * nsSecond))) (\<lambda>e.
      res_bind (res_wrap (MsgWrap ''unraid smart_timeout'') (parseDurationDefault (Un_SmartTimeoutStr u) (15 * nsSecond))) (\<lambda>s.
      res_bind (res_wrap (MsgWrap ''unraid docker_timeout'') (parseDurationDefault (Un_DockerTimeoutStr u) (5 * nsSecond))) (\<lambda>d.
      res_bind (res_wrap (MsgWrap ''unraid reachability_timeout'') (parseDurationDefault (Un_ReachabilityTimeoutStr u) (5 * nsSecond))) (\<lambda>r.
      res_bind (res_wrap (MsgWrap ''unraid cpu_sample_interval'') (parseDurationDefault (Un_CPUSampleIntervalStr u) (250 * nsMillisecond))) (\<lambda>i.
      Inr (v\<lparr>Un_graphqlTimeout := g, Un_emhttpTimeout := e, Un_smartTimeout := s, Un_dockerTimeout := d,
             Un_reachabilityTimeout := r, Un_cpuSampleInterval := i\<rparr>))))))))"

definition Scripts_resolve :: "ScriptsConfig \<Rightarrow> ScriptsConfig cfg" where
  "Scripts_resolve s =
     res_bind (res_wrap (MsgWrap ''scripts.dry_run_timeout'') (parseDurationDefault (Sc_DryRunTimeoutStr s) (15 * nsSecond))) (\<lambda>d.
     res_bind (res_wrap (MsgWrap ''scripts.run_timeout'') (parseDurationDefault (Sc_RunTimeoutStr s) (5 * nsMinute))) (\<lambda>r.
     res_bind (res_wrap (MsgWrap ''scripts.session_grant_ttl'') (parseDurationDefault (Sc_SessionGrantTTLStr s) (4 * nsHour))) (\<lambda>a.
     res_bind (res_wrap (MsgWrap ''scripts.standing_grant_ttl'') (parseDurationDefault (Sc_StandingGrantTTLStr s) (90 * 24 * nsHour))) (\<lambda>b.
     Inr (s\<lparr>Sc_dryRunTimeout := d, Sc_runTimeout := r, Sc_sessionGrantTTL := a, Sc_standingGrantTTL := b\<rparr>)))))"

fun dedup_loop :: "string list \<Rightarrow> string list \<Rightarrow> string list \<Rightarrow> string list cfg" where
  "dedup_loop seen deduped [] = Inr deduped"
| "dedup_loop seen deduped (name # ns) =
     (if \<not> containerNameRe name then Inl (MsgOf ''commands.allow_restart: invalid container name'' [name])
      else if name \<in> set seen then dedup_loop seen deduped ns
      else dedup_loop (name # seen) (deduped @ [name]) ns)"

definition Commands_resolve :: "CommandsConfig \<Rightarrow> CommandsConfig cfg" where
  "Commands_resolve c =
     res_bind (res_wrap (MsgWrap ''commands.timeout'') (parseDurationDefault (Co_TimeoutStr c) (30 * nsSecond))) (\<lambda>t.
     res_bind (dedup_loop [] [] (Co_AllowRestart c)) (\<lambda>deduped.
     Inr (c\<lparr>Co_AllowRestart := deduped, Co_timeout := t\<rparr>)))"

section \<open>validate and Load\<close>

text \<open>\<open>if p != nil { p.resolve() }\<close>.\<close>

definition resolve_set :: "('a \<Rightarrow> 'a cfg) \<Rightarrow> 'a option \<Rightarrow> 'a option cfg" where
  "resolve_set f p = (case p of None \<Rightarrow> Inr None | Some x \<Rightarrow> res_bind (f x) (\<lambda>y. Inr (Some y)))"

text \<open>The loop over the Services; \<open>seen\<close> is the set of their names so far.\<close>

fun services_loop :: "bool \<Rightarrow> string list \<Rightarrow> ServiceConfig list \<Rightarrow> (ServiceConfig list \<times> string list) cfg" where
  "services_loop has_ssh seen [] = Inr ([], seen)"
| "services_loop has_ssh seen (s # ss) =
     res_bind (res_wrap (MsgWrap (''service '' @ go_quote (Sv_Name s))) (Service_resolve s)) (\<lambda>s'.
     if Sv_Container s' \<noteq> '''' \<and> \<not> has_ssh
     then Inl (MsgOf ''service: container probe requires an ssh block'' [Sv_Name s'])
     else if Sv_Name s' \<in> set seen then Inl (MsgOf ''duplicate service name'' [Sv_Name s'])
     else res_bind (services_loop has_ssh (Sv_Name s' # seen) ss) (\<lambda>(rest, seen').
     Inr (s' # rest, seen')))"

definition empty_Harness :: HarnessConfig where
  "empty_Harness = \<lparr>Ha_Mode = '''',
     Ha_Reasoner = \<lparr>Re_BaseURL = '''', Re_Model = '''', Re_APIKey = '''', Re_Timeout = 0, Re_Cloud = False\<rparr>,
     Ha_Ceilings = \<lparr>Ce_MaxToolCalls = 0, Ce_WallClock = 0\<rparr>, Ha_ApprovalTimeout = 0, Ha_Cooldown = 0,
     Ha_OutcomeWindow = 0, Ha_Targets = [], Ha_AllowRestart = [], Ha_LogLines = 0, Ha_WriteSSH = None\<rparr>"

definition check_host :: "string list \<Rightarrow> bool \<Rightarrow> HostConfig \<Rightarrow> HostConfig cfg" where
  "check_host seen has_ssh h0 =
     res_bind (Host_resolve h0) (\<lambda>h.
     if Ho_Name h \<in> set seen then Inl (MsgOf ''host name collides with a service of the same name'' [Ho_Name h])
     else if Ho_SSHMetrics h \<and> \<not> has_ssh then Inl (Msg ''host ssh_metrics requires an ssh block'')
     else Inr h)"

definition resolve_history :: "HistoryConfig \<Rightarrow> HistoryConfig cfg" where
  "resolve_history h =
     (if Hi_WindowStr h = '''' then Inr (h\<lparr>Hi_window := 24 * nsHour\<rparr>)
      else res_bind (res_wrap (\<lambda>e. MsgWrap ''history window'' (MsgDur e)) (ParseDuration (Hi_WindowStr h))) (\<lambda>d.
        if d < 0 then Inl (MsgOf ''history window: must not be negative, got'' [Hi_WindowStr h])
        else Inr (h\<lparr>Hi_window := d\<rparr>)))"

definition validate :: "(string \<Rightarrow> string + URL) \<Rightarrow> Config \<Rightarrow> Config cfg" where
  "validate parse c =
     (if C_SchemaVersion c = 0 then Inl (Msg ''schema_version is required'')
      else if C_SchemaVersion c \<noteq> SupportedSchemaVersion
      then Inl (MsgNum ''unsupported schema_version'' (C_SchemaVersion c))
      else
      res_bind (resolve_set SSH_resolve (C_SSH c)) (\<lambda>ssh.
      res_bind (services_loop (ssh \<noteq> None) [] (C_Services c)) (\<lambda>(svcs, seen).
      res_bind (Harness_resolve parse seen ssh (case C_Harness c of None \<Rightarrow> empty_Harness | Some h \<Rightarrow> h)) (\<lambda>har.
      res_bind (resolve_set (check_host seen (ssh \<noteq> None)) (C_Host c)) (\<lambda>host.
      if (Te_BotToken (C_Telegram c) = '''') \<noteq> (Te_ChatID (C_Telegram c) = '''')
      then Inl (Msg ''telegram: bot_token and chat_id must both be set or both omitted'')
      else res_bind (resolve_history (C_History c)) (\<lambda>hist.
      res_bind (Sampler_resolve (C_Sampler c)) (\<lambda>samp.
      res_bind (resolve_set Unraid_resolve (C_Unraid c)) (\<lambda>un.
      res_bind (Scripts_resolve (C_Scripts c)) (\<lambda>scr.
      res_bind (Commands_resolve (C_Commands c)) (\<lambda>com.
      Inr (c\<lparr>C_HTTPAddr := str_default (C_HTTPAddr c) '':8080'',
             C_DatabasePath := str_default (C_DatabasePath c) ''server-assistant.db'',
             C_SSH := ssh, C_Services := svcs, C_Harness := Some har, C_Host := host, C_History := hist,
             C_Sampler := samp, C_Unraid := un, C_Scripts := scr, C_Commands := com\<rparr>)))))))))))"

definition Load ::
  "(string \<Rightarrow> string + URL) \<Rightarrow> (string \<Rightarrow> string option) \<Rightarrow> (string \<Rightarrow> string + Config) \<Rightarrow> string \<Rightarrow> string + string \<Rightarrow> Config cfg" where
  "Load parse look unmarshal path file_read =
     res_bind (res_wrap (\<lambda>e. MsgWrap (''read config '' @ path) (Msg e)) file_read) (\<lambda>raw.
     res_bind (res_wrap (\<lambda>e. MsgWrap (''parse config '' @ path) (Msg e)) (unmarshal raw)) (\<lambda>c.
     res_bind (res_wrap (MsgWrap (''invalid config '' @ path)) (resolveSecrets look c)) (\<lambda>c1.
     res_wrap (MsgWrap (''invalid config '' @ path)) (validate parse c1))))"

end
