(* ===== verification/Bridge.thy ===== *)
theory Bridge
  imports Scripts_Props Mcp Sampler Config
begin

text \<open>
  The composition of the script registry with its two clients (\<open>cmd/server-assistant/scripts_wiring.go\<close>):
  \<open>proposalBridge\<close> as the dashboard's proposal source (\<open>internal/web/proposals.go\<close>) and as the sink of the
  MCP endpoint, the two script tools that the composition root registers, the precondition checker, the
  executor it builds (\<open>main.go\<close>) and the trend adapter of the sampler (\<open>internal/sampler/mcp_adapter.go\<close>).
  A request of either client is a step on the registry's world; the theorem at the end says what any
  sequence of such steps can do to a proposal.
\<close>

section \<open>Errors as text\<close>

fun regErr_Error :: "regErr \<Rightarrow> string" where
  "regErr_Error (ErrInvalidTransition s t) =
     ''scripts: invalid proposal state transition: '' @ state_name s @ '' -> '' @ state_name t"
| "regErr_Error (ErrDryRunRequired s) =
     ''scripts: a script with no working dry run cannot be approved: proposal is '' @ state_name s @ '', not awaiting_approval''"
| "regErr_Error ErrGrantExpired = ''scripts: grant expired''"
| "regErr_Error ErrGrantRevoked = ''scripts: grant revoked''"
| "regErr_Error ErrGrantNotApproved = ''scripts: no approved proposal exists for this script hash''"
| "regErr_Error (ErrPreconditionFailed e) = ''scripts: preconditions no longer hold: '' @ e"
| "regErr_Error ErrProposalNotFound = ''scripts: proposal not found''"
| "regErr_Error ErrScriptNotFound = ''scripts: script not found''"
| "regErr_Error ErrGrantNotFound = ''scripts: grant not found''"
| "regErr_Error ErrIdenticalEdit = ''scripts: edit produced an identical script; nothing to do''"
| "regErr_Error ErrSessionRequired = ''scripts: session grant requires a sessionID''"
| "regErr_Error (ErrDriver e) = e"
| "regErr_Error (ErrSandbox e) = sbErr_Error e"
| "regErr_Error (ErrWrap m e) = m @ '': '' @ regErr_Error e"

section \<open>The bridge\<close>

definition scriptBody :: "Env \<Rightarrow> string \<Rightarrow> World \<Rightarrow> string \<times> World" where
  "scriptBody env hash w = (case GetScript env hash w of (Inl _, w') \<Rightarrow> ('''', w') | (Inr s, w') \<Rightarrow> (SC_Body s, w'))"

definition transcriptText :: "Proposal \<Rightarrow> string" where
  "transcriptText p =
     (let s = concat (map (\<lambda>e. ''['' @ TE_Kind e @ ''] '' @ TE_Raw e @ [CHR 0x0A]) (P_Transcript p)) @
              concat (map (\<lambda>r. ''REJECTED: '' @ r @ [CHR 0x0A]) (P_RejectReasons p)) @
              concat (map (\<lambda>m. ''WARNING: '' @ m @ [CHR 0x0A]) (P_Warnings p)) in
      if s = [] then ''(no dry-run output recorded)'' else s)"

definition shortHash :: "string \<Rightarrow> string" where
  "shortHash h = (if length h > 12 then take 12 h else h)"

definition decisionOf :: "ProposalState \<Rightarrow> string" where
  "decisionOf s = (case s of StateApproved \<Rightarrow> ''approved'' | StateDenied \<Rightarrow> ''denied'' | _ \<Rightarrow> ''pending'')"

record web_Proposal =
  WP_ID :: string
  WP_Title :: string
  WP_Script :: string
  WP_DryRunOutput :: string
  WP_RequestedBy :: string
  WP_RequestedAt :: gotime
  WP_Decision :: string
  WP_DecidedBy :: string
  WP_DecidedAt :: gotime

definition toWeb :: "Env \<Rightarrow> Proposal \<Rightarrow> World \<Rightarrow> web_Proposal \<times> World" where
  "toWeb env p w =
     (let (body, w') = scriptBody env (P_ScriptHash p) w in
      (\<lparr>WP_ID = P_ID p, WP_Title = ''script '' @ shortHash (P_ScriptHash p), WP_Script = body,
        WP_DryRunOutput = transcriptText p, WP_RequestedBy = ''mcp'', WP_RequestedAt = P_CreatedAt p,
        WP_Decision = decisionOf (P_State p),
        WP_DecidedBy = (case P_State p of StateApproved \<Rightarrow> P_ApprovedBy p | StateDenied \<Rightarrow> P_DeniedBy p | _ \<Rightarrow> ''''),
        WP_DecidedAt = (case P_State p of StateApproved \<Rightarrow> P_ApprovedAt p | StateDenied \<Rightarrow> P_DeniedAt p | _ \<Rightarrow> zero_time)\<rparr>, w'))"

fun toWeb_all :: "Env \<Rightarrow> Proposal list \<Rightarrow> World \<Rightarrow> web_Proposal list \<times> World" where
  "toWeb_all env [] w = ([], w)"
| "toWeb_all env (p # ps) w =
     (let (x, w1) = toWeb env p w; (xs, w2) = toWeb_all env ps w1 in (x # xs, w2))"

definition bridge_Proposals :: "Env \<Rightarrow> World \<Rightarrow> (regErr + web_Proposal list) \<times> World" where
  "bridge_Proposals env w =
     (case ListPendingProposals env w of
        (Inl e, w1) \<Rightarrow> (Inl e, w1)
      | (Inr ps, w1) \<Rightarrow> let (xs, w2) = toWeb_all env ps w1 in (Inr xs, w2))"

definition bridge_Proposal :: "Env \<Rightarrow> string \<Rightarrow> World \<Rightarrow> (regErr + web_Proposal) \<times> World" where
  "bridge_Proposal env i w =
     (case store_GetProposal env i w of
        (Inl e, w1) \<Rightarrow> (Inl e, w1)
      | (Inr p, w1) \<Rightarrow> let (x, w2) = toWeb env p w1 in (Inr x, w2))"

text \<open>A decision, with the line that \<open>logDecision\<close> writes for it.\<close>

record decision_line =
  DL_action :: string
  DL_id :: string
  DL_who :: string
  DL_error :: "string option"

definition logDecision :: "string \<Rightarrow> string \<Rightarrow> string \<Rightarrow> regErr option \<Rightarrow> decision_line" where
  "logDecision action i who err = \<lparr>DL_action = action, DL_id = i, DL_who = who, DL_error = map_option regErr_Error err\<rparr>"

definition op_error :: "regErr + 'a \<Rightarrow> regErr option" where
  "op_error r = (case r of Inl e \<Rightarrow> Some e | Inr _ \<Rightarrow> None)"

definition bridge_Approve :: "Env \<Rightarrow> string \<Rightarrow> string \<Rightarrow> World \<Rightarrow> regErr option \<times> decision_line \<times> World" where
  "bridge_Approve env i who w =
     (let (r, w') = reg_Approve env i who w in (op_error r, logDecision ''approve'' i who (op_error r), w'))"

definition bridge_Deny :: "Env \<Rightarrow> string \<Rightarrow> string \<Rightarrow> World \<Rightarrow> regErr option \<times> decision_line \<times> World" where
  "bridge_Deny env i who w =
     (let (r, w') = reg_Deny env i who ''denied on dashboard'' w in (op_error r, logDecision ''deny'' i who (op_error r), w'))"

record ProposalRef =
  PR_ProposalID :: string
  PR_DashboardURL :: string
  PR_State :: string

definition strings_TrimRight_char :: "char \<Rightarrow> string \<Rightarrow> string" where
  "strings_TrimRight_char c s = rev (dropWhile (\<lambda>x. x = c) (rev s))"

definition proposalURL :: "string \<Rightarrow> string \<Rightarrow> string" where
  "proposalURL dashboardURL i =
     (if dashboardURL = '''' then '''' else strings_TrimRight_char (CHR ''/'') dashboardURL @ ''/unraid#proposal-'' @ i)"

definition bridge_Propose :: "Env \<Rightarrow> string \<Rightarrow> string \<Rightarrow> World \<Rightarrow> (regErr + ProposalRef) \<times> World" where
  "bridge_Propose env dashboardURL body w =
     (let (r, w') = Propose env body ''mcp'' w in
      (case r of Inl e \<Rightarrow> Inl e
       | Inr p \<Rightarrow> Inr \<lparr>PR_ProposalID = P_ID p, PR_DashboardURL = proposalURL dashboardURL (P_ID p), PR_State = state_name (P_State p)\<rparr>, w'))"

definition ErrProposalNotFound_text :: string where
  "ErrProposalNotFound_text = ''proposal not found''"

definition bridge_GetProposal :: "Env \<Rightarrow> string \<Rightarrow> World \<Rightarrow> (sinkErr + ProposalStatus) \<times> World" where
  "bridge_GetProposal env i w =
     (let (r, w') = store_GetProposal env i w in
      (case r of
         Inl ErrProposalNotFound \<Rightarrow> Inl (SinkNotFound ErrProposalNotFound_text)
       | Inl e \<Rightarrow> Inl (SinkFailed (regErr_Error e))
       | Inr p \<Rightarrow> Inr \<lparr>PX_ProposalID = P_ID p, PX_State = state_name (P_State p),
                      PX_Reasons = P_RejectReasons p @ P_Warnings p, PX_UpdatedAt = P_UpdatedAt p\<rparr>, w'))"

section \<open>The dashboard's decision route\<close>

record proposalRow =
  PW_ID :: string
  PW_Title :: string
  PW_DryRunOutput :: string
  PW_RequestedBy :: string
  PW_RequestedAt :: string
  PW_Decision :: string
  PW_Pending :: bool
  PW_DecidedBy :: string
  PW_DecidedAt :: string

text \<open>The dash is U+2014 in UTF-8.\<close>

definition timeOrDash :: "formats \<Rightarrow> gotime \<Rightarrow> string" where
  "timeOrDash fm t = (if IsZero t then [CHR 0xE2, CHR 0x80, CHR 0x94] else fm_rfc3339 fm t)"

definition undecided :: "web_Proposal \<Rightarrow> bool" where
  "undecided p \<longleftrightarrow> WP_Decision p = '''' \<or> WP_Decision p = ''pending''"

definition proposalRowOf :: "formats \<Rightarrow> web_Proposal \<Rightarrow> proposalRow" where
  "proposalRowOf fm p =
     \<lparr>PW_ID = WP_ID p, PW_Title = WP_Title p, PW_DryRunOutput = WP_DryRunOutput p, PW_RequestedBy = WP_RequestedBy p,
      PW_RequestedAt = timeOrDash fm (WP_RequestedAt p), PW_Decision = WP_Decision p, PW_Pending = undecided p,
      PW_DecidedBy = WP_DecidedBy p, PW_DecidedAt = timeOrDash fm (WP_DecidedAt p)\<rparr>"

definition proposalRowsOf :: "formats \<Rightarrow> Env option \<Rightarrow> World \<Rightarrow> proposalRow list \<times> World" where
  "proposalRowsOf fm ps w =
     (case ps of None \<Rightarrow> ([], w)
      | Some env \<Rightarrow>
          (case bridge_Proposals env w of (Inl _, w') \<Rightarrow> ([], w') | (Inr xs, w') \<Rightarrow> (map (proposalRowOf fm) xs, w')))"

record proposalDTO =
  PD_ID :: string
  PD_Title :: string
  PD_DryRunOutput :: string
  PD_Decision :: string
  PD_DecidedBy :: string
  PD_DecidedAt :: "string option"

definition rfc3339Ptr :: "formats \<Rightarrow> gotime \<Rightarrow> string option" where
  "rfc3339Ptr fm t = (if IsZero t then None else Some (fm_rfc3339 fm t))"

definition toProposalDTO :: "formats \<Rightarrow> web_Proposal \<Rightarrow> proposalDTO" where
  "toProposalDTO fm p =
     \<lparr>PD_ID = WP_ID p, PD_Title = WP_Title p, PD_DryRunOutput = WP_DryRunOutput p, PD_Decision = WP_Decision p,
      PD_DecidedBy = WP_DecidedBy p, PD_DecidedAt = rfc3339Ptr fm (WP_DecidedAt p)\<rparr>"

datatype decision_response = DecMethodNotAllowed | DecNotFound | DecConflict | DecFailed string | DecOK proposalDTO

record decision_request =
  dq_post :: bool
  dq_approve :: bool
  dq_id :: string
  dq_who :: string

text \<open>The method expression each of the two routes passes as \<open>decide\<close>.\<close>

definition decide_method :: "bool \<Rightarrow> Env \<Rightarrow> string \<Rightarrow> string \<Rightarrow> World \<Rightarrow> regErr option \<times> decision_line \<times> World" where
  "decide_method approve = (if approve then bridge_Approve else bridge_Deny)"

definition handleAPIProposalDecision ::
  "formats \<Rightarrow> Env \<Rightarrow> decision_request \<Rightarrow> World \<Rightarrow> decision_response \<times> decision_line list \<times> World" where
  "handleAPIProposalDecision fm env r w =
     (if \<not> dq_post r then (DecMethodNotAllowed, [], w)
      else case bridge_Proposal env (dq_id r) w of
        (Inl _, w1) \<Rightarrow> (DecNotFound, [], w1)
      | (Inr p, w1) \<Rightarrow>
          if \<not> undecided p then (DecConflict, [], w1)
          else
            let who = (if dq_who r = '''' then ''operator'' else dq_who r);
                (err, line, w2) = decide_method (dq_approve r) env (dq_id r) who w1 in
            (case err of
               Some e \<Rightarrow> (DecFailed (regErr_Error e), [line], w2)
             | None \<Rightarrow>
                 (case bridge_Proposal env (dq_id r) w2 of
                    (Inl e, w3) \<Rightarrow> (DecFailed (regErr_Error e), [line], w3)
                  | (Inr updated, w3) \<Rightarrow> (DecOK (toProposalDTO fm updated), [line], w3))))"

section \<open>The script tools\<close>

definition jsonToolResult :: "formats \<Rightarrow> json \<Rightarrow> toolErr + ToolResult" where
  "jsonToolResult fm payload =
     res_bind (res_wrap (\<lambda>e. HandlerError (''render tool result: '' @ e)) (fm_compact fm payload))
       (\<lambda>b. Inr \<lparr>TR_Content = b, TR_IsError = False\<rparr>)"

definition propose_script :: "formats \<Rightarrow> Env \<Rightarrow> string \<Rightarrow> args \<Rightarrow> World \<Rightarrow> (toolErr + ToolResult) \<times> World" where
  "propose_script fm env dashboardURL args w =
     (let body = stringArg args ''script'' in
      if strings_TrimSpace body = '''' then (Inl (HandlerError ''script must not be empty''), w)
      else
        (case bridge_Propose env dashboardURL body w of
           (Inl e, w') \<Rightarrow> (Inl (HandlerError (regErr_Error e)), w')
         | (Inr ref, w') \<Rightarrow>
             (jsonToolResult fm (JObj [(''proposalId'', JStr (PR_ProposalID ref)), (''dashboardUrl'', JStr (PR_DashboardURL ref)),
                (''state'', JStr (PR_State ref)),
                (''note'', JStr (''A human must approve this on the dashboard before anything runs. '' @
                   ''Poll get_proposal for the outcome.''))]), w')))"

text \<open>\<open>scripts.Check\<close> is the dry run of the text and nothing of the store.\<close>

definition check_script :: "formats \<Rightarrow> Env \<Rightarrow> args \<Rightarrow> World \<Rightarrow> (toolErr + ToolResult) \<times> World" where
  "check_script fm env args w =
     (case r_dry env (stringArg args ''script'') w of
        (Inl e, w') \<Rightarrow> (Inl (HandlerError (regErr_Error e)), w')
      | (Inr res, w') \<Rightarrow>
          (jsonToolResult fm (JObj [(''valid'', JBool (DR_Approved res)), (''reasons'', JArr (map JStr (DR_Reasons res))),
             (''warnings'', JArr (map JStr (DR_Warnings res)))]), w'))"

definition no_hints :: Annotations where
  "no_hints = \<lparr>An_ReadOnlyHint = False, An_DestructiveHint = False, An_IdempotentHint = False, An_OpenWorldHint = False\<rparr>"

text \<open>
  A handler in the server's table answers on the current world; what the call does to that world is
  \<open>call_effect\<close> on the logged call.
\<close>

definition registerScriptTools :: "catalog_text \<Rightarrow> formats \<Rightarrow> Env \<Rightarrow> string \<Rightarrow> World \<Rightarrow> Server \<Rightarrow> Server" where
  "registerScriptTools tx fm env dashboardURL w s =
     Register (read_tool tx ''check_script'' ''scripts'' [''script''] (\<lambda>args detail. fst (check_script fm env args w)))
     (Register ((read_tool tx ''propose_script'' ''scripts'' [''script''] (\<lambda>args detail. fst (propose_script fm env dashboardURL args w)))
         \<lparr>TL_Annotations := no_hints\<lparr>An_OpenWorldHint := True\<rparr>\<rparr>) s)"

definition call_effect :: "formats \<Rightarrow> Env \<Rightarrow> string \<Rightarrow> handler_call \<Rightarrow> World \<Rightarrow> World" where
  "call_effect fm env dashboardURL c w =
     (case c of
        CallTool name args \<Rightarrow>
          if name = ''propose_script'' then snd (propose_script fm env dashboardURL args w)
          else if name = ''check_script'' then snd (check_script fm env args w)
          else if name = ''get_proposal'' then snd (bridge_GetProposal env (stringArg args ''id'') w)
          else w
      | ReadResource _ \<Rightarrow> w)"

section \<open>The precondition checker and the executor\<close>

definition precondition_Check :: "string + Container list \<Rightarrow> string \<Rightarrow> string option" where
  "precondition_Check cs body =
     (if \<not> strings_Contains body ''docker '' then None
      else case cs of
        Inl e \<Rightarrow> Some (''precondition: cannot read container state: '' @ e)
      | Inr l \<Rightarrow>
          if list_ex (\<lambda>c. strings_Contains body (Ct_Name c)) l then None
          else Some ''precondition: script references docker but names no container that currently exists'')"

definition wired_executor :: "ScriptsConfig \<Rightarrow> Executor" where
  "wired_executor sc =
     \<lparr>EX_DryRunTimeout = Sc_dryRunTimeout sc, EX_RunTimeout = Sc_runTimeout sc, EX_ProtectedPaths = [], EX_DryRunScratch = '''',
      EX_UnshareBin = '''', EX_StraceBin = '''', EX_BashBin = ''''\<rparr>"

text \<open>The guard ignores \<open>scripts.protected_paths\<close>: whatever is configured, only \<open>/boot\<close> is protected.\<close>

lemma configured_paths_ignored:
  "protectedPaths (wired_executor sc) = [''/boot'']"
  "Sc_ProtectedPaths sc = [''/mnt/user''] \<Longrightarrow> ProtectedFSPaths sc \<noteq> protectedPaths (wired_executor sc)"
  by (simp_all add: protectedPaths_def wired_executor_def ProtectedFSPaths_def)

text \<open>
  The checker errs toward running: a script that restarts a container that is gone passes as soon as the
  name of any other existing container occurs in its text.
\<close>

lemma precondition_any_name:
  "precondition_Check (Inr [\<lparr>Ct_Name = ''web'', Ct_Image = '''', Ct_State = '''', Ct_Status = '''', Ct_Ports = [], Ct_AutoRun = False\<rparr>])
     ''docker stop webhook'' = None"
  by code_simp

lemma precondition_fail_closed:
  "strings_Contains body ''docker '' \<Longrightarrow> precondition_Check (Inl e) body \<noteq> None \<and> precondition_Check (Inr []) body \<noteq> None"
  by (simp add: precondition_Check_def)

section \<open>The trend adapter\<close>

definition adapter_Trend :: "io \<Rightarrow> string \<Rightarrow> string \<Rightarrow> gotime \<Rightarrow> gotime \<Rightarrow> DB \<Rightarrow> string + TrendPoint list" where
  "adapter_Trend io series subject t_from t_to db =
     res_bind (Trend io series subject t_from t_to db) (\<lambda>pts.
       Inr (map (\<lambda>p. \<lparr>TP_At = Pt_At p, TP_Value = map_option of_int (Pt_Value p), TP_Text = Pt_Text p, TP_OK = Pt_OK p,
                      TP_Note = Pt_Note p\<rparr>) pts))"

definition adapter_ListTrendSeries :: "io \<Rightarrow> DB \<Rightarrow> string + TrendSeriesInfo list" where
  "adapter_ListTrendSeries io db =
     res_bind (ListMetricSeries io db) (\<lambda>pairs. Inr (map (\<lambda>(s, x). \<lparr>TI_Series = s, TI_Subject = x\<rparr>) pairs))"

section \<open>The wired program\<close>

text \<open>
  What the composition root holds fixed: the texts of the catalogue, the Unraid source's answers and the
  trends (\<open>dp_mcp\<close>), the decoders, the options. Requests of the two clients are steps on the world.
\<close>

record Deployment =
  dp_tx :: catalog_text
  dp_mcp :: mcp_world
  dp_jd :: decoders
  dp_opts :: ServerOptions

datatype client_request = McpRequest http_request | Decide decision_request | ShowProposals

definition wired_server :: "Deployment \<Rightarrow> Env \<Rightarrow> World \<Rightarrow> Server" where
  "wired_server d env w =
     registerScriptTools (dp_tx d) (mw_fm (dp_mcp d)) env (SO_DashboardBaseURL (dp_opts d)) w
       (NewServer (dp_tx d) ((dp_mcp d)\<lparr>mw_proposal := \<lambda>i. fst (bridge_GetProposal env i w)\<rparr>) (dp_opts d))"

definition wired_step :: "Deployment \<Rightarrow> Env \<Rightarrow> client_request \<Rightarrow> World \<Rightarrow> World" where
  "wired_step d env r w =
     (case r of
        McpRequest q \<Rightarrow>
          fold (call_effect (mw_fm (dp_mcp d)) env (SO_DashboardBaseURL (dp_opts d)))
            (snd (serveHTTP (mw_fm (dp_mcp d)) (dp_jd d) (wired_server d env w) q)) w
      | Decide q \<Rightarrow> snd (snd (handleAPIProposalDecision (mw_fm (dp_mcp d)) env q w))
      | ShowProposals \<Rightarrow> snd (proposalRowsOf (mw_fm (dp_mcp d)) (Some env) w))"

section \<open>Nothing is approved but by a decision\<close>

text \<open>What the claims below are about; triples over it frame every operation that does not write it.\<close>

type_synonym core = "Proposal list \<times> (string \<times> string) list \<times> Grant list"

definition core_of :: "World \<Rightarrow> core" where
  "core_of w = (w_proposals w, w_runs w, w_grants w)"

named_theorems frame_rules \<open>operations that keep every predicate of the core\<close>

lemma frame_ops [frame_rules]:
  "valid (\<lambda>w. Q (core_of w)) (r_now env) (\<lambda>_ w. Q (core_of w)) (\<lambda>w. Q (core_of w))"
  "valid (\<lambda>w. Q (core_of w)) (r_newID env) (\<lambda>_ w. Q (core_of w)) (\<lambda>w. Q (core_of w))"
  "valid (\<lambda>w. Q (core_of w)) (UpsertScript env s) (\<lambda>_ w. Q (core_of w)) (\<lambda>w. Q (core_of w))"
  "valid (\<lambda>w. Q (core_of w)) (AppendAudit env a) (\<lambda>_ w. Q (core_of w)) (\<lambda>w. Q (core_of w))"
  "valid (\<lambda>w. Q (core_of w)) (r_dry env body) (\<lambda>_ w. Q (core_of w)) (\<lambda>w. Q (core_of w))"
  by (auto simp: valid_def core_of_def r_now_def r_newID_def UpsertScript_def AppendAudit_def r_dry_def db_call_def
      split: option.split sum.split)

lemma frame_GetScript: "core_of (snd (GetScript env h w)) = core_of w"
  by (simp add: GetScript_def db_call_def core_of_def split: option.split)

lemma frame_GetProposal: "core_of (snd (store_GetProposal env i w)) = core_of w"
  by (simp add: store_GetProposal_def db_call_def core_of_def split: option.split)

lemma GetProposal_core:
  "valid (\<lambda>w. Q (core_of w)) (store_GetProposal env i)
     (\<lambda>p w. Q (core_of w) \<and> find_row P_ID i (fst (core_of w)) = Some p) (\<lambda>w. Q (core_of w))"
  by (auto simp: valid_def store_GetProposal_def db_call_def core_of_def split: option.split)

definition overwrite :: "Proposal \<Rightarrow> Proposal list \<Rightarrow> Proposal list" where
  "overwrite p ps = map (\<lambda>r. if P_ID r = P_ID p then (proposal_row p)\<lparr>P_CreatedAt := P_CreatedAt r\<rparr> else r) ps"

lemma UpdateProposal_core:
  assumes "\<And>ps rs gs. Q (ps, rs, gs) \<Longrightarrow> Q (overwrite p ps, rs, gs)"
  shows "valid (\<lambda>w. Q (core_of w)) (UpdateProposal env p) (\<lambda>_ w. Q (core_of w)) (\<lambda>w. Q (core_of w))"
  using assms by (auto simp: valid_def UpdateProposal_def db_call_def core_of_def overwrite_def split: option.split)

lemma transition_core:
  assumes "\<And>ps rs gs now. CanTransitionTo (P_State p) nx \<Longrightarrow> Q (ps, rs, gs) \<Longrightarrow>
    Q (overwrite (p\<lparr>P_State := nx, P_UpdatedAt := now\<rparr>) ps, rs, gs)"
  shows "valid (\<lambda>w. Q (core_of w)) (transition env p nx actor reason)
    (\<lambda>p1 w. Q (core_of w) \<and> (P_ID p1 = P_ID p \<and> P_State p1 = nx)) (\<lambda>w. Q (core_of w))"
proof (cases "CanTransitionTo (P_State p) nx")
  case False
  then show ?thesis by (simp add: transition_def valid_fail)
next
  case True
  then have t: "(\<not> CanTransitionTo (P_State p) nx) = False" by simp
  show ?thesis
    unfolding transition_def Let_def t if_False
    by (rule valid_bind [OF frame_ops(1)] valid_bind [OF frame_ops(2)] valid_bind [OF valid_wrap [OF UpdateProposal_core]]
        valid_bind [OF frame_ops(4)] valid_return | simp add: True assms)+
qed

subsection \<open>A proposal of the LLM\<close>

fun before_decision :: "ProposalState \<Rightarrow> bool" where
  "before_decision StateProposed = True"
| "before_decision StateDryRunOK = True"
| "before_decision StateDryRunFailed = True"
| "before_decision StateAwaitingApproval = True"
| "before_decision _ = False"

text \<open>Proposals \<open>ps\<close> with nothing changed, or with one new undecided row under a new id.\<close>

definition one_more :: "core \<Rightarrow> string \<Rightarrow> core \<Rightarrow> bool" where
  "one_more c i c' \<longleftrightarrow> (\<exists>row. c' = (fst c @ [row], snd c) \<and> P_ID row = i \<and> i \<notin> P_ID ` set (fst c) \<and> before_decision (P_State row))"

definition grown :: "core \<Rightarrow> core \<Rightarrow> bool" where
  "grown c c' \<longleftrightarrow> c' = c \<or> (\<exists>i. one_more c i c')"

lemma overwrite_one_more:
  "one_more c i (ps, rs, gs) \<Longrightarrow> P_ID p = i \<Longrightarrow> before_decision (P_State p) \<Longrightarrow> one_more c i (overwrite p ps, rs, gs)"
proof -
  have same: "overwrite p xs = xs" if "P_ID p \<notin> P_ID ` set xs" for xs
    using that by (induction xs) (auto simp: overwrite_def)
  have app: "overwrite p (xs @ ys) = overwrite p xs @ overwrite p ys" for xs ys by (simp add: overwrite_def)
  assume a: "one_more c i (ps, rs, gs)" "P_ID p = i" "before_decision (P_State p)"
  then obtain row where "ps = fst c @ [row]" "(rs, gs) = snd c" "P_ID row = i" "i \<notin> P_ID ` set (fst c)"
    by (auto simp: one_more_def)
  then show "one_more c i (overwrite p ps, rs, gs)"
    using a by (auto simp: one_more_def app same) (auto simp: overwrite_def)
qed

lemma transition_one_more:
  assumes "P_ID p = i" "before_decision nx"
  shows "valid (\<lambda>w. one_more c i (core_of w)) (transition env p nx actor reason)
    (\<lambda>p1 w. one_more c i (core_of w) \<and> (P_ID p1 = i \<and> P_State p1 = nx)) (\<lambda>w. one_more c i (core_of w))"
  using assms(1) by (auto intro!: transition_core [THEN valid_post] overwrite_one_more simp: assms)

lemma grown_one_more: "one_more c i c' \<Longrightarrow> grown c c'"
  by (auto simp: grown_def)

lemma valid_swap: "valid P m (\<lambda>x w. R w) R \<Longrightarrow> (\<And>w. R w \<Longrightarrow> E w) \<Longrightarrow> valid P m (\<lambda>x. E) E"
  by (rule valid_post [OF valid_err])

lemma runDryRun_one_more:
  assumes "P_ID p = i"
  shows "valid (\<lambda>w. one_more c i (core_of w)) (runDryRunAndAdvance env p script actor)
    (\<lambda>_ w. one_more c i (core_of w)) (\<lambda>w. one_more c i (core_of w))"
  unfolding runDryRunAndAdvance_def Let_def
  by (rule valid_bind [OF valid_wrap [OF frame_ops(5)]] valid_if valid_bind_pure [OF transition_one_more]
      valid_post [OF transition_one_more] | use assms in auto)+

lemma InsertProposal_core:
  assumes "before_decision (P_State p)"
  shows "valid (\<lambda>w. core_of w = c) (InsertProposal env p) (\<lambda>_ w. one_more c (P_ID p) (core_of w)) (\<lambda>w. grown c (core_of w))"
  using assms
  by (auto simp: valid_def InsertProposal_def db_call_def core_of_def one_more_def grown_def split: option.split)

lemma Propose_grows: "grown (core_of w) (core_of (snd (Propose env body actor w)))"
proof -
  define c where "c = core_of w"
  have early: "valid (\<lambda>w. core_of w = c) m (\<lambda>_ w. core_of w = c) (\<lambda>w. core_of w = c) \<Longrightarrow>
      valid (\<lambda>w. core_of w = c) m (\<lambda>_ w. core_of w = c) (\<lambda>w. grown c (core_of w))" for m :: "'z op"
    by (erule valid_err) (simp add: grown_def)
  have late: "valid (\<lambda>w. one_more c i (core_of w)) m (\<lambda>_ w. one_more c i (core_of w)) (\<lambda>w. one_more c i (core_of w)) \<Longrightarrow>
      valid (\<lambda>w. one_more c i (core_of w)) m (\<lambda>_ w. one_more c i (core_of w)) (\<lambda>w. grown c (core_of w))" for m :: "'y op" and i
    by (erule valid_err) (rule grown_one_more)
  have tail: "valid (\<lambda>w. one_more c i (core_of w)) (runDryRunAndAdvance env p s actor) (\<lambda>_ w. grown c (core_of w)) (\<lambda>w. grown c (core_of w))"
    if "P_ID p = i" for i p s
    by (rule valid_swap [OF runDryRun_one_more]) (use that grown_one_more in auto)
  have "valid (\<lambda>w. core_of w = c) (Propose env body actor) (\<lambda>_ w. grown c (core_of w)) (\<lambda>w. grown c (core_of w))"
    unfolding Propose_def Let_def
    by (rule valid_bind [OF early [OF frame_ops(1)]] valid_bind [OF early [OF frame_ops(2)]]
        valid_bind [OF valid_wrap [OF early [OF frame_ops(3)]]] valid_bind [OF valid_wrap [OF InsertProposal_core]]
        valid_bind [OF late [OF frame_ops(2)]] valid_bind [OF late [OF frame_ops(1)]] valid_bind [OF late [OF frame_ops(4)]]
        tail | simp add: new_proposal_def)+
  then show ?thesis
    unfolding c_def by (rule valid_world) simp
qed

subsection \<open>A request of the LLM\<close>

lemma grown_refl [simp]: "grown c c"
  by (simp add: grown_def)

lemma call_effect_grows: "grown (core_of w) (core_of (call_effect fm env u c w))"
proof (cases c)
  case (CallTool name args)
  have p: "grown (core_of w) (core_of (snd (propose_script fm env u args w)))"
    using Propose_grows [of w env "stringArg args ''script''" "''mcp''"]
    by (auto simp: propose_script_def bridge_Propose_def Let_def split: sum.split prod.split)
  have k: "core_of (snd (check_script fm env args w)) = core_of w"
    by (auto simp: check_script_def r_dry_def core_of_def split: sum.split)
  have g: "core_of (snd (bridge_GetProposal env i w)) = core_of w" for i
    using frame_GetProposal [of env i w] by (auto simp: bridge_GetProposal_def split: prod.splits)
  show ?thesis using CallTool p k g by (simp add: call_effect_def)
next
  case (ReadResource u)
  then show ?thesis by (simp add: call_effect_def)
qed

lemma serveHTTP_one: "at_most_one_call s (snd (serveHTTP fm jd s r))"
  using handlePost_calls [of s fm jd r] by (simp add: serveHTTP_def)

lemma mcp_step_grows: "grown (core_of w) (core_of (wired_step d env (McpRequest q) w))"
proof -
  define calls where "calls = snd (serveHTTP (mw_fm (dp_mcp d)) (dp_jd d) (wired_server d env w) q)"
  have "at_most_one_call (wired_server d env w) calls" unfolding calls_def by (rule serveHTTP_one)
  then have "calls = [] \<or> (\<exists>c. calls = [c])" by (auto simp: at_most_one_call_def split: list.splits)
  then show ?thesis by (auto simp: wired_step_def calls_def [symmetric] call_effect_grows)
qed

subsection \<open>A decision of the Operator\<close>

text \<open>
  A row is accounted for by the decisions taken so far: it is undecided, or approved under the name that an
  approval gave, or denied by a denial.
\<close>

definition who_of :: "decision_request \<Rightarrow> string" where
  "who_of q = (if dq_who q = '''' then ''operator'' else dq_who q)"

definition decides :: "bool \<Rightarrow> string \<Rightarrow> string \<Rightarrow> client_request \<Rightarrow> bool" where
  "decides approve i who r =
     (case r of Decide q \<Rightarrow> dq_post q \<and> dq_approve q = approve \<and> dq_id q = i \<and> who_of q = who | _ \<Rightarrow> False)"

definition accounted :: "client_request list \<Rightarrow> Proposal \<Rightarrow> bool" where
  "accounted rs p =
     (if P_State p = StateApproved then list_ex (decides True (P_ID p) (P_ApprovedBy p)) rs
      else if P_State p = StateDenied then list_ex (decides False (P_ID p) (P_DeniedBy p)) rs
      else before_decision (P_State p))"

definition accounted_core :: "client_request list \<Rightarrow> core \<Rightarrow> bool" where
  "accounted_core rs c \<longleftrightarrow> list_all (accounted rs) (fst c) \<and> snd c = ([], [])"

lemma accounted_row [simp]: "accounted rs ((proposal_row p)\<lparr>P_CreatedAt := t\<rparr>) = accounted rs p"
  by (simp add: accounted_def proposal_row_def)

lemma accounted_undecided: "before_decision (P_State p) \<Longrightarrow> accounted rs p"
  by (auto simp: accounted_def)

lemma overwrite_accounted:
  "accounted rs p \<Longrightarrow> accounted_core rs (ps, x) \<Longrightarrow> accounted_core rs (overwrite p ps, x)"
  by (auto simp: accounted_core_def overwrite_def list_all_iff)

lemma grown_accounted: "grown c c' \<Longrightarrow> accounted_core rs c \<Longrightarrow> accounted_core rs c'"
  by (auto simp: grown_def one_more_def accounted_core_def accounted_undecided)

lemma accounted_mono: "accounted_core rs c \<Longrightarrow> accounted_core (rs @ [r]) c"
proof -
  have "accounted rs p \<Longrightarrow> accounted (rs @ [r]) p" for p by (auto simp: accounted_def split: if_splits)
  then show "accounted_core rs c \<Longrightarrow> accounted_core (rs @ [r]) c" by (auto simp: accounted_core_def list_all_iff)
qed

lemma decided_transition:
  assumes "accounted rs (p\<lparr>P_State := nx\<rparr>)"
  shows "valid (\<lambda>w. accounted_core rs (core_of w)) (transition env p nx who reason)
    (\<lambda>_ w. accounted_core rs (core_of w)) (\<lambda>w. accounted_core rs (core_of w))"
proof -
  have "accounted rs (p\<lparr>P_State := nx, P_UpdatedAt := now\<rparr>)" for now using assms by (simp add: accounted_def split: if_splits)
  then show ?thesis by (intro valid_post [OF transition_core]) (auto intro: overwrite_accounted)
qed

lemma valid_bind_found:
  assumes "\<And>p. P_ID p = i \<Longrightarrow> valid (\<lambda>w. Q (core_of w)) (f p) (\<lambda>_ w. Q (core_of w)) (\<lambda>w. Q (core_of w))"
  shows "valid (\<lambda>w. Q (core_of w)) (op_bind (store_GetProposal env i) f) (\<lambda>_ w. Q (core_of w)) (\<lambda>w. Q (core_of w))"
proof (rule valid_bind_pure)
  show "valid (\<lambda>w. Q (core_of w)) (store_GetProposal env i) (\<lambda>p w. Q (core_of w) \<and> P_ID p = i) (\<lambda>w. Q (core_of w))"
    by (rule valid_post [OF GetProposal_core]) (auto dest: find_row_Some_key)
qed (rule assms)

lemma Approve_core:
  assumes "list_ex (decides True i who) rs"
  shows "valid (\<lambda>w. accounted_core rs (core_of w)) (reg_Approve env i who)
    (\<lambda>_ w. accounted_core rs (core_of w)) (\<lambda>w. accounted_core rs (core_of w))"
  unfolding reg_Approve_def
  by (rule valid_bind_found valid_if valid_fail valid_bind [OF frame_ops(1)] decided_transition
      | use assms in \<open>simp add: accounted_def\<close>)+

lemma Deny_core:
  assumes "list_ex (decides False i who) rs"
  shows "valid (\<lambda>w. accounted_core rs (core_of w)) (reg_Deny env i who reason)
    (\<lambda>_ w. accounted_core rs (core_of w)) (\<lambda>w. accounted_core rs (core_of w))"
  unfolding reg_Deny_def
  by (rule valid_bind_found valid_bind [OF frame_ops(1)] decided_transition
      | use assms in \<open>simp add: accounted_def\<close>)+

lemma toWeb_frame: "core_of (snd (toWeb env p w)) = core_of w"
  using frame_GetScript [of env "P_ScriptHash p" w]
  by (auto simp: toWeb_def scriptBody_def split: prod.splits sum.splits)

lemma toWeb_all_frame: "core_of (snd (toWeb_all env ps w)) = core_of w"
proof (induction ps arbitrary: w)
  case (Cons p ps)
  obtain x w1 where x: "toWeb env p w = (x, w1)" by fastforce
  obtain xs w2 where xs: "toWeb_all env ps w1 = (xs, w2)" by fastforce
  show ?case using Cons [of w1] toWeb_frame [of env p w] by (simp add: x xs)
qed simp

lemma bridge_Proposal_frame: "bridge_Proposal env i w = (r, w') \<Longrightarrow> core_of w' = core_of w"
proof -
  obtain q w1 where q: "store_GetProposal env i w = (q, w1)" by fastforce
  then have "core_of w1 = core_of w" using frame_GetProposal [of env i w] by simp
  then show "bridge_Proposal env i w = (r, w') \<Longrightarrow> core_of w' = core_of w"
    using toWeb_frame [of env "projr q" w1] by (cases q) (auto simp: bridge_Proposal_def q split: prod.splits)
qed

lemma decision_accounted:
  assumes "accounted_core rs (core_of w)"
  shows "accounted_core (rs @ [Decide q]) (core_of (wired_step d env (Decide q) w))"
proof -
  define rs' where "rs' = rs @ [Decide q]"
  have start: "accounted_core rs' (core_of w)" unfolding rs'_def by (rule accounted_mono [OF assms])
  obtain r1 w1 where p1: "bridge_Proposal env (dq_id q) w = (r1, w1)" by fastforce
  have w1: "accounted_core rs' (core_of w1)" using start bridge_Proposal_frame [OF p1] by simp
  show ?thesis
  proof (cases "dq_post q")
    case False
    then show ?thesis using start by (simp add: wired_step_def handleAPIProposalDecision_def rs'_def)
  next
    case post: True
    obtain err line w2 where p2: "decide_method (dq_approve q) env (dq_id q) (who_of q) w1 = (err, line, w2)"
      by (metis prod_cases3)
    have dec: "list_ex (decides (dq_approve q) (dq_id q) (who_of q)) rs'"
      using post by (simp add: rs'_def decides_def)
    have "accounted_core rs' (core_of (snd (snd (decide_method (dq_approve q) env (dq_id q) (who_of q) w1))))"
      using valid_world [OF Approve_core, of _ _ rs' w1] valid_world [OF Deny_core, of _ _ rs' w1] dec w1
      by (auto simp: decide_method_def bridge_Approve_def bridge_Deny_def split: prod.split) (metis prod.sel(2))+
    then have w2: "accounted_core rs' (core_of w2)" by (simp add: p2)
    obtain r3 w3 where p3: "bridge_Proposal env (dq_id q) w2 = (r3, w3)" by fastforce
    have w3: "accounted_core rs' (core_of w3)" using w2 bridge_Proposal_frame [OF p3] by simp
    have split: "snd (snd (handleAPIProposalDecision fm env q w)) =
        (case r1 of Inl _ \<Rightarrow> w1 | Inr p \<Rightarrow> if \<not> undecided p then w1 else case err of Some _ \<Rightarrow> w2 | None \<Rightarrow> w3)" for fm
      unfolding handleAPIProposalDecision_def p1 Let_def who_of_def [symmetric] p2
      by (cases r1; cases err; cases r3) (simp_all add: post p2 p3)
    show ?thesis
      using w1 w2 w3 by (simp add: wired_step_def split rs'_def [symmetric] split: sum.split option.split)
  qed
qed

lemma show_accounted: "core_of (wired_step d env ShowProposals w) = core_of w"
proof -
  obtain r w1 where l: "ListPendingProposals env w = (r, w1)" by fastforce
  then have "core_of w1 = core_of w"
    by (auto simp: ListPendingProposals_def db_call_def core_of_def split: option.splits)
  then show ?thesis
    using toWeb_all_frame [of env "projr r" w1]
    by (cases r) (auto simp: wired_step_def proposalRowsOf_def bridge_Proposals_def l split: prod.splits)
qed

lemma run_accounted: "accounted_core rs (core_of (fold (wired_step d env) rs empty_World))"
proof (induction rs rule: rev_induct)
  case Nil
  then show ?case by (simp add: accounted_core_def core_of_def empty_World_def)
next
  case (snoc r rs)
  show ?case
  proof (cases r)
    case (McpRequest q)
    then show ?thesis using snoc grown_accounted [OF mcp_step_grows] accounted_mono by fastforce
  next
    case (Decide q)
    then show ?thesis using decision_accounted [OF snoc] by simp
  next
    case ShowProposals
    then show ?thesis using accounted_mono [OF snoc, of r] show_accounted by simp
  qed
qed

text \<open>C20: the human stays in the loop. Over any sequence of MCP requests, dashboard decisions and page views, on
  any host, with any store failures: no script has run and no grant exists; a proposal is approved only if
  the dashboard posted an approval of that very proposal, under the name it records, and denied only by a
  posted denial. One more MCP request changes no existing proposal; it adds at most one, and that one
  is undecided.\<close>

theorem human_in_the_loop:
  "let w = fold (wired_step d env) rs empty_World;
       w' = wired_step d env (McpRequest q) w in
   w_runs w = [] \<and> w_grants w = [] \<and> list_all (accounted rs) (w_proposals w) \<and>
   (w_proposals w' = w_proposals w \<or>
    (\<exists>p. w_proposals w' = w_proposals w @ [p] \<and> before_decision (P_State p) \<and> P_ID p \<notin> P_ID ` set (w_proposals w)))"
proof -
  have "grown (core_of w) (core_of (wired_step d env (McpRequest q) w))" for w by (rule mcp_step_grows)
  then show ?thesis
    using run_accounted [of rs d env]
    by (fastforce simp: Let_def accounted_core_def core_of_def grown_def one_more_def)
qed

text \<open>The loop does close: a proposal over MCP followed by an approval on the dashboard ends approved.\<close>

definition demo_deployment :: Deployment where
  "demo_deployment =
     (let fm = \<lparr>fm_marshal = (\<lambda>_. Inr ''{}''), fm_compact = (\<lambda>_. Inr ''{}''), fm_rfc3339 = itoa, fm_json_time = itoa\<rparr> in
      \<lparr>dp_tx = \<lparr>ct_describe = (\<lambda>_. ''''), ct_schema = (\<lambda>_. None)\<rparr>,
       dp_mcp = \<lparr>mw_fm = fm, mw_host = Inl (ReadFailed ''no host''), mw_array = Inl (ReadFailed ''no host''),
         mw_shares = Inl (ReadFailed ''no host''), mw_containers = Inl (ReadFailed ''no host''),
         mw_smart = (\<lambda>_. Inl (ReadFailed ''no host'')), mw_reach = Inl (ReadFailed ''no host''),
         mw_proposal = NoopProposalSink_GetProposal, mw_series = Inr [], mw_trend = (\<lambda>_ _ _ _. Inr []), mw_now = 0\<rparr>,
       dp_jd = \<lparr>jd_request = (\<lambda>b. Inr \<lparr>RQ_ID = ''1'', RQ_Method = ''tools/call'', RQ_Params = b\<rparr>),
         jd_call = (\<lambda>p. Inr (''propose_script'', p)), jd_args = (\<lambda>a. Inr [(''script'', JStr a)]), jd_uri = Inr\<rparr>,
       dp_opts = \<lparr>SO_DashboardBaseURL = '''', SO_AuthToken = ''s3cret'', SO_Trends = True\<rparr>\<rparr>)"

definition demo_env :: Env where
  "demo_env =
     \<lparr>e_now = int, e_id = (\<lambda>t. itoa (int t)), e_fail = (\<lambda>_. None),
      e_dry = (\<lambda>_ _. Inr \<lparr>DR_Approved = True, DR_ExitCode = 0, DR_TimedOut = False, DR_Reasons = [], DR_Warnings = [], DR_Transcript = []\<rparr>),
      e_run = (\<lambda>_ _. Inr \<lparr>RR_ExitCode = 0, RR_Succeeded = True, RR_TimedOut = False, RR_Output = ''''\<rparr>),
      e_precond = None, e_hash = (\<lambda>b. b)\<rparr>"

definition demo_requests :: "client_request list" where
  "demo_requests =
     [McpRequest \<lparr>hq_method = ''POST'', hq_authorization = ''Bearer s3cret'', hq_body = Inr ''uptime''\<rparr>,
      Decide \<lparr>dq_post = True, dq_approve = True, dq_id = ''2'', dq_who = ''noah''\<rparr>]"

lemma demo_call:
  "snd (serveHTTP (mw_fm (dp_mcp demo_deployment)) (dp_jd demo_deployment) (wired_server demo_deployment env w)
     \<lparr>hq_method = ''POST'', hq_authorization = ''Bearer s3cret'', hq_body = Inr ''uptime''\<rparr>) =
   [CallTool ''propose_script'' [(''script'', JStr ''uptime'')]]"
proof -
  have tok: "SV_authToken (wired_server demo_deployment env w) = ''s3cret''"
    by (simp add: wired_server_def registerScriptTools_def Register_def demo_deployment_def)
  have t: "find_row TL_Name ''propose_script'' (SV_tools (wired_server demo_deployment env w)) =
      Some ((read_tool (dp_tx demo_deployment) ''propose_script'' ''scripts'' [''script'']
        (\<lambda>args detail. fst (propose_script (mw_fm (dp_mcp demo_deployment)) env (SO_DashboardBaseURL (dp_opts demo_deployment)) args w)))
        \<lparr>TL_Annotations := no_hints\<lparr>An_OpenWorldHint := True\<rparr>\<rparr>)"
    by (simp add: wired_server_def registerScriptTools_def Register_def find_row_upsert)
  have jd: "jd_request (dp_jd demo_deployment) b = Inr \<lparr>RQ_ID = ''1'', RQ_Method = ''tools/call'', RQ_Params = b\<rparr>"
    "jd_call (dp_jd demo_deployment) b = Inr (''propose_script'', b)" "jd_args (dp_jd demo_deployment) b = Inr [(''script'', JStr b)]" for b
    by (simp_all add: demo_deployment_def)
  show ?thesis
    by (simp add: serveHTTP_def checkAuth_iff tok bearerPrefix_def handlePost_def rpc_dispatch_def handleToolsCall_def t missing_args_def
        maxRequestBytes_def jd Let_def)
qed

lemma demo_approved:
  "map (\<lambda>p. (P_ID p, P_State p, P_ApprovedBy p)) (w_proposals (fold (wired_step demo_deployment demo_env) demo_requests empty_World)) =
     [(''2'', StateApproved, ''noah'')]"
proof -
  define w where "w = call_effect (mw_fm (dp_mcp demo_deployment)) demo_env '''' (CallTool ''propose_script'' [(''script'', JStr ''uptime'')]) empty_World"
  have url: "SO_DashboardBaseURL (dp_opts demo_deployment) = ''''" by (simp add: demo_deployment_def)
  have run: "fold (wired_step demo_deployment demo_env) demo_requests empty_World =
      snd (snd (handleAPIProposalDecision (mw_fm (dp_mcp demo_deployment)) demo_env \<lparr>dq_post = True, dq_approve = True, dq_id = ''2'', dq_who = ''noah''\<rparr> w))"
    by (simp add: demo_requests_def wired_step_def demo_call url w_def)
  show ?thesis unfolding run w_def by code_simp
qed

end
