(* ===== verification/Config_Props.thy ===== *)
theory Config_Props
  imports Config
begin

text \<open>
  What loading a configuration guarantees. \<open>acceptable\<close> states the rules of a valid
  configuration block by block, without the order of the checks, and \<open>filled\<close> the configuration
  with its defaults; \<open>validate\<close> accepts exactly the acceptable ones and returns the filled one, so
  that the order in which a map is visited can change the message only. \<open>safe_config\<close> is what the
  rest of the program may rely on behind \<open>Load\<close>. The secrets are expanded in exactly the listed
  fields, or the error names exactly the unset variables.
\<close>

section \<open>The rules of a valid configuration\<close>

definition dur_ok :: "string \<Rightarrow> bool" where
  "dur_ok v \<longleftrightarrow> v = '''' \<or> (case ParseDuration v of Inl _ \<Rightarrow> False | Inr d \<Rightarrow> 0 < d)"

definition dur_value :: "string \<Rightarrow> duration \<Rightarrow> duration" where
  "dur_value v def = (if v = '''' then def else case ParseDuration v of Inl _ \<Rightarrow> 0 | Inr d \<Rightarrow> d)"

lemma parseDurationDefault_Inr [res_iff]:
  "parseDurationDefault v def = Inr d \<longleftrightarrow> dur_ok v \<and> d = dur_value v def"
  by (auto simp: parseDurationDefault_def dur_ok_def dur_value_def res_bind_def res_wrap_def split: sum.split)

lemma checkDashboardSafeName_Inr [res_iff]:
  "checkDashboardSafeName n = Inr u \<longleftrightarrow> set n \<inter> set unsafeNameChars = {}"
  by (auto simp: checkDashboardSafeName_def strings_ContainsAny_def list_ex_iff)

lemma dur_value_pos: "dur_ok v \<Longrightarrow> 0 < def \<Longrightarrow> 0 < dur_value v def"
  by (auto simp: dur_ok_def dur_value_def split: sum.splits)

lemma dur_value_bound: "def < two63 \<Longrightarrow> dur_value v def < two63"
  by (auto simp: dur_value_def two63_def split: sum.splits dest: ParseDuration_range)

definition name_ok :: "string \<Rightarrow> bool" where
  "name_ok n \<longleftrightarrow> n \<noteq> '''' \<and> set n \<inter> set unsafeNameChars = {}"

definition one_kind :: "ServiceConfig \<Rightarrow> bool" where
  "one_kind s \<longleftrightarrow>
     (Sv_URL s \<noteq> '''' \<and> Sv_TCPAddr s = '''' \<and> Sv_Container s = '''') \<or>
     (Sv_URL s = '''' \<and> Sv_TCPAddr s \<noteq> '''' \<and> Sv_Container s = '''') \<or>
     (Sv_URL s = '''' \<and> Sv_TCPAddr s = '''' \<and> Sv_Container s \<noteq> '''')"

definition service_ok :: "ServiceConfig \<Rightarrow> bool" where
  "service_ok s \<longleftrightarrow> name_ok (Sv_Name s) \<and> one_kind s \<and> dur_ok (Sv_PollInterval s) \<and> dur_ok (Sv_Timeout s) \<and>
     dur_ok (Sv_LatencyThreshold s) \<and> 0 \<le> Sv_DebounceN s"

definition service_filled :: "ServiceConfig \<Rightarrow> ServiceConfig" where
  "service_filled s = s\<lparr>Sv_DebounceN := or_default (Sv_DebounceN s) 3, Sv_poll := dur_value (Sv_PollInterval s) (30 * nsSecond),
     Sv_probeTimeout := dur_value (Sv_Timeout s) (10 * nsSecond),
     Sv_threshold := dur_value (Sv_LatencyThreshold s) nsSecond\<rparr>"

lemma Service_resolve_Inr [res_iff]:
  "Service_resolve s = Inr s' \<longleftrightarrow> service_ok s \<and> s' = service_filled s"
  unfolding Service_resolve_def Let_def res_iff service_ok_def name_ok_def service_filled_def or_default_def one_kind_def
  by auto

definition ssh_ok :: "SSHConfig \<Rightarrow> bool" where
  "ssh_ok s \<longleftrightarrow> SSH_Address s \<noteq> '''' \<and> SSH_User s \<noteq> '''' \<and> (SSH_Password s \<noteq> '''' \<or> SSH_KeyFile s \<noteq> '''') \<and>
     dur_ok (SSH_Timeout s)"

definition ssh_filled :: "SSHConfig \<Rightarrow> SSHConfig" where
  "ssh_filled s = s\<lparr>SSH_probeTimeout := dur_value (SSH_Timeout s) (10 * nsSecond)\<rparr>"

lemma SSH_resolve_Inr [res_iff]: "SSH_resolve s = Inr s' \<longleftrightarrow> ssh_ok s \<and> s' = ssh_filled s"
  unfolding SSH_resolve_def res_iff ssh_ok_def ssh_filled_def by auto

definition host_ok :: "HostConfig \<Rightarrow> bool" where
  "host_ok h \<longleftrightarrow> name_ok (Ho_Name h) \<and> Ho_Address h \<noteq> '''' \<and> dur_ok (Ho_PollInterval h) \<and> dur_ok (Ho_Timeout h) \<and>
     0 \<le> Ho_DebounceN h"

definition host_filled :: "HostConfig \<Rightarrow> HostConfig" where
  "host_filled h = h\<lparr>Ho_DebounceN := or_default (Ho_DebounceN h) 3, Ho_poll := dur_value (Ho_PollInterval h) (30 * nsSecond),
     Ho_probeTimeout := dur_value (Ho_Timeout h) (5 * nsSecond)\<rparr>"

lemma host_filled_name [simp]: "Ho_Name (host_filled h) = Ho_Name h"
  by (simp add: host_filled_def)

lemma check_host_Inr [res_iff]:
  "check_host seen has_ssh h = Inr h' \<longleftrightarrow>
     host_ok h \<and> Ho_Name h \<notin> set seen \<and> (Ho_SSHMetrics h \<longrightarrow> has_ssh) \<and> h' = host_filled h"
  unfolding check_host_def Host_resolve_def Let_def res_iff host_ok_def host_filled_def name_ok_def or_default_def
  by auto

lemma check_targets_Inr [res_iff]:
  "check_targets names ts = Inr u \<longleftrightarrow> (\<forall>(svc, cont) \<in> set ts. svc \<in> set names \<and> containerNameRe cont)"
  by (induction names ts rule: check_targets.induct) auto

lemma check_allow_Inr [res_iff]: "check_allow ns = Inr u \<longleftrightarrow> (\<forall>n \<in> set ns. containerNameRe n)"
  by (induction ns) auto

lemma check_narrow_Inr [res_iff]:
  "check_narrow allowed ts = Inr u \<longleftrightarrow> snd ` set ts \<subseteq> set allowed"
  by (induction allowed ts rule: check_narrow.induct) auto

definition knobs_ok :: "HarnessConfig \<Rightarrow> bool" where
  "knobs_ok h \<longleftrightarrow> 1 \<le> Ce_MaxToolCalls (Ha_Ceilings h) \<and> Ce_MaxToolCalls (Ha_Ceilings h) \<le> 20 \<and>
     1 \<le> Ha_LogLines h \<and> Ha_LogLines h \<le> 200 \<and> 0 < Ce_WallClock (Ha_Ceilings h) \<and> 0 < Ha_ApprovalTimeout h \<and>
     0 < Ha_Cooldown h \<and> 0 < Ha_OutcomeWindow h \<and> 0 < Re_Timeout (Ha_Reasoner h)"

lemma check_knobs_Inr [res_iff]: "check_knobs h = Inr u \<longleftrightarrow> knobs_ok h"
  by (auto simp: check_knobs_def knobs_ok_def)

text \<open>The egress gate: a reasoner on the box is not a cloud one, and any other is.\<close>

definition reasoner_ok :: "(string \<Rightarrow> string + URL) \<Rightarrow> ReasonerConfig \<Rightarrow> bool" where
  "reasoner_ok parse r \<longleftrightarrow> Re_BaseURL r \<noteq> '''' \<and> Re_Model r \<noteq> '''' \<and>
     (case parse (Re_BaseURL r) of
        Inl _ \<Rightarrow> False
      | Inr u \<Rightarrow> URL_Scheme u \<in> {''http'', ''https''} \<and> URL_Host u \<noteq> '''' \<and> Re_Cloud r = (\<not> isLoopbackHost (Hostname u)))"

lemma check_reasoner_Inr [res_iff]: "check_reasoner parse r = Inr u \<longleftrightarrow> reasoner_ok parse r"
  by (auto simp: check_reasoner_def reasoner_ok_def split: sum.split)

definition same_credential :: "SSHConfig \<Rightarrow> SSHConfig \<Rightarrow> bool" where
  "same_credential a b \<longleftrightarrow> SSH_User a = SSH_User b \<and> SSH_KeyFile a = SSH_KeyFile b \<and> SSH_Password a = SSH_Password b"

definition live_ok :: "SSHConfig option \<Rightarrow> HarnessConfig \<Rightarrow> bool" where
  "live_ok readSSH h \<longleftrightarrow> snd ` set (Ha_Targets h) \<subseteq> set (Ha_AllowRestart h) \<and>
     (case Ha_WriteSSH h of
        None \<Rightarrow> False
      | Some w \<Rightarrow> ssh_ok w \<and> (case readSSH of None \<Rightarrow> True | Some r \<Rightarrow> \<not> same_credential w r))"

lemma check_live_Inr [res_iff]:
  "check_live readSSH h = Inr h' \<longleftrightarrow> live_ok readSSH h \<and> h' = h\<lparr>Ha_WriteSSH := map_option ssh_filled (Ha_WriteSSH h)\<rparr>"
  unfolding check_live_def live_ok_def
  by (auto simp: res_iff same_credential_def ssh_filled_def split: option.split)

definition harness_ok :: "(string \<Rightarrow> string + URL) \<Rightarrow> string list \<Rightarrow> SSHConfig option \<Rightarrow> HarnessConfig \<Rightarrow> bool" where
  "harness_ok parse names readSSH h \<longleftrightarrow>
     knobs_ok (harness_defaults h) \<and>
     (\<forall>(svc, cont) \<in> set (Ha_Targets h). svc \<in> set names \<and> containerNameRe cont) \<and>
     (\<forall>n \<in> set (Ha_AllowRestart h). containerNameRe n) \<and>
     (case ParseHarnessMode (Ha_Mode h) of
        Inl _ \<Rightarrow> False
      | Inr HarnessOff \<Rightarrow> True
      | Inr HarnessShadow \<Rightarrow> reasoner_ok parse (Ha_Reasoner h)
      | Inr HarnessLive \<Rightarrow> reasoner_ok parse (Ha_Reasoner h) \<and> live_ok readSSH h)"

definition harness_filled :: "HarnessConfig \<Rightarrow> HarnessConfig" where
  "harness_filled h =
     (let h' = harness_defaults h in
      if ParseHarnessMode (Ha_Mode h) = Inr HarnessLive
      then h'\<lparr>Ha_WriteSSH := map_option ssh_filled (Ha_WriteSSH h)\<rparr> else h')"

lemma harness_defaults_keep [simp]:
  "Ha_Targets (harness_defaults h) = Ha_Targets h" "Ha_AllowRestart (harness_defaults h) = Ha_AllowRestart h"
  "Ha_Mode (harness_defaults h) = Ha_Mode h" "Ha_WriteSSH (harness_defaults h) = Ha_WriteSSH h"
  "reasoner_ok parse (Ha_Reasoner (harness_defaults h)) = reasoner_ok parse (Ha_Reasoner h)"
  "live_ok ssh (harness_defaults h) = live_ok ssh h"
  by (simp_all add: harness_defaults_def reasoner_ok_def live_ok_def split: sum.split)

lemma Harness_resolve_Inr [res_iff]:
  "Harness_resolve parse names ssh h = Inr h' \<longleftrightarrow> harness_ok parse names ssh h \<and> h' = harness_filled h"
  unfolding Harness_resolve_def harness_ok_def harness_filled_def Let_def
  by (cases "ParseHarnessMode (Ha_Mode h)"; cases "projr (ParseHarnessMode (Ha_Mode h))") (auto simp: res_iff)

lemma service_filled_keep [simp]:
  "Sv_Name (service_filled s) = Sv_Name s" "Sv_Container (service_filled s) = Sv_Container s"
  by (simp_all add: service_filled_def)

lemma services_loop_Inr [res_iff]:
  "services_loop has_ssh seen ss = Inr r \<longleftrightarrow>
     (\<forall>s \<in> set ss. service_ok s \<and> (Sv_Container s \<noteq> '''' \<longrightarrow> has_ssh)) \<and> distinct (map Sv_Name ss) \<and>
     Sv_Name ` set ss \<inter> set seen = {} \<and> r = (map service_filled ss, rev (map Sv_Name ss) @ seen)"
proof (induction ss arbitrary: seen r)
  case Nil
  show ?case by auto
next
  case (Cons s ss)
  show ?case
    unfolding services_loop.simps res_iff Cons.IH by (auto simp: image_iff)
qed

definition sampler_filled :: "SamplerConfig \<Rightarrow> SamplerConfig" where
  "sampler_filled s = s\<lparr>Sa_interval := dur_value (Sa_IntervalStr s) (15 * nsMinute),
     Sa_retention := dur_value (Sa_RetentionStr s) (90 * 24 * nsHour)\<rparr>"

lemma Sampler_resolve_Inr [res_iff]:
  "Sampler_resolve s = Inr s' \<longleftrightarrow> dur_ok (Sa_IntervalStr s) \<and> dur_ok (Sa_RetentionStr s) \<and> s' = sampler_filled s"
  unfolding Sampler_resolve_def res_iff sampler_filled_def by auto

definition unraid_ok :: "UnraidConfig \<Rightarrow> bool" where
  "unraid_ok u \<longleftrightarrow> dur_ok (Un_GraphQLTimeoutStr u) \<and> dur_ok (Un_EmhttpTimeoutStr u) \<and> dur_ok (Un_SmartTimeoutStr u) \<and>
     dur_ok (Un_DockerTimeoutStr u) \<and> dur_ok (Un_ReachabilityTimeoutStr u) \<and> dur_ok (Un_CPUSampleIntervalStr u)"

definition unraid_filled :: "UnraidConfig \<Rightarrow> UnraidConfig" where
  "unraid_filled u = u\<lparr>
     Un_GraphQLURL := str_default (Un_GraphQLURL u) ''http://127.0.0.1/graphql'',
     Un_SmartctlPath := str_default (Un_SmartctlPath u) ''smartctl'',
     Un_DockerSocket := str_default (Un_DockerSocket u) ''/var/run/docker.sock'',
     Un_TailscalePath := str_default (Un_TailscalePath u) ''tailscale'',
     Un_HostProcPath := str_default (Un_HostProcPath u) ''/host/proc'',
     Un_graphqlTimeout := dur_value (Un_GraphQLTimeoutStr u) (10 * nsSecond),
     Un_emhttpTimeout := dur_value (Un_EmhttpTimeoutStr u) (2 * nsSecond),
     Un_smartTimeout := dur_value (Un_SmartTimeoutStr u) (15 * nsSecond),
     Un_dockerTimeout := dur_value (Un_DockerTimeoutStr u) (5 * nsSecond),
     Un_reachabilityTimeout := dur_value (Un_ReachabilityTimeoutStr u) (5 * nsSecond),
     Un_cpuSampleInterval := dur_value (Un_CPUSampleIntervalStr u) (250 * nsMillisecond)\<rparr>"

lemma Unraid_resolve_Inr [res_iff]: "Unraid_resolve u = Inr u' \<longleftrightarrow> unraid_ok u \<and> u' = unraid_filled u"
  unfolding Unraid_resolve_def Let_def res_iff unraid_ok_def unraid_filled_def by auto

definition scripts_ok :: "ScriptsConfig \<Rightarrow> bool" where
  "scripts_ok s \<longleftrightarrow> dur_ok (Sc_DryRunTimeoutStr s) \<and> dur_ok (Sc_RunTimeoutStr s) \<and> dur_ok (Sc_SessionGrantTTLStr s) \<and>
     dur_ok (Sc_StandingGrantTTLStr s)"

definition scripts_filled :: "ScriptsConfig \<Rightarrow> ScriptsConfig" where
  "scripts_filled s = s\<lparr>Sc_dryRunTimeout := dur_value (Sc_DryRunTimeoutStr s) (15 * nsSecond),
     Sc_runTimeout := dur_value (Sc_RunTimeoutStr s) (5 * nsMinute),
     Sc_sessionGrantTTL := dur_value (Sc_SessionGrantTTLStr s) (4 * nsHour),
     Sc_standingGrantTTL := dur_value (Sc_StandingGrantTTLStr s) (90 * 24 * nsHour)\<rparr>"

lemma Scripts_resolve_Inr [res_iff]: "Scripts_resolve s = Inr s' \<longleftrightarrow> scripts_ok s \<and> s' = scripts_filled s"
  unfolding Scripts_resolve_def res_iff scripts_ok_def scripts_filled_def by auto

text \<open>The first occurrence of every name, in order.\<close>

fun first_occurrences :: "string list \<Rightarrow> string list" where
  "first_occurrences [] = []"
| "first_occurrences (x # xs) = x # filter (\<lambda>y. y \<noteq> x) (first_occurrences xs)"

lemma set_first_occurrences [simp]: "set (first_occurrences xs) = set xs"
  by (induction xs) auto

lemma distinct_first_occurrences [simp]: "distinct (first_occurrences xs)"
  by (induction xs) auto

lemma dedup_loop_Inr [res_iff]:
  "dedup_loop seen acc ns = Inr r \<longleftrightarrow>
     (\<forall>n \<in> set ns. containerNameRe n) \<and> r = acc @ filter (\<lambda>n. n \<notin> set seen) (first_occurrences ns)"
proof (induction seen acc ns rule: dedup_loop.induct)
  case (2 seen acc name ns)
  have "filter (\<lambda>x. x \<notin> set seen \<and> x \<noteq> name) (first_occurrences ns) = filter (\<lambda>n. n \<notin> set seen) (first_occurrences ns)"
    if "name \<in> set seen"
    using that by (intro filter_cong) auto
  then show ?case using 2 by (auto simp: conj_commute)
qed auto

definition commands_filled :: "CommandsConfig \<Rightarrow> CommandsConfig" where
  "commands_filled c = c\<lparr>Co_AllowRestart := first_occurrences (Co_AllowRestart c),
     Co_timeout := dur_value (Co_TimeoutStr c) (30 * nsSecond)\<rparr>"

lemma Commands_resolve_Inr [res_iff]:
  "Commands_resolve c = Inr c' \<longleftrightarrow>
     dur_ok (Co_TimeoutStr c) \<and> (\<forall>n \<in> set (Co_AllowRestart c). containerNameRe n) \<and> c' = commands_filled c"
  unfolding Commands_resolve_def res_iff commands_filled_def by auto

definition history_ok :: "HistoryConfig \<Rightarrow> bool" where
  "history_ok h \<longleftrightarrow> Hi_WindowStr h = '''' \<or> (case ParseDuration (Hi_WindowStr h) of Inl _ \<Rightarrow> False | Inr d \<Rightarrow> 0 \<le> d)"

definition history_filled :: "HistoryConfig \<Rightarrow> HistoryConfig" where
  "history_filled h = h\<lparr>Hi_window := dur_value (Hi_WindowStr h) (24 * nsHour)\<rparr>"

lemma resolve_history_Inr [res_iff]: "resolve_history h = Inr h' \<longleftrightarrow> history_ok h \<and> h' = history_filled h"
  unfolding resolve_history_def history_ok_def history_filled_def dur_value_def
  by (auto simp: res_bind_def res_wrap_def split: sum.splits)

lemma resolve_set_Inr:
  "resolve_set f p = Inr q \<longleftrightarrow> (case p of None \<Rightarrow> q = None | Some x \<Rightarrow> (\<exists>y. f x = Inr y \<and> q = Some y))"
  by (auto simp: resolve_set_def res_iff split: option.split)

definition harness_block :: "Config \<Rightarrow> HarnessConfig" where
  "harness_block c = (case C_Harness c of None \<Rightarrow> empty_Harness | Some h \<Rightarrow> h)"

definition acceptable :: "(string \<Rightarrow> string + URL) \<Rightarrow> Config \<Rightarrow> bool" where
  "acceptable parse c \<longleftrightarrow>
     C_SchemaVersion c = 1 \<and>
     pred_option ssh_ok (C_SSH c) \<and>
     (\<forall>s \<in> set (C_Services c). service_ok s \<and> (Sv_Container s \<noteq> '''' \<longrightarrow> C_SSH c \<noteq> None)) \<and>
     distinct (map Sv_Name (C_Services c)) \<and>
     harness_ok parse (map Sv_Name (C_Services c)) (C_SSH c) (harness_block c) \<and>
     pred_option (\<lambda>h. host_ok h \<and> Ho_Name h \<notin> set (map Sv_Name (C_Services c)) \<and> (Ho_SSHMetrics h \<longrightarrow> C_SSH c \<noteq> None)) (C_Host c) \<and>
     (Te_BotToken (C_Telegram c) = '''' \<longleftrightarrow> Te_ChatID (C_Telegram c) = '''') \<and>
     history_ok (C_History c) \<and>
     dur_ok (Sa_IntervalStr (C_Sampler c)) \<and> dur_ok (Sa_RetentionStr (C_Sampler c)) \<and>
     pred_option unraid_ok (C_Unraid c) \<and> scripts_ok (C_Scripts c) \<and>
     dur_ok (Co_TimeoutStr (C_Commands c)) \<and> (\<forall>n \<in> set (Co_AllowRestart (C_Commands c)). containerNameRe n)"

definition filled :: "Config \<Rightarrow> Config" where
  "filled c = c\<lparr>C_HTTPAddr := str_default (C_HTTPAddr c) '':8080'',
     C_DatabasePath := str_default (C_DatabasePath c) ''server-assistant.db'',
     C_SSH := map_option ssh_filled (C_SSH c), C_Services := map service_filled (C_Services c),
     C_Harness := Some (harness_filled (harness_block c)), C_Host := map_option host_filled (C_Host c),
     C_History := history_filled (C_History c), C_Sampler := sampler_filled (C_Sampler c),
     C_Unraid := map_option unraid_filled (C_Unraid c), C_Scripts := scripts_filled (C_Scripts c),
     C_Commands := commands_filled (C_Commands c)\<rparr>"

lemma harness_ok_names: "set ns = set ms \<Longrightarrow> harness_ok parse ns ssh h = harness_ok parse ms ssh h"
  by (simp add: harness_ok_def)

lemma live_ok_filled: "live_ok (map_option ssh_filled ssh) h = live_ok ssh h"
  by (cases ssh) (auto simp: live_ok_def same_credential_def ssh_filled_def split: option.split)

lemma harness_ok_filled: "harness_ok parse ns (map_option ssh_filled ssh) h = harness_ok parse ns ssh h"
  unfolding harness_ok_def live_ok_filled by (rule refl)

lemma set_block_Inr [res_iff]:
  "resolve_set SSH_resolve p = Inr q \<longleftrightarrow> pred_option ssh_ok p \<and> q = map_option ssh_filled p"
  "resolve_set (check_host seen b) hp = Inr hq \<longleftrightarrow>
     pred_option (\<lambda>h. host_ok h \<and> Ho_Name h \<notin> set seen \<and> (Ho_SSHMetrics h \<longrightarrow> b)) hp \<and> hq = map_option host_filled hp"
  "resolve_set Unraid_resolve up = Inr uq \<longleftrightarrow> pred_option unraid_ok up \<and> uq = map_option unraid_filled up"
  by (auto simp: resolve_set_Inr res_iff split: option.split)

lemma validate_iff:
  "validate parse c = Inr c' \<longleftrightarrow> acceptable parse c \<and> c' = filled c"
proof (cases "C_SchemaVersion c = 1")
  case True
  have names: "harness_ok parse (rev (map Sv_Name (C_Services c))) ssh h =
      harness_ok parse (map Sv_Name (C_Services c)) ssh h" for ssh h
    by (rule harness_ok_names) simp
  show ?thesis
    unfolding validate_def acceptable_def filled_def SupportedSchemaVersion_def harness_block_def [symmetric] res_iff
    by (simp add: True names harness_ok_filled res_iff eq_commute [of _ c'] conj_ac)
next
  case False
  then show ?thesis by (simp add: validate_def acceptable_def SupportedSchemaVersion_def)
qed

text \<open>C33: the checks amount to the rules. \<open>validate\<close> accepts a configuration exactly when it satisfies
  the declarative rules, and then returns it with every default filled in; neither the
  order of the checks nor the order in which a map is visited matters.\<close>

theorem validate_accepts_iff:
  "validate parse c = Inr c' \<longleftrightarrow> acceptable parse c \<and> c' = filled c"
  by (rule validate_iff)

section \<open>What a loaded configuration guarantees\<close>

definition pos_dur :: "duration \<Rightarrow> bool" where
  "pos_dur d \<longleftrightarrow> 0 < d \<and> d < two63"

definition safe_harness :: "(string \<Rightarrow> string + URL) \<Rightarrow> Config \<Rightarrow> HarnessConfig \<Rightarrow> bool" where
  "safe_harness parse c h \<longleftrightarrow> knobs_ok h \<and>
     list_all (\<lambda>(svc, cont). svc \<in> Sv_Name ` set (C_Services c) \<and> containerNameRe cont) (Ha_Targets h) \<and>
     (case ParseHarnessMode (Ha_Mode h) of
        Inl _ \<Rightarrow> False
      | Inr HarnessOff \<Rightarrow> True
      | Inr HarnessShadow \<Rightarrow> reasoner_ok parse (Ha_Reasoner h)
      | Inr HarnessLive \<Rightarrow> reasoner_ok parse (Ha_Reasoner h) \<and> snd ` set (Ha_Targets h) \<subseteq> set (Ha_AllowRestart h) \<and>
          (case Ha_WriteSSH h of
             None \<Rightarrow> False
           | Some w \<Rightarrow> ssh_ok w \<and> pos_dur (SSH_probeTimeout w) \<and> pred_option (\<lambda>r. \<not> same_credential w r) (C_SSH c)))"

definition safe_config :: "(string \<Rightarrow> string + URL) \<Rightarrow> Config \<Rightarrow> bool" where
  "safe_config parse c \<longleftrightarrow>
     list_all (\<lambda>s. name_ok (Sv_Name s) \<and> one_kind s \<and> pos_dur (Sv_poll s) \<and> pos_dur (Sv_probeTimeout s) \<and>
       pos_dur (Sv_threshold s) \<and> 1 \<le> Sv_DebounceN s \<and> (Sv_Container s = '''' \<or> C_SSH c \<noteq> None)) (C_Services c) \<and>
     distinct (map Sv_Name (C_Services c)) \<and>
     pred_option (\<lambda>h. name_ok (Ho_Name h) \<and> Ho_Name h \<notin> Sv_Name ` set (C_Services c) \<and> pos_dur (Ho_poll h) \<and>
       pos_dur (Ho_probeTimeout h) \<and> 1 \<le> Ho_DebounceN h) (C_Host c) \<and>
     pred_option (\<lambda>s. ssh_ok s \<and> pos_dur (SSH_probeTimeout s)) (C_SSH c) \<and>
     (case C_Harness c of None \<Rightarrow> False | Some h \<Rightarrow> safe_harness parse c h) \<and>
     0 \<le> Hi_window (C_History c) \<and> pos_dur (Sa_interval (C_Sampler c)) \<and> pos_dur (Sa_retention (C_Sampler c)) \<and>
     pos_dur (Sc_sessionGrantTTL (C_Scripts c)) \<and> pos_dur (Sc_standingGrantTTL (C_Scripts c)) \<and>
     ProtectedFSPaths (C_Scripts c) \<noteq> [] \<and>
     distinct (Co_AllowRestart (C_Commands c)) \<and> list_all containerNameRe (Co_AllowRestart (C_Commands c))"

lemma pos_dur_value: "dur_ok v \<Longrightarrow> 0 < def \<Longrightarrow> def < two63 \<Longrightarrow> pos_dur (dur_value v def)"
  by (simp add: pos_dur_def dur_value_pos dur_value_bound)

lemma or_default_pos: "0 \<le> n \<Longrightarrow> 0 < def \<Longrightarrow> 1 \<le> or_default n def"
  by (simp add: or_default_def)

lemma defaults_idem: "harness_defaults (harness_defaults h) = harness_defaults h"
  by (simp add: harness_defaults_def or_default_def ns_defs)

lemma ssh_filled_keep [simp]: "ssh_ok (ssh_filled s) = ssh_ok s" "same_credential (ssh_filled s) r = same_credential s r"
  "same_credential r (ssh_filled s) = same_credential r s" "ssh_filled (ssh_filled s) = ssh_filled s"
  by (simp_all add: ssh_ok_def ssh_filled_def same_credential_def)

lemma service_safe:
  "service_ok s \<Longrightarrow> name_ok (Sv_Name s) \<and> one_kind (service_filled s) \<and> pos_dur (Sv_poll (service_filled s)) \<and>
     pos_dur (Sv_probeTimeout (service_filled s)) \<and> pos_dur (Sv_threshold (service_filled s)) \<and> 1 \<le> Sv_DebounceN (service_filled s)"
  by (simp add: service_ok_def service_filled_def or_default_pos one_kind_def pos_dur_value ns_defs two63_def)

lemma host_safe:
  "host_ok h \<Longrightarrow> name_ok (Ho_Name (host_filled h)) \<and> pos_dur (Ho_poll (host_filled h)) \<and> pos_dur (Ho_probeTimeout (host_filled h)) \<and>
     1 \<le> Ho_DebounceN (host_filled h)"
  by (simp add: host_ok_def host_filled_def or_default_pos pos_dur_value ns_defs two63_def)

lemma ssh_safe: "ssh_ok s \<Longrightarrow> pos_dur (SSH_probeTimeout (ssh_filled s))"
  by (simp add: ssh_ok_def ssh_filled_def pos_dur_value ns_defs two63_def)

lemma harness_filled_keep [simp]:
  "Ha_Targets (harness_filled h) = Ha_Targets h" "Ha_AllowRestart (harness_filled h) = Ha_AllowRestart h"
  "Ha_Mode (harness_filled h) = Ha_Mode h" "knobs_ok (harness_filled h) = knobs_ok (harness_defaults h)"
  "reasoner_ok parse (Ha_Reasoner (harness_filled h)) = reasoner_ok parse (Ha_Reasoner h)"
  by (simp_all add: harness_filled_def Let_def knobs_ok_def)

lemma harness_safe:
  assumes "harness_ok parse (map Sv_Name (C_Services c)) (C_SSH c) h"
  shows "safe_harness parse (filled c) (harness_filled h)"
proof (cases "ParseHarnessMode (Ha_Mode h) = Inr HarnessLive")
  case True
  with assms obtain w where w: "Ha_WriteSSH h = Some w" "ssh_ok w" "pred_option (\<lambda>r. \<not> same_credential w r) (C_SSH c)"
    "snd ` set (Ha_Targets h) \<subseteq> set (Ha_AllowRestart h)" "reasoner_ok parse (Ha_Reasoner h)"
    by (auto simp: harness_ok_def live_ok_def split: option.splits)
  then have "Ha_WriteSSH (harness_filled h) = Some (ssh_filled w)"
    by (simp add: harness_filled_def True Let_def)
  moreover have "pred_option (\<lambda>r. \<not> same_credential w r) (map_option ssh_filled (C_SSH c))"
    using w(3) by (cases "C_SSH c") simp_all
  ultimately show ?thesis
    using assms w True
    by (auto simp: safe_harness_def harness_ok_def list_all_iff filled_def image_image ssh_safe)
next
  case False
  then show ?thesis
    using assms
    by (auto simp: safe_harness_def harness_ok_def list_all_iff filled_def image_image split: sum.splits HarnessMode.splits)
qed

lemma acceptable_safe:
  assumes "acceptable parse c"
  shows "safe_config parse (filled c)"
proof -
  have "list_all (\<lambda>s. name_ok (Sv_Name s) \<and> one_kind s \<and> pos_dur (Sv_poll s) \<and> pos_dur (Sv_probeTimeout s) \<and>
       pos_dur (Sv_threshold s) \<and> 1 \<le> Sv_DebounceN s \<and> (Sv_Container s = '''' \<or> C_SSH (filled c) \<noteq> None)) (C_Services (filled c))"
    using assms service_safe by (auto simp: acceptable_def filled_def list_all_iff)
  moreover have "pred_option (\<lambda>h. name_ok (Ho_Name h) \<and> Ho_Name h \<notin> Sv_Name ` set (C_Services (filled c)) \<and> pos_dur (Ho_poll h) \<and>
       pos_dur (Ho_probeTimeout h) \<and> 1 \<le> Ho_DebounceN h) (C_Host (filled c))"
    using assms host_safe
    by (cases "C_Host c") (auto simp: acceptable_def filled_def image_image)
  moreover have "pred_option (\<lambda>s. ssh_ok s \<and> pos_dur (SSH_probeTimeout s)) (C_SSH (filled c))"
    using assms ssh_safe by (cases "C_SSH c") (auto simp: acceptable_def filled_def)
  moreover have "0 \<le> Hi_window (C_History (filled c))"
    using assms by (auto simp: acceptable_def filled_def history_ok_def history_filled_def dur_value_def ns_defs split: sum.splits)
  ultimately show ?thesis
    using assms harness_safe [of parse c "harness_block c"]
    by (simp add: safe_config_def acceptable_def filled_def sampler_filled_def scripts_filled_def scripts_ok_def commands_filled_def
        pos_dur_value ns_defs two63_def ProtectedFSPaths_def list_all_iff o_def)
qed

text \<open>Filling in twice changes nothing more, and a filled configuration is acceptable.\<close>

lemma or_default_idem: "def \<noteq> 0 \<Longrightarrow> or_default (or_default n def) def = or_default n def"
  by (simp add: or_default_def)

lemma blocks_idem:
  "service_filled (service_filled s) = service_filled s" "host_filled (host_filled h) = host_filled h"
  "history_filled (history_filled hi) = history_filled hi" "sampler_filled (sampler_filled sa) = sampler_filled sa"
  "scripts_filled (scripts_filled sc) = scripts_filled sc" "unraid_filled (unraid_filled u) = unraid_filled u"
  by (simp_all add: service_filled_def host_filled_def history_filled_def sampler_filled_def scripts_filled_def unraid_filled_def
      or_default_idem str_default_def)

lemma first_occurrences_idem: "distinct xs \<Longrightarrow> first_occurrences xs = xs"
  by (induction xs) (auto intro: filter_True)

lemma commands_idem: "commands_filled (commands_filled c) = commands_filled c"
  by (simp add: commands_filled_def first_occurrences_idem)

lemma defaults_write [simp]: "harness_defaults (h\<lparr>Ha_WriteSSH := w\<rparr>) = (harness_defaults h)\<lparr>Ha_WriteSSH := w\<rparr>"
  by (simp add: harness_defaults_def)

lemma knobs_write [simp]: "knobs_ok (h\<lparr>Ha_WriteSSH := w\<rparr>) = knobs_ok h"
  by (simp add: knobs_ok_def)

lemma harness_idem: "harness_filled (harness_filled h) = harness_filled h"
  by (simp add: harness_filled_def Let_def defaults_idem option.map_comp o_def)

lemma harness_block_filled [simp]: "harness_block (filled c) = harness_filled (harness_block c)"
  by (simp add: filled_def harness_block_def)

lemma filled_idem: "filled (filled c) = filled c"
  by (simp add: filled_def harness_block_def blocks_idem commands_idem harness_idem str_default_def option.map_comp o_def)

lemma blocks_ok:
  "service_ok (service_filled s) = service_ok s" if "service_ok s" for s
  using that by (simp add: service_ok_def service_filled_def one_kind_def or_default_def)

lemma harness_ok_fill: "harness_ok parse ns ssh h \<Longrightarrow> harness_ok parse ns ssh (harness_filled h)"
  by (auto simp: harness_ok_def harness_filled_def Let_def defaults_idem live_ok_def split: sum.splits HarnessMode.splits option.splits)

lemma acceptable_filled:
  assumes "acceptable parse c"
  shows "acceptable parse (filled c)"
proof -
  have names: "map Sv_Name (C_Services (filled c)) = map Sv_Name (C_Services c)" and ssh: "C_SSH (filled c) = map_option ssh_filled (C_SSH c)"
    by (simp_all add: filled_def)
  have "harness_ok parse (map Sv_Name (C_Services (filled c))) (C_SSH (filled c)) (harness_block (filled c))"
    unfolding names ssh harness_ok_filled harness_block_filled
    by (rule harness_ok_fill) (use assms in \<open>simp add: acceptable_def\<close>)
  moreover have "\<forall>s \<in> set (C_Services (filled c)). service_ok s \<and> (Sv_Container s \<noteq> '''' \<longrightarrow> C_SSH (filled c) \<noteq> None)"
    using assms blocks_ok by (auto simp: acceptable_def filled_def)
  moreover have "pred_option ssh_ok (C_SSH (filled c)) \<and> pred_option unraid_ok (C_Unraid (filled c)) \<and>
      pred_option (\<lambda>h. host_ok h \<and> Ho_Name h \<notin> set (map Sv_Name (C_Services (filled c))) \<and> (Ho_SSHMetrics h \<longrightarrow> C_SSH (filled c) \<noteq> None)) (C_Host (filled c))"
    using assms
    by (cases "C_SSH c"; cases "C_Unraid c"; cases "C_Host c")
      (auto simp: acceptable_def filled_def unraid_ok_def unraid_filled_def host_ok_def host_filled_def or_default_def image_image)
  ultimately show ?thesis
    using assms
    by (simp add: acceptable_def names)
      (simp add: filled_def history_ok_def history_filled_def sampler_filled_def scripts_ok_def scripts_filled_def commands_filled_def)
qed

text \<open>C34: what the rest of the program may rely on. A loaded configuration has distinct, dashboard-safe
  subject names, exactly one probe kind per Service, positive 64-bit durations and debounce
  counts; in live mode every target container is allowlisted and the write credential
  differs from the read one; whenever the harness is on, a reasoner off the box is marked as cloud and
  one on the box is not. Validating the loaded configuration again returns it unchanged.\<close>

theorem loaded_config_safe:
  assumes "Load parse look unmarshal path contents = Inr c"
  shows "safe_config parse c \<and> validate parse c = Inr c"
proof -
  obtain c1 where "validate parse c1 = Inr c" using assms by (auto simp: Load_def res_iff)
  then have "acceptable parse c1" "c = filled c1" by (simp_all add: validate_iff)
  then show ?thesis
    using acceptable_safe acceptable_filled by (simp add: validate_iff filled_idem)
qed

section \<open>Secrets\<close>

text \<open>The fields in which variables are expanded, in the order of the code.\<close>

definition ssh_fields :: "SSHConfig \<Rightarrow> string list" where
  "ssh_fields s = [SSH_Address s, SSH_User s, SSH_Password s, SSH_KeyFile s]"

definition opt_fields :: "('a \<Rightarrow> string list) \<Rightarrow> 'a option \<Rightarrow> string list" where
  "opt_fields f p = (case p of None \<Rightarrow> [] | Some x \<Rightarrow> f x)"

definition unraid_fields :: "UnraidConfig \<Rightarrow> string list" where
  "unraid_fields u = [Un_GraphQLURL u, Un_APIKey u, Un_SmartctlPath u, Un_DockerSocket u, Un_TailscalePath u]"

definition service_fields :: "ServiceConfig \<Rightarrow> string list" where
  "service_fields s = [Sv_URL s, Sv_TCPAddr s, Sv_Container s]"

definition harness_fields :: "HarnessConfig \<Rightarrow> string list" where
  "harness_fields h = Re_APIKey (Ha_Reasoner h) # opt_fields ssh_fields (Ha_WriteSSH h)"

definition secret_fields :: "Config \<Rightarrow> string list" where
  "secret_fields c = [C_HTTPAddr c, C_DatabasePath c] @ concat (map service_fields (C_Services c)) @
     [Te_BotToken (C_Telegram c), Te_ChatID (C_Telegram c), MC_AuthToken (C_MCP c)] @
     opt_fields unraid_fields (C_Unraid c) @ opt_fields (\<lambda>h. [Ho_Address h]) (C_Host c) @
     opt_fields ssh_fields (C_SSH c) @ opt_fields harness_fields (C_Harness c)"

definition expanded :: "(string \<Rightarrow> string option) \<Rightarrow> string \<Rightarrow> string" where
  "expanded look s = fst (os_Expand look s)"

definition unset_names :: "(string \<Rightarrow> string option) \<Rightarrow> string list \<Rightarrow> string list" where
  "unset_names look fs = concat (map (\<lambda>s. snd (os_Expand look s)) fs)"

text \<open>A block is expanded field by field when its fields become the expanded ones and the names
  that were not set are appended.\<close>

definition expands :: "(string \<Rightarrow> string option) \<Rightarrow> ('a \<Rightarrow> string list) \<Rightarrow> ('a \<Rightarrow> (string list, 'a) state) \<Rightarrow> bool" where
  "expands look fl m \<longleftrightarrow> (\<forall>x ms. fl (fst (run_state (m x) ms)) = map (expanded look) (fl x) \<and>
     snd (run_state (m x) ms) = ms @ unset_names look (fl x))"

lemma run_bind: "run_state (State_Monad.bind m f) s = run_state (f (fst (run_state m s))) (snd (run_state m s))"
  by (simp add: State_Monad.bind_def split: prod.split)

lemma run_return: "run_state (State_Monad.return a) s = (a, s)"
  by (simp add: State_Monad.return_def)

lemma run_expand: "run_state (r_expand look s) ms = (expanded look s, ms @ snd (os_Expand look s))"
  by (simp add: r_expand_def expanded_def split: prod.split)

lemma unset_names_simps:
  "unset_names look [] = []" "unset_names look (x # xs) = snd (os_Expand look x) @ unset_names look xs"
  "unset_names look (xs @ ys) = unset_names look xs @ unset_names look ys"
  by (simp_all add: unset_names_def)

lemmas run_secrets = run_bind run_return run_expand unset_names_simps case_prod_beta

lemma expandsD:
  assumes "expands look fl m"
  shows "fl (fst (run_state (m x) ms)) = map (expanded look) (fl x)" "snd (run_state (m x) ms) = ms @ unset_names look (fl x)"
  using assms by (simp_all add: expands_def)

lemma expands_blocks:
  "expands look ssh_fields (expand_ssh look)"
  "expands look unraid_fields (expand_unraid look)"
  "expands look (\<lambda>h. [Ho_Address h]) (expand_host look)"
  by (simp_all add: expands_def expand_ssh_def expand_unraid_def expand_host_def run_secrets ssh_fields_def unraid_fields_def)

lemma expands_opt:
  assumes "expands look fl m"
  shows "expands look (opt_fields fl) (when_set m)"
  by (simp add: expands_def when_set_def run_secrets opt_fields_def expandsD [OF assms] split: option.split)

lemma expands_services: "expands look (\<lambda>ss. concat (map service_fields ss)) (expand_services look)"
proof -
  have "concat (map service_fields (fst (run_state (expand_services look ss) ms))) =
      map (expanded look) (concat (map service_fields ss)) \<and>
      snd (run_state (expand_services look ss) ms) = ms @ unset_names look (concat (map service_fields ss))" for ss ms
    by (induction ss arbitrary: ms) (simp_all add: run_secrets service_fields_def)
  then show ?thesis by (simp add: expands_def)
qed

lemma expands_harness: "expands look harness_fields (expand_harness look)"
  by (simp add: expands_def expand_harness_def run_secrets harness_fields_def expandsD [OF expands_opt [OF expands_blocks(1)]])

lemmas expands_all = expandsD [OF expands_services] expandsD [OF expands_opt [OF expands_blocks(1)]]
  expandsD [OF expands_opt [OF expands_blocks(2)]] expandsD [OF expands_opt [OF expands_blocks(3)]]
  expandsD [OF expands_opt [OF expands_harness]]

lemma expands_config: "expands look secret_fields (expand_config look)"
  by (simp add: expands_def expand_config_def run_secrets secret_fields_def expands_all)

text \<open>C35: secrets. Loading replaces every variable reference in each secret-bearing field by its
  value when all of them are set; otherwise it fails and the error lists exactly the unset names, sorted
  and each once.\<close>

theorem resolveSecrets_all_or_error:
  "case resolveSecrets look c of
     Inr c' \<Rightarrow> unset_names look (secret_fields c) = [] \<and> secret_fields c' = map (expanded look) (secret_fields c)
   | Inl e \<Rightarrow> \<exists>names. e = MsgOf ''config references unset environment variables'' names \<and> names \<noteq> [] \<and>
       sorted names \<and> distinct names \<and> set names = set (unset_names look (secret_fields c))"
proof -
  let ?r = "run_state (expand_config look c) []"
  have "secret_fields (fst ?r) = map (expanded look) (secret_fields c)" "snd ?r = unset_names look (secret_fields c)"
    by (simp_all add: expandsD [OF expands_config])
  then show ?thesis
    by (simp add: resolveSecrets_def resolver_err_def sort_Strings_def case_prod_beta)
      (metis sort_key_simps(1) set_empty set_remdups set_sort)
qed

section \<open>A concrete configuration\<close>

text \<open>A live configuration with one container Service, secrets from the environment and a URL parser
  that knows one address.\<close>

definition sample_parse :: "string \<Rightarrow> string + URL" where
  "sample_parse s = (if s = ''http://127.0.0.1:11434/v1'' then Inr \<lparr>URL_Scheme = ''http'', URL_Host = ''127.0.0.1:11434''\<rparr>
     else Inl ''parse'')"

definition sample_ssh :: "string \<Rightarrow> SSHConfig" where
  "sample_ssh user = \<lparr>SSH_Address = ''tower:22'', SSH_User = user, SSH_Password = ''${PW}'', SSH_KeyFile = '''',
     SSH_HostKey = '''', SSH_Timeout = '''', SSH_probeTimeout = 0\<rparr>"

definition sample_config :: Config where
  "sample_config = \<lparr>C_SchemaVersion = 1, C_HTTPAddr = '''', C_DatabasePath = '''',
     C_Services = [\<lparr>Sv_Name = ''plex'', Sv_URL = '''', Sv_TCPAddr = '''', Sv_Container = ''plex'', Sv_PollInterval = ''1m'',
       Sv_Timeout = '''', Sv_LatencyThreshold = '''', Sv_DebounceN = 0, Sv_poll = 0, Sv_probeTimeout = 0, Sv_threshold = 0\<rparr>],
     C_Telegram = \<lparr>Te_BotToken = '''', Te_ChatID = ''''\<rparr>, C_Host = None, C_SSH = Some (sample_ssh ''probe''),
     C_History = \<lparr>Hi_WindowStr = '''', Hi_window = 0\<rparr>,
     C_Harness = Some (empty_Harness\<lparr>Ha_Mode := ''live'', Ha_Targets := [(''plex'', ''plex'')], Ha_AllowRestart := [''plex''],
       Ha_Reasoner := \<lparr>Re_BaseURL = ''http://127.0.0.1:11434/v1'', Re_Model = ''m'', Re_APIKey = '''', Re_Timeout = 0, Re_Cloud = False\<rparr>,
       Ha_WriteSSH := Some (sample_ssh ''restart'')\<rparr>),
     C_Sampler = \<lparr>Sa_IntervalStr = '''', Sa_RetentionStr = '''', Sa_interval = 0, Sa_retention = 0\<rparr>, C_Unraid = None,
     C_MCP = \<lparr>MC_DashboardBaseURL = '''', MC_AuthToken = ''''\<rparr>,
     C_Scripts = \<lparr>Sc_DryRunTimeoutStr = '''', Sc_RunTimeoutStr = '''', Sc_SessionGrantTTLStr = '''', Sc_StandingGrantTTLStr = '''',
       Sc_ProtectedPaths = [], Sc_dryRunTimeout = 0, Sc_runTimeout = 0, Sc_sessionGrantTTL = 0, Sc_standingGrantTTL = 0\<rparr>,
     C_Commands = \<lparr>Co_AllowRestart = [], Co_TimeoutStr = '''', Co_timeout = 0\<rparr>\<rparr>"

definition sample_load :: "(string \<Rightarrow> string option) \<Rightarrow> Config cfg" where
  "sample_load look = Load sample_parse look (\<lambda>_. Inr sample_config) ''config.yaml'' (Inr '''')"

lemma sample_loads: "isl (sample_load (\<lambda>_. Some ''pw'')) = False"
  by code_simp

lemma sample_unset: "sample_load (\<lambda>_. None) =
    Inl (MsgWrap ''invalid config config.yaml'' (MsgOf ''config references unset environment variables'' [''PW'']))"
  by code_simp

theorem loaded_config_safe_witness:
  "safe_config sample_parse (projr (sample_load (\<lambda>_. Some ''pw''))) \<and>
   validate sample_parse (projr (sample_load (\<lambda>_. Some ''pw''))) = Inr (projr (sample_load (\<lambda>_. Some ''pw'')))"
proof -
  have "sample_load (\<lambda>_. Some ''pw'') = Inr (projr (sample_load (\<lambda>_. Some ''pw'')))"
    using sample_loads by (cases "sample_load (\<lambda>_. Some ''pw'')") simp_all
  then show ?thesis unfolding sample_load_def by (rule loaded_config_safe)
qed

end
