(* ===== verification/Control.thy ===== *)
theory Control
  imports Config_Props Sandbox
begin

text \<open>
  The two paths that restart a container: the operator-command catalog of \<open>internal/commands\<close> behind
  the dashboard's run route (\<open>internal/web/commands.go\<close>, joined by \<open>commandBridge\<close>), which posts to
  the Docker socket (\<open>internal/unraid/docker.go\<close>), and the SSH actuator of \<open>internal/actuator\<close>. The
  Docker daemon's answer, the SSH runner and the clock are the environment of a call; the request
  paths that reach Docker, the command lines that reach the runner and the audit records are
  logged. The locale \<open>restart_gate\<close> is their common contract: a restart reaches an allowed
  container only, and one request restarts at most one.
\<close>

section \<open>The Docker client's restart\<close>

datatype docker_reply = BuildFailed string | RequestFailed string | Replied int

definition docker_Restart :: "docker_reply \<Rightarrow> string \<Rightarrow> string option" where
  "docker_Restart reply name =
     (case reply of
        BuildFailed e \<Rightarrow> Some (''unraid docker: build restart request for '' @ name @ '': '' @ e)
      | RequestFailed e \<Rightarrow> Some (''unraid docker: restart '' @ name @ '': '' @ e)
      | Replied code \<Rightarrow>
          if code \<noteq> 204 then Some (''unraid docker: restart '' @ name @ '' returned http '' @ itoa code) else None)"

definition restart_path :: "string \<Rightarrow> string" where
  "restart_path name = ''/containers/'' @ name @ ''/restart''"

section \<open>The command catalog\<close>

definition restartVerb :: string where
  "restartVerb = ''restart-container''"

definition ErrUnknownCommand :: string where
  "ErrUnknownCommand = ''commands: unknown or disallowed command id''"

record Command =
  Cm_ID :: string
  Cm_Label :: string
  Cm_Description :: string
  Cm_Consequence :: string

record CommandResult =
  CR_OK :: bool
  CR_Output :: string
  CR_StartedAt :: gotime
  CR_FinishedAt :: gotime

record audit_record =
  Au_id :: string
  Au_who :: string
  Au_target :: string
  Au_ok :: bool
  Au_output :: string
  Au_started :: gotime
  Au_finished :: gotime

record ControlState =
  ct_docker :: "string list"
  ct_audit :: "audit_record list"

record call_env =
  ce_reply :: docker_reply
  ce_started :: gotime
  ce_finished :: gotime

definition Commands :: "CommandsConfig \<Rightarrow> Command list" where
  "Commands cfg = map (\<lambda>name.
     \<lparr>Cm_ID = restartVerb @ '':'' @ name, Cm_Label = ''Restart '' @ name,
      Cm_Description = ''Restart the '' @ name @ '' container via the Docker Engine API.'',
      Cm_Consequence = ''Stops and starts the '' @ name @
        '' container. Anything using it will drop its connections for a few seconds.''\<rparr>) (Co_AllowRestart cfg)"

definition resolveTarget :: "CommandsConfig \<Rightarrow> string \<Rightarrow> string + string" where
  "resolveTarget cfg i =
     (case strings_Cut i (CHR '':'') of
        None \<Rightarrow> Inl (ErrUnknownCommand @ '': '' @ go_quote i)
      | Some (verb, name) \<Rightarrow>
          if verb \<noteq> restartVerb \<or> name = '''' then Inl (ErrUnknownCommand @ '': '' @ go_quote i)
          else if list_ex (\<lambda>allowed. allowed = name) (Co_AllowRestart cfg) then Inr name
          else Inl (ErrUnknownCommand @ '': '' @ go_quote i @ '' not in commands.allow_restart''))"

definition audit :: "audit_record \<Rightarrow> ControlState \<Rightarrow> ControlState" where
  "audit a st = st\<lparr>ct_audit := ct_audit st @ [a]\<rparr>"

definition zero_result :: CommandResult where
  "zero_result = \<lparr>CR_OK = False, CR_Output = '''', CR_StartedAt = zero_time, CR_FinishedAt = zero_time\<rparr>"

definition command_Run ::
  "CommandsConfig \<Rightarrow> call_env \<Rightarrow> string \<Rightarrow> string \<Rightarrow> ControlState \<Rightarrow> (CommandResult \<times> string option) \<times> ControlState" where
  "command_Run cfg env i who st =
     (case resolveTarget cfg i of
        Inl err \<Rightarrow> ((zero_result, Some err),
          audit \<lparr>Au_id = i, Au_who = who, Au_target = '''', Au_ok = False, Au_output = err, Au_started = zero_time,
                 Au_finished = zero_time\<rparr> st)
      | Inr name \<Rightarrow>
          let st1 = (case ce_reply env of BuildFailed _ \<Rightarrow> st | _ \<Rightarrow> st\<lparr>ct_docker := ct_docker st @ [restart_path name]\<rparr>) in
          (case docker_Restart (ce_reply env) name of
             Some e \<Rightarrow> ((\<lparr>CR_OK = False, CR_Output = e, CR_StartedAt = ce_started env, CR_FinishedAt = ce_finished env\<rparr>,
                         Some (''commands: run '' @ i @ '': '' @ e)),
               audit \<lparr>Au_id = i, Au_who = who, Au_target = name, Au_ok = False, Au_output = e,
                      Au_started = ce_started env, Au_finished = ce_finished env\<rparr> st1)
           | None \<Rightarrow> ((\<lparr>CR_OK = True, CR_Output = name @ '' restarted'', CR_StartedAt = ce_started env,
                        CR_FinishedAt = ce_finished env\<rparr>, None),
               audit \<lparr>Au_id = i, Au_who = who, Au_target = name, Au_ok = True, Au_output = name @ '' restarted'',
                      Au_started = ce_started env, Au_finished = ce_finished env\<rparr> st1)))"

section \<open>The run route\<close>

text \<open>
  Times in a row and in the JSON answer are kept as instants and a span; the formatting is left out.
\<close>

record commandRow =
  CW_ID :: string
  CW_Label :: string
  CW_Description :: string
  CW_Consequence :: string
  CW_Ran :: bool
  CW_OK :: bool
  CW_Output :: string
  CW_StartedAt :: gotime
  CW_Duration :: duration

definition commandRowOf :: "Command \<Rightarrow> CommandResult option \<Rightarrow> commandRow" where
  "commandRowOf c result =
     (case result of
        None \<Rightarrow> \<lparr>CW_ID = Cm_ID c, CW_Label = Cm_Label c, CW_Description = Cm_Description c, CW_Consequence = Cm_Consequence c,
                 CW_Ran = False, CW_OK = False, CW_Output = '''', CW_StartedAt = zero_time, CW_Duration = 0\<rparr>
      | Some r \<Rightarrow> \<lparr>CW_ID = Cm_ID c, CW_Label = Cm_Label c, CW_Description = Cm_Description c, CW_Consequence = Cm_Consequence c,
                  CW_Ran = True, CW_OK = CR_OK r, CW_Output = CR_Output r, CW_StartedAt = CR_StartedAt r,
                  CW_Duration = CR_FinishedAt r - CR_StartedAt r\<rparr>)"

definition commandsSectionOf :: "CommandsConfig option \<Rightarrow> commandRow list option" where
  "commandsSectionOf cs = map_option (\<lambda>cfg. map (\<lambda>c. commandRowOf c None) (Commands cfg)) cs"

datatype run_response = NotAllowed | RowFragment commandRow | JSONResult CommandResult

record run_request =
  rq_post :: bool
  rq_id :: string
  rq_who :: string
  rq_htmx :: bool
  rq_now :: gotime

definition handleAPICommandRun ::
  "CommandsConfig \<Rightarrow> call_env \<Rightarrow> run_request \<Rightarrow> ControlState \<Rightarrow> run_response \<times> ControlState" where
  "handleAPICommandRun cfg env r st =
     (if \<not> rq_post r then (NotAllowed, st)
      else
        let who = (if rq_who r = '''' then ''operator'' else rq_who r) in
        case command_Run cfg env (rq_id r) who st of ((res, err), st1) \<Rightarrow>
        let result = (case err of
              Some e \<Rightarrow> \<lparr>CR_OK = False, CR_Output = e, CR_StartedAt = rq_now r, CR_FinishedAt = rq_now r\<rparr>
            | None \<Rightarrow> res);
            row = (case find (\<lambda>c. Cm_ID c = rq_id r) (Commands cfg) of
                None \<Rightarrow> commandRowOf \<lparr>Cm_ID = rq_id r, Cm_Label = '''', Cm_Description = '''', Cm_Consequence = ''''\<rparr> (Some result)
              | Some c \<Rightarrow> commandRowOf c (Some result)) in
        (if rq_htmx r then RowFragment row else JSONResult result, st1))"

definition serve :: "CommandsConfig \<Rightarrow> (call_env \<times> run_request) list \<Rightarrow> ControlState \<Rightarrow> ControlState" where
  "serve cfg reqs st = fold (\<lambda>(env, r) s. snd (handleAPICommandRun cfg env r s)) reqs st"

section \<open>The SSH actuator\<close>

text \<open>\<open>runner\<close> is the SSH session: output or error of a command line. The list is the command lines that
  reached it.\<close>

definition RestartContainer :: "(string \<Rightarrow> string + string) \<Rightarrow> string list \<Rightarrow> string \<Rightarrow> string option \<times> string list" where
  "RestartContainer runner allow container =
     (if \<not> containerNameRe container
      then (Some (''actuator: refusing invalid container name '' @ go_quote container), [])
      else if container \<notin> set allow
      then (Some (''actuator: container '' @ go_quote container @ '' is not in the restart allowlist''), [])
      else (case runner (''docker restart '' @ container) of
          Inl e \<Rightarrow> (Some (''actuator: restart '' @ container @ '': '' @ e), [''docker restart '' @ container])
        | Inr _ \<Rightarrow> (None, [''docker restart '' @ container])))"

definition healthCommand :: string where
  "healthCommand = ''docker version --format '' @ replicate 2 (CHR 0x7B) @ ''.Server.Version'' @ replicate 2 (CHR 0x7D)"

definition actuator_Healthy :: "(string \<Rightarrow> string + string) \<Rightarrow> string option" where
  "actuator_Healthy runner =
     (case runner healthCommand of
        Inl e \<Rightarrow> Some (''actuator: health check: '' @ e)
      | Inr out \<Rightarrow> if strings_TrimSpace out = '''' then Some ''actuator: health check: empty output'' else None)"

section \<open>The common contract\<close>

locale restart_gate =
  fixes permitted :: "'c \<Rightarrow> string \<Rightarrow> bool"
    and effect :: "string \<Rightarrow> string"
    and effects :: "'c \<Rightarrow> 'r \<Rightarrow> string list"
  assumes gate: "e \<in> set (effects c r) \<Longrightarrow> \<exists>n. permitted c n \<and> e = effect n"
    and once: "length (effects c r) \<le> 1"
begin

lemma effects_permitted: "\<forall>e \<in> set (concat (map (effects c) rs)). \<exists>n. permitted c n \<and> e = effect n"
  using gate by fastforce

lemma effects_bound: "length (concat (map (effects c) rs)) \<le> length rs"
proof (induction rs)
  case Nil
  show ?case by simp
next
  case (Cons r rs)
  then show ?case using once [of c r] by simp
qed

end

text \<open>The Docker requests of one call of the run route.\<close>

definition run_effects :: "CommandsConfig \<Rightarrow> call_env \<times> run_request \<Rightarrow> string list" where
  "run_effects cfg = (\<lambda>(env, r). ct_docker (snd (handleAPICommandRun cfg env r \<lparr>ct_docker = [], ct_audit = []\<rparr>)))"

lemma resolveTarget_Inr: "resolveTarget cfg i = Inr n \<Longrightarrow> n \<in> set (Co_AllowRestart cfg)"
  by (auto simp: resolveTarget_def list_ex_iff split: option.splits if_splits)

lemma command_Run_docker:
  "ct_docker (snd (command_Run cfg env i who st)) = ct_docker st @ ct_docker (snd (command_Run cfg env i who \<lparr>ct_docker = [], ct_audit = []\<rparr>))"
  "length (ct_audit (snd (command_Run cfg env i who st))) = Suc (length (ct_audit st))"
  by (simp_all add: command_Run_def audit_def Let_def split: sum.split option.split docker_reply.split)

lemma command_Run_effects:
  "ct_docker (snd (command_Run cfg env i who \<lparr>ct_docker = [], ct_audit = []\<rparr>)) = [] \<or>
   (\<exists>n \<in> set (Co_AllowRestart cfg). ct_docker (snd (command_Run cfg env i who \<lparr>ct_docker = [], ct_audit = []\<rparr>)) = [restart_path n])"
  by (auto simp: command_Run_def audit_def Let_def split: sum.split option.split docker_reply.split dest: resolveTarget_Inr)

lemma handle_state:
  "snd (handleAPICommandRun cfg env r st) =
     (if rq_post r then snd (command_Run cfg env (rq_id r) (if rq_who r = '''' then ''operator'' else rq_who r) st) else st)"
  by (simp add: handleAPICommandRun_def Let_def split: prod.split)

lemma run_effects_cases: "run_effects cfg er = [] \<or> (\<exists>n \<in> set (Co_AllowRestart cfg). run_effects cfg er = [restart_path n])"
  using command_Run_effects by (auto simp: run_effects_def handle_state split: prod.split)

interpretation catalog: restart_gate "\<lambda>cfg n. n \<in> set (Co_AllowRestart cfg)" restart_path run_effects
proof
  show "\<exists>n. n \<in> set (Co_AllowRestart c) \<and> e = restart_path n" if "e \<in> set (run_effects c r)" for e c r
    using run_effects_cases [of c r] that by auto
  show "length (run_effects c r) \<le> 1" for c r
    using run_effects_cases [of c r] by auto
qed

interpretation actuator: restart_gate "\<lambda>allow n. n \<in> set allow \<and> containerNameRe n" "\<lambda>n. ''docker restart '' @ n"
  "\<lambda>allow (runner, n). snd (RestartContainer runner allow n)"
  by unfold_locales (auto simp: RestartContainer_def split: if_splits sum.splits)

lemma serve_docker: "ct_docker (serve cfg reqs st) = ct_docker st @ concat (map (run_effects cfg) reqs)"
proof (induction reqs arbitrary: st)
  case Nil
  show ?case by (simp add: serve_def)
next
  case (Cons er reqs)
  obtain env r where er: "er = (env, r)" by (cases er)
  have "ct_docker (snd (handleAPICommandRun cfg env r st)) = ct_docker st @ run_effects cfg er"
    by (simp add: handle_state run_effects_def er command_Run_docker(1) [of cfg env _ _ st])
  then show ?case using Cons.IH [of "snd (handleAPICommandRun cfg env r st)"] by (simp add: serve_def er)
qed

lemma serve_audit: "length (ct_audit (serve cfg reqs st)) = length (ct_audit st) + length (filter (\<lambda>(env, r). rq_post r) reqs)"
  by (induction reqs arbitrary: st) (auto simp: serve_def handle_state command_Run_docker(2) split: prod.split)

text \<open>A container name is one shell word.\<close>

lemma name_char_plain:
  assumes "isAlphaNum c \<or> c = CHR ''.'' \<or> c = CHR ''-''"
  shows "\<not> sh_special c \<and> c \<noteq> CHR 0x20 \<and> c \<noteq> CHR 0x09 \<and> c \<noteq> CHR 0x27 \<and> c \<noteq> CHR 0x5C"
  using assms by (auto simp: isAlphaNum_def is_digit_def sh_special_def)

lemma sh_read_name:
  "list_all (\<lambda>c. isAlphaNum c \<or> c = CHR ''.'' \<or> c = CHR ''-'') n \<Longrightarrow> sh_read False (Some w) n = Some [rev w @ n]"
proof (induction n arbitrary: w)
  case Nil
  show ?case by simp
next
  case (Cons c n)
  then show ?case using name_char_plain [of c] by simp
qed

lemma restart_words: "containerNameRe n \<Longrightarrow> sh_words (''docker restart '' @ n) = Some [''docker'', ''restart'', n]"
  using sh_read_name [of "tl n" "[hd n]"] name_char_plain [of "hd n"]
  by (cases n) (auto simp: containerNameRe_def sh_words_def sh_special_def)

lemma Commands_listed: "c \<in> set (Commands cfg) \<Longrightarrow> \<exists>n \<in> set (Co_AllowRestart cfg). Cm_ID c = restartVerb @ '':'' @ n"
  by (auto simp: Commands_def)

lemma resolve_listed:
  assumes "n \<in> set (Co_AllowRestart cfg)" "n \<noteq> ''''"
  shows "resolveTarget cfg (restartVerb @ '':'' @ n) = Inr n"
proof -
  have "strings_Cut (restartVerb @ CHR '':'' # n) (CHR '':'') = Some (restartVerb, n)"
    by (rule Cut_append) (simp add: restartVerb_def)
  then show ?thesis using assms by (simp add: resolveTarget_def list_ex_iff)
qed

text \<open>The segments of a path, between its slashes.\<close>

fun path_segments :: "string \<Rightarrow> string list" where
  "path_segments [] = [[]]"
| "path_segments (c # s) =
     (if c = CHR ''/'' then [] # path_segments s else (case path_segments s of [] \<Rightarrow> [] | w # ws \<Rightarrow> (c # w) # ws))"

lemma path_segments_append: "CHR ''/'' \<notin> set a \<Longrightarrow> path_segments (a @ CHR ''/'' # s) = a # path_segments s"
  by (induction a) auto

declare path_segments.simps [simp del]

lemma restart_segments:
  assumes "containerNameRe n"
  shows "path_segments (restart_path n) = ['''', ''containers'', n, ''restart'']"
proof -
  have "\<not> isAlphaNum (CHR ''/'')" by (simp add: isAlphaNum_def is_digit_def)
  then have "CHR ''/'' \<notin> set n" using assms unfolding containerNameRe_def list_all_iff by force
  moreover have "restart_path n = [] @ CHR ''/'' # ''containers'' @ CHR ''/'' # n @ CHR ''/'' # ''restart''"
    by (simp add: restart_path_def)
  moreover have "CHR ''/'' \<notin> set []" "CHR ''/'' \<notin> set ''containers''" "path_segments ''restart'' = [''restart'']" by (simp_all add: path_segments.simps)
  ultimately show ?thesis by (metis path_segments_append)
qed


text \<open>A catalog of one container, a click on it, and a click on a container that is not listed.\<close>

definition demo_config :: Config where
  "demo_config = sample_config\<lparr>C_Commands := \<lparr>Co_AllowRestart = [''plex'', ''plex''], Co_TimeoutStr = ''5s'', Co_timeout = 0\<rparr>\<rparr>"

definition demo_clicks :: "(call_env \<times> run_request) list" where
  "demo_clicks = map (\<lambda>i. (\<lparr>ce_reply = Replied 204, ce_started = 0, ce_finished = 9\<rparr>,
     \<lparr>rq_post = True, rq_id = i, rq_who = '''', rq_htmx = True, rq_now = 10\<rparr>)) [''restart-container:plex'', ''restart-container:db'']"

definition demo_commands :: CommandsConfig where
  "demo_commands = C_Commands (projr (validate sample_parse demo_config))"

lemma demo_valid: "isl (validate sample_parse demo_config) = False"
  by code_simp

lemma demo_run:
  "ct_docker (serve demo_commands demo_clicks \<lparr>ct_docker = [], ct_audit = []\<rparr>) = [''/containers/plex/restart'']"
  "map Au_ok (ct_audit (serve demo_commands demo_clicks \<lparr>ct_docker = [], ct_audit = []\<rparr>)) = [True, False]"
  by code_simp+


text \<open>
  The name is put into the path as it stands, and the check at load admits names of dots only: a configuration with \<open>..\<close> on the allowlist
  is accepted, and its command asks for a path that leaves \<open>containers\<close> once a server normalises it.
\<close>

lemma dot_names_accepted:
  "map_sum id (\<lambda>c. Co_AllowRestart (C_Commands c))
     (validate sample_parse (sample_config\<lparr>C_Commands := \<lparr>Co_AllowRestart = [''..''], Co_TimeoutStr = ''5s'', Co_timeout = 0\<rparr>\<rparr>)) = Inr [''..'']"
  "restart_path ''..'' = ''/containers/../restart''"
  by code_simp+

end
