(* ===== verification/Web_Unraid.thy ===== *)
theory Web_Unraid
  imports Bridge Control
begin

text \<open>
  The dashboard's Unraid page and its JSON mirror (\<open>internal/web/unraid.go\<close>, \<open>unraid_api.go\<close>). The
  results of the five reads of the Unraid source are the fields of \<open>mcp_world\<close>, the same source that the
  MCP endpoint reads. A page handler's answer is the value handed to its template; a JSON
  handler's answer is the status and the encoded value, with the member names of the struct tags.
  Floating-point values are computed exactly, except the conversion of a 64-bit integer, which is
  rounded to 53 bits. The lemmas show that the byte formatter always ends on a unit of its table
  and that a failed read never appears as data.
\<close>

section \<open>Answers\<close>

datatype 'a reply = HttpError int string | HttpJSON int json | HttpPage 'a

definition http_NotFound :: "'a reply" where
  "http_NotFound = HttpError 404 ''404 page not found''"

definition MethodNotAllowed :: "'a reply" where
  "MethodNotAllowed = HttpError 405 ''method not allowed''"

section \<open>Numbers as text\<close>

text \<open>\<open>float64(n)\<close>, as the rational number it stands for.\<close>

definition float64_of_int :: "int \<Rightarrow> rat" where
  "float64_of_int n = of_int (float64_round n)"

text \<open>\<open>%.1f\<close>: the nearest tenth, ties to even.\<close>

definition fmt_f1 :: "rat \<Rightarrow> string" where
  "fmt_f1 x =
     (let (p, q) = quotient_of \<bar>x\<bar>; t = half_even (p * 10) q in
      (if x < 0 then ''-'' else '''') @ itoa (t div 10) @ ''.'' @ itoa (t mod 10))"

definition KMGTP :: string where
  "KMGTP = ''KMGTP''"

function fb_loop :: "rat \<Rightarrow> rat \<Rightarrow> nat \<Rightarrow> rat \<times> nat" where
  "fb_loop v d e = (if v \<ge> 1024 \<and> e < 4 then fb_loop (v / 1024) (d * 1024) (Suc e) else (d, e))"
  by pat_completeness auto
termination by (relation "measure (\<lambda>(v, d, e). 4 - e)") auto

declare fb_loop.simps [simp del]

text \<open>An index outside the unit table is a panic.\<close>

definition formatBytes :: "int \<Rightarrow> string go_result" where
  "formatBytes n =
     (if n < 1024 then Returns (itoa n @ '' B'')
      else
        let (d, e) = fb_loop (float64_of_int n / 1024) 1024 0 in
        if e < length KMGTP then Returns (fmt_f1 (float64_of_int n / d) @ '' '' @ [KMGTP ! e] @ ''iB'') else Panics)"

text \<open>
  \<open>formatUptime\<close>: the product with \<open>time.Second\<close> wraps at 64 bits; \<open>int(d.Hours())\<close> and \<open>int(d.Minutes())\<close>
  cut towards zero, and Go's remainder has the sign of the dividend.
\<close>

definition quot0 :: "int \<Rightarrow> int \<Rightarrow> int" where
  "quot0 a b = sgn a * sgn b * (\<bar>a\<bar> div \<bar>b\<bar>)"

definition rem0 :: "int \<Rightarrow> int \<Rightarrow> int" where
  "rem0 a b = a - b * quot0 a b"

definition formatUptime :: "int \<Rightarrow> string" where
  "formatUptime seconds =
     (let d = wrap64 (seconds * nsSecond);
          days = quot0 (quot0 d nsHour) 24;
          hours = rem0 (quot0 d nsHour) 24;
          mins = rem0 (quot0 d nsMinute) 60 in
      if days > 0 then itoa days @ ''d '' @ itoa hours @ ''h''
      else if hours > 0 then itoa hours @ ''h '' @ itoa mins @ ''m''
      else itoa mins @ ''m'')"

section \<open>The page's sections\<close>

definition unauthHint :: string where
  "unauthHint = ''Not authenticated against the Unraid API '' @ em_dash_text @ '' no API key exists yet; creating one is a host action awaiting approval. Once approved and configured, restart Server Assistant.''"

definition standbyTemp :: string where
  "standbyTemp = ''spun down, not woken''"

definition errMessage :: "readErr \<Rightarrow> string" where
  "errMessage e = (if is_unauthenticated e then unauthHint else readErr_Error e)"

record reachView =
  RV_OK :: bool
  RV_State :: string
  RV_Headline :: string
  RV_Detail :: string
  RV_PublicURL :: string
  RV_TailnetURL :: string
  RV_Err :: string

definition reachViewOf :: "mcp_world \<Rightarrow> reachView" where
  "reachViewOf us =
     (case mw_reach us of
        Inl e \<Rightarrow> \<lparr>RV_OK = False, RV_State = ''error'', RV_Headline = ''Reachability check failed'', RV_Detail = '''',
                 RV_PublicURL = '''', RV_TailnetURL = '''', RV_Err = errMessage e\<rparr>
      | Inr rc \<Rightarrow>
          \<lparr>RV_OK = True, RV_State = reach_name (Rb_State rc),
           RV_Headline = (case Rb_State rc of
               ReachAbsent \<Rightarrow> ''No Tailscale on this Host '' @ em_dash_text @ '' reachable on the LAN only.''
             | ReachTailnet \<Rightarrow> ''Reachable on the tailnet only '' @ em_dash_text @ '' a cloud-hosted LLM cannot reach this endpoint.''
             | ReachFunnel \<Rightarrow> ''Served publicly via Tailscale Funnel.''
             | ReachFailing \<Rightarrow> ''Configured endpoint is not answering.''),
           RV_Detail = Rb_Detail rc, RV_PublicURL = Rb_PublicURL rc, RV_TailnetURL = Rb_TailnetURL rc, RV_Err = ''''\<rparr>)"

text \<open>A section carries its data or the message of its failure; the zero value of the data is \<open>None\<close>.\<close>

record 'a page_section =
  SX_OK :: bool
  SX_Err :: string
  SX_Data :: "'a option"

definition section_of :: "('a \<Rightarrow> 'b) \<Rightarrow> readErr + 'a \<Rightarrow> 'b page_section" where
  "section_of view r =
     (case r of
        Inl e \<Rightarrow> \<lparr>SX_OK = False, SX_Err = errMessage e, SX_Data = None\<rparr>
      | Inr x \<Rightarrow> \<lparr>SX_OK = True, SX_Err = '''', SX_Data = Some (view x)\<rparr>)"

record hostView =
  HV_Hostname :: string
  HV_UnraidVersion :: string
  HV_CPUModel :: string
  HV_CPUCores :: int
  HV_CPUPercent :: string
  HV_MemUsed :: "string go_result"
  HV_MemTotal :: "string go_result"
  HV_Uptime :: string
  HV_Degraded :: bool
  HV_CollectedAt :: string

definition hostSectionOf :: "formats \<Rightarrow> mcp_world \<Rightarrow> hostView page_section" where
  "hostSectionOf fm us = section_of (\<lambda>h.
     \<lparr>HV_Hostname = HI_Hostname h, HV_UnraidVersion = HI_UnraidVersion h, HV_CPUModel = HI_CPUModel h,
      HV_CPUCores = HI_CPUCores h, HV_CPUPercent = fmt_f1 (HI_CPUPercent h) @ ''%'',
      HV_MemUsed = formatBytes (HI_MemUsedBytes h), HV_MemTotal = formatBytes (HI_MemTotalBytes h),
      HV_Uptime = formatUptime (HI_UptimeSeconds h), HV_Degraded = (HI_Source h = SourceProcfs),
      HV_CollectedAt = timeOrDash fm (HI_CollectedAt h)\<rparr>) (mw_host us)"

record web_diskView =
  DV_Name :: string
  DV_Role :: string
  DV_Size :: "string go_result"
  DV_Used :: "string go_result"
  DV_Temp :: string
  DV_Standby :: bool
  DV_SmartStatus :: string

definition degree_sign :: string where
  "degree_sign = [CHR 0xC2, CHR 0xB0]"

definition diskViewOf :: "Disk \<Rightarrow> web_diskView" where
  "diskViewOf d =
     \<lparr>DV_Name = Dk_Name d, DV_Role = Dk_Role d, DV_Size = formatBytes (Dk_SizeBytes d), DV_Used = formatBytes (Dk_UsedBytes d),
      DV_Temp = (if Dk_SpunDown d then standbyTemp
                 else case Dk_TempC d of Some t \<Rightarrow> itoa t @ degree_sign @ ''C'' | None \<Rightarrow> ''unknown''),
      DV_Standby = Dk_SpunDown d, DV_SmartStatus = Dk_SmartStatus d\<rparr>"

record web_arrayView =
  AV_State :: string
  AV_ParityActive :: bool
  AV_ParityProgress :: string
  AV_ParityLastCheck :: string
  AV_ParityLastErrors :: int
  AV_Disks :: "web_diskView list"
  AV_Degraded :: bool
  AV_CollectedAt :: string

definition arraySectionOf :: "formats \<Rightarrow> mcp_world \<Rightarrow> web_arrayView page_section" where
  "arraySectionOf fm us = section_of (\<lambda>a.
     \<lparr>AV_State = Ar_State a, AV_ParityActive = Ar_ParityCheckActive a,
      AV_ParityProgress = fmt_f1 (Ar_ParityCheckProgress a) @ ''%'',
      AV_ParityLastCheck = (case Ar_ParityLastCheck a of None \<Rightarrow> em_dash_text | Some t \<Rightarrow> timeOrDash fm t),
      AV_ParityLastErrors = Ar_ParityLastErrors a, AV_Disks = map diskViewOf (Ar_Disks a),
      AV_Degraded = (Ar_Source a = SourceEmhttp), AV_CollectedAt = timeOrDash fm (Ar_CollectedAt a)\<rparr>) (mw_array us)"

record web_shareView =
  ShV_Name :: string
  ShV_Size :: "string go_result"
  ShV_Used :: "string go_result"
  ShV_Free :: "string go_result"
  ShV_Allocator :: string
  ShV_CachePool :: string
  ShV_Exported :: bool
  ShV_Accessible :: bool

definition sharesSectionOf :: "mcp_world \<Rightarrow> web_shareView list page_section" where
  "sharesSectionOf us = section_of (map (\<lambda>s.
     \<lparr>ShV_Name = Sh_Name s, ShV_Size = formatBytes (Sh_SizeBytes s), ShV_Used = formatBytes (Sh_UsedBytes s),
      ShV_Free = formatBytes (Sh_FreeBytes s), ShV_Allocator = Sh_Allocator s, ShV_CachePool = Sh_CachePool s,
      ShV_Exported = Sh_Exported s, ShV_Accessible = Sh_Accessible s\<rparr>)) (mw_shares us)"

record web_containerView =
  CV_Name :: string
  CV_Image :: string
  CV_State :: string
  CV_Status :: string
  CV_Ports :: string
  CV_AutoRun :: bool

definition containersSectionOf :: "mcp_world \<Rightarrow> web_containerView list page_section" where
  "containersSectionOf us = section_of (map (\<lambda>c.
     \<lparr>CV_Name = Ct_Name c, CV_Image = Ct_Image c, CV_State = Ct_State c, CV_Status = Ct_Status c,
      CV_Ports = strings_Join (Ct_Ports c) '', '', CV_AutoRun = Ct_AutoRun c\<rparr>)) (mw_containers us)"

record unraidPageData =
  UP_Reach :: reachView
  UP_Host :: "hostView page_section"
  UP_Array :: "web_arrayView page_section"
  UP_Shares :: "web_shareView list page_section"
  UP_Containers :: "web_containerView list page_section"
  UP_Proposals :: "proposalRow list"
  UP_Commands :: "commandRow list option"

definition handleUnraidPage ::
  "mcp_world \<Rightarrow> Env option \<Rightarrow> CommandsConfig option \<Rightarrow> World \<Rightarrow> unraidPageData reply \<times> World" where
  "handleUnraidPage us ps cs w =
     (let fm = mw_fm us; (rows, w') = proposalRowsOf fm ps w in
      (HttpPage \<lparr>UP_Reach = reachViewOf us, UP_Host = hostSectionOf fm us, UP_Array = arraySectionOf fm us,
        UP_Shares = sharesSectionOf us, UP_Containers = containersSectionOf us, UP_Proposals = rows,
        UP_Commands = commandsSectionOf cs\<rparr>, w'))"

section \<open>The JSON mirror\<close>

definition JStrOpt :: "string option \<Rightarrow> json" where
  "JStrOpt p = JOpt JStr p"

definition writeUnraidError :: "readErr \<Rightarrow> 'a reply" where
  "writeUnraidError err =
     (if is_unauthenticated err
      then HttpJSON 401 (JObj [(''error'', JStr ''unauthenticated''), (''detail'', JStr unauthHint)])
      else HttpJSON 502 (JObj [(''error'', JStr ''unreachable''), (''detail'', JStr (readErr_Error err))]))"

definition toHostDTO :: "formats \<Rightarrow> HostInfo \<Rightarrow> json" where
  "toHostDTO fm h = JObj
     [(''hostname'', JStr (HI_Hostname h)), (''unraid_version'', JStr (HI_UnraidVersion h)),
      (''cpu_model'', JStr (HI_CPUModel h)), (''cpu_cores'', JInt (HI_CPUCores h)),
      (''cpu_percent'', JNum (HI_CPUPercent h)), (''mem_total_bytes'', JInt (HI_MemTotalBytes h)),
      (''mem_used_bytes'', JInt (HI_MemUsedBytes h)), (''uptime_seconds'', JInt (HI_UptimeSeconds h)),
      (''source'', JStr (source_name (HI_Source h))), (''collected_at'', JStr (fm_rfc3339 fm (HI_CollectedAt h)))]"

definition toDiskDTO :: "Disk \<Rightarrow> json" where
  "toDiskDTO d = JObj
     [(''name'', JStr (Dk_Name d)), (''device'', JStr (Dk_Device d)), (''role'', JStr (Dk_Role d)),
      (''size_bytes'', JInt (Dk_SizeBytes d)), (''used_bytes'', JInt (Dk_UsedBytes d)),
      (''temp_c'', JOpt JInt (Dk_TempC d)), (''smart_status'', JStr (Dk_SmartStatus d)),
      (''spun_down'', JBool (Dk_SpunDown d))]"

definition toArrayDTO :: "formats \<Rightarrow> ArrayState \<Rightarrow> json" where
  "toArrayDTO fm a = JObj
     [(''state'', JStr (Ar_State a)), (''parity_check_active'', JBool (Ar_ParityCheckActive a)),
      (''parity_check_progress'', JNum (Ar_ParityCheckProgress a)),
      (''parity_last_check'', JStrOpt (Option.bind (Ar_ParityLastCheck a) (rfc3339Ptr fm))),
      (''parity_last_errors'', JInt (Ar_ParityLastErrors a)), (''disks'', JArr (map toDiskDTO (Ar_Disks a))),
      (''source'', JStr (source_name (Ar_Source a))), (''collected_at'', JStr (fm_rfc3339 fm (Ar_CollectedAt a)))]"

definition toShareDTO :: "Share \<Rightarrow> json" where
  "toShareDTO s = JObj
     [(''name'', JStr (Sh_Name s)), (''size_bytes'', JInt (Sh_SizeBytes s)), (''free_bytes'', JInt (Sh_FreeBytes s)),
      (''used_bytes'', JInt (Sh_UsedBytes s)), (''allocator'', JStr (Sh_Allocator s)), (''cache_pool'', JStr (Sh_CachePool s)),
      (''exported'', JBool (Sh_Exported s)), (''accessible'', JBool (Sh_Accessible s)),
      (''source'', JStr (source_name (Sh_Source s)))]"

definition toContainerDTO :: "Container \<Rightarrow> json" where
  "toContainerDTO c = JObj
     [(''name'', JStr (Ct_Name c)), (''image'', JStr (Ct_Image c)), (''state'', JStr (Ct_State c)),
      (''status'', JStr (Ct_Status c)), (''ports'', JArr (map JStr (Ct_Ports c))), (''auto_run'', JBool (Ct_AutoRun c))]"

definition handleAPIUnraidHost :: "mcp_world \<Rightarrow> 'a reply" where
  "handleAPIUnraidHost us =
     (case mw_host us of Inl e \<Rightarrow> writeUnraidError e | Inr h \<Rightarrow> HttpJSON 200 (toHostDTO (mw_fm us) h))"

definition handleAPIUnraidArray :: "mcp_world \<Rightarrow> 'a reply" where
  "handleAPIUnraidArray us =
     (case mw_array us of Inl e \<Rightarrow> writeUnraidError e | Inr a \<Rightarrow> HttpJSON 200 (toArrayDTO (mw_fm us) a))"

definition handleAPIUnraidShares :: "mcp_world \<Rightarrow> 'a reply" where
  "handleAPIUnraidShares us =
     (case mw_shares us of Inl e \<Rightarrow> writeUnraidError e | Inr shares \<Rightarrow> HttpJSON 200 (JArr (map toShareDTO shares)))"

definition handleAPIUnraidContainers :: "mcp_world \<Rightarrow> 'a reply" where
  "handleAPIUnraidContainers us =
     (case mw_containers us of Inl e \<Rightarrow> writeUnraidError e | Inr cs \<Rightarrow> HttpJSON 200 (JArr (map toContainerDTO cs)))"

section \<open>The byte formatter\<close>

lemma float64_exact: "\<bar>n\<bar> < 9007199254740992 \<Longrightarrow> float64_of_int n = of_int n"
  by (simp add: float64_of_int_def float64_round_exact)

lemma float64_large:
  assumes "n \<ge> 1024"
  shows "float64_of_int n \<ge> 1024"
proof (cases "excess_bits n = 0")
  case True
  then show ?thesis using assms by (simp add: float64_of_int_def float64_round_def Let_def half_even_def)
next
  case False
  let ?u = "2 ^ excess_bits n :: int"
  have "4503599627370496 * ?u div ?u \<le> n div ?u" by (rule zdiv_mono1 [OF excess_scale [OF False]]) simp
  then have "1024 \<le> half_even n ?u" using half_even_floor [of n ?u] by simp
  then have "1024 * 1 \<le> half_even n ?u * ?u" by (intro mult_mono) simp_all
  then show ?thesis using assms by (simp add: float64_of_int_def float64_round_def Let_def flip: of_int_mult)
qed

lemma fb_loop_unit:
  assumes "fb_loop v d e = (d', e')" and "e \<le> 4" and "v \<ge> 1"
  shows "\<exists>k. e' = e + k \<and> e' \<le> 4 \<and> d' = d * 1024 ^ k \<and> 1 \<le> v / 1024 ^ k \<and> (e' < 4 \<longrightarrow> v / 1024 ^ k < 1024)"
  using assms
proof (induction v d e rule: fb_loop.induct)
  case (1 v d e)
  show ?case
  proof (cases "v \<ge> 1024 \<and> e < 4")
    case True
    then have "fb_loop (v / 1024) (d * 1024) (Suc e) = (d', e')" using "1.prems"(1) by (simp add: fb_loop.simps [of v])
    then obtain k where "e' = Suc e + k \<and> e' \<le> 4 \<and> d' = d * 1024 * 1024 ^ k \<and> 1 \<le> v / 1024 / 1024 ^ k \<and>
      (e' < 4 \<longrightarrow> v / 1024 / 1024 ^ k < 1024)"
      using "1.IH" True by auto
    then show ?thesis by (intro exI [of _ "Suc k"]) (simp add: field_simps)
  next
    case False
    then have "d' = d \<and> e' = e" using "1.prems"(1) by (auto simp: fb_loop.simps [of v] split: if_splits)
    then show ?thesis using False "1.prems" by (intro exI [of _ 0]) auto
  qed
qed

text \<open>The text of a byte count of at least 1024: the mantissa and the unit.\<close>

definition scaled :: "int \<Rightarrow> nat \<Rightarrow> rat" where
  "scaled n e = float64_of_int n / 1024 ^ Suc e"

lemma formatBytes_scaled:
  assumes "n \<ge> 1024"
  shows "\<exists>e<5. formatBytes n = Returns (fmt_f1 (scaled n e) @ '' '' @ [KMGTP ! e] @ ''iB'') \<and>
     1 \<le> scaled n e \<and> (e < 4 \<longrightarrow> scaled n e < 1024)"
proof -
  obtain d e where l: "fb_loop (float64_of_int n / 1024) 1024 0 = (d, e)" by (cases "fb_loop (float64_of_int n / 1024) 1024 0")
  have "1 \<le> float64_of_int n / 1024" using float64_large [OF assms] by simp
  then obtain k where k: "e = k" "e \<le> 4" "d = 1024 * 1024 ^ k" "1 \<le> float64_of_int n / 1024 / 1024 ^ k"
    "e < 4 \<longrightarrow> float64_of_int n / 1024 / 1024 ^ k < 1024"
    using fb_loop_unit [OF l] by auto
  then have "e < length KMGTP" by (simp add: KMGTP_def)
  then have "formatBytes n = Returns (fmt_f1 (scaled n e) @ '' '' @ [KMGTP ! e] @ ''iB'')"
    using l k assms by (simp add: formatBytes_def scaled_def)
  then show ?thesis using k by (intro exI [of _ e]) (simp add: scaled_def)
qed

text \<open>A count just below a unit is shown as 1024.0 of the smaller one: the unit is chosen before rounding.\<close>

lemma formatBytes_rounds_up: "formatBytes 1048575 = Returns ''1024.0 KiB''"
  by code_simp

section \<open>Failed reads\<close>

lemma section_failed: "section_of view (Inl e) = \<lparr>SX_OK = False, SX_Err = errMessage e, SX_Data = None\<rparr>"
  by (simp add: section_of_def)

lemma section_ok: "SX_OK (section_of view r) \<longleftrightarrow> (\<exists>x. r = Inr x \<and> SX_Data (section_of view r) = Some (view x))"
  by (cases r) (simp_all add: section_of_def)

lemma writeUnraidError_code:
  "\<exists>body. writeUnraidError e = HttpJSON (if is_unauthenticated e then 401 else 502) body"
  by (simp add: writeUnraidError_def)

text \<open>
  The page never shows a temperature for a spun-down disk; the JSON mirror passes on whatever the
  source read, and the on-disk state files can hold a temperature for a sleeping disk.
\<close>

lemma page_standby_temp: "Dk_SpunDown d \<Longrightarrow> DV_Temp (diskViewOf d) = standbyTemp"
  by (simp add: diskViewOf_def)

definition sleeping_disk :: Disk where
  "sleeping_disk = hd (emhttp_disks [(''disk1'', [(''name'', ''disk1''), (''device'', ''sdb''), (''type'', ''Data''),
     (''temp'', ''40''), (''spundown'', ''1'')])])"

lemma json_standby_temp:
  "Dk_SpunDown sleeping_disk" "Dk_TempC sleeping_disk = Some 40" "DV_Temp (diskViewOf sleeping_disk) = standbyTemp"
  by code_simp+

text \<open>\<open>%.1f\<close> of a value that is not negative shows a number of tenths at most half a tenth away.\<close>

lemma fmt_f1_near:
  assumes "x \<ge> 0"
  shows "\<exists>t \<ge> 0. fmt_f1 x = itoa (t div 10) @ ''.'' @ itoa (t mod 10) \<and> \<bar>of_int t / 10 - x\<bar> \<le> 1 / 20"
proof -
  obtain p q where pq: "quotient_of x = (p, q)" by (cases "quotient_of x")
  have q: "q > 0" and x: "x = of_int p / of_int q" using pq quotient_of_denom_pos quotient_of_div by auto
  define t where "t = half_even (p * 10) q"
  have "0 \<le> p" using assms x q by (simp add: zero_le_divide_iff)
  then have "0 \<le> t" unfolding t_def using half_even_floor [of "p * 10" q] q
    by (meson div_int_pos_iff mult_nonneg_nonneg order.strict_implies_order order_trans zero_le_numeral)
  moreover have "\<bar>of_int t / 10 - x\<bar> \<le> 1 / 20"
  proof -
    have "of_int (2 * \<bar>t * q - p * 10\<bar>) \<le> (of_int q :: rat)"
      unfolding of_int_le_iff t_def by (rule half_even_near [OF q])
    then have "2 * \<bar>of_int t * of_int q - of_int p * 10\<bar> \<le> (of_int q :: rat)" by simp
    moreover have "\<bar>of_int t * of_int q - of_int p * 10\<bar> = \<bar>of_int t / 10 - x\<bar> * (10 * of_int q)"
      using q unfolding x by (simp add: abs_mult [symmetric] field_simps flip: abs_of_pos [of "10 * of_int q :: rat"])
    ultimately show ?thesis using q by (simp add: field_simps)
  qed
  ultimately show ?thesis using assms pq by (intro exI [of _ t]) (simp add: fmt_f1_def Let_def t_def)
qed

text \<open>The byte formatter always answers, with a unit of its table. Below 1024 the count itself is
  shown. From 1024 on the loop ends on one of the five units, so indexing the table never panics;
  the shown number of tenths is at most half a tenth away from the count in that unit, which is at least
  1 and, below the last unit, less than 1024; and counts below 2^53 are scaled exactly.\<close>

theorem formatBytes_total:
  "(n < 1024 \<longrightarrow> formatBytes n = Returns (itoa n @ '' B'')) \<and>
   (n \<ge> 1024 \<longrightarrow>
     (\<exists>e<5. \<exists>t\<ge>0. formatBytes n = Returns (itoa (t div 10) @ ''.'' @ itoa (t mod 10) @ '' '' @ [''KMGTP'' ! e] @ ''iB'') \<and>
        \<bar>of_int t / 10 - scaled n e\<bar> \<le> 1 / 20 \<and> 1 \<le> scaled n e \<and> (e < 4 \<longrightarrow> scaled n e < 1024) \<and>
        (n < 9007199254740992 \<longrightarrow> scaled n e = of_int n / 1024 ^ Suc e)))"
proof (cases "n < 1024")
  case True
  then show ?thesis by (simp add: formatBytes_def)
next
  case False
  then obtain e where e: "e < 5" "formatBytes n = Returns (fmt_f1 (scaled n e) @ '' '' @ [KMGTP ! e] @ ''iB'')"
    "1 \<le> scaled n e" "e < 4 \<longrightarrow> scaled n e < 1024"
    using formatBytes_scaled [of n] by auto
  then obtain t where t: "t \<ge> 0" "fmt_f1 (scaled n e) = itoa (t div 10) @ ''.'' @ itoa (t mod 10)"
    "\<bar>of_int t / 10 - scaled n e\<bar> \<le> 1 / 20"
    using fmt_f1_near [of "scaled n e"] by auto
  have "n < 9007199254740992 \<longrightarrow> scaled n e = of_int n / 1024 ^ Suc e"
    using False float64_exact [of n] by (simp add: scaled_def)
  with e t False show ?thesis by (auto simp: KMGTP_def intro!: exI [of _ e] exI [of _ t])
qed

theorem formatBytes_total_witness: "formatBytes 1023 = Returns ''1023 B'' \<and> (\<exists>e<5. 1 \<le> scaled 1536 e)"
proof -
  have "itoa 1023 @ '' B'' = ''1023 B''" by code_simp
  then show ?thesis using formatBytes_total [of 1023] formatBytes_total [of 1536] by auto
qed

end
