(* ===== verification/Harness.thy ===== *)
theory Harness
  imports Store
begin

text \<open>
  The bounded management agent of \<open>internal/harness\<close> (\<open>harness.go\<close>, \<open>runbook.go\<close>,
  \<open>prompt.go\<close>): one incident at a time is diagnosed, proposed, approved by the Operator,
  dispatched and judged. The goroutine of \<open>runCycle\<close> is a program counter with its local
  cycle record; every step is one stretch of code between two points where other goroutines can
  run (a lock release, a store write, a channel wait). \<open>ObserveCommit\<close>, \<open>decide\<close> and the
  control calls are steps of their own. The Reasoner, the tools, the Actuator, the clock, the
  timers and the store driver are the environment of a step.
\<close>

section \<open>Options and state\<close>

record Options =
  o_Mode :: HarnessMode
  o_Targets :: "(string \<times> string) list"
  o_Tools :: "string list"
  o_MaxToolCalls :: int
  o_Cooldown :: duration

record approvalMsg =
  am_decision :: ApprovalDecision
  am_who :: string
  am_at :: gotime

text \<open>\<open>cs_ref\<close> is the identity of the \<open>*cycleState\<close> pointer.\<close>

record cycleState =
  cs_ref :: nat
  cs_id :: string
  cs_subject :: string
  cs_cycle :: HarnessCycle
  cs_decisionCh :: "approvalMsg option"
  cs_outcomeCh :: bool
  cs_awaitingApproval :: bool
  cs_awaitingOutcome :: bool

text \<open>Where the \<open>runCycle\<close> goroutine stands.\<close>

datatype pc =
    PcBegin | PcSweep | PcDiagnose | PcArm | PcPersistPending | PcWaitApproval | PcTimedOut
  | PcDecided approvalMsg | PcDispatch | PcArmOutcome | PcPersistOutcome bool | PcWaitOutcome
  | PcResolve string | PcCooldown | PcExit

record goroutine =
  g_ref :: nat
  g_pc :: pc
  g_cycle :: HarnessCycle

text \<open>
  The engine's fields, the store it writes to, the goroutine, the \<open>decide\<close> calls that have
  released the lock and not yet sent (\<open>h_sends\<close>), and three logs of what has happened: the
  Approvals that were granted, the Actuator calls, and the UP commits the spine reported
  (with the cycle that was waiting for one).
\<close>

record HState =
  h_halted :: bool
  h_haltReason :: string
  h_active :: "cycleState option"
  h_cooldown :: "string \<rightharpoonup> gotime"
  h_lastUp :: "string \<rightharpoonup> gotime"
  h_db :: DB
  h_gor :: "goroutine option"
  h_sends :: "(nat \<times> approvalMsg) list"
  h_nextref :: nat
  log_approved :: "(nat \<times> string \<times> gotime) list"
  log_dispatch :: "(nat \<times> string) list"
  log_up :: "(string \<times> gotime \<times> nat option) list"

definition harness_New :: "DB \<Rightarrow> HState" where
  "harness_New db =
     \<lparr>h_halted = False, h_haltReason = '''', h_active = None, h_cooldown = Map.empty, h_lastUp = Map.empty,
      h_db = db, h_gor = None, h_sends = [], h_nextref = 0, log_approved = [], log_dispatch = [], log_up = []\<rparr>"

section \<open>Diagnosis\<close>

definition runbook :: "string \<Rightarrow> Status \<Rightarrow> Diagnosis" where
  "runbook subject trigger =
     \<lparr>D_Summary = ''Runbook fallback: '' @ subject @ '' reported '' @ Status_String trigger @
        '' and the Reasoner was unavailable.'',
      D_Proposed = \<lparr>PA_Kind = ActionRestartContainer, PA_Subject = subject,
        PA_Rationale = ''Deterministic runbook: restart the service that triggered this cycle.''\<rparr>,
      D_Usage = zero_Usage\<lparr>U_Backend := ''runbook''\<rparr>, D_Fallback = True\<rparr>"

definition nl :: string where
  "nl = [CHR 0x0A]"

definition prompt_call :: "ToolCall \<Rightarrow> string" where
  "prompt_call c =
     (if TC_Err c \<noteq> '''' then ''- '' @ TC_Tool c @ '': ERROR: '' @ TC_Err c @ nl
      else ''- '' @ TC_Tool c @ '': '' @ TC_Output c @ nl)"

definition dq :: "string \<Rightarrow> string" where
  "dq s = [CHR 0x22] @ s @ [CHR 0x22]"

definition prompt_shape :: string where
  "prompt_shape =
     ''{'' @ dq ''action'' @ '':'' @ dq ''restart_container'' @ ''|'' @ dq ''none'' @ '','' @
     dq ''subject'' @ '':'' @ dq ''<a service name from the list above>'' @ '','' @
     dq ''rationale'' @ '':'' @ dq ''<one line>'' @ '','' @
     dq ''summary'' @ '':'' @ dq ''<one short paragraph>'' @ ''}''"

definition prompt_rules :: string where
  "prompt_rules =
     nl @ nl @ ''Rules: '' @ dq ''subject'' @
     '' must be one of the known services listed above and is required only when '' @ dq ''action'' @
     '' is '' @ dq ''restart_container'' @
     ''. Never name a container, host, file path, or shell command '' @ [CHR 0xE2, CHR 0x80, CHR 0x94] @
     '' those are resolved by the harness, not you. If nothing here looks actionable, reply with action '' @
     dq ''none'' @ ''.'' @ nl"

definition buildPrompt :: "Status \<Rightarrow> string \<Rightarrow> ToolCall list \<Rightarrow> string list \<Rightarrow> string" where
  "buildPrompt trigger subject calls services =
     ''Service '' @ go_quote subject @ '' is reporting status '' @ Status_String trigger @ ''.'' @ nl @ nl @
     ''Diagnostic tool output (read-only, already gathered '' @ [CHR 0xE2, CHR 0x80, CHR 0x94] @
     '' you cannot run anything else):'' @ nl @
     (if calls = [] then ''(no tool output available)'' @ nl else '''') @
     concat (map prompt_call calls) @
     nl @ ''Known services (the only valid values for '' @ dq ''subject'' @ ''): '' @
     strings_Join (sort services) '', '' @ nl @ nl @
     ''Reply with exactly one JSON object and nothing else:'' @ nl @ prompt_shape @ prompt_rules"

text \<open>What one tool call returned: output, error, start and duration.\<close>

type_synonym tool_result = "string \<times> string option \<times> gotime \<times> duration"

text \<open>
  \<open>diagnosisSweep\<close>: the first \<open>n\<close> configured tools in order; the loop stops when the context
  has expired before a call (\<open>expired k\<close> for the \<open>k\<close>-th).
\<close>

fun sweep_loop :: "(nat \<Rightarrow> bool) \<Rightarrow> (nat \<Rightarrow> tool_result) \<Rightarrow> string \<Rightarrow> nat \<Rightarrow> string list \<Rightarrow> ToolCall list" where
  "sweep_loop expired call subject k [] = []"
| "sweep_loop expired call subject k (tool # tools) =
     (if expired k then []
      else (case call k of
          (out, err, start, dur) \<Rightarrow>
            \<lparr>TC_Tool = tool, TC_Args = [(''service'', subject)], TC_Output = out,
             TC_Err = (case err of None \<Rightarrow> '''' | Some e \<Rightarrow> e), TC_At = start, TC_Duration = dur\<rparr>)
           # sweep_loop expired call subject (Suc k) tools)"

definition diagnosisSweep :: "Options \<Rightarrow> (nat \<Rightarrow> bool) \<Rightarrow> (nat \<Rightarrow> tool_result) \<Rightarrow> string \<Rightarrow> ToolCall list" where
  "diagnosisSweep opts expired call subject =
     (let len = int (length (o_Tools opts));
          n = (if o_MaxToolCalls opts \<ge> 0 \<and> o_MaxToolCalls opts < len then o_MaxToolCalls opts else len)
      in sweep_loop expired call subject 0 (take (nat n) (o_Tools opts)))"

definition diagnose :: "Options \<Rightarrow> (string \<Rightarrow> string + ReasonerReply) \<Rightarrow> HarnessCycle \<Rightarrow> HarnessCycle" where
  "diagnose opts reason c =
     (case reason (buildPrompt (HC_TriggerStatus c) (HC_Subject c) (HC_ToolCalls c) (map fst (o_Targets opts))) of
        Inl err \<Rightarrow>
          c\<lparr>HC_Error := ''reasoner: '' @ err, HC_Diagnosis := runbook (HC_Subject c) (HC_TriggerStatus c)\<rparr>
      | Inr reply \<Rightarrow>
          c\<lparr>HC_Diagnosis := \<lparr>D_Summary = RR_Summary reply,
              D_Proposed = \<lparr>PA_Kind = RR_Action reply, PA_Subject = RR_Subject reply, PA_Rationale = RR_Rationale reply\<rparr>,
              D_Usage = RR_Usage reply, D_Fallback = False\<rparr>\<rparr>)"

definition appendNote :: "string \<Rightarrow> string \<Rightarrow> string" where
  "appendNote existing note = (if existing = '''' then note else existing @ ''; '' @ note)"

definition none_action :: ProposedAction where
  "none_action = \<lparr>PA_Kind = ActionNone, PA_Subject = '''', PA_Rationale = ''''\<rparr>"

definition validateProposal :: "Options \<Rightarrow> HarnessCycle \<Rightarrow> HarnessCycle" where
  "validateProposal opts c =
     (let p = D_Proposed (HC_Diagnosis c) in
      if PA_Kind p \<noteq> ActionRestartContainer \<and> PA_Kind p \<noteq> ActionNone then
        c\<lparr>HC_Error := appendNote (HC_Error c)
             (''proposed unknown action '' @ go_quote (PA_Kind p) @ '', downgraded to none''),
          HC_Diagnosis := (HC_Diagnosis c)\<lparr>D_Proposed := none_action\<rparr>\<rparr>
      else if PA_Kind p = ActionNone then c
      else (case map_of (o_Targets opts) (PA_Subject p) of
          None \<Rightarrow>
            c\<lparr>HC_Error := appendNote (HC_Error c)
                 (''proposed unknown subject '' @ go_quote (PA_Subject p) @ '', downgraded to none''),
              HC_Diagnosis := (HC_Diagnosis c)\<lparr>D_Proposed := none_action\<rparr>\<rparr>
        | Some target \<Rightarrow> c\<lparr>HC_ResolvedTarget := target\<rparr>))"

definition dispatch :: "string option \<Rightarrow> gotime \<Rightarrow> HarnessCycle \<Rightarrow> HarnessCycle" where
  "dispatch err now c =
     (case err of
        Some e \<Rightarrow> c\<lparr>HC_DispatchResult := e, HC_Outcome := OutcomeDispatchErr\<rparr>
      | None \<Rightarrow> c\<lparr>HC_DispatchResult := ''dispatched'', HC_DispatchedAt := now, HC_Outcome := OutcomePending\<rparr>)"

text \<open>\<open>persist\<close>: a store failure is logged and otherwise ignored.\<close>

definition persist :: "io \<Rightarrow> HarnessCycle \<Rightarrow> HState \<Rightarrow> HState" where
  "persist io c s = s\<lparr>h_db := snd (SaveHarnessCycle io c (h_db s))\<rparr>"

section \<open>The spine's hand-off\<close>

definition note_up :: "CommittedStatus \<Rightarrow> HState \<Rightarrow> HState" where
  "note_up cs s =
     (if CS_Status cs = StatusUp
      then s\<lparr>h_lastUp := (h_lastUp s)(CS_Service cs \<mapsto> CS_ChangedAt cs),
             log_up := log_up s @ [(CS_Service cs, CS_ChangedAt cs,
               case h_active s of
                 None \<Rightarrow> None
               | Some a \<Rightarrow> if cs_subject a = CS_Service cs \<and> cs_awaitingOutcome a then Some (cs_ref a) else None)]\<rparr>
      else s)"

definition signal_outcome :: "CommittedStatus \<Rightarrow> HState \<Rightarrow> HState" where
  "signal_outcome cs s =
     (case h_active s of
        None \<Rightarrow> s
      | Some a \<Rightarrow>
          if cs_subject a = CS_Service cs \<and> cs_awaitingOutcome a \<and> CS_Status cs = StatusUp
          then s\<lparr>h_active := Some (a\<lparr>cs_outcomeCh := True\<rparr>)\<rparr>
          else s)"

definition trigger_rejected :: "Options \<Rightarrow> gotime \<Rightarrow> CommittedStatus \<Rightarrow> HState \<Rightarrow> string option" where
  "trigger_rejected opts now cs s =
     (if o_Mode opts = HarnessOff then Some ''mode off''
      else if h_halted s then Some (''halted: '' @ h_haltReason s)
      else if CS_Status cs \<noteq> StatusDown then Some ''not a DOWN trigger''
      else if map_of (o_Targets opts) (CS_Service cs) = None then Some ''no target mapping''
      else if h_active s \<noteq> None then Some ''cycle already active''
      else (case h_cooldown s (CS_Service cs) of
              Some until \<Rightarrow> if now < until then Some ''in cooldown'' else None
            | None \<Rightarrow> None))"

definition blank_cycle :: "string \<Rightarrow> string \<Rightarrow> Status \<Rightarrow> HarnessMode \<Rightarrow> gotime \<Rightarrow> HarnessCycle" where
  "blank_cycle cid subject trigger mode started =
     \<lparr>HC_ID = cid, HC_Subject = subject, HC_TriggerStatus = trigger, HC_Mode = mode,
      HC_StartedAt = started, HC_ToolCalls = [], HC_Diagnosis = zero_Diagnosis,
      HC_Approval = ApprovalPending, HC_ApprovedBy = '''', HC_ApprovedAt = zero_time,
      HC_ResolvedTarget = '''', HC_DispatchResult = '''', HC_DispatchedAt = zero_time,
      HC_Outcome = '''', HC_OutcomeAt = zero_time, HC_Error = ''''\<rparr>"

text \<open>The single-flight pointer is set and the goroutine started.\<close>

definition begin_cycle :: "Options \<Rightarrow> string \<Rightarrow> gotime \<Rightarrow> CommittedStatus \<Rightarrow> HState \<Rightarrow> HState" where
  "begin_cycle opts cid now cs s =
     s\<lparr>h_active := Some \<lparr>cs_ref = h_nextref s, cs_id = cid, cs_subject = CS_Service cs,
          cs_cycle = blank_cycle [] [] StatusUnknown HarnessOff zero_time,
          cs_decisionCh = None, cs_outcomeCh = False, cs_awaitingApproval = False, cs_awaitingOutcome = False\<rparr>,
       h_gor := Some \<lparr>g_ref = h_nextref s, g_pc = PcBegin,
          g_cycle = blank_cycle cid (CS_Service cs) (CS_Status cs) (o_Mode opts) now\<rparr>,
       h_nextref := Suc (h_nextref s)\<rparr>"

text \<open>\<open>ObserveCommit\<close>; \<open>cid\<close> is what \<open>NewCycleID\<close> returns.\<close>

definition ObserveCommit :: "Options \<Rightarrow> string \<Rightarrow> gotime \<Rightarrow> CommittedStatus \<Rightarrow> HState \<Rightarrow> HState" where
  "ObserveCommit opts cid now cs s0 =
     (let s = signal_outcome cs (note_up cs s0) in
      case trigger_rejected opts now cs s of
        Some reason \<Rightarrow> s
      | None \<Rightarrow> begin_cycle opts cid now cs s)"

section \<open>The Operator's calls\<close>

text \<open>
  \<open>decide\<close> up to the release of the lock: the error it returns, or the send it is about to do.
\<close>

definition decide :: "io \<Rightarrow> gotime \<Rightarrow> string \<Rightarrow> string \<Rightarrow> ApprovalDecision \<Rightarrow> HState \<Rightarrow> string option \<times> HState" where
  "decide io now cid who decision s =
     (case h_active s of
        None \<Rightarrow> (Some ''unknown cycle'', s)
      | Some a \<Rightarrow>
          if cs_id a \<noteq> cid then (Some ''unknown cycle'', s)
          else if \<not> cs_awaitingApproval a then (Some (''cycle '' @ cid @ '': not awaiting approval''), s)
          else
            (let c = (cs_cycle a)\<lparr>HC_Approval := decision, HC_ApprovedBy := who, HC_ApprovedAt := now\<rparr>;
                 r = SaveHarnessCycle io c (h_db s)
             in case fst r of
                  Some e \<Rightarrow> (Some (''persist approval decision: '' @ e), s)
                | None \<Rightarrow>
                    (None, s\<lparr>h_db := snd r,
                       h_active := Some (a\<lparr>cs_awaitingApproval := False, cs_cycle := c\<rparr>),
                       h_sends := h_sends s @ [(cs_ref a, \<lparr>am_decision = decision, am_who = who, am_at = now\<rparr>)],
                       log_approved := (if decision = ApprovalApproved
                         then log_approved s @ [(cs_ref a, who, now)] else log_approved s)\<rparr>)))"

definition Approve :: "io \<Rightarrow> gotime \<Rightarrow> string \<Rightarrow> string \<Rightarrow> HState \<Rightarrow> string option \<times> HState" where
  "Approve io now cid who s = decide io now cid who ApprovalApproved s"

definition Deny :: "io \<Rightarrow> gotime \<Rightarrow> string \<Rightarrow> string \<Rightarrow> HState \<Rightarrow> string option \<times> HState" where
  "Deny io now cid who s = decide io now cid who ApprovalDenied s"

text \<open>
  The non-blocking send behind the lock. A \<open>decide\<close> whose cycle is gone sends to a channel that
  nobody reads any more.
\<close>

definition send_decision :: "nat \<Rightarrow> HState \<Rightarrow> HState" where
  "send_decision k s =
     (if k < length (h_sends s)
      then (let (r, msg) = h_sends s ! k; s1 = s\<lparr>h_sends := take k (h_sends s) @ drop (Suc k) (h_sends s)\<rparr>
            in case h_active s1 of
                 Some a \<Rightarrow>
                   if cs_ref a = r \<and> cs_decisionCh a = None
                   then s1\<lparr>h_active := Some (a\<lparr>cs_decisionCh := Some msg\<rparr>)\<rparr> else s1
               | None \<Rightarrow> s1)
      else s)"

definition Halt :: "string \<Rightarrow> HState \<Rightarrow> HState" where
  "Halt reason s = s\<lparr>h_halted := True, h_haltReason := reason\<rparr>"

definition Rearm :: "HState \<Rightarrow> HState" where
  "Rearm s = s\<lparr>h_halted := False, h_haltReason := ''''\<rparr>"

section \<open>The runCycle goroutine\<close>

record rc_env =
  re_now :: gotime
  re_io :: io
  re_expired :: "nat \<Rightarrow> bool"
  re_tool :: "nat \<Rightarrow> tool_result"
  re_reason :: "string \<Rightarrow> string + ReasonerReply"
  re_actuator :: "string \<Rightarrow> string option"
  re_timer :: bool

definition goto :: "pc \<Rightarrow> HarnessCycle \<Rightarrow> HState \<Rightarrow> HState" where
  "goto p c s = s\<lparr>h_gor := (case h_gor s of None \<Rightarrow> None | Some g \<Rightarrow> Some (g\<lparr>g_pc := p, g_cycle := c\<rparr>))\<rparr>"

definition on_active :: "(cycleState \<Rightarrow> cycleState) \<Rightarrow> HState \<Rightarrow> HState" where
  "on_active f s = s\<lparr>h_active := map_option f (h_active s)\<rparr>"

definition already_recovered :: "HarnessCycle \<Rightarrow> HState \<Rightarrow> bool" where
  "already_recovered c s =
     (case h_lastUp s (HC_Subject c) of None \<Rightarrow> False | Some upAt \<Rightarrow> \<not> upAt < HC_ApprovedAt c)"

fun rc_step :: "Options \<Rightarrow> rc_env \<Rightarrow> pc \<Rightarrow> HarnessCycle \<Rightarrow> HState \<Rightarrow> HState" where
  "rc_step opts env PcBegin c s = goto PcSweep c (persist (re_io env) c s)"
| "rc_step opts env PcSweep c s =
     (let c1 = c\<lparr>HC_ToolCalls := diagnosisSweep opts (re_expired env) (re_tool env) (HC_Subject c)\<rparr>
      in goto PcDiagnose c1 (persist (re_io env) c1 s))"
| "rc_step opts env PcDiagnose c s =
     (let c1 = validateProposal opts (diagnose opts (re_reason env) c) in
      if o_Mode opts = HarnessShadow \<or> PA_Kind (D_Proposed (HC_Diagnosis c1)) = ActionNone
      then (let c2 = c1\<lparr>HC_Approval := ApprovalNotRequested, HC_Outcome := OutcomeNone\<rparr>
            in goto PcExit c2 (persist (re_io env) c2 s))
      else goto PcArm c1 s)"
| "rc_step opts env PcArm c s =
     (let c1 = c\<lparr>HC_Approval := ApprovalPending\<rparr>
      in goto PcPersistPending c1 (on_active (\<lambda>a. a\<lparr>cs_awaitingApproval := True, cs_cycle := c1\<rparr>) s))"
| "rc_step opts env PcPersistPending c s = goto PcWaitApproval c (persist (re_io env) c s)"
| "rc_step opts env PcWaitApproval c s =
     (if re_timer env then goto PcTimedOut c s
      else (case h_active s of
          Some a \<Rightarrow>
            (case cs_decisionCh a of
               Some msg \<Rightarrow> goto (PcDecided msg) c (on_active (\<lambda>a. a\<lparr>cs_decisionCh := None\<rparr>) s)
             | None \<Rightarrow> s)
        | None \<Rightarrow> s))"
| "rc_step opts env PcTimedOut c s =
     goto (PcDecided \<lparr>am_decision = ApprovalExpired, am_who = '''', am_at = zero_time\<rparr>) c
       (on_active (\<lambda>a. a\<lparr>cs_awaitingApproval := False\<rparr>) s)"
| "rc_step opts env (PcDecided msg) c s =
     (let c1 = c\<lparr>HC_Approval := am_decision msg, HC_ApprovedBy := am_who msg,
                HC_ApprovedAt := (if IsZero (am_at msg) then HC_ApprovedAt c else am_at msg)\<rparr>
      in if am_decision msg \<noteq> ApprovalApproved
         then (let c2 = c1\<lparr>HC_Outcome := OutcomeNone\<rparr> in goto PcExit c2 (persist (re_io env) c2 s))
         else goto PcDispatch c1 s)"
| "rc_step opts env PcDispatch c s =
     (let c1 = dispatch (re_actuator env (HC_ResolvedTarget c)) (re_now env) c;
          s1 = s\<lparr>log_dispatch := log_dispatch s @ (case h_gor s of None \<Rightarrow> [] | Some g \<Rightarrow> [(g_ref g, HC_ResolvedTarget c)])\<rparr>
      in if HC_Outcome c1 \<noteq> OutcomePending then goto PcExit c1 (persist (re_io env) c1 s1)
         else goto PcArmOutcome c1 s1)"
| "rc_step opts env PcArmOutcome c s =
     goto (PcPersistOutcome (already_recovered c s)) c (on_active (\<lambda>a. a\<lparr>cs_awaitingOutcome := True\<rparr>) s)"
| "rc_step opts env (PcPersistOutcome recovered) c s =
     goto (if recovered then PcResolve OutcomeRecovered else PcWaitOutcome) c (persist (re_io env) c s)"
| "rc_step opts env PcWaitOutcome c s =
     (if re_timer env then goto (PcResolve OutcomeActionFailed) c s
      else (case h_active s of
          Some a \<Rightarrow>
            if cs_outcomeCh a
            then goto (PcResolve OutcomeRecovered) c (on_active (\<lambda>a. a\<lparr>cs_outcomeCh := False\<rparr>) s)
            else s
        | None \<Rightarrow> s))"
| "rc_step opts env (PcResolve outcome) c s =
     (let c1 = c\<lparr>HC_Outcome := outcome, HC_OutcomeAt := re_now env\<rparr>;
          s1 = on_active (\<lambda>a. a\<lparr>cs_awaitingOutcome := False\<rparr>) s
      in goto PcCooldown c1 (persist (re_io env) c1 (s1\<lparr>h_lastUp := (h_lastUp s1)(HC_Subject c := None)\<rparr>)))"
| "rc_step opts env PcCooldown c s =
     goto PcExit c (s\<lparr>h_cooldown := (h_cooldown s)(HC_Subject c \<mapsto> re_now env + o_Cooldown opts)\<rparr>)"
| "rc_step opts env PcExit c s = s\<lparr>h_active := None, h_gor := None\<rparr>"

definition runCycle_step :: "Options \<Rightarrow> rc_env \<Rightarrow> HState \<Rightarrow> HState" where
  "runCycle_step opts env s =
     (case h_gor s of None \<Rightarrow> s | Some g \<Rightarrow> rc_step opts env (g_pc g) (g_cycle g) s)"

section \<open>Interleaving\<close>

datatype hevent =
    Commit string gotime CommittedStatus
  | Cycle rc_env
  | ApproveCall io gotime string string
  | DenyCall io gotime string string
  | Send nat
  | HaltCall string
  | RearmCall

fun hstep :: "Options \<Rightarrow> hevent \<Rightarrow> HState \<Rightarrow> HState" where
  "hstep opts (Commit cid now cs) s = ObserveCommit opts cid now cs s"
| "hstep opts (Cycle env) s = runCycle_step opts env s"
| "hstep opts (ApproveCall io now cid who) s = snd (Approve io now cid who s)"
| "hstep opts (DenyCall io now cid who) s = snd (Deny io now cid who s)"
| "hstep opts (Send k) s = send_decision k s"
| "hstep opts (HaltCall reason) s = Halt reason s"
| "hstep opts RearmCall s = Rearm s"

section \<open>Startup reconciliation\<close>

definition reconcileListLimit :: int where
  "reconcileListLimit = 1000"

definition reconcile_note :: string where
  "reconcile_note = ''interrupted by a process restart; resolved by startup reconciliation''"

text \<open>The loop body: the resolved cycle, or nothing when it is left untouched.\<close>

definition reconcile_cycle :: "HarnessCycle \<Rightarrow> HarnessCycle option" where
  "reconcile_cycle c0 =
     (let c1 = (if HC_Approval c0 = ApprovalPending
                then c0\<lparr>HC_Approval := ApprovalExpired, HC_Outcome := OutcomeNone\<rparr> else c0);
          c2 = (if HC_Outcome c1 = OutcomePending then c1\<lparr>HC_Outcome := OutcomeActionFailed\<rparr> else c1);
          changed = (HC_Approval c0 = ApprovalPending \<or> HC_Outcome c1 = OutcomePending)
      in if changed then Some (c2\<lparr>HC_Error := appendNote (HC_Error c2) reconcile_note\<rparr>) else None)"

fun reconcile_loop :: "(string \<Rightarrow> io) \<Rightarrow> HarnessCycle list \<Rightarrow> DB \<Rightarrow> string option \<times> DB" where
  "reconcile_loop io [] db = (None, db)"
| "reconcile_loop io (c # cs) db =
     (case reconcile_cycle c of
        None \<Rightarrow> reconcile_loop io cs db
      | Some c' \<Rightarrow>
          (case SaveHarnessCycle (io (HC_ID c')) c' db of
             (Some e, db') \<Rightarrow> (Some (''reconcile: save cycle '' @ HC_ID c' @ '': '' @ e), db')
           | (None, db') \<Rightarrow> reconcile_loop io cs db'))"

definition Reconcile :: "io \<Rightarrow> (string \<Rightarrow> io) \<Rightarrow> DB \<Rightarrow> string option \<times> DB" where
  "Reconcile list_io save_io db =
     (case ListHarnessCycles list_io reconcileListLimit db of
        Inl e \<Rightarrow> (Some (''reconcile: list harness cycles: '' @ e), db)
      | Inr cycles \<Rightarrow> reconcile_loop save_io cycles db)"

section \<open>Self-monitoring\<close>

definition Healthy :: "Options \<Rightarrow> string option \<Rightarrow> string option \<Rightarrow> string option" where
  "Healthy opts reasoner actuator =
     (case reasoner of
        Some e \<Rightarrow> Some (''reasoner: '' @ e)
      | None \<Rightarrow>
          if o_Mode opts = HarnessLive
          then (case actuator of Some e \<Rightarrow> Some (''actuator: '' @ e) | None \<Rightarrow> None)
          else None)"

definition harnessProber_Probe :: "Options \<Rightarrow> string option \<Rightarrow> string option \<Rightarrow> duration \<Rightarrow> ProbeResult" where
  "harnessProber_Probe opts reasoner actuator latency =
     (case Healthy opts reasoner actuator of
        Some e \<Rightarrow> \<lparr>PR_Status = StatusDown, PR_Latency = latency, PR_Err = Some e\<rparr>
      | None \<Rightarrow> \<lparr>PR_Status = StatusUp, PR_Latency = latency, PR_Err = None\<rparr>)"

end
