(* ===== verification/Harness_Props.thy ===== *)
theory Harness_Props
  imports Harness "HOL-Library.Multiset"
begin

text \<open>
  What the management agent guarantees over every interleaving of commits, Operator calls,
  control calls and goroutine steps: the Approval gate in front of the Actuator, the audit
  records, the release of the single-flight gate, and startup reconciliation. The invariant is
  split into the parts the proofs need and proved once through \<open>step_invariant\<close>.
\<close>

section \<open>Classes of program points\<close>

fun proposing :: "pc \<Rightarrow> bool" where
  "proposing PcBegin = True"
| "proposing PcSweep = True"
| "proposing PcDiagnose = True"
| "proposing _ = False"

fun undispatched :: "pc \<Rightarrow> bool" where
  "undispatched PcBegin = True"
| "undispatched PcSweep = True"
| "undispatched PcDiagnose = True"
| "undispatched PcArm = True"
| "undispatched PcPersistPending = True"
| "undispatched PcWaitApproval = True"
| "undispatched PcTimedOut = True"
| "undispatched (PcDecided _) = True"
| "undispatched PcDispatch = True"
| "undispatched _ = False"

fun awaiting :: "pc \<Rightarrow> bool" where
  "awaiting PcPersistPending = True"
| "awaiting PcWaitApproval = True"
| "awaiting PcTimedOut = True"
| "awaiting _ = False"

fun judging :: "pc \<Rightarrow> bool" where
  "judging PcArmOutcome = True"
| "judging (PcPersistOutcome _) = True"
| "judging PcWaitOutcome = True"
| "judging (PcResolve _) = True"
| "judging PcCooldown = True"
| "judging _ = False"

lemma awaiting_point: "awaiting p \<Longrightarrow> \<not> proposing p \<and> p \<noteq> PcArm \<and> undispatched p"
  by (cases p) simp_all

text \<open>How many more goroutine steps a cycle can take once its timers fire.\<close>

fun pc_rank :: "pc \<Rightarrow> nat" where
  "pc_rank PcBegin = 15"
| "pc_rank PcSweep = 14"
| "pc_rank PcDiagnose = 13"
| "pc_rank PcArm = 12"
| "pc_rank PcPersistPending = 11"
| "pc_rank PcWaitApproval = 10"
| "pc_rank PcTimedOut = 9"
| "pc_rank (PcDecided _) = 8"
| "pc_rank PcDispatch = 7"
| "pc_rank PcArmOutcome = 6"
| "pc_rank (PcPersistOutcome _) = 5"
| "pc_rank PcWaitOutcome = 4"
| "pc_rank (PcResolve _) = 3"
| "pc_rank PcCooldown = 2"
| "pc_rank PcExit = 1"

section \<open>The invariant\<close>

definition granted :: "HState \<Rightarrow> nat \<Rightarrow> approvalMsg \<Rightarrow> bool" where
  "granted s r msg \<longleftrightarrow>
     (am_decision msg = ApprovalApproved \<longrightarrow> (r, am_who msg, am_at msg) \<in> set (log_approved s))"

text \<open>The in-flight pointer and the goroutine are the same cycle.\<close>

definition inv_link :: "HState \<Rightarrow> bool" where
  "inv_link s \<longleftrightarrow>
     (h_active s = None \<longleftrightarrow> h_gor s = None) \<and>
     (\<forall>a g. h_active s = Some a \<longrightarrow> h_gor s = Some g \<longrightarrow>
        cs_ref a = g_ref g \<and> g_ref g < h_nextref s \<and> cs_subject a = HC_Subject (g_cycle g) \<and>
        (cs_awaitingApproval a \<longrightarrow> awaiting (g_pc g)) \<and>
        (cs_awaitingApproval a \<or> proposing (g_pc g) \<or> g_pc g = PcArm \<longrightarrow>
           cs_decisionCh a = None \<and> (\<forall>m. (cs_ref a, m) \<notin> set (h_sends s))))"

text \<open>Every Approved message in flight stems from a granted Approval of its own cycle.\<close>

definition inv_msgs :: "HState \<Rightarrow> bool" where
  "inv_msgs s \<longleftrightarrow>
     (\<forall>(r, msg) \<in> set (h_sends s). r < h_nextref s \<and> granted s r msg) \<and>
     (\<forall>a msg. h_active s = Some a \<longrightarrow> cs_decisionCh a = Some msg \<longrightarrow> granted s (cs_ref a) msg) \<and>
     (\<forall>g msg. h_gor s = Some g \<longrightarrow> g_pc g = PcDecided msg \<longrightarrow> granted s (g_ref g) msg)"

definition resolvable :: "Options \<Rightarrow> string \<Rightarrow> bool" where
  "resolvable opts target \<longleftrightarrow> target \<in> ran (map_of (o_Targets opts))"

text \<open>What a goroutine past a program point has established.\<close>

definition inv_gor :: "Options \<Rightarrow> HState \<Rightarrow> bool" where
  "inv_gor opts s \<longleftrightarrow>
     (\<forall>g. h_gor s = Some g \<longrightarrow>
        o_Mode opts \<noteq> HarnessOff \<and>
        (\<not> proposing (g_pc g) \<and> g_pc g \<noteq> PcExit \<longrightarrow>
           o_Mode opts = HarnessLive \<and> resolvable opts (HC_ResolvedTarget (g_cycle g))) \<and>
        (g_pc g = PcDispatch \<longrightarrow> (\<exists>who at. (g_ref g, who, at) \<in> set (log_approved s))) \<and>
        (undispatched (g_pc g) \<longrightarrow> (\<forall>t. (g_ref g, t) \<notin> set (log_dispatch s))))"

definition inv_log :: "Options \<Rightarrow> HState \<Rightarrow> bool" where
  "inv_log opts s \<longleftrightarrow>
     distinct (map fst (log_dispatch s)) \<and>
     (\<forall>(r, target) \<in> set (log_dispatch s).
        r < h_nextref s \<and> o_Mode opts = HarnessLive \<and> resolvable opts target \<and>
        (\<exists>who at. (r, who, at) \<in> set (log_approved s)))"

definition hinv :: "Options \<Rightarrow> HState \<Rightarrow> bool" where
  "hinv opts s \<longleftrightarrow> inv_link s \<and> inv_msgs s \<and> inv_gor opts s \<and> inv_log opts s"

lemmas hinv_defs = hinv_def inv_link_def inv_msgs_def inv_gor_def inv_log_def granted_def

section \<open>Every step keeps the invariant\<close>

lemma persist_frame [simp]:
  "h_active (persist io c s) = h_active s" "h_gor (persist io c s) = h_gor s"
  "h_sends (persist io c s) = h_sends s" "h_nextref (persist io c s) = h_nextref s"
  "log_approved (persist io c s) = log_approved s" "log_dispatch (persist io c s) = log_dispatch s"
  "log_up (persist io c s) = log_up s" "h_lastUp (persist io c s) = h_lastUp s"
  "h_cooldown (persist io c s) = h_cooldown s" "h_halted (persist io c s) = h_halted s"
  by (simp_all add: persist_def)

lemma goto_frame [simp]:
  "h_active (goto p c s) = h_active s" "h_sends (goto p c s) = h_sends s"
  "h_nextref (goto p c s) = h_nextref s" "log_approved (goto p c s) = log_approved s"
  "log_dispatch (goto p c s) = log_dispatch s" "log_up (goto p c s) = log_up s"
  "h_lastUp (goto p c s) = h_lastUp s" "h_db (goto p c s) = h_db s"
  "h_gor (goto p c s) = map_option (\<lambda>g. g\<lparr>g_pc := p, g_cycle := c\<rparr>) (h_gor s)"
  by (simp_all add: goto_def split: option.split)

lemma on_active_frame [simp]:
  "h_active (on_active f s) = map_option f (h_active s)" "h_sends (on_active f s) = h_sends s"
  "h_nextref (on_active f s) = h_nextref s" "log_approved (on_active f s) = log_approved s"
  "log_dispatch (on_active f s) = log_dispatch s" "log_up (on_active f s) = log_up s"
  "h_lastUp (on_active f s) = h_lastUp s" "h_db (on_active f s) = h_db s"
  "h_gor (on_active f s) = h_gor s"
  by (simp_all add: on_active_def)

lemma diagnose_keeps [simp]:
  "HC_Subject (diagnose opts reason c) = HC_Subject c" "HC_ID (diagnose opts reason c) = HC_ID c"
  "HC_Outcome (diagnose opts reason c) = HC_Outcome c"
  "HC_DispatchResult (diagnose opts reason c) = HC_DispatchResult c"
  by (simp_all add: diagnose_def split: sum.split)

lemma validate_keeps [simp]:
  "HC_Subject (validateProposal opts c) = HC_Subject c" "HC_ID (validateProposal opts c) = HC_ID c"
  "HC_Outcome (validateProposal opts c) = HC_Outcome c"
  "HC_DispatchResult (validateProposal opts c) = HC_DispatchResult c"
  by (simp_all add: validateProposal_def Let_def split: option.split)

lemma dispatch_keeps [simp]:
  "HC_Subject (dispatch e now c) = HC_Subject c" "HC_ID (dispatch e now c) = HC_ID c"
  "HC_ResolvedTarget (dispatch e now c) = HC_ResolvedTarget c"
  "HC_ApprovedAt (dispatch e now c) = HC_ApprovedAt c" "HC_Approval (dispatch e now c) = HC_Approval c"
  by (simp_all add: dispatch_def split: option.split)

text \<open>The only proposals that survive validation are \<open>none\<close> and a restart of an allowlisted Service.\<close>

lemma validate_actionable:
  assumes "PA_Kind (D_Proposed (HC_Diagnosis (validateProposal opts c))) \<noteq> ActionNone"
  shows "resolvable opts (HC_ResolvedTarget (validateProposal opts c))"
  using assms
  by (auto simp: validateProposal_def Let_def none_action_def resolvable_def
      intro: ranI split: option.splits if_splits)

lemma live_mode: "m \<noteq> HarnessOff \<Longrightarrow> m \<noteq> HarnessShadow \<Longrightarrow> m = HarnessLive"
  by (cases m) simp_all

lemma link_rc_step:
  assumes "inv_link s" "h_gor s = Some g" "h_active s = Some a"
  shows "inv_link (rc_step opts env (g_pc g) (g_cycle g) s)"
  using assms
  by (cases "g_pc g") (auto simp: inv_link_def Let_def split: option.split)

lemma msgs_rc_step:
  assumes "inv_msgs s" "inv_link s" "h_gor s = Some g" "h_active s = Some a"
  shows "inv_msgs (rc_step opts env (g_pc g) (g_cycle g) s)"
  using assms
  by (cases "g_pc g") (auto simp: inv_msgs_def inv_link_def granted_def Let_def split: option.split)

lemma gor_rc_step:
  assumes "inv_gor opts s" "inv_msgs s" "inv_link s" "h_gor s = Some g" "h_active s = Some a"
  shows "inv_gor opts (rc_step opts env (g_pc g) (g_cycle g) s)"
  using assms validate_actionable [of opts "diagnose opts (re_reason env) (g_cycle g)"]
  by (cases "g_pc g")
    (auto simp: inv_gor_def inv_msgs_def inv_link_def granted_def Let_def
      split: option.split intro: live_mode)

lemma log_rc_step:
  assumes "inv_log opts s" "inv_gor opts s" "inv_link s" "h_gor s = Some g" "h_active s = Some a"
  shows "inv_log opts (rc_step opts env (g_pc g) (g_cycle g) s)"
  using assms
  by (cases "g_pc g")
    (auto simp: inv_log_def inv_gor_def inv_link_def Let_def split: option.split)

lemma hinv_link: "hinv opts s \<Longrightarrow> inv_link s"
  by (simp add: hinv_def)

lemma hinv_active:
  assumes "hinv opts s" "h_gor s = Some g"
  obtains a where "h_active s = Some a"
  using assms by (auto simp: hinv_def inv_link_def)

lemma hinv_rc_step:
  assumes "hinv opts s" "h_gor s = Some g"
  shows "hinv opts (rc_step opts env (g_pc g) (g_cycle g) s)"
proof -
  obtain a where "h_active s = Some a" using assms by (rule hinv_active)
  with assms show ?thesis by (simp add: hinv_def link_rc_step msgs_rc_step gor_rc_step log_rc_step)
qed

lemma hinv_runCycle_step: "hinv opts s \<Longrightarrow> hinv opts (runCycle_step opts env s)"
  by (simp add: runCycle_step_def hinv_rc_step split: option.split)

lemma hinv_frame:
  assumes "hinv opts s" "h_active t = h_active s" "h_gor t = h_gor s" "h_sends t = h_sends s"
    "h_nextref t = h_nextref s" "log_approved t = log_approved s" "log_dispatch t = log_dispatch s"
  shows "hinv opts t"
  using assms by (simp add: hinv_def inv_link_def inv_msgs_def inv_gor_def inv_log_def granted_def cong: conj_cong)

lemma hinv_note_up: "hinv opts s \<Longrightarrow> hinv opts (note_up cs s)"
  by (erule hinv_frame) (simp_all add: note_up_def)

lemma hinv_active_upd:
  assumes "hinv opts s" "h_active s = Some a" "cs_ref a' = cs_ref a" "cs_subject a' = cs_subject a"
    "cs_awaitingApproval a' = cs_awaitingApproval a" "cs_decisionCh a' = cs_decisionCh a"
  shows "hinv opts (s\<lparr>h_active := Some a'\<rparr>)"
proof -
  have "inv_link (s\<lparr>h_active := Some a'\<rparr>)" "inv_msgs (s\<lparr>h_active := Some a'\<rparr>)"
    using assms by (auto simp: hinv_def inv_link_def inv_msgs_def granted_def)
  with assms show ?thesis by (simp add: hinv_def inv_gor_def inv_log_def)
qed

lemma hinv_signal: "hinv opts s \<Longrightarrow> hinv opts (signal_outcome cs s)"
  by (simp add: signal_outcome_def hinv_active_upd split: option.split)

lemma hinv_begin:
  assumes "hinv opts s" "h_active s = None" "o_Mode opts \<noteq> HarnessOff"
  shows "hinv opts (begin_cycle opts cid now cs s)"
  using assms
  by (fastforce simp: begin_cycle_def hinv_defs blank_cycle_def)

lemma hinv_ObserveCommit:
  assumes "hinv opts s"
  shows "hinv opts (ObserveCommit opts cid now cs s)"
proof -
  let ?s = "signal_outcome cs (note_up cs s)"
  have inv: "hinv opts ?s" using assms by (simp add: hinv_note_up hinv_signal)
  show ?thesis
  proof (cases "trigger_rejected opts now cs ?s")
    case (Some r)
    with inv show ?thesis by (simp add: ObserveCommit_def)
  next
    case None
    then have idle: "h_active ?s = None" and mode: "o_Mode opts \<noteq> HarnessOff"
      by (auto simp: trigger_rejected_def split: if_splits)
    with None inv show ?thesis by (simp add: ObserveCommit_def hinv_begin)
  qed
qed

lemma hinv_decide:
  assumes "hinv opts s"
  shows "hinv opts (snd (decide io now cid who d s))"
proof (cases "h_active s")
  case None
  with assms show ?thesis by (simp add: decide_def)
next
  case (Some a)
  then obtain g where g: "h_gor s = Some g" using assms by (auto simp: hinv_def inv_link_def)
  let ?t = "snd (decide io now cid who d s)"
  have "inv_link ?t"
    using assms Some g awaiting_point [of "g_pc g"] by (auto simp: decide_def Let_def hinv_def inv_link_def split: option.split)
  moreover have "inv_log opts ?t"
    using assms Some g by (fastforce simp: decide_def Let_def hinv_def inv_log_def split: option.split)
  moreover have "inv_gor opts ?t"
    using assms Some g by (auto simp: decide_def Let_def hinv_def inv_gor_def split: option.split)
  moreover have "inv_msgs ?t"
    using assms Some g
    by (auto simp: decide_def Let_def hinv_def inv_link_def inv_msgs_def granted_def split: option.split)
  ultimately show ?thesis by (simp add: hinv_def)
qed

lemma hinv_fewer_sends:
  assumes "hinv opts s" "set rest \<subseteq> set (h_sends s)"
  shows "hinv opts (s\<lparr>h_sends := rest\<rparr>)"
proof -
  have sub: "x \<in> set (h_sends s)" if "x \<in> set rest" for x using assms(2) that by auto
  have "inv_link (s\<lparr>h_sends := rest\<rparr>)" using assms(1) by (auto simp: hinv_def inv_link_def dest!: sub)
  moreover have "inv_msgs (s\<lparr>h_sends := rest\<rparr>)"
    using assms(1) by (auto simp: hinv_def inv_msgs_def granted_def dest!: sub)
  moreover note assms(1)
  ultimately show ?thesis by (simp add: hinv_def inv_gor_def inv_log_def)
qed

lemma hinv_deliver:
  assumes "hinv opts s" "h_active s = Some a" "h_gor s = Some g" "granted s (cs_ref a) msg"
    "\<not> cs_awaitingApproval a" "\<not> proposing (g_pc g)" "g_pc g \<noteq> PcArm"
  shows "hinv opts (s\<lparr>h_active := Some (a\<lparr>cs_decisionCh := Some msg\<rparr>)\<rparr>)"
proof -
  let ?t = "s\<lparr>h_active := Some (a\<lparr>cs_decisionCh := Some msg\<rparr>)\<rparr>"
  have "inv_link ?t" using assms by (simp add: hinv_def inv_link_def)
  moreover have "inv_msgs ?t" using assms by (simp add: hinv_def inv_msgs_def granted_def)
  ultimately show ?thesis using assms by (simp add: hinv_def inv_gor_def inv_log_def)
qed

lemma hinv_send:
  assumes inv: "hinv opts s"
  shows "hinv opts (send_decision k s)"
proof (cases "k < length (h_sends s)")
  case False
  with inv show ?thesis by (simp add: send_decision_def)
next
  case True
  obtain r msg where rm: "h_sends s ! k = (r, msg)" by fastforce
  then have mem: "(r, msg) \<in> set (h_sends s)" using True nth_mem by fastforce
  define t where "t = s\<lparr>h_sends := take k (h_sends s) @ drop (Suc k) (h_sends s)\<rparr>"
  have t: "hinv opts t"
    unfolding t_def by (rule hinv_fewer_sends [OF inv]) (auto dest: in_set_takeD in_set_dropD)
  have gr: "granted t r msg" using inv mem by (auto simp: hinv_def inv_msgs_def granted_def t_def)
  have "hinv opts (t\<lparr>h_active := Some (a\<lparr>cs_decisionCh := Some msg\<rparr>)\<rparr>)"
    if a: "h_active s = Some a" and r: "cs_ref a = r" for a
  proof -
    obtain g where g: "h_gor s = Some g" using inv a by (auto simp: hinv_def inv_link_def)
    have "\<not> cs_awaitingApproval a \<and> \<not> proposing (g_pc g) \<and> g_pc g \<noteq> PcArm"
      using inv a g r mem by (auto simp: hinv_def inv_link_def)
    moreover have "h_active t = Some a" "h_gor t = Some g" using a g by (simp_all add: t_def)
    moreover note t gr
    ultimately show ?thesis using r by (intro hinv_deliver [of opts t a g msg]) simp_all
  qed
  with True rm t show ?thesis
    by (simp add: send_decision_def t_def [symmetric]) (auto simp: t_def split: option.split)
qed

lemma hinv_hstep: "hinv opts s \<Longrightarrow> hinv opts (hstep opts e s)"
  by (cases e)
    (auto simp: hinv_runCycle_step hinv_ObserveCommit hinv_decide hinv_send Approve_def Deny_def
      Halt_def Rearm_def elim: hinv_frame)

lemma hinv_New: "hinv opts (harness_New db)"
  by (simp add: harness_New_def hinv_defs)

interpretation gate: step_invariant "\<lambda>s. \<exists>db. s = harness_New db" "hstep opts" "\<lambda>_. True" "hinv opts" for opts
  by unfold_locales (auto simp: hinv_New hinv_hstep)

lemma hinv_run: "hinv opts (fold (hstep opts) es (harness_New db))"
  by (rule gate.inv_run) (auto simp: list_all_iff)

section \<open>Where an Approval in the log comes from\<close>

lemma decide_log:
  "log_approved (snd (decide io now cid who d s)) =
     (if fst (decide io now cid who d s) = None \<and> d = ApprovalApproved
      then log_approved s @ [(cs_ref (the (h_active s)), who, now)] else log_approved s)"
  by (simp add: decide_def Let_def split: option.split)

lemma decide_ok:
  "fst (decide io now cid who d s) = None \<longleftrightarrow>
     (\<exists>a. h_active s = Some a \<and> cs_id a = cid \<and> cs_awaitingApproval a \<and> io = None)"
  by (auto simp: decide_def Let_def SaveHarnessCycle_def split: option.split)

lemma rc_step_log_approved [simp]: "log_approved (rc_step opts env p c s) = log_approved s"
  by (cases p) (simp_all add: Let_def split: option.split)

lemma begin_cycle_frame [simp]:
  "log_approved (begin_cycle opts cid now cs s) = log_approved s"
  "log_dispatch (begin_cycle opts cid now cs s) = log_dispatch s"
  "log_up (begin_cycle opts cid now cs s) = log_up s"
  "h_lastUp (begin_cycle opts cid now cs s) = h_lastUp s"
  "h_db (begin_cycle opts cid now cs s) = h_db s"
  by (simp_all add: begin_cycle_def)

lemma ObserveCommit_log [simp]:
  "log_approved (ObserveCommit opts cid now cs s) = log_approved s"
  "log_dispatch (ObserveCommit opts cid now cs s) = log_dispatch s"
  by (simp_all add: ObserveCommit_def note_up_def signal_outcome_def Let_def split: option.split)

lemma send_log [simp]:
  "log_approved (send_decision k s) = log_approved s" "log_dispatch (send_decision k s) = log_dispatch s"
  by (simp_all add: send_decision_def Let_def split: option.split prod.split)

lemma hstep_log_approved:
  assumes "(r, who, at) \<in> set (log_approved (hstep opts e s))"
  shows "(r, who, at) \<in> set (log_approved s) \<or>
    (\<exists>io cid a. e = ApproveCall io at cid who \<and> fst (Approve io at cid who s) = None \<and>
       h_active s = Some a \<and> cs_ref a = r \<and> cs_awaitingApproval a)"
  using assms
  by (cases e)
    (auto simp: runCycle_step_def Approve_def Deny_def decide_log decide_ok Halt_def Rearm_def
      split: option.splits if_splits)

lemma awaiting_undispatched:
  assumes "hinv opts s" "h_active s = Some a" "cs_awaitingApproval a"
  shows "\<forall>t. (cs_ref a, t) \<notin> set (log_dispatch s)"
proof -
  obtain g where g: "h_gor s = Some g" using assms by (auto simp: hinv_def inv_link_def)
  then have "awaiting (g_pc g)" "cs_ref a = g_ref g" using assms by (auto simp: hinv_def inv_link_def)
  with g assms show ?thesis by (simp add: hinv_def inv_gor_def awaiting_point)
qed

lemma approval_event:
  assumes "(r, who, at) \<in> set (log_approved (fold (hstep opts) es (harness_New db)))"
  shows "\<exists>pre post io cid. es = pre @ ApproveCall io at cid who # post \<and>
    (let s = fold (hstep opts) pre (harness_New db) in
       fst (Approve io at cid who s) = None \<and> map_option cs_ref (h_active s) = Some r \<and>
       (\<forall>t. (r, t) \<notin> set (log_dispatch s)))"
  using assms
proof (induction es rule: rev_induct)
  case Nil
  then show ?case by (simp add: harness_New_def)
next
  case (snoc e es)
  let ?s = "fold (hstep opts) es (harness_New db)"
  have "(r, who, at) \<in> set (log_approved (hstep opts e ?s))" using snoc.prems by simp
  then consider (old) "(r, who, at) \<in> set (log_approved ?s)"
    | (new) io cid a where "e = ApproveCall io at cid who" "fst (Approve io at cid who ?s) = None"
        "h_active ?s = Some a" "cs_ref a = r" "cs_awaitingApproval a"
    using hstep_log_approved by blast
  then show ?case
  proof cases
    case old
    then show ?thesis using snoc.IH by fastforce
  next
    case new
    then have "\<forall>t. (r, t) \<notin> set (log_dispatch ?s)"
      using awaiting_undispatched [OF hinv_run] by blast
    with new show ?thesis by (intro exI [of _ es] exI [of _ "[]"]) (auto simp: Let_def)
  qed
qed

section \<open>Properties of the gate\<close>

text \<open>C12: nothing reaches the Actuator without the Operator. Over every interleaving of
  commits, Operator calls, halts and goroutine steps, a dispatched restart happened in live mode,
  named a container of the configured target map, and was preceded by a call of \<open>Approve\<close> that
  returned success while the cycle was the active one and had not dispatched anything.\<close>

theorem dispatch_only_after_approval:
  assumes "(r, target) \<in> set (log_dispatch (fold (hstep opts) es (harness_New db)))"
  shows "o_Mode opts = HarnessLive \<and> target \<in> ran (map_of (o_Targets opts)) \<and>
    (\<exists>pre post io at cid who. es = pre @ ApproveCall io at cid who # post \<and>
      (let s = fold (hstep opts) pre (harness_New db) in
         fst (Approve io at cid who s) = None \<and> map_option cs_ref (h_active s) = Some r \<and>
         (\<forall>t. (r, t) \<notin> set (log_dispatch s))))"
proof -
  have "inv_log opts (fold (hstep opts) es (harness_New db))"
    using hinv_run by (simp add: hinv_def)
  with assms obtain who at where
    "o_Mode opts = HarnessLive" "resolvable opts target"
    "(r, who, at) \<in> set (log_approved (fold (hstep opts) es (harness_New db)))"
    by (auto simp: inv_log_def)
  with approval_event show ?thesis unfolding resolvable_def by blast
qed

text \<open>C13: at most one dispatch per cycle (never retry). In every reachable state no cycle
  occurs twice among the Actuator calls.\<close>

theorem dispatch_at_most_once:
  "distinct (map fst (log_dispatch (fold (hstep opts) es (harness_New db))))"
  using hinv_run by (simp add: hinv_def inv_log_def)

text \<open>C14: a new cycle starts exactly for a committed DOWN of a mapped Service while the harness
  is on, not halted, idle and past that Service's cooldown; any other commit leaves the
  active cycle the same one (at most marked as recovered).\<close>

theorem ObserveCommit_starts_iff:
  "if o_Mode opts \<noteq> HarnessOff \<and> \<not> h_halted s \<and> CS_Status cs = StatusDown \<and>
      CS_Service cs \<in> fst ` set (o_Targets opts) \<and> h_active s = None \<and>
      (case h_cooldown s (CS_Service cs) of None \<Rightarrow> True | Some until \<Rightarrow> until \<le> now)
   then h_gor (ObserveCommit opts cid now cs s) = Some \<lparr>g_ref = h_nextref s, g_pc = PcBegin,
          g_cycle = blank_cycle cid (CS_Service cs) (CS_Status cs) (o_Mode opts) now\<rparr> \<and>
        map_option cs_ref (h_active (ObserveCommit opts cid now cs s)) = Some (h_nextref s)
   else h_gor (ObserveCommit opts cid now cs s) = h_gor s \<and>
        map_option (\<lambda>a. a\<lparr>cs_outcomeCh := True\<rparr>) (h_active (ObserveCommit opts cid now cs s)) =
          map_option (\<lambda>a. a\<lparr>cs_outcomeCh := True\<rparr>) (h_active s)"
proof -
  let ?s = "signal_outcome cs (note_up cs s)"
  have fr: "h_nextref ?s = h_nextref s" "h_halted ?s = h_halted s" "h_cooldown ?s = h_cooldown s"
    "h_gor ?s = h_gor s" "h_active ?s = None \<longleftrightarrow> h_active s = None"
    "map_option (\<lambda>a. a\<lparr>cs_outcomeCh := True\<rparr>) (h_active ?s) = map_option (\<lambda>a. a\<lparr>cs_outcomeCh := True\<rparr>) (h_active s)"
    by (simp_all add: signal_outcome_def note_up_def split: option.split)
  have rej: "trigger_rejected opts now cs ?s = None \<longleftrightarrow>
     o_Mode opts \<noteq> HarnessOff \<and> \<not> h_halted s \<and> CS_Status cs = StatusDown \<and>
     CS_Service cs \<in> fst ` set (o_Targets opts) \<and> h_active s = None \<and>
     (case h_cooldown s (CS_Service cs) of None \<Rightarrow> True | Some until \<Rightarrow> until \<le> now)"
    using fr by (auto simp: trigger_rejected_def map_of_eq_None_iff not_less split: option.split)
  have "ObserveCommit opts cid now cs s =
      (if trigger_rejected opts now cs ?s = None then begin_cycle opts cid now cs ?s else ?s)"
    by (simp add: ObserveCommit_def Let_def split: option.split)
  then show ?thesis
    unfolding rej [symmetric] using fr by (auto simp: begin_cycle_def)
qed

section \<open>The audit records\<close>

text \<open>
  What a record claims about the Actuator and the recovery, against the logs. Recovery evidence
  is a committed UP of the Service that was reported either while this very cycle was
  waiting for it, or that the spine dates at or after the Approval.
\<close>

definition evidence :: "HState \<Rightarrow> nat \<Rightarrow> HarnessCycle \<Rightarrow> bool" where
  "evidence s r c \<longleftrightarrow>
     (\<exists>at w. (HC_Subject c, at, w) \<in> set (log_up s) \<and> (w = Some r \<or> HC_ApprovedAt c \<le> at))"

definition truthful :: "HState \<Rightarrow> nat \<Rightarrow> HarnessCycle \<Rightarrow> bool" where
  "truthful s r c \<longleftrightarrow>
     (HC_DispatchResult c \<noteq> [] \<longrightarrow> (r, HC_ResolvedTarget c) \<in> set (log_dispatch s)) \<and>
     (HC_Outcome c = OutcomeRecovered \<longrightarrow> (r, HC_ResolvedTarget c) \<in> set (log_dispatch s) \<and> evidence s r c)"

definition inv_rows :: "HState \<Rightarrow> bool" where
  "inv_rows s \<longleftrightarrow>
     (\<forall>row \<in> set (db_harness_cycles (h_db s)). \<exists>c r. row = cycle_to_row c \<and> truthful s r c)"

definition untouched :: "HarnessCycle \<Rightarrow> bool" where
  "untouched c \<longleftrightarrow> HC_DispatchResult c = [] \<and> HC_Outcome c \<noteq> OutcomeRecovered"

definition inv_up :: "HState \<Rightarrow> bool" where
  "inv_up s \<longleftrightarrow>
     (\<forall>subj at. h_lastUp s subj = Some at \<longrightarrow> (\<exists>w. (subj, at, w) \<in> set (log_up s))) \<and>
     (\<forall>a. h_active s = Some a \<longrightarrow> untouched (cs_cycle a) \<and>
        (cs_outcomeCh a \<longrightarrow> (\<exists>at. (cs_subject a, at, Some (cs_ref a)) \<in> set (log_up s))))"

definition inv_judge :: "HState \<Rightarrow> bool" where
  "inv_judge s \<longleftrightarrow>
     (\<forall>g. h_gor s = Some g \<longrightarrow> truthful s (g_ref g) (g_cycle g) \<and>
        (undispatched (g_pc g) \<longrightarrow> untouched (g_cycle g)) \<and>
        (judging (g_pc g) \<longrightarrow> (g_ref g, HC_ResolvedTarget (g_cycle g)) \<in> set (log_dispatch s)) \<and>
        (g_pc g = PcPersistOutcome True \<or> g_pc g = PcResolve OutcomeRecovered \<longrightarrow>
           evidence s (g_ref g) (g_cycle g)))"

definition ainv :: "HState \<Rightarrow> bool" where
  "ainv s \<longleftrightarrow> inv_rows s \<and> inv_up s \<and> inv_judge s"

lemma evidence_mono:
  "evidence s r c \<Longrightarrow> set (log_up s) \<subseteq> set (log_up t) \<Longrightarrow> evidence t r c"
  by (auto simp: evidence_def)

lemma truthful_mono:
  "truthful s r c \<Longrightarrow> set (log_up s) \<subseteq> set (log_up t) \<Longrightarrow> set (log_dispatch s) \<subseteq> set (log_dispatch t) \<Longrightarrow>
   truthful t r c"
  by (auto simp: truthful_def intro: evidence_mono)

lemma untouched_truthful: "untouched c \<Longrightarrow> truthful s r c"
  by (simp add: untouched_def truthful_def)

lemma truthful_frame [simp]:
  "truthful (persist io c0 s) r c = truthful s r c" "truthful (goto p c0 s) r c = truthful s r c"
  "truthful (on_active f s) r c = truthful s r c"
  "evidence (persist io c0 s) r c = evidence s r c" "evidence (goto p c0 s) r c = evidence s r c"
  "evidence (on_active f s) r c = evidence s r c"
  "truthful (s\<lparr>h_lastUp := lu\<rparr>) r c = truthful s r c" "truthful (s\<lparr>h_cooldown := cd\<rparr>) r c = truthful s r c"
  "evidence (s\<lparr>h_lastUp := lu\<rparr>) r c = evidence s r c" "evidence (s\<lparr>h_cooldown := cd\<rparr>) r c = evidence s r c"
  "truthful (s\<lparr>h_db := db\<rparr>) r c = truthful s r c" "evidence (s\<lparr>log_dispatch := ld\<rparr>) r c = evidence s r c"
  by (simp_all add: truthful_def evidence_def)

lemma evidence_fields [simp]:
  "evidence s r (c\<lparr>HC_Outcome := x\<rparr>) = evidence s r c" "evidence s r (c\<lparr>HC_OutcomeAt := t\<rparr>) = evidence s r c"
  by (simp_all add: evidence_def)

lemma dispatch_outcome [simp]: "HC_Outcome (dispatch e now c) \<noteq> OutcomeRecovered"
  by (simp add: dispatch_def outcome_defs split: option.split)

lemma outcome_distinct [simp]:
  "OutcomeNone \<noteq> OutcomeRecovered" "OutcomeActionFailed \<noteq> OutcomeRecovered" "OutcomePending \<noteq> OutcomeRecovered"
  by (simp_all add: outcome_defs)

lemma rows_mono:
  assumes "inv_rows s" "h_db t = h_db s" "set (log_up s) \<subseteq> set (log_up t)"
    "set (log_dispatch s) \<subseteq> set (log_dispatch t)"
  shows "inv_rows t"
  using assms unfolding inv_rows_def by (metis truthful_mono)

lemma rows_save:
  assumes "inv_rows s" "truthful s r c"
  shows "inv_rows (s\<lparr>h_db := snd (SaveHarnessCycle io c (h_db s))\<rparr>)"
  using assms
  by (auto simp: inv_rows_def SaveHarnessCycle_def set_upsert_row split: option.split)

lemma rows_persist: "inv_rows s \<Longrightarrow> truthful s r c \<Longrightarrow> inv_rows (persist io c s)"
  unfolding persist_def by (rule rows_save)

lemma rows_frame [simp]:
  "inv_rows (goto p c s) = inv_rows s" "inv_rows (on_active f s) = inv_rows s"
  by (simp_all add: inv_rows_def truthful_def evidence_def)

lemma up_rc_step:
  assumes "inv_up s" "inv_judge s" "h_gor s = Some g" "h_active s = Some a"
  shows "inv_up (rc_step opts env (g_pc g) (g_cycle g) s)"
  using assms
  by (cases "g_pc g") (auto simp: inv_up_def inv_judge_def untouched_def Let_def split: option.split)

lemma recovered_evidence:
  assumes "inv_up s" "already_recovered c s"
  shows "evidence s r c"
  using assms by (fastforce simp: inv_up_def already_recovered_def evidence_def split: option.splits)

lemma signalled_evidence:
  assumes "inv_up s" "inv_link s" "h_active s = Some a" "h_gor s = Some g" "cs_outcomeCh a"
  shows "evidence s (g_ref g) (g_cycle g)"
  using assms by (fastforce simp: inv_up_def inv_link_def evidence_def)

lemma judge_rc_step:
  assumes "inv_judge s" "inv_up s" "inv_link s" "h_gor s = Some g" "h_active s = Some a"
  shows "inv_judge (rc_step opts env (g_pc g) (g_cycle g) s)"
  using assms recovered_evidence [OF assms(2)] signalled_evidence [OF assms(2,3,5,4)]
  by (cases "g_pc g")
    (auto simp: inv_judge_def untouched_def truthful_def Let_def split: option.split)

text \<open>A goroutine step writes nothing to the store but the record it goes on with.\<close>

lemma rc_step_db:
  assumes "h_gor s = Some g"
  shows "h_db (rc_step opts env (g_pc g) (g_cycle g) s) = h_db s \<or>
    (\<exists>g'. h_gor (rc_step opts env (g_pc g) (g_cycle g) s) = Some g' \<and>
       h_db (rc_step opts env (g_pc g) (g_cycle g) s) = snd (SaveHarnessCycle (re_io env) (g_cycle g') (h_db s)))"
  using assms
  by (cases "g_pc g") (auto simp: persist_def on_active_def Let_def split: option.split)

lemma rc_step_logs:
  "set (log_up s) \<subseteq> set (log_up (rc_step opts env p c s))"
  "set (log_dispatch s) \<subseteq> set (log_dispatch (rc_step opts env p c s))"
  by (cases p; simp add: Let_def split: option.split)+

lemma rows_rc_step:
  assumes "inv_rows s" "inv_judge (rc_step opts env (g_pc g) (g_cycle g) s)" "h_gor s = Some g"
  shows "inv_rows (rc_step opts env (g_pc g) (g_cycle g) s)"
proof -
  let ?t = "rc_step opts env (g_pc g) (g_cycle g) s"
  have old: "inv_rows (?t\<lparr>h_db := h_db s\<rparr>)"
    by (rule rows_mono [OF assms(1)]) (simp_all add: rc_step_logs)
  show ?thesis using rc_step_db [OF assms(3), of opts env]
  proof (elim disjE exE conjE)
    assume "h_db ?t = h_db s"
    then have "?t = ?t\<lparr>h_db := h_db s\<rparr>" by simp
    with old show ?thesis by simp
  next
    fix g'
    assume "h_gor ?t = Some g'" and db: "h_db ?t = snd (SaveHarnessCycle (re_io env) (g_cycle g') (h_db s))"
    then have "truthful (?t\<lparr>h_db := h_db s\<rparr>) (g_ref g') (g_cycle g')" using assms(2) by (simp add: inv_judge_def)
    from rows_save [OF old this, of "re_io env"] db [symmetric] show ?thesis by simp
  qed
qed

lemma ainv_runCycle_step:
  assumes "ainv s" "inv_link s"
  shows "ainv (runCycle_step opts env s)"
proof (cases "h_gor s")
  case None
  with assms show ?thesis by (simp add: runCycle_step_def)
next
  case (Some g)
  then obtain a where "h_active s = Some a" using assms by (auto simp: inv_link_def)
  with Some assms show ?thesis
    by (simp add: runCycle_step_def ainv_def judge_rc_step up_rc_step rows_rc_step)
qed

text \<open>Steps of other goroutines leave the goroutine's record alone and only extend the logs.\<close>

lemma judge_mono:
  assumes "inv_judge s" "h_gor t = h_gor s" "set (log_up s) \<subseteq> set (log_up t)"
    "set (log_dispatch s) \<subseteq> set (log_dispatch t)"
  shows "inv_judge t"
  using assms by (auto simp: inv_judge_def intro: truthful_mono evidence_mono)

lemma ainv_note_up:
  assumes "ainv s"
  shows "ainv (note_up cs s)"
proof -
  have up: "set (log_up s) \<subseteq> set (log_up (note_up cs s))" by (auto simp: note_up_def)
  have fr: "h_db (note_up cs s) = h_db s" "log_dispatch (note_up cs s) = log_dispatch s"
    "h_gor (note_up cs s) = h_gor s"
    by (simp_all add: note_up_def)
  have "inv_rows (note_up cs s)" using assms up fr by (auto simp: ainv_def intro: rows_mono)
  moreover have "inv_judge (note_up cs s)" using assms up fr by (auto simp: ainv_def intro: judge_mono)
  moreover have "inv_up (note_up cs s)" using assms by (fastforce simp: ainv_def inv_up_def note_up_def)
  ultimately show ?thesis by (simp add: ainv_def)
qed

lemma ainv_signal:
  assumes "ainv s"
  shows "ainv (signal_outcome cs (note_up cs s))"
proof -
  let ?s = "note_up cs s"
  let ?t = "signal_outcome cs ?s"
  have s: "ainv ?s" using assms by (rule ainv_note_up)
  have fr: "h_db ?t = h_db ?s" "log_dispatch ?t = log_dispatch ?s" "log_up ?t = log_up ?s" "h_gor ?t = h_gor ?s"
    by (simp_all add: signal_outcome_def split: option.split)
  have "inv_rows ?t" using s fr by (auto simp: ainv_def intro: rows_mono)
  moreover have "inv_judge ?t" using s fr by (auto simp: ainv_def intro: judge_mono)
  moreover have "inv_up ?t"
  proof (cases "h_active s")
    case None
    then show ?thesis using assms by (fastforce simp: ainv_def inv_up_def signal_outcome_def note_up_def)
  next
    case (Some a)
    then show ?thesis using assms by (fastforce simp: ainv_def inv_up_def signal_outcome_def note_up_def)
  qed
  ultimately show ?thesis by (simp add: ainv_def)
qed

lemma ainv_ObserveCommit:
  assumes "ainv s"
  shows "ainv (ObserveCommit opts cid now cs s)"
proof -
  let ?s = "signal_outcome cs (note_up cs s)"
  let ?t = "begin_cycle opts cid now cs ?s"
  have s: "ainv ?s" using assms by (rule ainv_signal)
  have u: "untouched (blank_cycle i x st m t)" for i x st m t by (simp add: untouched_def blank_cycle_def OutcomeRecovered_def)
  have "inv_rows ?t" using s by (auto simp: ainv_def intro: rows_mono)
  moreover have "inv_judge ?t"
    by (auto simp: inv_judge_def begin_cycle_def u intro: untouched_truthful)
  moreover have "inv_up ?t" using s u by (auto simp: ainv_def inv_up_def begin_cycle_def)
  ultimately show ?thesis using s by (simp add: ObserveCommit_def Let_def ainv_def split: option.split)
qed

lemma ainv_decide:
  assumes "ainv s"
  shows "ainv (snd (decide io now cid who d s))"
proof (cases "h_active s")
  case None
  with assms show ?thesis by (simp add: decide_def)
next
  case (Some a)
  let ?c = "(cs_cycle a)\<lparr>HC_Approval := d, HC_ApprovedBy := who, HC_ApprovedAt := now\<rparr>"
  let ?t = "snd (decide io now cid who d s)"
  have u: "untouched ?c" using assms Some by (simp add: ainv_def inv_up_def untouched_def)
  have db: "h_db ?t = h_db s \<or> h_db ?t = snd (SaveHarnessCycle io ?c (h_db s))"
    using Some by (simp add: decide_def Let_def split: option.split)
  have fr: "log_up ?t = log_up s" "log_dispatch ?t = log_dispatch s" "h_gor ?t = h_gor s"
    using Some by (simp_all add: decide_def Let_def split: option.split)
  have old: "inv_rows (?t\<lparr>h_db := h_db s\<rparr>)" "inv_judge ?t"
    using assms fr by (auto simp: ainv_def intro: rows_mono judge_mono)
  have "inv_rows ?t"
    using db old(1) rows_save [OF old(1) untouched_truthful [OF u], of io]
    by (auto simp: inv_rows_def truthful_def evidence_def)
  moreover have "inv_up ?t"
    using assms Some u by (auto simp: ainv_def inv_up_def decide_def Let_def split: option.split)
  ultimately show ?thesis using old by (simp add: ainv_def)
qed

lemma ainv_frame:
  assumes "ainv s" "h_db t = h_db s" "log_up t = log_up s" "log_dispatch t = log_dispatch s"
    "h_gor t = h_gor s" "h_lastUp t = h_lastUp s"
    "map_option (\<lambda>a. (cs_ref a, cs_subject a, cs_cycle a, cs_outcomeCh a)) (h_active t) =
       map_option (\<lambda>a. (cs_ref a, cs_subject a, cs_cycle a, cs_outcomeCh a)) (h_active s)"
  shows "ainv t"
proof -
  have "inv_rows t" "inv_judge t" using assms by (auto simp: ainv_def intro: rows_mono judge_mono)
  moreover have "inv_up t"
    using assms by (cases "h_active t"; cases "h_active s") (auto simp: ainv_def inv_up_def)
  ultimately show ?thesis by (simp add: ainv_def)
qed

lemma ainv_send: "ainv s \<Longrightarrow> ainv (send_decision k s)"
  by (erule ainv_frame) (auto simp: send_decision_def Let_def split: option.split prod.split)

lemma ainv_hstep: "ainv s \<Longrightarrow> inv_link s \<Longrightarrow> ainv (hstep opts e s)"
  by (cases e)
    (auto simp: ainv_runCycle_step ainv_ObserveCommit ainv_decide ainv_send Approve_def Deny_def
      Halt_def Rearm_def elim: ainv_frame)

lemma ainv_New: "ainv (harness_New empty_DB)"
  by (simp add: ainv_def inv_rows_def inv_up_def inv_judge_def harness_New_def empty_DB_def)

interpretation audit: step_invariant "\<lambda>s. s = harness_New empty_DB" "hstep opts" "\<lambda>_. True"
    "\<lambda>s. hinv opts s \<and> ainv s" for opts
  by unfold_locales (auto simp: hinv_New hinv_hstep ainv_New ainv_hstep hinv_link)

text \<open>C15: the audit trail does not claim more than happened. Over every run from an empty store,
  a record with a dispatch result belongs to a restart of exactly its target that was sent to the
  Actuator, and a record judged \<open>recovered\<close> is moreover backed by a committed UP of its Service that
  either was reported while that cycle waited for it or is dated no earlier than the Approval.\<close>

theorem audit_records_truthful:
  assumes "row \<in> set (db_harness_cycles (h_db (fold (hstep opts) es (harness_New empty_DB))))"
  shows "\<exists>r approvedAt. hr_approved_at row = millisFromTime approvedAt \<and>
    (let s = fold (hstep opts) es (harness_New empty_DB) in
      (hr_dispatch_result row = [] \<or> (r, hr_resolved_target row) \<in> set (log_dispatch s)) \<and>
      (hr_outcome row = OutcomeRecovered \<longrightarrow>
        (r, hr_resolved_target row) \<in> set (log_dispatch s) \<and>
        (\<exists>at w. (hr_subject row, at, w) \<in> set (log_up s) \<and> (w = Some r \<or> approvedAt \<le> at))))"
proof -
  let ?s = "fold (hstep opts) es (harness_New empty_DB)"
  have "ainv ?s" using audit.inv_run [of es "harness_New empty_DB" opts] by (auto simp: list_all_iff)
  then obtain c r where "row = cycle_to_row c" "truthful ?s r c"
    using assms by (auto simp: ainv_def inv_rows_def)
  then show ?thesis
    by (intro exI [of _ r] exI [of _ "HC_ApprovedAt c"])
      (auto simp: cycle_to_row_def truthful_def evidence_def Let_def)
qed

text \<open>C16: a decision is durable before it counts. A call of \<open>decide\<close> that returns an error
  changes nothing (the cycle stays open for a retry). One that returns success was for the active
  cycle while it awaited approval, its decision with who and when is what the store then
  holds for the record, and every further decision on the cycle is refused.\<close>

theorem decide_fail_closed:
  "case fst (decide io now cid who d s) of
     Some e \<Rightarrow> snd (decide io now cid who d s) = s
   | None \<Rightarrow> \<exists>a. h_active s = Some a \<and> cs_id a = cid \<and> cs_awaitingApproval a \<and>
       GetHarnessCycle None (HC_ID (cs_cycle a)) (h_db (snd (decide io now cid who d s))) =
         Inr (trunc_cycle ((cs_cycle a)\<lparr>HC_Approval := d, HC_ApprovedBy := who, HC_ApprovedAt := now\<rparr>)) \<and>
       fst (decide io2 now2 cid who2 d2 (snd (decide io now cid who d s))) =
         Some (''cycle '' @ cid @ '': not awaiting approval'')"
proof (cases "fst (decide io now cid who d s)")
  case None
  then obtain a where a: "h_active s = Some a" "cs_id a = cid" "cs_awaitingApproval a" "io = None"
    by (auto simp: decide_ok)
  let ?c = "(cs_cycle a)\<lparr>HC_Approval := d, HC_ApprovedBy := who, HC_ApprovedAt := now\<rparr>"
  have db: "h_db (snd (decide io now cid who d s)) = snd (SaveHarnessCycle None ?c (h_db s))"
    and act: "h_active (snd (decide io now cid who d s)) = Some (a\<lparr>cs_awaitingApproval := False, cs_cycle := ?c\<rparr>)"
    using a by (simp_all add: decide_def Let_def SaveHarnessCycle_def)
  have "GetHarnessCycle None (HC_ID (cs_cycle a)) (snd (SaveHarnessCycle None ?c (h_db s))) = Inr (trunc_cycle ?c)"
    by (simp add: SaveHarnessCycle_def GetHarnessCycle_def find_row_upsert cycle_row_roundtrip)
  moreover have "fst (decide io2 now2 cid who2 d2 (snd (decide io now cid who d s))) =
      Some (''cycle '' @ cid @ '': not awaiting approval'')"
    unfolding decide_def [of io2] using act a by simp
  ultimately show ?thesis using None a db by simp
next
  case (Some e)
  then have no: "\<not> (\<exists>a. h_active s = Some a \<and> cs_id a = cid \<and> cs_awaitingApproval a \<and> io = None)"
    using decide_ok [of io now cid who d s] by simp
  have "snd (decide io now cid who d s) = s"
  proof (cases "h_active s")
    case (Some a)
    then show ?thesis using no by (cases io) (auto simp: decide_def Let_def SaveHarnessCycle_def)
  qed (simp add: decide_def)
  with Some show ?thesis by simp
qed

section \<open>Every cycle ends\<close>

fun fired :: "hevent \<Rightarrow> bool" where
  "fired (Cycle env) = re_timer env"
| "fired _ = False"

definition gor_rank :: "HState \<Rightarrow> nat" where
  "gor_rank s = (case h_gor s of None \<Rightarrow> 0 | Some g \<Rightarrow> pc_rank (g_pc g))"

lemma gor_rank_cycle:
  assumes "h_gor s = Some g"
  shows "gor_rank (runCycle_step opts env s) \<le> gor_rank s"
    and "re_timer env \<Longrightarrow> gor_rank (runCycle_step opts env s) < gor_rank s"
  using assms
  by (cases "g_pc g"; simp add: gor_rank_def runCycle_step_def Let_def split: option.split)+

lemma gor_rank_other:
  assumes "inv_link s" "h_gor s = Some g" "\<forall>env. e \<noteq> Cycle env"
  shows "gor_rank (hstep opts e s) = gor_rank s"
proof -
  obtain a where a: "h_active s = Some a" using assms by (auto simp: inv_link_def)
  have "h_gor (ObserveCommit opts cid now cs s) = h_gor s" for cid now cs
    using ObserveCommit_starts_iff [of opts s cs now cid] a by (auto split: if_splits)
  moreover have "h_gor (snd (decide io now cid who d s)) = h_gor s" for io now cid who d
    using a by (simp add: decide_def Let_def split: option.split)
  moreover have "h_gor (send_decision k s) = h_gor s" for k
    by (simp add: send_decision_def Let_def split: option.split prod.split)
  ultimately show ?thesis using assms(3)
    by (cases e) (simp_all add: gor_rank_def Approve_def Deny_def Halt_def Rearm_def)
qed

lemma pc_rank_pos [simp]: "pc_rank p \<noteq> 0"
  by (cases p) simp_all

lemma idle_rank: "inv_link s \<Longrightarrow> gor_rank s = 0 \<longleftrightarrow> h_active s = None"
  by (cases "h_gor s") (simp_all add: gor_rank_def inv_link_def)

lemma gor_rank_bound: "gor_rank s \<le> 15"
proof (cases "h_gor s")
  case (Some g)
  then show ?thesis by (cases "g_pc g") (simp_all add: gor_rank_def)
qed (simp add: gor_rank_def)

lemma release_within:
  assumes "hinv opts s" "gor_rank s \<le> length (filter fired es)"
  shows "\<exists>pre post. es = pre @ post \<and> h_active (fold (hstep opts) pre s) = None"
  using assms
proof (induction es arbitrary: s)
  case Nil
  then have "gor_rank s = 0" by simp
  then have "h_active s = None" using idle_rank [OF hinv_link [OF Nil.prems(1)]] by blast
  then show ?case by simp
next
  case (Cons e es)
  show ?case
  proof (cases "h_gor s")
    case None
    then have "h_active s = None" using Cons.prems(1) by (simp add: hinv_def inv_link_def)
    then show ?thesis by (intro exI [of _ "[]"] exI [of _ "e # es"]) simp
  next
    case (Some g)
    have "gor_rank (hstep opts e s) \<le> length (filter fired es)"
    proof (cases "\<exists>env. e = Cycle env")
      case True
      then obtain env where e: "e = Cycle env" by blast
      show ?thesis
      proof (cases "re_timer env")
        case True
        then have "gor_rank (hstep opts e s) < gor_rank s" using gor_rank_cycle(2) [OF Some] e by simp
        with True e Cons.prems(2) show ?thesis by simp
      next
        case False
        have "gor_rank (hstep opts e s) \<le> gor_rank s" using gor_rank_cycle(1) [OF Some] e by simp
        with False e Cons.prems(2) show ?thesis by simp
      qed
    next
      case False
      then have "gor_rank (hstep opts e s) = gor_rank s" "\<not> fired e"
        using gor_rank_other [OF hinv_link [OF Cons.prems(1)] Some] by (auto elim: fired.elims)
      then show ?thesis using Cons.prems(2) by simp
    qed
    then obtain pre post where "es = pre @ post" "h_active (fold (hstep opts) pre (hstep opts e s)) = None"
      using Cons.IH [OF hinv_hstep [OF Cons.prems(1)]] by blast
    then show ?thesis by (intro exI [of _ "e # pre"] exI [of _ post]) simp
  qed
qed

text \<open>C17: no cycle holds the single-flight gate forever. From every reachable state, any
  continuation in which the goroutine takes fifteen steps with its timers elapsed, however it is
  interleaved with commits, decisions and halts, passes through a state with no active
  cycle.\<close>

theorem cycle_always_releases:
  assumes "15 \<le> length (filter fired es2)"
  shows "\<exists>pre post. es2 = pre @ post \<and>
    h_active (fold (hstep opts) pre (fold (hstep opts) es (harness_New db))) = None"
  by (rule release_within [OF hinv_run]) (use assms gor_rank_bound le_trans in blast)

section \<open>Diagnosis\<close>

lemma sweep_loop_prefix:
  "\<exists>k. k \<le> length tools \<and> map TC_Tool (sweep_loop expired call subj j tools) = take k tools \<and>
     ((\<forall>i. \<not> expired i) \<longrightarrow> k = length tools)"
proof (induction tools arbitrary: j)
  case Nil
  show ?case by simp
next
  case (Cons t ts)
  then obtain k where k: "k \<le> length ts" "map TC_Tool (sweep_loop expired call subj (Suc j) ts) = take k ts"
    "(\<forall>i. \<not> expired i) \<longrightarrow> k = length ts" by blast
  show ?case
  proof (cases "expired j")
    case True
    then show ?thesis by (intro exI [of _ 0]) auto
  next
    case False
    with k show ?thesis by (intro exI [of _ "Suc k"]) (simp split: prod.split)
  qed
qed

lemma sweep_loop_args:
  "c \<in> set (sweep_loop expired call subj j tools) \<Longrightarrow> TC_Args c = [(''service'', subj)]"
  by (induction tools arbitrary: j) (auto split: if_splits prod.splits)

text \<open>C18: the evidence is bounded and chosen by configuration. The sweep calls a prefix of the
  configured tools in their order, never more than \<open>MaxToolCalls\<close> of them when that is
  non-negative, and only for the Service that triggered the cycle; it calls the whole prefix
  when the deadline does not expire. The prompt built from it does not depend on
  the order in which Go iterates over the target map.\<close>

theorem diagnosis_contained:
  assumes "mset services = mset services'"
  shows "\<exists>k. map TC_Tool (diagnosisSweep opts expired call subj) = take k (o_Tools opts) \<and>
      (0 \<le> o_MaxToolCalls opts \<longrightarrow> int (length (diagnosisSweep opts expired call subj)) \<le> o_MaxToolCalls opts) \<and>
      ((\<forall>i. \<not> expired i) \<longrightarrow> k = (if 0 \<le> o_MaxToolCalls opts
         then min (nat (o_MaxToolCalls opts)) (length (o_Tools opts)) else length (o_Tools opts))) \<and>
      (\<forall>c \<in> set (diagnosisSweep opts expired call subj). TC_Args c = [(''service'', subj)]) \<and>
      buildPrompt trigger subj (diagnosisSweep opts expired call subj) services =
        buildPrompt trigger subj (diagnosisSweep opts expired call subj) services'"
proof -
  define n where "n = (if o_MaxToolCalls opts \<ge> 0 \<and> o_MaxToolCalls opts < int (length (o_Tools opts))
    then o_MaxToolCalls opts else int (length (o_Tools opts)))"
  have sw: "diagnosisSweep opts expired call subj = sweep_loop expired call subj 0 (take (nat n) (o_Tools opts))"
    by (simp add: diagnosisSweep_def n_def Let_def)
  obtain k where k: "k \<le> length (take (nat n) (o_Tools opts))"
    "map TC_Tool (diagnosisSweep opts expired call subj) = take k (take (nat n) (o_Tools opts))"
    "(\<forall>i. \<not> expired i) \<longrightarrow> k = length (take (nat n) (o_Tools opts))"
    unfolding sw using sweep_loop_prefix by blast
  have "length (diagnosisSweep opts expired call subj) = length (take k (take (nat n) (o_Tools opts)))"
    using k(2) by (metis length_map)
  then have len: "int (length (diagnosisSweep opts expired call subj)) \<le> n" using k(1) by (auto simp: n_def)
  have "sort services = sort services'" using assms by (metis mset_sort properties_for_sort sorted_sort)
  then have "buildPrompt trigger subj calls services = buildPrompt trigger subj calls services'" for calls
    by (simp add: buildPrompt_def)
  moreover have "take k (take (nat n) (o_Tools opts)) = take (min k (nat n)) (o_Tools opts)" by simp
  ultimately show ?thesis using k len sweep_loop_args unfolding sw
    by (intro exI [of _ "min k (nat n)"]) (auto simp: n_def split: if_splits)
qed

section \<open>Startup reconciliation\<close>

text \<open>The contract: an open Approval is expired, an unjudged dispatch is a failure, anything else is final.\<close>

definition settle :: "HarnessCycle \<Rightarrow> HarnessCycle" where
  "settle c =
     (if HC_Approval c = ApprovalPending
      then c\<lparr>HC_Approval := ApprovalExpired, HC_Outcome := OutcomeNone, HC_Error := appendNote (HC_Error c) reconcile_note\<rparr>
      else if HC_Outcome c = OutcomePending
      then c\<lparr>HC_Outcome := OutcomeActionFailed, HC_Error := appendNote (HC_Error c) reconcile_note\<rparr>
      else c)"

definition open_cycle :: "HarnessCycle \<Rightarrow> bool" where
  "open_cycle c \<longleftrightarrow> HC_Approval c = ApprovalPending \<or> HC_Outcome c = OutcomePending"

lemma reconcile_settles: "reconcile_cycle c = (if open_cycle c then Some (settle c) else None)"
  by (simp add: reconcile_cycle_def settle_def open_cycle_def Let_def outcome_defs)

lemma settle_keeps [simp]: "HC_ID (settle c) = HC_ID c"
  by (simp add: settle_def)

lemma settled: "\<not> open_cycle (settle c)"
  by (simp add: settle_def open_cycle_def outcome_defs)

lemma settle_closed: "\<not> open_cycle c \<Longrightarrow> settle c = c"
  by (simp add: settle_def open_cycle_def)

lemma trunc_stored: "trunc_cycle (cycle_of_row r) = cycle_of_row r"
proof -
  have "trunc_ms (timeFromMillis ms) = timeFromMillis ms" for ms
    by (simp add: trunc_ms_def timeFromMillis_def IsZero_def zero_time_def UnixMilli_time_UnixMilli)
  then show ?thesis by (simp add: trunc_cycle_def cycle_of_row_def json_call_idem json_diagnosis_idem)
qed

lemma trunc_settle: "trunc_cycle (settle c) = settle (trunc_cycle c)"
  by (simp add: settle_def trunc_cycle_def)

lemma reconcile_loop_rows:
  "reconcile_loop (\<lambda>_. None) cs db =
     (None, db\<lparr>db_harness_cycles :=
        fold (upsert_row hr_id) (map (\<lambda>c. cycle_to_row (settle c)) (filter open_cycle cs)) (db_harness_cycles db)\<rparr>)"
  by (induction cs arbitrary: db) (simp_all add: reconcile_settles SaveHarnessCycle_def)

text \<open>Looking a key up after the settled records were written back.\<close>

lemma find_row_settled:
  assumes dist: "distinct (map hr_id rows)" and listed: "set listed = cycle_of_row ` set rows"
  shows "find_row hr_id k (fold (upsert_row hr_id) (map (\<lambda>c. cycle_to_row (settle c)) (filter open_cycle listed)) rows) =
    map_option (\<lambda>r. if open_cycle (cycle_of_row r) then cycle_to_row (settle (cycle_of_row r)) else r)
      (find_row hr_id k rows)"
proof -
  define fx where "fx = map (\<lambda>c. cycle_to_row (settle c)) (filter open_cycle listed)"
  have mem: "f \<in> set fx \<longleftrightarrow> (\<exists>r \<in> set rows. open_cycle (cycle_of_row r) \<and> f = cycle_to_row (settle (cycle_of_row r)))" for f
    using listed by (auto simp: fx_def)
  have id_of: "HC_ID (cycle_of_row r) = hr_id r" for r by (simp add: cycle_of_row_def)
  have put: "find_row hr_id k (fold (upsert_row hr_id) fx rows) =
      (case find (\<lambda>r. hr_id r = k) (rev fx) of Some r \<Rightarrow> Some r | None \<Rightarrow> find_row hr_id k rows)"
    using dist by (rule cycle_tab.get_puts)
  show ?thesis
  proof (cases "find (\<lambda>r. hr_id r = k) (rev fx)")
    case None
    then have no_fx: "\<forall>f \<in> set fx. hr_id f \<noteq> k" by (auto simp: find_None_iff)
    have "\<not> open_cycle (cycle_of_row r)" if "find_row hr_id k rows = Some r" for r
    proof
      assume "open_cycle (cycle_of_row r)"
      then have "cycle_to_row (settle (cycle_of_row r)) \<in> set fx" "hr_id (cycle_to_row (settle (cycle_of_row r))) = k"
        using that dist by (auto simp: mem find_row_unique id_of)
      with no_fx show False by blast
    qed
    with None put show ?thesis by (cases "find_row hr_id k rows") (simp_all add: fx_def)
  next
    case (Some f)
    then have "f \<in> set fx" "hr_id f = k"
      using find_row_Some_key [of hr_id k "rev fx" f] by (simp_all add: find_row_def)
    then obtain r where r: "r \<in> set rows" "open_cycle (cycle_of_row r)" "f = cycle_to_row (settle (cycle_of_row r))"
      using mem by blast
    then have "hr_id r = k" using \<open>hr_id f = k\<close> by (simp add: id_of)
    with r have "find_row hr_id k rows = Some r" using dist by (simp add: find_row_unique)
    with Some put r show ?thesis by (simp add: fx_def)
  qed
qed

section \<open>What a store can hold\<close>

text \<open>
  The pairs of Approval and outcome that a record can have. The first three are those of a cycle under way: waiting for the Operator,
  or decided with the outcome not written yet; the fourth is that of a dispatched restart whose recovery is still watched. The others are final.
\<close>

definition final_pairs :: "(ApprovalDecision \<times> string) set" where
  "final_pairs = {(ApprovalNotRequested, OutcomeNone), (ApprovalDenied, OutcomeNone), (ApprovalExpired, OutcomeNone),
     (ApprovalApproved, OutcomeDispatchErr), (ApprovalApproved, OutcomeActionFailed), (ApprovalApproved, OutcomeRecovered)}"

definition decided_pairs :: "(ApprovalDecision \<times> string) set" where
  "decided_pairs = {(ApprovalApproved, ''''), (ApprovalDenied, '''')}"

definition open_pairs :: "(ApprovalDecision \<times> string) set" where
  "open_pairs = {(ApprovalPending, ''''), (ApprovalApproved, OutcomePending)}"

definition stored_pair :: "HarnessCycle \<Rightarrow> ApprovalDecision \<times> string" where
  "stored_pair c = (HC_Approval c, HC_Outcome c)"

definition legal :: "HarnessCycle \<Rightarrow> bool" where
  "legal c \<longleftrightarrow> stored_pair c \<in> open_pairs \<union> decided_pairs \<union> final_pairs"

lemmas pair_defs = legal_def stored_pair_def open_pairs_def decided_pairs_def final_pairs_def

definition waiting :: "HarnessCycle \<Rightarrow> bool" where
  "waiting c \<longleftrightarrow> stored_pair c = (ApprovalPending, '''')"

definition watched :: "HarnessCycle \<Rightarrow> bool" where
  "watched c \<longleftrightarrow> stored_pair c = (ApprovalApproved, OutcomePending)"

text \<open>The record that the goroutine carries at each of its points.\<close>

fun stage_ok :: "pc \<Rightarrow> HarnessCycle \<Rightarrow> bool" where
  "stage_ok (PcDecided m) c \<longleftrightarrow> waiting c \<and> am_decision m \<in> {ApprovalApproved, ApprovalDenied, ApprovalExpired}"
| "stage_ok PcDispatch c \<longleftrightarrow> stored_pair c = (ApprovalApproved, '''')"
| "stage_ok PcArmOutcome c \<longleftrightarrow> watched c"
| "stage_ok (PcPersistOutcome b) c \<longleftrightarrow> watched c"
| "stage_ok PcWaitOutcome c \<longleftrightarrow> watched c"
| "stage_ok (PcResolve out) c \<longleftrightarrow> watched c \<and> out \<in> {OutcomeRecovered, OutcomeActionFailed}"
| "stage_ok PcCooldown c \<longleftrightarrow> legal c"
| "stage_ok PcExit c \<longleftrightarrow> legal c"
| "stage_ok p c \<longleftrightarrow> waiting c"

definition answer :: "approvalMsg \<Rightarrow> bool" where
  "answer m \<longleftrightarrow> am_decision m \<in> {ApprovalApproved, ApprovalDenied}"

definition rows_legal :: "DB \<Rightarrow> bool" where
  "rows_legal db \<longleftrightarrow> distinct (map hr_id (db_harness_cycles db)) \<and> (\<forall>r \<in> set (db_harness_cycles db). legal (cycle_of_row r))"

definition linv :: "HState \<Rightarrow> bool" where
  "linv s \<longleftrightarrow> rows_legal (h_db s) \<and>
     (\<forall>g. h_gor s = Some g \<longrightarrow> stage_ok (g_pc g) (g_cycle g)) \<and>
     (\<forall>a. h_active s = Some a \<longrightarrow> (cs_awaitingApproval a \<longrightarrow> waiting (cs_cycle a)) \<and> (\<forall>m. cs_decisionCh a = Some m \<longrightarrow> answer m)) \<and>
     (\<forall>(r, m) \<in> set (h_sends s). answer m)"

lemma stage_legal: "stage_ok p c \<Longrightarrow> legal c \<or> (\<exists>m. p = PcDecided m)"
  by (cases p) (auto simp: pair_defs waiting_def watched_def)

lemma legal_row [simp]: "legal (cycle_of_row (cycle_to_row c)) = legal c"
  by (simp add: pair_defs cycle_of_row_def cycle_to_row_def)

lemma rows_legal_save: "rows_legal db \<Longrightarrow> legal c \<Longrightarrow> rows_legal (snd (SaveHarnessCycle io c db))"
  by (auto simp: rows_legal_def SaveHarnessCycle_def set_upsert_row upsert_row_distinct split: option.split)

lemma waiting_legal: "waiting c \<Longrightarrow> legal c"
  by (simp add: pair_defs waiting_def)

lemma diagnose_approval [simp]: "HC_Approval (diagnose opts reason c) = HC_Approval c"
  by (simp add: diagnose_def split: sum.split)

lemma validate_approval [simp]: "HC_Approval (validateProposal opts c) = HC_Approval c"
  by (simp add: validateProposal_def Let_def split: option.split)

lemma dispatch_pairs:
  "stored_pair c = (ApprovalApproved, '''') \<Longrightarrow>
     (if HC_Outcome (dispatch e now c) = OutcomePending then watched (dispatch e now c) else legal (dispatch e now c))"
  by (cases e) (simp_all add: dispatch_def pair_defs watched_def outcome_defs)

lemma linv_rc_gor:
  assumes "linv s" "h_gor s = Some g" "h_gor (rc_step opts env (g_pc g) (g_cycle g) s) = Some g'"
  shows "stage_ok (g_pc g') (g_cycle g')"
proof -
  have st: "stage_ok (g_pc g) (g_cycle g)" using assms(1,2) by (simp add: linv_def)
  have ch: "cs_decisionCh a = Some m \<Longrightarrow> h_active s = Some a \<Longrightarrow> answer m" for a m using assms(1) by (simp add: linv_def)
  show ?thesis
  proof (cases "g_pc g")
    case PcDispatch
    then show ?thesis using assms(2,3) st dispatch_pairs [of "g_cycle g" "re_actuator env (HC_ResolvedTarget (g_cycle g))" "re_now env"]
      by (auto simp: Let_def split: if_splits)
  next
    case PcWaitApproval
    then show ?thesis using assms(2,3) st
      by (auto simp: answer_def split: if_splits option.splits dest!: ch)
  qed (use assms(2,3) st in \<open>auto simp: Let_def waiting_def watched_def pair_defs split: if_splits option.splits\<close>)
qed

lemma linv_rc_active:
  assumes "linv s" "h_gor s = Some g" "h_active (rc_step opts env (g_pc g) (g_cycle g) s) = Some a"
  shows "(cs_awaitingApproval a \<longrightarrow> waiting (cs_cycle a)) \<and> (\<forall>m. cs_decisionCh a = Some m \<longrightarrow> answer m)"
  using assms
  by (cases "g_pc g") (auto simp: linv_def Let_def waiting_def stored_pair_def split: if_splits option.splits)

lemma rc_step_sends [simp]: "h_sends (rc_step opts env p c s) = h_sends s"
  by (cases p) (simp_all add: Let_def split: option.split)

lemma linv_runCycle_step: "linv s \<Longrightarrow> linv (runCycle_step opts env s)"
proof (cases "h_gor s")
  case (Some g)
  assume s: "linv s"
  let ?t = "rc_step opts env (g_pc g) (g_cycle g) s"
  have "rows_legal (h_db ?t)"
    using rc_step_db [OF Some, of opts env]
  proof (elim disjE exE conjE)
    fix g'
    assume g': "h_gor ?t = Some g'" and db: "h_db ?t = snd (SaveHarnessCycle (re_io env) (g_cycle g') (h_db s))"
    have "stage_ok (g_pc g') (g_cycle g')" by (rule linv_rc_gor [OF s Some g'])
    then have "legal (g_cycle g')" using stage_legal waiting_legal by (metis stage_ok.simps(1))
    then show ?thesis using s db rows_legal_save by (simp add: linv_def)
  qed (use s in \<open>simp add: linv_def\<close>)
  moreover have "\<forall>(r, m) \<in> set (h_sends s). answer m" using s by (simp add: linv_def)
  ultimately have "linv ?t" using linv_rc_gor [OF s Some, of opts env] linv_rc_active [OF s Some, of opts env]
    unfolding linv_def rc_step_sends by blast
  then show ?thesis by (simp add: runCycle_step_def Some)
qed (simp add: runCycle_step_def)

lemma linv_decide: "linv s \<Longrightarrow> d \<in> {ApprovalApproved, ApprovalDenied} \<Longrightarrow> linv (snd (decide io now cid who d s))"
proof (cases "h_active s")
  case (Some a)
  assume s: "linv s" and d: "d \<in> {ApprovalApproved, ApprovalDenied}"
  let ?c = "(cs_cycle a)\<lparr>HC_Approval := d, HC_ApprovedBy := who, HC_ApprovedAt := now\<rparr>"
  have "rows_legal (snd (SaveHarnessCycle io ?c (h_db s)))" if "cs_awaitingApproval a"
  proof (rule rows_legal_save)
    show "rows_legal (h_db s)" using s by (simp add: linv_def)
    show "legal ?c" using s Some that d by (auto simp: linv_def waiting_def pair_defs)
  qed
  then show ?thesis using s Some d
    by (auto simp: linv_def decide_def Let_def answer_def split: option.split)
qed (simp add: decide_def)

lemma linv_ObserveCommit: "linv s \<Longrightarrow> linv (ObserveCommit opts cid now cs s)"
proof -
  assume s: "linv s"
  then have n: "linv (signal_outcome cs (note_up cs s))"
    by (auto simp: signal_outcome_def note_up_def linv_def split: option.split)
  then have "linv (begin_cycle opts cid now cs (signal_outcome cs (note_up cs s)))"
    by (auto simp: begin_cycle_def linv_def blank_cycle_def waiting_def stored_pair_def)
  with n show ?thesis by (simp add: ObserveCommit_def Let_def split: option.split)
qed

lemma linv_send: "linv s \<Longrightarrow> linv (send_decision k s)"
proof (cases "k < length (h_sends s)")
  case True
  assume s: "linv s"
  obtain r m where rm: "h_sends s ! k = (r, m)" by (cases "h_sends s ! k")
  then have "(r, m) \<in> set (h_sends s)" using True by (metis nth_mem)
  then have "answer m" using s by (auto simp: linv_def)
  then show ?thesis using s True rm
    by (auto simp: linv_def send_decision_def Let_def split: option.splits dest: in_set_takeD in_set_dropD)
qed (simp add: send_decision_def)

lemma linv_hstep: "linv s \<Longrightarrow> linv (hstep opts e s)"
proof (cases e)
  case (ApproveCall io now cid who)
  then show "linv s \<Longrightarrow> ?thesis" by (simp add: Approve_def linv_decide)
next
  case (DenyCall io now cid who)
  then show "linv s \<Longrightarrow> ?thesis" by (simp add: Deny_def linv_decide)
next
  case (HaltCall reason)
  then show "linv s \<Longrightarrow> ?thesis" by (simp add: Halt_def linv_def)
next
  case RearmCall
  then show "linv s \<Longrightarrow> ?thesis" by (simp add: Rearm_def linv_def)
qed (simp_all add: linv_ObserveCommit linv_runCycle_step linv_send)

lemma linv_New: "rows_legal db \<Longrightarrow> linv (harness_New db)"
  by (simp add: linv_def harness_New_def)

lemma settle_legal: "legal c \<Longrightarrow> legal (settle c)"
  by (auto simp: settle_def pair_defs outcome_defs)

lemma rows_legal_reconcile: "rows_legal db \<Longrightarrow> rows_legal (snd (Reconcile li si db))"
proof -
  have loop: "rows_legal db \<Longrightarrow> list_all legal cs \<Longrightarrow> rows_legal (snd (reconcile_loop si cs db))" for cs db
  proof (induction cs arbitrary: db)
    case (Cons c cs)
    have "rows_legal (snd (SaveHarnessCycle (si (HC_ID c)) (settle c) db))"
      using Cons.prems by (intro rows_legal_save settle_legal) simp_all
    then show ?case using Cons by (auto simp: reconcile_settles split: prod.split option.split)
  qed simp
  assume "rows_legal db"
  moreover have "list_all legal cs" if "ListHarnessCycles li n db = Inr cs" for n cs
    using that \<open>rows_legal db\<close>
    by (auto simp: ListHarnessCycles_def rows_legal_def list_all_iff sql_limit_def dest!: in_set_takeD split: option.splits if_splits)
  ultimately show ?thesis using loop by (auto simp: Reconcile_def split: sum.split)
qed

text \<open>
  The life of the audit store through any number of processes: a process takes steps of the harness, in any interleaving, while
  other components write other tables; it dies at any point, and the next one starts on what is stored, with or without a
  reconciliation before it, which may itself fail on the way.
\<close>

inductive harness_life :: "HState \<Rightarrow> bool" where
  first: "harness_life (harness_New empty_DB)"
| step: "harness_life s \<Longrightarrow> harness_life (hstep opts e s)"
| other: "harness_life s \<Longrightarrow> db_harness_cycles db = db_harness_cycles (h_db s) \<Longrightarrow> harness_life (s\<lparr>h_db := db\<rparr>)"
| died: "harness_life s \<Longrightarrow> harness_life (harness_New (h_db s))"
| reconciled: "harness_life s \<Longrightarrow> harness_life (harness_New (snd (Reconcile li si (h_db s))))"

lemma life_linv: "harness_life s \<Longrightarrow> linv s"
proof (induction rule: harness_life.induct)
  case first
  show ?case by (rule linv_New) (simp add: rows_legal_def empty_DB_def)
next
  case (other s db)
  then show ?case by (simp add: linv_def rows_legal_def)
next
  case (died s)
  then show ?case by (intro linv_New) (simp add: linv_def)
next
  case (reconciled s li si)
  then show ?case by (intro linv_New rows_legal_reconcile) (simp add: linv_def)
qed (rule linv_hstep)

lemma life_run: "harness_life s \<Longrightarrow> harness_life (fold (hstep opts) es s)"
  by (induction es arbitrary: s) (simp_all add: harness_life.step)

lemma Reconcile_readback:
  assumes "distinct (map hr_id (db_harness_cycles db))" and "int (length (db_harness_cycles db)) \<le> reconcileListLimit"
  shows "\<exists>db'. Reconcile None (\<lambda>_. None) db = (None, db') \<and>
    (\<forall>i. GetHarnessCycle None i db' = map_sum id settle (GetHarnessCycle None i db)) \<and>
    (\<forall>row \<in> set (db_harness_cycles db').
       \<exists>row0 \<in> set (db_harness_cycles db). cycle_of_row row = settle (cycle_of_row row0) \<and> (open_cycle (cycle_of_row row0) \<or> row = row0)) \<and>
    Reconcile None (\<lambda>_. None) db' = (None, db')"
proof -
  define rows where "rows = db_harness_cycles db"
  define listed where "listed = map cycle_of_row (sort_key (\<lambda>r. - hr_started_at r) rows)"
  define rows' where "rows' = fold (upsert_row hr_id) (map (\<lambda>c. cycle_to_row (settle c)) (filter open_cycle listed)) rows"
  define db' where "db' = db\<lparr>db_harness_cycles := rows'\<rparr>"
  have dist: "distinct (map hr_id rows)" using assms(1) by (simp add: rows_def)
  then have dist': "distinct (map hr_id rows')" unfolding rows'_def by (rule cycle_tab.wf_puts)
  have lk: "find_row hr_id k rows' =
      map_option (\<lambda>r. if open_cycle (cycle_of_row r) then cycle_to_row (settle (cycle_of_row r)) else r)
        (find_row hr_id k rows)" for k
    unfolding rows'_def by (rule find_row_settled [OF dist]) (simp add: listed_def)
  have readback: "cycle_of_row (if open_cycle (cycle_of_row r) then cycle_to_row (settle (cycle_of_row r)) else r) =
      settle (cycle_of_row r)" for r
    by (simp add: cycle_row_roundtrip trunc_settle trunc_stored settle_closed)
  have get: "\<forall>i. GetHarnessCycle None i db' = map_sum id settle (GetHarnessCycle None i db)"
    using lk readback by (simp add: GetHarnessCycle_def db'_def rows_def split: option.split)
  have from_old: "\<exists>r0 \<in> set rows. cycle_of_row r = settle (cycle_of_row r0) \<and> (open_cycle (cycle_of_row r0) \<or> r = r0)" if "r \<in> set rows'" for r
  proof -
    have "find_row hr_id (hr_id r) rows' = Some r" using that dist' by (simp add: find_row_unique)
    then obtain r0 where r0: "find_row hr_id (hr_id r) rows = Some r0"
      "r = (if open_cycle (cycle_of_row r0) then cycle_to_row (settle (cycle_of_row r0)) else r0)"
      using lk by auto
    have "cycle_of_row r = settle (cycle_of_row r0)" unfolding r0(2) by (rule readback)
    moreover have "r = r0" if "\<not> open_cycle (cycle_of_row r0)" using r0(2) unfolding if_not_P [OF that] .
    ultimately show ?thesis using find_row_Some_key [OF r0(1)] by blast
  qed
  have lim: "take (nat reconcileListLimit) xs = xs" if "length xs = length rows" for xs :: "cycle_row list"
    using that assms(2) by (simp add: rows_def)
  have run: "Reconcile None (\<lambda>_. None) db = (None, db')"
    using lim by (simp add: Reconcile_def ListHarnessCycles_def sql_limit_def reconcile_loop_rows
        reconcileListLimit_def rows_def listed_def rows'_def db'_def)
  have "Reconcile None (\<lambda>_. None) db' = (None, db')"
  proof -
    let ?l = "map cycle_of_row (sql_limit reconcileListLimit (sort_key (\<lambda>r. - hr_started_at r) rows'))"
    have "set ?l \<subseteq> cycle_of_row ` set rows'" by (auto simp: sql_limit_def dest: in_set_takeD)
    moreover have "\<not> open_cycle (cycle_of_row r)" if "r \<in> set rows'" for r using from_old [OF that] settled by metis
    ultimately have "filter open_cycle ?l = []" by (auto simp: filter_empty_conv)
    then show ?thesis
      by (simp add: Reconcile_def ListHarnessCycles_def reconcile_loop_rows db'_def del: filter_map)
  qed
  with run get from_old show ?thesis by (auto simp: db'_def rows_def)
qed

lemma settle_pairs:
  assumes "legal c"
  shows "stored_pair (settle c) \<in> final_pairs \<or> stored_pair c \<in> decided_pairs \<and> settle c = c"
  using assms by (auto simp: settle_def pair_defs outcome_defs)


section \<open>Concrete runs\<close>

definition run_opts :: Options where
  "run_opts = \<lparr>o_Mode = HarnessLive, o_Targets = [(''plex'', ''ct-plex'')], o_Tools = [''docker_logs''],
     o_MaxToolCalls = 1, o_Cooldown = 1000\<rparr>"

definition run_env :: "bool \<Rightarrow> gotime \<Rightarrow> rc_env" where
  "run_env timer now = \<lparr>re_now = now, re_io = None, re_expired = (\<lambda>_. False),
     re_tool = (\<lambda>_. (''exited'', None, now, 1)),
     re_reason = (\<lambda>_. Inl ''unreachable''), re_actuator = (\<lambda>_. None), re_timer = timer\<rparr>"

definition run_down :: hevent where
  "run_down = Commit ''c1'' 5000000 \<lparr>CS_Service = ''plex'', CS_Status = StatusDown, CS_ChangedAt = 4000000\<rparr>"

definition run_up :: hevent where
  "run_up = Commit ''c2'' 9000000 \<lparr>CS_Service = ''plex'', CS_Status = StatusUp, CS_ChangedAt = 8000000\<rparr>"

text \<open>Up to the armed Approval: begin, sweep, diagnose, arm.\<close>

definition run_to_arm :: "hevent list" where
  "run_to_arm = run_down # replicate 4 (Cycle (run_env False 6000000))"

text \<open>An approved restart that recovers before the outcome watch starts.\<close>

definition run_recovered :: "hevent list" where
  "run_recovered = run_to_arm @ [Cycle (run_env False 6000000), ApproveCall None 7000000 ''c1'' ''op'', Send 0] @
     replicate 3 (Cycle (run_env False 7500000)) @ [run_up] @ replicate 5 (Cycle (run_env False 9500000))"

lemmas run_defs = run_opts_def run_env_def run_down_def run_up_def run_to_arm_def run_recovered_def

lemma run_recovered_log:
  "log_dispatch (fold (hstep run_opts) run_recovered (harness_New empty_DB)) = [(0, ''ct-plex'')]"
  by code_simp

lemma run_recovered_row:
  "map (\<lambda>r. (hr_outcome r, hr_approval r)) (db_harness_cycles (h_db (fold (hstep run_opts) run_recovered (harness_New empty_DB)))) =
     [(OutcomeRecovered, ApprovalApproved)]"
  by code_simp

theorem dispatch_only_after_approval_witness:
  "(0, ''ct-plex'') \<in> set (log_dispatch (fold (hstep run_opts) run_recovered (harness_New empty_DB))) \<and>
   (\<exists>pre post io at cid who. run_recovered = pre @ ApproveCall io at cid who # post \<and>
      (let s = fold (hstep run_opts) pre (harness_New empty_DB) in
         fst (Approve io at cid who s) = None \<and> map_option cs_ref (h_active s) = Some 0 \<and>
         (\<forall>t. (0, t) \<notin> set (log_dispatch s))))"
  using dispatch_only_after_approval [of 0 "''ct-plex''" run_opts run_recovered empty_DB]
  by (simp add: run_recovered_log)

theorem audit_records_truthful_witness:
  "\<exists>row. row \<in> set (db_harness_cycles (h_db (fold (hstep run_opts) run_recovered (harness_New empty_DB)))) \<and>
     hr_outcome row = OutcomeRecovered \<and>
     (\<exists>r at w. (r, hr_resolved_target row) \<in> set (log_dispatch (fold (hstep run_opts) run_recovered (harness_New empty_DB))) \<and>
       (hr_subject row, at, w) \<in> set (log_up (fold (hstep run_opts) run_recovered (harness_New empty_DB))))"
proof -
  obtain row where row: "row \<in> set (db_harness_cycles (h_db (fold (hstep run_opts) run_recovered (harness_New empty_DB))))"
    "hr_outcome row = OutcomeRecovered"
    using run_recovered_row by (auto simp: map_eq_Cons_conv)
  from audit_records_truthful [OF row(1)] row show ?thesis unfolding Let_def by blast
qed

theorem cycle_always_releases_witness:
  "\<exists>pre post. replicate 15 (Cycle (run_env True 7000000)) = pre @ post \<and>
    h_active (fold (hstep run_opts) pre (fold (hstep run_opts) run_to_arm (harness_New empty_DB))) = None"
  by (rule cycle_always_releases) (simp add: run_env_def)

lemma ab_mset: "(mset [''plex'', ''nas''] = mset [''nas'', ''plex'']) = True"
  by simp

theorem diagnosis_contained_witness:
  "\<exists>k. map TC_Tool (diagnosisSweep run_opts (\<lambda>_. False) (\<lambda>_. (''x'', None, 1, 1)) ''plex'') = take k (o_Tools run_opts) \<and>
      (0 \<le> o_MaxToolCalls run_opts \<longrightarrow>
         int (length (diagnosisSweep run_opts (\<lambda>_. False) (\<lambda>_. (''x'', None, 1, 1)) ''plex'')) \<le> o_MaxToolCalls run_opts) \<and>
      buildPrompt StatusDown ''plex'' (diagnosisSweep run_opts (\<lambda>_. False) (\<lambda>_. (''x'', None, 1, 1)) ''plex'') [''plex'', ''nas''] =
        buildPrompt StatusDown ''plex'' (diagnosisSweep run_opts (\<lambda>_. False) (\<lambda>_. (''x'', None, 1, 1)) ''plex'') [''nas'', ''plex'']"
  using diagnosis_contained [of "[''plex'', ''nas'']" "[''nas'', ''plex'']" run_opts "\<lambda>_. False"
      "\<lambda>_. (''x'', None, 1, 1)" "''plex''" StatusDown]
  unfolding ab_mset by blast

text \<open>A process that dies while it watches the recovery of an approved restart.\<close>

definition run_watching :: "hevent list" where
  "run_watching = run_to_arm @ [Cycle (run_env False 6000000), ApproveCall None 7000000 ''c1'' ''op'', Send 0] @
     replicate 5 (Cycle (run_env False 7500000))"

lemma run_watching_row:
  "map (\<lambda>r. (hr_outcome r, hr_approval r)) (db_harness_cycles (h_db (fold (hstep run_opts) run_watching (harness_New empty_DB)))) =
     [(OutcomePending, ApprovalApproved)]"
  by code_simp

lemma run_watching_reconciled:
  "map (\<lambda>r. (hr_outcome r, hr_approval r)) (db_harness_cycles (snd (Reconcile None (\<lambda>_. None)
     (h_db (fold (hstep run_opts) run_watching (harness_New empty_DB)))))) = [(OutcomeActionFailed, ApprovalApproved)]"
  by code_simp


definition stored_approval :: "hevent list \<Rightarrow> ApprovalDecision list" where
  "stored_approval es = map hr_approval (db_harness_cycles (h_db (fold (hstep run_opts) es (harness_New empty_DB))))"

definition run_late :: "hevent list" where
  "run_late = run_to_arm @ [Cycle (run_env False 6000000), ApproveCall None 7000000 ''c1'' ''op'',
     Cycle (run_env True 7000000), Send 0, Cycle (run_env False 7000000), Cycle (run_env False 7000000),
     Cycle (run_env False 7000000)]"

text \<open>Two races around the Operator's decision. (a) \<open>Approve\<close> called between the arming of the
  Approval and the store write that announces it returns success with the record stored as
  Approved, and that write then puts it back to \<open>Pending\<close>. (b) When the approval timer fires between
  the decision and its delivery, \<open>Approve\<close> has returned success and stored its decision, yet the
  cycle closes as \<open>Expired\<close> and nothing is dispatched.\<close>

theorem approval_races:
  "(let early = run_to_arm @ [ApproveCall None 7000000 ''c1'' ''op''] in
     fst (Approve None 7000000 ''c1'' ''op'' (fold (hstep run_opts) run_to_arm (harness_New empty_DB))) = None \<and>
     stored_approval early = [ApprovalApproved] \<and>
     stored_approval (early @ [Cycle (run_env False 7000000)]) = [ApprovalPending]) \<and>
   (fst (Approve None 7000000 ''c1'' ''op''
       (fold (hstep run_opts) (run_to_arm @ [Cycle (run_env False 6000000)]) (harness_New empty_DB))) = None \<and>
     stored_approval run_late = [ApprovalExpired] \<and>
     log_dispatch (fold (hstep run_opts) run_late (harness_New empty_DB)) = [] \<and>
     h_active (fold (hstep run_opts) run_late (harness_New empty_DB)) = None)"
  by code_simp

definition run_halted :: "hevent list" where
  "run_halted = run_to_arm @ [Cycle (run_env False 6000000), HaltCall ''stop'', ApproveCall None 7000000 ''c1'' ''op'', Send 0] @
     replicate 3 (Cycle (run_env False 7500000))"

text \<open>A halt does not stop a cycle under way: with the harness halted before the Operator
  decides, the pending restart can still be approved and is dispatched. (A halt also lives only in
  memory: a new engine starts without it.)\<close>

theorem halt_leaves_inflight:
  "h_halted (fold (hstep run_opts) run_halted (harness_New empty_DB)) \<and>
   log_dispatch (fold (hstep run_opts) run_halted (harness_New empty_DB)) = [(0, ''ct-plex'')] \<and>
   \<not> h_halted (harness_New (h_db (fold (hstep run_opts) run_halted (harness_New empty_DB))))"
  by code_simp

text \<open>A cycle interrupted between its Approval and the outcome of the dispatch is stored as
  Approved with an empty outcome, which reconciliation does not touch.\<close>

lemma reconcile_leaves_approved:
  "HC_Approval c = ApprovalApproved \<Longrightarrow> HC_Outcome c = [] \<Longrightarrow> reconcile_cycle c = None"
  by (simp add: reconcile_settles open_cycle_def OutcomePending_def)

end
