(* ===== verification/Debounce.thy ===== *)
theory Debounce
  imports Core_Domain
begin

text \<open>
  The flap absorber of \<open>internal/core/debounce.go\<close>. The state record, the constructors and
  \<open>Observe\<close> follow the source; \<open>commit_spec\<close> is the specification over the whole
  observation history (the committed status is the last one that ended a run of at least
  \<open>n\<close> equal observations), and the lemmas show that the incremental machine computes it.
\<close>

section \<open>The machine\<close>

record Debouncer =
  deb_n :: int
  deb_committed :: Status
  deb_candidate :: Status
  deb_streak :: int

definition NewDebouncerWithStatus :: "int \<Rightarrow> Status \<Rightarrow> Debouncer" where
  "NewDebouncerWithStatus n c =
     \<lparr>deb_n = (if n < 1 then 1 else n), deb_committed = c,
      deb_candidate = StatusUnknown, deb_streak = 0\<rparr>"

definition NewDebouncer :: "int \<Rightarrow> Debouncer" where
  "NewDebouncer n = NewDebouncerWithStatus n StatusUnknown"

definition Observe :: "Status \<Rightarrow> Debouncer \<Rightarrow> (Status \<times> bool) \<times> Debouncer" where
  "Observe s d =
     (let d1 = (if s = deb_candidate d then d\<lparr>deb_streak := deb_streak d + 1\<rparr>
                else d\<lparr>deb_candidate := s, deb_streak := 1\<rparr>)
      in if deb_candidate d1 \<noteq> deb_committed d1 \<and> deb_streak d1 \<ge> deb_n d1
         then let d2 = d1\<lparr>deb_committed := deb_candidate d1\<rparr> in ((deb_committed d2, True), d2)
         else ((deb_committed d1, False), d1))"

abbreviation observe_changed :: "Status \<Rightarrow> Debouncer \<Rightarrow> bool" where
  "observe_changed s d \<equiv> snd (fst (Observe s d))"

abbreviation observe_next :: "Status \<Rightarrow> Debouncer \<Rightarrow> Debouncer" where
  "observe_next s d \<equiv> snd (Observe s d)"

section \<open>The specification over the history\<close>

text \<open>Length of the run of \<open>s\<close> that ends the history.\<close>

definition trailing_run :: "Status \<Rightarrow> Status list \<Rightarrow> int" where
  "trailing_run s h = int (length (takeWhile (\<lambda>x. x = s) (rev h)))"

definition commit_points :: "int \<Rightarrow> Status list \<Rightarrow> nat list" where
  "commit_points n h =
     filter (\<lambda>k. n \<le> trailing_run (h ! k) (take (Suc k) h)) [0 ..< length h]"

definition commit_spec :: "int \<Rightarrow> Status \<Rightarrow> Status list \<Rightarrow> Status" where
  "commit_spec n c h =
     (let ks = commit_points n h in if ks = [] then c else h ! last ks)"

text \<open>What the machine knows of the history it has seen.\<close>

definition deb_tracks :: "int \<Rightarrow> Status \<Rightarrow> Status list \<Rightarrow> Debouncer \<Rightarrow> bool" where
  "deb_tracks n c h d \<longleftrightarrow>
     deb_n d = n \<and> deb_committed d = commit_spec n c h \<and>
     (if h = [] then deb_candidate d = StatusUnknown \<and> deb_streak d = 0
      else deb_candidate d = last h \<and> deb_streak d = trailing_run (last h) h)"

section \<open>Lemmas\<close>

lemma trailing_run_snoc: "trailing_run s (h @ [x]) = (if x = s then trailing_run s h + 1 else 0)"
  by (simp add: trailing_run_def)

lemma trailing_run_Nil: "trailing_run s [] = 0"
  by (simp add: trailing_run_def)

lemma trailing_run_single: "trailing_run s [s] = 1"
  by (simp add: trailing_run_def)

lemma trailing_run_last_other: "h \<noteq> [] \<Longrightarrow> last h \<noteq> s \<Longrightarrow> trailing_run s h = 0"
  by (cases h rule: rev_cases) (simp_all add: trailing_run_def)

lemma commit_points_snoc:
  "commit_points n (h @ [x]) =
     commit_points n h @ (if n \<le> trailing_run x (h @ [x]) then [length h] else [])"
proof -
  have "filter (\<lambda>k. n \<le> trailing_run ((h @ [x]) ! k) (take (Suc k) (h @ [x]))) [0 ..< length h] =
      commit_points n h"
    unfolding commit_points_def by (rule filter_cong) (auto simp: nth_append)
  then show ?thesis
    by (simp add: commit_points_def nth_append)
qed

lemma commit_points_less: "k \<in> set (commit_points n h) \<Longrightarrow> k < length h"
  by (simp add: commit_points_def)

lemma commit_spec_snoc:
  "commit_spec n c (h @ [x]) = (if n \<le> trailing_run x (h @ [x]) then x else commit_spec n c h)"
proof (cases "n \<le> trailing_run x (h @ [x])")
  case True
  then have "commit_points n (h @ [x]) = commit_points n h @ [length h]"
    by (simp add: commit_points_snoc)
  then show ?thesis
    using True by (simp add: commit_spec_def Let_def)
next
  case False
  then have "commit_points n (h @ [x]) = commit_points n h"
    by (simp add: commit_points_snoc)
  moreover have "(h @ [x]) ! last (commit_points n h) = h ! last (commit_points n h)"
    if "commit_points n h \<noteq> []"
    using commit_points_less [OF last_in_set [OF that]] by (simp add: nth_append)
  ultimately show ?thesis
    using False by (auto simp: commit_spec_def Let_def)
qed

lemma deb_tracks_Observe:
  assumes t: "deb_tracks n c h d" and n: "1 \<le> n"
  shows "deb_tracks n c (h @ [s]) (observe_next s d)"
    and "observe_changed s d \<longleftrightarrow>
      s \<noteq> commit_spec n c h \<and> n \<le> trailing_run s (h @ [s])"
proof -
  have streak: "(if s = deb_candidate d then deb_streak d + 1 else 1) = trailing_run s (h @ [s])"
    using t by (cases "h = []")
      (auto simp: deb_tracks_def trailing_run_snoc trailing_run_last_other trailing_run_Nil
        trailing_run_single)
  then show "deb_tracks n c (h @ [s]) (observe_next s d)"
    and "observe_changed s d \<longleftrightarrow> s \<noteq> commit_spec n c h \<and> n \<le> trailing_run s (h @ [s])"
    using t by (auto simp: deb_tracks_def Observe_def Let_def commit_spec_snoc split: if_splits)
qed

lemma deb_tracks_init:
  "deb_tracks (max 1 n) c [] (NewDebouncerWithStatus n c)"
  by (simp add: deb_tracks_def NewDebouncerWithStatus_def commit_spec_def commit_points_def)

lemma deb_tracks_run:
  "deb_tracks (max 1 n) c h (fold observe_next h (NewDebouncerWithStatus n c))"
proof (induction h rule: rev_induct)
  case Nil
  show ?case by (simp add: deb_tracks_init)
next
  case (snoc s h)
  then show ?case by (simp add: deb_tracks_Observe(1))
qed

lemma Observe_result: "fst (fst (Observe s d)) = deb_committed (observe_next s d)"
  by (simp add: Observe_def Let_def)

lemma Observe_committed:
  "deb_committed (observe_next s d) = (if observe_changed s d then s else deb_committed d)"
  by (simp add: Observe_def Let_def)

lemma Observe_changed_neq: "observe_changed s d \<Longrightarrow> s \<noteq> deb_committed d"
  by (auto simp: Observe_def Let_def split: if_splits)

lemma Observe_n [simp]: "deb_n (observe_next s d) = deb_n d"
  by (simp add: Observe_def Let_def)

section \<open>Properties\<close>

text \<open>C2: the debouncer refines its history specification. A debouncer created with any
  threshold and any seeded status, after any sequence of observations, has committed exactly
  the last status that ended a run of at least \<open>max 1 n\<close> consecutive equal observations (the
  seed if there was none), and the next observation reports a change exactly when it differs
  from that committed status and completes such a run.\<close>

theorem Debouncer_refines_history:
  "let d = fold observe_next h (NewDebouncerWithStatus n c) in
    deb_committed d = commit_spec (max 1 n) c h \<and>
    (observe_changed s d \<longleftrightarrow>
       s \<noteq> commit_spec (max 1 n) c h \<and> max 1 n \<le> trailing_run s (h @ [s]))"
  using deb_tracks_run [of n c h] deb_tracks_Observe(2) [OF deb_tracks_run [of n c h], of s]
  by (simp add: Let_def deb_tracks_def)

text \<open>A history with no run of the threshold's length leaves the seed committed.\<close>

lemma commit_spec_flapping:
  assumes "\<forall>k < length h. trailing_run (h ! k) (take (Suc k) h) < n"
  shows "commit_spec n c h = c"
  using assms by (simp add: commit_spec_def Let_def commit_points_def filter_False not_le)

text \<open>A subject that keeps its seeded status never reports a change (restart safety).\<close>

lemma seeded_run_quiet: "commit_spec n c (replicate k c) = c"
proof (induction k)
  case 0
  show ?case by (simp add: commit_spec_def commit_points_def)
next
  case (Suc k)
  then show ?case
    unfolding replicate_Suc replicate_append_same [symmetric] by (simp add: commit_spec_snoc)
qed

text \<open>A flapping subject never commits: if no status is observed \<open>n\<close> times in a row, the
  committed status stays the seeded one.\<close>

theorem Debouncer_flapping_never_commits:
  assumes "\<forall>k < length h. trailing_run (h ! k) (take (Suc k) h) < max 1 n"
  shows "deb_committed (fold observe_next h (NewDebouncerWithStatus n c)) = c"
  using deb_tracks_run [of n c h] commit_spec_flapping [OF assms]
  by (simp add: deb_tracks_def)

theorem Debouncer_flapping_never_commits_witness:
  "deb_committed (fold observe_next [StatusUp, StatusDown, StatusUp, StatusDown]
     (NewDebouncerWithStatus 3 StatusUnknown)) = StatusUnknown"
proof -
  have h: "\<forall>k < length [StatusUp, StatusDown, StatusUp, StatusDown].
     trailing_run ([StatusUp, StatusDown, StatusUp, StatusDown] ! k)
       (take (Suc k) [StatusUp, StatusDown, StatusUp, StatusDown]) < max 1 3"
    by (simp add: trailing_run_def All_less_Suc numeral_eq_Suc)
  show ?thesis
    by (rule Debouncer_flapping_never_commits [OF h])
qed

end
