(* ===== verification/Monitor.thy ===== *)
theory Monitor
  imports Debounce Store
begin

text \<open>
  The monitoring spine of \<open>internal/monitor\<close> (\<open>monitor.go\<close>, \<open>hub.go\<close>): the per-subject
  runtimes, the reachability gate, the probe handlers \<open>probeOnce\<close> and \<open>hostProbeOnce\<close>,
  \<open>Resume\<close>, \<open>Reconfigure\<close>, and the fan-out hub. The probers, the clock and the store driver
  are the environment of a handler (\<open>probe_env\<close>). The poll loops of \<open>Run\<close> are the step function
  \<open>mstep\<close>: a service probe is two steps, the gate check before the prober is called and the
  bookkeeping after it returned, so that a host probe of another goroutine can fall between them.
\<close>

section \<open>The hub (hub.go)\<close>

text \<open>A subscriber is a buffered channel of capacity 16, here its queue under its identity.\<close>

record hub =
  hub_subs :: "(nat \<times> ServiceView list) list"
  hub_next :: nat

definition newHub :: hub where
  "newHub = \<lparr>hub_subs = [], hub_next = 0\<rparr>"

definition hub_cap :: nat where
  "hub_cap = 16"

definition hub_subscribe :: "hub \<Rightarrow> nat \<times> hub" where
  "hub_subscribe h =
     (hub_next h, h\<lparr>hub_subs := hub_subs h @ [(hub_next h, [])], hub_next := Suc (hub_next h)\<rparr>)"

definition hub_cancel :: "nat \<Rightarrow> hub \<Rightarrow> hub" where
  "hub_cancel ch h = h\<lparr>hub_subs := filter (\<lambda>(c, q). c \<noteq> ch) (hub_subs h)\<rparr>"

definition chan_offer :: "ServiceView \<Rightarrow> ServiceView list \<Rightarrow> ServiceView list" where
  "chan_offer v q = (if length q < hub_cap then q @ [v] else q)"

definition hub_broadcast :: "ServiceView \<Rightarrow> hub \<Rightarrow> hub" where
  "hub_broadcast v h = h\<lparr>hub_subs := map (\<lambda>(c, q). (c, chan_offer v q)) (hub_subs h)\<rparr>"

text \<open>What a subscriber does: take the oldest view of its queue.\<close>

definition hub_receive :: "nat \<Rightarrow> hub \<Rightarrow> hub" where
  "hub_receive ch h = h\<lparr>hub_subs := map (\<lambda>(c, q). (c, if c = ch then tl q else q)) (hub_subs h)\<rparr>"

section \<open>Runtimes and state (monitor.go)\<close>

record Service =
  Svc_Name :: string
  Svc_Threshold :: duration
  Svc_Poll :: duration
  Svc_DebounceN :: int

record Host =
  Host_Name :: string
  Host_Poll :: duration
  Host_DebounceN :: int

record serviceRuntime =
  rt_name :: string
  rt_threshold :: duration
  rt_poll :: duration
  rt_debounceN :: int
  rt_deb :: Debouncer
  rt_reconfig :: bool

record hostRuntime =
  host_name :: string
  host_poll :: duration
  host_debounceN :: int
  host_deb :: Debouncer

text \<open>
  The monitor with what it writes to: the store, the notifier (the Alerts sent so far) and the
  commit sink (the statuses handed over so far). \<open>m_inflight\<close> lists the services whose prober has
  been called and has not returned.
\<close>

record MonitorState =
  m_svcs :: "serviceRuntime list"
  m_host :: "hostRuntime option"
  m_gate :: bool
  m_views :: "ServiceView list"
  m_hub :: hub
  m_retain :: duration
  m_commitSink :: bool
  m_inflight :: "nat list"
  w_db :: DB
  w_alerts :: "Alert list"
  w_sink :: "CommittedStatus list"

record probe_env =
  pe_probe :: "string + ProbeResult"
  pe_now :: gotime
  pe_record_io :: io
  pe_prune_io :: io
  pe_save_io :: io

definition setView :: "ServiceView \<Rightarrow> MonitorState \<Rightarrow> MonitorState" where
  "setView v m = m\<lparr>m_views := upsert_row SV_Name v (m_views m)\<rparr>"

definition broadcast :: "ServiceView \<Rightarrow> MonitorState \<Rightarrow> MonitorState" where
  "broadcast v m = m\<lparr>m_hub := hub_broadcast v (m_hub m)\<rparr>"

definition new_runtime :: "Service \<Rightarrow> serviceRuntime" where
  "new_runtime s =
     \<lparr>rt_name = Svc_Name s, rt_threshold = Svc_Threshold s, rt_poll = Svc_Poll s,
      rt_debounceN = Svc_DebounceN s, rt_deb = NewDebouncer (Svc_DebounceN s), rt_reconfig = False\<rparr>"

definition unknown_view :: "string \<Rightarrow> gotime \<Rightarrow> ServiceView" where
  "unknown_view nm t = \<lparr>SV_Name = nm, SV_Status = StatusUnknown, SV_Latency = 0, SV_LastChecked = t\<rparr>"

definition New :: "DB \<Rightarrow> Service list \<Rightarrow> MonitorState" where
  "New db svcs =
     \<lparr>m_svcs = map new_runtime svcs, m_host = None, m_gate = True,
      m_views = fold (\<lambda>s vs. upsert_row SV_Name (unknown_view (Svc_Name s) zero_time) vs) svcs [],
      m_hub = newHub, m_retain = 0, m_commitSink = False, m_inflight = [],
      w_db = db, w_alerts = [], w_sink = []\<rparr>"

definition SetRetention :: "duration \<Rightarrow> MonitorState \<Rightarrow> MonitorState" where
  "SetRetention d m = m\<lparr>m_retain := d\<rparr>"

definition SetCommitSink :: "MonitorState \<Rightarrow> MonitorState" where
  "SetCommitSink m = m\<lparr>m_commitSink := True\<rparr>"

definition SetHost :: "Host \<Rightarrow> MonitorState \<Rightarrow> MonitorState" where
  "SetHost h m =
     setView (unknown_view (Host_Name h) zero_time)
       (m\<lparr>m_host := Some \<lparr>host_name = Host_Name h, host_poll = Host_Poll h,
            host_debounceN = Host_DebounceN h, host_deb = NewDebouncer (Host_DebounceN h)\<rparr>\<rparr>)"

text \<open>\<open>History\<close>: the newest \<open>historyCap\<close> samples, nothing on a read error.\<close>

definition historyCap :: int where
  "historyCap = 120"

definition History :: "io \<Rightarrow> string \<Rightarrow> MonitorState \<Rightarrow> ProbeSample list" where
  "History io nm m =
     (case LoadProbeSamples io nm historyCap (w_db m) of Inl e \<Rightarrow> [] | Inr xs \<Rightarrow> xs)"

definition prune :: "io \<Rightarrow> string \<Rightarrow> gotime \<Rightarrow> MonitorState \<Rightarrow> MonitorState" where
  "prune io subject now m =
     (if m_retain m \<le> 0 then m
      else m\<lparr>w_db := snd (PruneProbeSamples io subject (now - m_retain m) (w_db m))\<rparr>)"

definition publishCommit :: "CommittedStatus \<Rightarrow> MonitorState \<Rightarrow> MonitorState" where
  "publishCommit cs m = (if m_commitSink m then m\<lparr>w_sink := w_sink m @ [cs]\<rparr> else m)"

definition Notify :: "Alert \<Rightarrow> MonitorState \<Rightarrow> MonitorState" where
  "Notify a m = m\<lparr>w_alerts := w_alerts m @ [a]\<rparr>"

text \<open>\<open>Reconfigure\<close>: live knob changes for the services that are already running.\<close>

definition reconfigure_rt :: "Service list \<Rightarrow> serviceRuntime \<Rightarrow> serviceRuntime" where
  "reconfigure_rt incoming rt =
     (case find (\<lambda>s. Svc_Name s = rt_name rt) (rev incoming) of
        None \<Rightarrow> rt
      | Some nxt \<Rightarrow>
          rt\<lparr>rt_threshold := Svc_Threshold nxt, rt_poll := Svc_Poll nxt,
             rt_deb := (if rt_debounceN rt \<noteq> Svc_DebounceN nxt
                        then NewDebouncerWithStatus (Svc_DebounceN nxt) (deb_committed (rt_deb rt))
                        else rt_deb rt),
             rt_debounceN := Svc_DebounceN nxt,
             rt_reconfig := rt_reconfig rt \<or> rt_poll rt \<noteq> Svc_Poll nxt\<rparr>)"

definition Reconfigure :: "Service list \<Rightarrow> MonitorState \<Rightarrow> MonitorState" where
  "Reconfigure incoming m = m\<lparr>m_svcs := map (reconfigure_rt incoming) (m_svcs m)\<rparr>"

text \<open>\<open>Resume\<close>: reseed debouncers, views and the gate from the persisted statuses.\<close>

definition find_committed :: "string \<Rightarrow> CommittedStatus list \<Rightarrow> CommittedStatus option" where
  "find_committed nm saved = find (\<lambda>cs. CS_Service cs = nm) (rev saved)"

definition resume_view :: "CommittedStatus \<Rightarrow> string \<Rightarrow> ServiceView" where
  "resume_view cs nm = \<lparr>SV_Name = nm, SV_Status = CS_Status cs, SV_Latency = 0, SV_LastChecked = CS_ChangedAt cs\<rparr>"

definition resume_rt :: "CommittedStatus list \<Rightarrow> serviceRuntime \<Rightarrow> serviceRuntime" where
  "resume_rt saved rt =
     (case find_committed (rt_name rt) saved of
        None \<Rightarrow> rt
      | Some cs \<Rightarrow> rt\<lparr>rt_deb := NewDebouncerWithStatus (rt_debounceN rt) (CS_Status cs)\<rparr>)"

definition resume_views :: "CommittedStatus list \<Rightarrow> string list \<Rightarrow> ServiceView list \<Rightarrow> ServiceView list" where
  "resume_views saved nms vs =
     fold (\<lambda>nm vs. case find_committed nm saved of
             None \<Rightarrow> vs | Some cs \<Rightarrow> upsert_row SV_Name (resume_view cs nm) vs) nms vs"

definition resume_host :: "CommittedStatus list \<Rightarrow> MonitorState \<Rightarrow> MonitorState" where
  "resume_host saved m =
     (case m_host m of
        None \<Rightarrow> m
      | Some h \<Rightarrow>
          (case find_committed (host_name h) saved of
             None \<Rightarrow> m
           | Some cs \<Rightarrow>
               setView (resume_view cs (host_name h))
                 (m\<lparr>m_host := Some (h\<lparr>host_deb := NewDebouncerWithStatus (host_debounceN h) (CS_Status cs)\<rparr>),
                    m_gate := CS_Status cs \<noteq> StatusDown\<rparr>)))"

definition Resume :: "io \<Rightarrow> MonitorState \<Rightarrow> string option \<times> MonitorState" where
  "Resume io m =
     (case LoadCommittedStatuses io (w_db m) of
        Inl e \<Rightarrow> (Some e, m)
      | Inr saved \<Rightarrow>
          (None, resume_host saved
             (m\<lparr>m_svcs := map (resume_rt saved) (m_svcs m),
                m_views := resume_views saved (map rt_name (m_svcs m)) (m_views m)\<rparr>)))"

section \<open>Probing\<close>

text \<open>The lookup \<open>m.views[name].Status\<close>; a missing row reads as the zero Status.\<close>

definition view_status :: "string \<Rightarrow> MonitorState \<Rightarrow> Status" where
  "view_status nm m =
     (case find_row SV_Name nm (m_views m) of None \<Rightarrow> StatusUnknown | Some v \<Rightarrow> SV_Status v)"

text \<open>The gate check at the start of \<open>probeOnce\<close>; the flag says whether the prober is called.\<close>

definition probe_gate :: "nat \<Rightarrow> gotime \<Rightarrow> MonitorState \<Rightarrow> bool \<times> MonitorState" where
  "probe_gate i now m =
     (let nm = rt_name (m_svcs m ! i) in
      if m_host m \<noteq> None \<and> \<not> m_gate m
      then (False,
            if view_status nm m \<noteq> StatusUnknown
            then broadcast (unknown_view nm now) (setView (unknown_view nm now) m)
            else m)
      else (True, m))"

text \<open>\<open>observeService\<close>: one debouncer step under the lock.\<close>

definition observeService :: "nat \<Rightarrow> Status \<Rightarrow> MonitorState \<Rightarrow> (Status \<times> bool) \<times> MonitorState" where
  "observeService i s m =
     (let rt = m_svcs m ! i; r = Observe s (rt_deb rt)
      in (fst r, m\<lparr>m_svcs := (m_svcs m)[i := rt\<lparr>rt_deb := snd r\<rparr>]\<rparr>))"

definition record_sample :: "io \<Rightarrow> string \<Rightarrow> Status \<Rightarrow> duration \<Rightarrow> gotime \<Rightarrow> MonitorState \<Rightarrow> MonitorState" where
  "record_sample io nm s lat now m =
     m\<lparr>w_db := snd (RecordProbe io \<lparr>PS_Service = nm, PS_Status = s, PS_Latency = lat, PS_At = now\<rparr> (w_db m))\<rparr>"

definition save_committed :: "io \<Rightarrow> CommittedStatus \<Rightarrow> MonitorState \<Rightarrow> bool \<times> MonitorState" where
  "save_committed io cs m =
     (let r = SaveCommittedStatus io cs (w_db m) in (fst r = None, m\<lparr>w_db := snd r\<rparr>))"

text \<open>The rest of \<open>probeOnce\<close>, from the prober's return on.\<close>

definition probe_finish :: "nat \<Rightarrow> probe_env \<Rightarrow> MonitorState \<Rightarrow> MonitorState" where
  "probe_finish i env m =
     (case pe_probe env of
        Inl err \<Rightarrow> m
      | Inr res \<Rightarrow>
          (let nm = rt_name (m_svcs m ! i);
               now = pe_now env;
               derived = DeriveStatus res (rt_threshold (m_svcs m ! i));
               m1 = record_sample (pe_record_io env) nm derived (PR_Latency res) now m;
               m2 = prune (pe_prune_io env) nm now m1;
               ((committed, changed), m3) = observeService i derived m2;
               view = \<lparr>SV_Name = nm, SV_Status = committed, SV_Latency = PR_Latency res, SV_LastChecked = now\<rparr>;
               m4 = setView view m3;
               cs = \<lparr>CS_Service = nm, CS_Status = committed, CS_ChangedAt = now\<rparr>;
               (persisted, m5) = (if changed then save_committed (pe_save_io env) cs m4 else (False, m4));
               m6 = (if changed
                     then Notify \<lparr>Alert_Subject = nm, Alert_Status = committed,
                            Alert_Message = nm @ '' is now '' @ Status_String committed\<rparr> m5
                     else m5);
               m7 = broadcast view m6
           in if changed \<and> persisted then publishCommit cs m7 else m7))"

definition probeOnce :: "nat \<Rightarrow> probe_env \<Rightarrow> MonitorState \<Rightarrow> MonitorState" where
  "probeOnce i env m =
     (let (go, m1) = probe_gate i (pe_now env) m in if go then probe_finish i env m1 else m1)"

definition blind_one :: "gotime \<Rightarrow> serviceRuntime \<Rightarrow> MonitorState \<Rightarrow> MonitorState" where
  "blind_one now s m =
     (let v = unknown_view (rt_name s) now in broadcast v (setView v m))"

definition blind_services :: "gotime \<Rightarrow> MonitorState \<Rightarrow> MonitorState" where
  "blind_services now m = fold (blind_one now) (m_svcs m) m"

definition host_message :: "string \<Rightarrow> Status \<Rightarrow> string" where
  "host_message nm committed =
     (case committed of
        StatusDown \<Rightarrow> nm @ '' is unreachable''
      | StatusDegraded \<Rightarrow> nm @ '' is degraded''
      | _ \<Rightarrow> nm @ '' is reachable'')"

definition hostProbeOnce :: "probe_env \<Rightarrow> MonitorState \<Rightarrow> MonitorState" where
  "hostProbeOnce env m =
     (case m_host m of
        None \<Rightarrow> m
      | Some h \<Rightarrow>
     (case pe_probe env of
        Inl err \<Rightarrow> m
      | Inr res \<Rightarrow>
          (let nm = host_name h;
               now = pe_now env;
               hostStatus = PR_Status res;
               reachable = (PR_Status res \<noteq> StatusDown);
               m1 = record_sample (pe_record_io env) nm hostStatus (PR_Latency res) now m;
               m2 = prune (pe_prune_io env) nm now m1;
               wasReachable = m_gate m2;
               m3 = m2\<lparr>m_gate := reachable\<rparr>;
               view = \<lparr>SV_Name = nm, SV_Status = hostStatus, SV_Latency = PR_Latency res, SV_LastChecked = now\<rparr>;
               m4 = setView view m3;
               m5 = (if wasReachable \<and> \<not> reachable then blind_services now m4 else m4);
               ((committed, changed), deb) = Observe hostStatus (host_deb h);
               m6 = m5\<lparr>m_host := Some (h\<lparr>host_deb := deb\<rparr>)\<rparr>;
               cs = \<lparr>CS_Service = nm, CS_Status = committed, CS_ChangedAt = now\<rparr>;
               (persisted, m7) = (if changed then save_committed (pe_save_io env) cs m6 else (False, m6));
               m8 = (if changed
                     then Notify \<lparr>Alert_Subject = nm, Alert_Status = committed,
                            Alert_Message = host_message nm committed\<rparr> m7
                     else m7);
               m9 = broadcast view m8
           in if changed \<and> persisted then publishCommit cs m9 else m9)))"

definition Snapshot :: "MonitorState \<Rightarrow> ServiceView list" where
  "Snapshot m = sort_key SV_Name (m_views m)"

section \<open>The poll loops as steps\<close>

datatype mevent =
    SvcBegin nat gotime
  | SvcFinish nat probe_env
  | HostProbe probe_env
  | Reconf "Service list"
  | Subscribe
  | Unsubscribe nat
  | Receive nat

fun mstep :: "mevent \<Rightarrow> MonitorState \<Rightarrow> MonitorState" where
  "mstep (SvcBegin i now) m =
     (if i < length (m_svcs m) \<and> i \<notin> set (m_inflight m)
      then (let (go, m1) = probe_gate i now m
            in if go then m1\<lparr>m_inflight := i # m_inflight m1\<rparr> else m1)
      else m)"
| "mstep (SvcFinish i env) m =
     (if i < length (m_svcs m) \<and> i \<in> set (m_inflight m)
      then probe_finish i env (m\<lparr>m_inflight := removeAll i (m_inflight m)\<rparr>)
      else m)"
| "mstep (HostProbe env) m = hostProbeOnce env m"
| "mstep (Reconf svcs) m = Reconfigure svcs m"
| "mstep Subscribe m = m\<lparr>m_hub := snd (hub_subscribe (m_hub m))\<rparr>"
| "mstep (Unsubscribe ch) m = m\<lparr>m_hub := hub_cancel ch (m_hub m)\<rparr>"
| "mstep (Receive ch) m = m\<lparr>m_hub := hub_receive ch (m_hub m)\<rparr>"

text \<open>
  The start of \<open>Run\<close>: with a Host configured its reachability is measured before any service
  loop begins, then every service probes once.
\<close>

definition Run_start :: "probe_env \<Rightarrow> probe_env list \<Rightarrow> MonitorState \<Rightarrow> MonitorState" where
  "Run_start host_env svc_envs m =
     fold (\<lambda>(i, env) m. probeOnce i env m) (zip [0 ..< length (m_svcs m)] svc_envs)
       (if m_host m \<noteq> None then hostProbeOnce host_env m else m)"

section \<open>What each handler touches\<close>

lemma setView_frame [simp]:
  "m_svcs (setView v m) = m_svcs m"
  "m_host (setView v m) = m_host m"
  "m_gate (setView v m) = m_gate m"
  "m_hub (setView v m) = m_hub m"
  "m_retain (setView v m) = m_retain m"
  "m_commitSink (setView v m) = m_commitSink m"
  "m_inflight (setView v m) = m_inflight m"
  "w_db (setView v m) = w_db m"
  "w_alerts (setView v m) = w_alerts m"
  "w_sink (setView v m) = w_sink m"
  by (simp_all add: setView_def)

lemma broadcast_frame [simp]:
  "m_svcs (broadcast v m) = m_svcs m"
  "m_host (broadcast v m) = m_host m"
  "m_gate (broadcast v m) = m_gate m"
  "m_views (broadcast v m) = m_views m"
  "m_retain (broadcast v m) = m_retain m"
  "m_commitSink (broadcast v m) = m_commitSink m"
  "m_inflight (broadcast v m) = m_inflight m"
  "w_db (broadcast v m) = w_db m"
  "w_alerts (broadcast v m) = w_alerts m"
  "w_sink (broadcast v m) = w_sink m"
  by (simp_all add: broadcast_def)

lemma prune_frame [simp]:
  "m_svcs (prune io s t m) = m_svcs m"
  "m_host (prune io s t m) = m_host m"
  "m_gate (prune io s t m) = m_gate m"
  "m_views (prune io s t m) = m_views m"
  "m_hub (prune io s t m) = m_hub m"
  "m_retain (prune io s t m) = m_retain m"
  "m_commitSink (prune io s t m) = m_commitSink m"
  "m_inflight (prune io s t m) = m_inflight m"
  "w_alerts (prune io s t m) = w_alerts m"
  "w_sink (prune io s t m) = w_sink m"
  by (simp_all add: prune_def)

lemma record_sample_frame [simp]:
  "m_svcs (record_sample io n s l t m) = m_svcs m"
  "m_host (record_sample io n s l t m) = m_host m"
  "m_gate (record_sample io n s l t m) = m_gate m"
  "m_views (record_sample io n s l t m) = m_views m"
  "m_hub (record_sample io n s l t m) = m_hub m"
  "m_retain (record_sample io n s l t m) = m_retain m"
  "m_commitSink (record_sample io n s l t m) = m_commitSink m"
  "m_inflight (record_sample io n s l t m) = m_inflight m"
  "w_alerts (record_sample io n s l t m) = w_alerts m"
  "w_sink (record_sample io n s l t m) = w_sink m"
  by (simp_all add: record_sample_def)

lemma save_committed_frame [simp]:
  "m_svcs (snd (save_committed io cs m)) = m_svcs m"
  "m_host (snd (save_committed io cs m)) = m_host m"
  "m_gate (snd (save_committed io cs m)) = m_gate m"
  "m_views (snd (save_committed io cs m)) = m_views m"
  "m_hub (snd (save_committed io cs m)) = m_hub m"
  "m_retain (snd (save_committed io cs m)) = m_retain m"
  "m_commitSink (snd (save_committed io cs m)) = m_commitSink m"
  "m_inflight (snd (save_committed io cs m)) = m_inflight m"
  "w_alerts (snd (save_committed io cs m)) = w_alerts m"
  "w_sink (snd (save_committed io cs m)) = w_sink m"
  by (simp_all add: save_committed_def Let_def)

lemma publishCommit_frame [simp]:
  "m_svcs (publishCommit cs m) = m_svcs m"
  "m_host (publishCommit cs m) = m_host m"
  "m_gate (publishCommit cs m) = m_gate m"
  "m_views (publishCommit cs m) = m_views m"
  "m_hub (publishCommit cs m) = m_hub m"
  "m_retain (publishCommit cs m) = m_retain m"
  "m_commitSink (publishCommit cs m) = m_commitSink m"
  "m_inflight (publishCommit cs m) = m_inflight m"
  "w_db (publishCommit cs m) = w_db m"
  "w_alerts (publishCommit cs m) = w_alerts m"
  by (simp_all add: publishCommit_def)

lemma Notify_frame [simp]:
  "m_svcs (Notify a m) = m_svcs m"
  "m_host (Notify a m) = m_host m"
  "m_gate (Notify a m) = m_gate m"
  "m_views (Notify a m) = m_views m"
  "m_hub (Notify a m) = m_hub m"
  "m_retain (Notify a m) = m_retain m"
  "m_commitSink (Notify a m) = m_commitSink m"
  "m_inflight (Notify a m) = m_inflight m"
  "w_db (Notify a m) = w_db m"
  "w_sink (Notify a m) = w_sink m"
  by (simp_all add: Notify_def)

lemma publishCommit_sink:
  "w_sink (publishCommit cs m) = (if m_commitSink m then w_sink m @ [cs] else w_sink m)"
  by (simp add: publishCommit_def)

lemma Notify_alerts [simp]: "w_alerts (Notify a m) = w_alerts m @ [a]"
  by (simp add: Notify_def)

lemma save_committed_fst [simp]: "fst (save_committed io cs m) \<longleftrightarrow> io = None"
  by (simp add: save_committed_def Let_def SaveCommittedStatus_def split: option.split)

lemma blind_one_frame [simp]:
  "m_svcs (blind_one t s m) = m_svcs m"
  "m_host (blind_one t s m) = m_host m"
  "m_gate (blind_one t s m) = m_gate m"
  "m_retain (blind_one t s m) = m_retain m"
  "m_commitSink (blind_one t s m) = m_commitSink m"
  "m_inflight (blind_one t s m) = m_inflight m"
  "w_db (blind_one t s m) = w_db m"
  "w_alerts (blind_one t s m) = w_alerts m"
  "w_sink (blind_one t s m) = w_sink m"
  by (simp_all add: blind_one_def Let_def)

lemma blind_fold_frame:
  "m_svcs (fold (blind_one t) rts m) = m_svcs m"
  "m_host (fold (blind_one t) rts m) = m_host m"
  "m_gate (fold (blind_one t) rts m) = m_gate m"
  "m_retain (fold (blind_one t) rts m) = m_retain m"
  "m_commitSink (fold (blind_one t) rts m) = m_commitSink m"
  "m_inflight (fold (blind_one t) rts m) = m_inflight m"
  "w_db (fold (blind_one t) rts m) = w_db m"
  "w_alerts (fold (blind_one t) rts m) = w_alerts m"
  "w_sink (fold (blind_one t) rts m) = w_sink m"
  by (induction rts arbitrary: m) simp_all

lemma blind_services_frame [simp]:
  "m_svcs (blind_services t m) = m_svcs m" "m_host (blind_services t m) = m_host m"
  "m_gate (blind_services t m) = m_gate m" "m_retain (blind_services t m) = m_retain m"
  "m_commitSink (blind_services t m) = m_commitSink m" "m_inflight (blind_services t m) = m_inflight m"
  "w_db (blind_services t m) = w_db m" "w_alerts (blind_services t m) = w_alerts m"
  "w_sink (blind_services t m) = w_sink m"
  by (simp_all add: blind_services_def blind_fold_frame)

lemma view_status_setView:
  "view_status nm (setView v m) = (if nm = SV_Name v then SV_Status v else view_status nm m)"
  by (simp add: view_status_def setView_def find_row_upsert)

lemma view_status_cong: "m_views m = m_views m' \<Longrightarrow> view_status nm m = view_status nm m'"
  by (simp add: view_status_def)

lemma view_status_frame [simp]:
  "view_status nm (broadcast v m) = view_status nm m"
  "view_status nm (Notify a m) = view_status nm m"
  "view_status nm (publishCommit cs m) = view_status nm m"
  "view_status nm (snd (save_committed io cs m)) = view_status nm m"
  "view_status nm (prune io s t m) = view_status nm m"
  "view_status nm (record_sample io n st l t m) = view_status nm m"
  "view_status nm (m\<lparr>m_gate := g\<rparr>) = view_status nm m"
  "view_status nm (m\<lparr>m_host := h\<rparr>) = view_status nm m"
  "view_status nm (m\<lparr>m_inflight := fl\<rparr>) = view_status nm m"
  by (rule view_status_cong; simp)+

lemma view_status_blind:
  "view_status nm (blind_services t m) =
     (if nm \<in> rt_name ` set (m_svcs m) then StatusUnknown else view_status nm m)"
proof -
  have "view_status nm (fold (blind_one t) rts m) =
      (if nm \<in> rt_name ` set rts then StatusUnknown else view_status nm m)" for rts m
    by (induction rts arbitrary: m) (auto simp: blind_one_def Let_def view_status_setView unknown_view_def)
  then show ?thesis by (simp add: blind_services_def)
qed

text \<open>The committed-status table is written by \<open>save_committed\<close> only.\<close>

lemma committed_rows_frame [simp]:
  "db_committed_status (w_db (prune io s t m)) = db_committed_status (w_db m)"
  "db_committed_status (w_db (record_sample io n st l t m)) = db_committed_status (w_db m)"
  by (simp_all add: prune_def record_sample_def RecordProbe_def PruneProbeSamples_frame split: option.split)

lemma committed_rows_save:
  "db_committed_status (w_db (snd (save_committed io cs m))) =
     (if io = None then upsert_row cr_service (committed_to_row cs) (db_committed_status (w_db m))
      else db_committed_status (w_db m))"
  by (simp add: save_committed_def Let_def SaveCommittedStatus_def split: option.split)

lemma observeService_parts:
  "fst (observeService i s m) = fst (Observe s (rt_deb (m_svcs m ! i)))"
  "m_svcs (snd (observeService i s m)) =
     (m_svcs m)[i := (m_svcs m ! i)\<lparr>rt_deb := observe_next s (rt_deb (m_svcs m ! i))\<rparr>]"
  "m_host (snd (observeService i s m)) = m_host m" "m_gate (snd (observeService i s m)) = m_gate m"
  "m_views (snd (observeService i s m)) = m_views m" "m_inflight (snd (observeService i s m)) = m_inflight m"
  "m_commitSink (snd (observeService i s m)) = m_commitSink m" "w_db (snd (observeService i s m)) = w_db m"
  "w_alerts (snd (observeService i s m)) = w_alerts m" "w_sink (snd (observeService i s m)) = w_sink m"
  by (simp_all add: observeService_def Let_def)

lemma view_status_observeService [simp]:
  "view_status nm (snd (observeService i s m)) = view_status nm m"
  by (rule view_status_cong) (simp add: observeService_parts)

lemma Observe_value: "fst (fst (Observe s d)) = (if observe_changed s d then s else deb_committed d)"
  by (simp add: Observe_result Observe_committed)

text \<open>The status a service probe derives, and the debouncer step it causes.\<close>

abbreviation svc_derived :: "nat \<Rightarrow> ProbeResult \<Rightarrow> MonitorState \<Rightarrow> Status" where
  "svc_derived i res m \<equiv> DeriveStatus res (rt_threshold (m_svcs m ! i))"

abbreviation svc_changed :: "nat \<Rightarrow> ProbeResult \<Rightarrow> MonitorState \<Rightarrow> bool" where
  "svc_changed i res m \<equiv> observe_changed (svc_derived i res m) (rt_deb (m_svcs m ! i))"

abbreviation svc_commit :: "nat \<Rightarrow> ProbeResult \<Rightarrow> probe_env \<Rightarrow> MonitorState \<Rightarrow> CommittedStatus" where
  "svc_commit i res env m \<equiv>
     \<lparr>CS_Service = rt_name (m_svcs m ! i), CS_Status = svc_derived i res m, CS_ChangedAt = pe_now env\<rparr>"

abbreviation host_commit :: "hostRuntime \<Rightarrow> ProbeResult \<Rightarrow> probe_env \<Rightarrow> CommittedStatus" where
  "host_commit h res env \<equiv>
     \<lparr>CS_Service = host_name h, CS_Status = PR_Status res, CS_ChangedAt = pe_now env\<rparr>"

lemma probe_finish_error: "pe_probe env = Inl e \<Longrightarrow> probe_finish i env m = m"
  by (simp add: probe_finish_def)

lemma probe_finish_effects:
  assumes "pe_probe env = Inr res"
  shows "m_svcs (probe_finish i env m) =
      (m_svcs m)[i := (m_svcs m ! i)\<lparr>rt_deb := observe_next (svc_derived i res m) (rt_deb (m_svcs m ! i))\<rparr>]"
    and "m_host (probe_finish i env m) = m_host m"
    and "m_gate (probe_finish i env m) = m_gate m"
    and "m_inflight (probe_finish i env m) = m_inflight m"
    and "m_commitSink (probe_finish i env m) = m_commitSink m"
    and "w_alerts (probe_finish i env m) = w_alerts m @
      (if svc_changed i res m
       then [\<lparr>Alert_Subject = rt_name (m_svcs m ! i), Alert_Status = svc_derived i res m,
              Alert_Message = rt_name (m_svcs m ! i) @ '' is now '' @ Status_String (svc_derived i res m)\<rparr>]
       else [])"
  using assms
  by (simp_all add: probe_finish_def Let_def case_prod_unfold observeService_parts Observe_value)

lemma probe_finish_commits:
  assumes "pe_probe env = Inr res"
  shows "db_committed_status (w_db (probe_finish i env m)) =
      (if svc_changed i res m \<and> pe_save_io env = None
       then upsert_row cr_service (committed_to_row (svc_commit i res env m)) (db_committed_status (w_db m))
       else db_committed_status (w_db m))"
    and "w_sink (probe_finish i env m) = w_sink m @
      (if svc_changed i res m \<and> pe_save_io env = None \<and> m_commitSink m then [svc_commit i res env m] else [])"
  using assms
  by (simp_all add: probe_finish_def Let_def case_prod_unfold observeService_parts Observe_value
      committed_rows_save publishCommit_sink)

lemma probe_finish_view:
  assumes "pe_probe env = Inr res"
  shows "view_status nm (probe_finish i env m) =
    (if nm = rt_name (m_svcs m ! i)
     then (if svc_changed i res m then svc_derived i res m else deb_committed (rt_deb (m_svcs m ! i)))
     else view_status nm m)"
  using assms
  by (simp add: probe_finish_def Let_def case_prod_unfold observeService_parts Observe_value
      view_status_setView)

lemma hostProbeOnce_skip: "m_host m = None \<or> pe_probe env = Inl e \<Longrightarrow> hostProbeOnce env m = m"
  by (auto simp: hostProbeOnce_def split: option.split sum.split)

lemma hostProbeOnce_effects:
  assumes "m_host m = Some h" and "pe_probe env = Inr res"
  shows "m_svcs (hostProbeOnce env m) = m_svcs m"
    and "m_host (hostProbeOnce env m) = Some (h\<lparr>host_deb := observe_next (PR_Status res) (host_deb h)\<rparr>)"
    and "m_gate (hostProbeOnce env m) \<longleftrightarrow> PR_Status res \<noteq> StatusDown"
    and "m_inflight (hostProbeOnce env m) = m_inflight m"
    and "m_commitSink (hostProbeOnce env m) = m_commitSink m"
    and "w_alerts (hostProbeOnce env m) = w_alerts m @
      (if observe_changed (PR_Status res) (host_deb h)
       then [\<lparr>Alert_Subject = host_name h, Alert_Status = PR_Status res,
              Alert_Message = host_message (host_name h) (PR_Status res)\<rparr>]
       else [])"
  using assms
  by (simp_all add: hostProbeOnce_def Let_def case_prod_unfold Observe_value)

lemma hostProbeOnce_commits:
  assumes "m_host m = Some h" and "pe_probe env = Inr res"
  shows "db_committed_status (w_db (hostProbeOnce env m)) =
      (if observe_changed (PR_Status res) (host_deb h) \<and> pe_save_io env = None
       then upsert_row cr_service (committed_to_row (host_commit h res env)) (db_committed_status (w_db m))
       else db_committed_status (w_db m))"
    and "w_sink (hostProbeOnce env m) = w_sink m @
      (if observe_changed (PR_Status res) (host_deb h) \<and> pe_save_io env = None \<and> m_commitSink m
       then [host_commit h res env] else [])"
  using assms
  by (simp_all add: hostProbeOnce_def Let_def case_prod_unfold Observe_value
      committed_rows_save publishCommit_sink)

lemma hostProbeOnce_view:
  assumes "m_host m = Some h" and "pe_probe env = Inr res"
    and "nm \<in> rt_name ` set (m_svcs m)" and "nm \<noteq> host_name h"
  shows "view_status nm (hostProbeOnce env m) =
    (if m_gate m \<and> PR_Status res = StatusDown then StatusUnknown else view_status nm m)"
  using assms
  by (simp add: hostProbeOnce_def Let_def case_prod_unfold Observe_value view_status_setView
      view_status_blind)

section \<open>Subjects and their Alerts\<close>

text \<open>The monitored subjects in order, services first, with their committed statuses.\<close>

definition subjects :: "MonitorState \<Rightarrow> (string \<times> Status) list" where
  "subjects m =
     map (\<lambda>r. (rt_name r, deb_committed (rt_deb r))) (m_svcs m) @
     (case m_host m of None \<Rightarrow> [] | Some h \<Rightarrow> [(host_name h, deb_committed (host_deb h))])"

definition alerts_for :: "string \<Rightarrow> MonitorState \<Rightarrow> Status list" where
  "alerts_for nm m = map Alert_Status (filter (\<lambda>a. Alert_Subject a = nm) (w_alerts m))"

lemma probe_gate_parts:
  "m_svcs (snd (probe_gate i t m)) = m_svcs m" "m_host (snd (probe_gate i t m)) = m_host m"
  "m_gate (snd (probe_gate i t m)) = m_gate m" "m_inflight (snd (probe_gate i t m)) = m_inflight m"
  "w_db (snd (probe_gate i t m)) = w_db m" "w_alerts (snd (probe_gate i t m)) = w_alerts m"
  "w_sink (snd (probe_gate i t m)) = w_sink m" "m_commitSink (snd (probe_gate i t m)) = m_commitSink m"
  by (simp_all add: probe_gate_def Let_def)

lemma reconfigure_rt_parts:
  "rt_name (reconfigure_rt svcs rt) = rt_name rt"
  "deb_committed (rt_deb (reconfigure_rt svcs rt)) = deb_committed (rt_deb rt)"
  by (simp_all add: reconfigure_rt_def NewDebouncerWithStatus_def split: option.split)

lemma Reconfigure_subjects: "subjects (Reconfigure svcs m) = subjects m"
  by (simp add: subjects_def Reconfigure_def reconfigure_rt_parts)

lemma nth_subjects_svc:
  "i < length (m_svcs m) \<Longrightarrow>
   subjects m ! i = (rt_name (m_svcs m ! i), deb_committed (rt_deb (m_svcs m ! i)))"
  by (simp add: subjects_def nth_append)

lemma length_subjects_gt: "i < length (m_svcs m) \<Longrightarrow> i < length (subjects m)"
  by (simp add: subjects_def)

text \<open>Every step either leaves the committed statuses and the Alerts alone, or sets one
  subject's committed status to a different one and sends exactly one Alert that says so.\<close>

definition commit_step :: "MonitorState \<Rightarrow> MonitorState \<Rightarrow> bool" where
  "commit_step m m' \<longleftrightarrow>
     subjects m' = subjects m \<and> w_alerts m' = w_alerts m \<or>
     (\<exists>k nm c s msg. k < length (subjects m) \<and> subjects m ! k = (nm, c) \<and> s \<noteq> c \<and>
        subjects m' = (subjects m)[k := (nm, s)] \<and>
        w_alerts m' = w_alerts m @ [\<lparr>Alert_Subject = nm, Alert_Status = s, Alert_Message = msg\<rparr>])"

lemma commit_step_quiet: "subjects m' = subjects m \<Longrightarrow> w_alerts m' = w_alerts m \<Longrightarrow> commit_step m m'"
  by (simp add: commit_step_def)

lemma subjects_cong: "m_svcs m = m_svcs m' \<Longrightarrow> m_host m = m_host m' \<Longrightarrow> subjects m = subjects m'"
  by (simp add: subjects_def)

lemma subjects_svc_update:
  assumes "i < length (m_svcs m)" and "m_host m' = m_host m" and "m_svcs m' = (m_svcs m)[i := (m_svcs m ! i)\<lparr>rt_deb := d\<rparr>]"
  shows "subjects m' = (subjects m)[i := (rt_name (m_svcs m ! i), deb_committed d)]"
  using assms by (simp add: subjects_def map_update list_update_append)

lemma subjects_host_update:
  assumes "m_host m = Some h" and "m_svcs m' = m_svcs m" and "m_host m' = Some (h\<lparr>host_deb := d\<rparr>)"
  shows "subjects m' = (subjects m)[length (m_svcs m) := (host_name h, deb_committed d)]"
    and "subjects m ! length (m_svcs m) = (host_name h, deb_committed (host_deb h))"
    and "length (m_svcs m) < length (subjects m)"
  using assms by (simp_all add: subjects_def list_update_append nth_append)

lemma probe_finish_commit_step:
  assumes i: "i < length (m_svcs m)"
  shows "commit_step m (probe_finish i env m)"
proof (cases "pe_probe env")
  case (Inl e)
  then show ?thesis by (simp add: probe_finish_error commit_step_quiet)
next
  case (Inr res)
  note eff = probe_finish_effects [OF Inr, of i m]
  note sub = subjects_svc_update [OF i eff(2,1)]
  note idx = nth_subjects_svc [OF i] length_subjects_gt [OF i]
  show ?thesis
  proof (cases "svc_changed i res m")
    case True
    then have "svc_derived i res m \<noteq> deb_committed (rt_deb (m_svcs m ! i))"
      by (rule Observe_changed_neq)
    then show ?thesis
      unfolding commit_step_def using True eff(6) sub idx by (auto simp: Observe_committed)
  next
    case False
    then have "subjects (probe_finish i env m) = subjects m"
      using sub idx(1) list_update_id [of "subjects m" i] by (simp add: Observe_committed)
    then show ?thesis
      using False eff(6) by (simp add: commit_step_quiet)
  qed
qed

lemma hostProbeOnce_commit_step: "commit_step m (hostProbeOnce env m)"
proof (cases "m_host m = None \<or> (\<exists>e. pe_probe env = Inl e)")
  case True
  then have "hostProbeOnce env m = m" using hostProbeOnce_skip by blast
  then show ?thesis by (simp add: commit_step_quiet)
next
  case False
  then obtain h res where h: "m_host m = Some h" and res: "pe_probe env = Inr res"
    by (metis not_None_eq obj_sumE)
  note eff = hostProbeOnce_effects [OF h res]
  note sub = subjects_host_update [OF h eff(1,2)]
  show ?thesis
  proof (cases "observe_changed (PR_Status res) (host_deb h)")
    case True
    then have "PR_Status res \<noteq> deb_committed (host_deb h)"
      by (rule Observe_changed_neq)
    then show ?thesis
      unfolding commit_step_def using True eff(6) sub by (auto simp: Observe_committed)
  next
    case False
    then have "subjects (hostProbeOnce env m) = subjects m"
      using sub(1,2) list_update_id [of "subjects m" "length (m_svcs m)"] by (simp add: Observe_committed)
    then show ?thesis
      using False eff(6) by (simp add: commit_step_quiet)
  qed
qed

lemma mstep_commit_step: "commit_step m (mstep e m)"
proof (cases e)
  case (SvcBegin i t)
  then show ?thesis
    by (auto simp: case_prod_unfold Let_def probe_gate_parts subjects_def intro!: commit_step_quiet)
next
  case (SvcFinish i env)
  let ?m = "m\<lparr>m_inflight := removeAll i (m_inflight m)\<rparr>"
  have same: "subjects ?m = subjects m" "w_alerts ?m = w_alerts m"
    by (simp_all add: subjects_def)
  show ?thesis
  proof (cases "i < length (m_svcs m) \<and> i \<in> set (m_inflight m)")
    case True
    then have "commit_step ?m (probe_finish i env ?m)"
      by (intro probe_finish_commit_step) simp
    with True SvcFinish show ?thesis
      unfolding commit_step_def same by simp
  next
    case False
    then have "mstep e m = m" using SvcFinish by auto
    then show ?thesis by (simp add: commit_step_quiet)
  qed
next
  case (Reconf svcs)
  then show ?thesis
    using Reconfigure_subjects [of svcs m] by (simp add: commit_step_quiet Reconfigure_def)
qed (simp_all add: hostProbeOnce_commit_step subjects_def commit_step_quiet)

section \<open>Alert discipline\<close>

definition alert_inv :: "(string \<Rightarrow> Status) \<Rightarrow> string list \<Rightarrow> MonitorState \<Rightarrow> bool" where
  "alert_inv seed nms m \<longleftrightarrow>
     map fst (subjects m) = nms \<and> distinct nms \<and>
     (\<forall>(nm, c) \<in> set (subjects m).
        successively (\<noteq>) (seed nm # alerts_for nm m) \<and> last (seed nm # alerts_for nm m) = c)"

definition alert_init :: "(string \<Rightarrow> Status) \<Rightarrow> string list \<Rightarrow> MonitorState \<Rightarrow> bool" where
  "alert_init seed nms m \<longleftrightarrow>
     w_alerts m = [] \<and> map fst (subjects m) = nms \<and> distinct nms \<and>
     (\<forall>(nm, c) \<in> set (subjects m). seed nm = c)"

lemma commit_step_alert_inv:
  assumes step: "commit_step m m'" and inv: "alert_inv seed nms m"
  shows "alert_inv seed nms m'"
proof -
  consider (quiet) "subjects m' = subjects m" "w_alerts m' = w_alerts m"
    | (commit) k nm c s msg where "k < length (subjects m)" "subjects m ! k = (nm, c)" "s \<noteq> c"
        "subjects m' = (subjects m)[k := (nm, s)]"
        "w_alerts m' = w_alerts m @ [\<lparr>Alert_Subject = nm, Alert_Status = s, Alert_Message = msg\<rparr>]"
    using step unfolding commit_step_def by blast
  then show ?thesis
  proof cases
    case quiet
    then show ?thesis using inv by (simp add: alert_inv_def alerts_for_def)
  next
    case commit
    have names: "map fst (subjects m') = nms" and dist: "distinct nms"
      using inv commit(1,2,4) by (auto simp: alert_inv_def map_update list_update_same_conv)
    have old: "successively (\<noteq>) (seed x # alerts_for x m) \<and> last (seed x # alerts_for x m) = y"
      if "(x, y) \<in> set (subjects m)" for x y
      using inv that by (auto simp: alert_inv_def)
    have app: "alerts_for x m' = alerts_for x m @ (if x = nm then [s] else [])" for x
      using commit(5) by (simp add: alerts_for_def)
    have key: "(x, y) = (nm, s) \<or> x \<noteq> nm \<and> (x, y) \<in> set (subjects m)"
      if "(x, y) \<in> set (subjects m')" for x y
      using assoc_update_cases [of "subjects m" k nm c x y s] inv commit(1,2,4) dist that
      by (simp add: alert_inv_def)
    have "successively (\<noteq>) (seed x # alerts_for x m') \<and> last (seed x # alerts_for x m') = y"
      if xy: "(x, y) \<in> set (subjects m')" for x y
    proof -
      consider "x = nm" "y = s" | "x \<noteq> nm" "(x, y) \<in> set (subjects m)"
        using key [OF xy] by auto
      then show ?thesis
      proof cases
        case 1
        have "(nm, c) \<in> set (subjects m)"
          using commit(1,2) by (metis nth_mem)
        from old [OF this] commit(3) 1 app [of nm] show ?thesis
          using successively_append_iff [of "(\<noteq>)" "seed nm # alerts_for nm m" "[s]"] by simp
      next
        case 2
        from old [OF 2(2)] 2(1) app [of x] show ?thesis by simp
      qed
    qed
    with names dist show ?thesis by (auto simp: alert_inv_def)
  qed
qed

interpretation alert_mon: step_invariant "alert_init seed nms" mstep "\<lambda>_. True" "alert_inv seed nms"
  for seed nms
proof unfold_locales
  show "alert_inv seed nms s" if "alert_init seed nms s" for s
    using that by (auto simp: alert_init_def alert_inv_def alerts_for_def)
  show "alert_inv seed nms (mstep e s)" if "alert_inv seed nms s" for e s
    using commit_step_alert_inv [OF mstep_commit_step that] .
qed

end
