(* ===== verification/Monitor_Props.thy ===== *)
theory Monitor_Props
  imports Monitor
begin

text \<open>
  The properties of the monitoring spine over whole runs of its poll loops: Alert discipline,
  restart safety, the blind window behind the reachability gate (ADR 0005) and its limit, the
  hand-over to the commit sink, and the bounds of the fan-out hub.
\<close>

section \<open>The committed-status journal\<close>

definition stored_status :: "string \<Rightarrow> DB \<Rightarrow> Status" where
  "stored_status nm db =
     (case find_row cr_service nm (db_committed_status db) of
        None \<Rightarrow> StatusUnknown | Some r \<Rightarrow> status_of_code (cr_status r))"

definition journal_inv :: "string list \<Rightarrow> MonitorState \<Rightarrow> bool" where
  "journal_inv nms m \<longleftrightarrow>
     wf_DB (w_db m) \<and> distinct nms \<and>
     subjects m = map (\<lambda>nm. (nm, stored_status nm (w_db m))) nms"

text \<open>The store accepts the committed status of this event.\<close>

fun save_ok :: "mevent \<Rightarrow> bool" where
  "save_ok (SvcFinish i env) \<longleftrightarrow> pe_save_io env = None"
| "save_ok (HostProbe env) \<longleftrightarrow> pe_save_io env = None"
| "save_ok _ \<longleftrightarrow> True"

text \<open>A newly built monitor: no subject has a committed status yet.\<close>

definition fresh_monitor :: "string list \<Rightarrow> DB \<Rightarrow> MonitorState \<Rightarrow> bool" where
  "fresh_monitor nms db m \<longleftrightarrow>
     w_db m = db \<and> subjects m = map (\<lambda>nm. (nm, StatusUnknown)) nms"

definition journal_step :: "MonitorState \<Rightarrow> MonitorState \<Rightarrow> bool" where
  "journal_step m m' \<longleftrightarrow>
     subjects m' = subjects m \<and> db_committed_status (w_db m') = db_committed_status (w_db m) \<or>
     (\<exists>k nm c s t. k < length (subjects m) \<and> subjects m ! k = (nm, c) \<and>
        subjects m' = (subjects m)[k := (nm, s)] \<and>
        db_committed_status (w_db m') =
          upsert_row cr_service (committed_to_row \<lparr>CS_Service = nm, CS_Status = s, CS_ChangedAt = t\<rparr>)
            (db_committed_status (w_db m)))"

lemma journal_step_quiet:
  "subjects m' = subjects m \<Longrightarrow> db_committed_status (w_db m') = db_committed_status (w_db m) \<Longrightarrow> journal_step m m'"
  by (simp add: journal_step_def)

lemma probe_finish_journal_step:
  assumes i: "i < length (m_svcs m)" and ok: "pe_save_io env = None"
  shows "journal_step m (probe_finish i env m)"
proof (cases "pe_probe env")
  case (Inl e)
  then show ?thesis by (simp add: probe_finish_error journal_step_quiet)
next
  case (Inr res)
  note eff = probe_finish_effects [OF Inr, of i m]
  note rows = probe_finish_commits(1) [OF Inr, of i m]
  note sub = subjects_svc_update [OF i eff(2,1)]
  note idx = nth_subjects_svc [OF i] length_subjects_gt [OF i]
  show ?thesis
  proof (cases "svc_changed i res m")
    case True
    then show ?thesis
      unfolding journal_step_def using rows ok sub idx by (auto simp: Observe_committed)
  next
    case False
    then have "subjects (probe_finish i env m) = subjects m"
      using sub idx(1) list_update_id [of "subjects m" i] by (simp add: Observe_committed)
    then show ?thesis
      using False rows by (simp add: journal_step_quiet)
  qed
qed

lemma hostProbeOnce_journal_step:
  assumes ok: "pe_save_io env = None"
  shows "journal_step m (hostProbeOnce env m)"
proof (cases "m_host m = None \<or> (\<exists>e. pe_probe env = Inl e)")
  case True
  then have "hostProbeOnce env m = m" using hostProbeOnce_skip by blast
  then show ?thesis by (simp add: journal_step_quiet)
next
  case False
  then obtain h res where h: "m_host m = Some h" and res: "pe_probe env = Inr res"
    by (metis not_None_eq obj_sumE)
  note eff = hostProbeOnce_effects [OF h res]
  note rows = hostProbeOnce_commits(1) [OF h res]
  note sub = subjects_host_update [OF h eff(1,2)]
  show ?thesis
  proof (cases "observe_changed (PR_Status res) (host_deb h)")
    case True
    then show ?thesis
      unfolding journal_step_def using rows ok sub by (auto simp: Observe_committed)
  next
    case False
    then have "subjects (hostProbeOnce env m) = subjects m"
      using sub(1,2) list_update_id [of "subjects m" "length (m_svcs m)"] by (simp add: Observe_committed)
    then show ?thesis
      using False rows by (simp add: journal_step_quiet)
  qed
qed

lemma mstep_journal_step:
  assumes "save_ok e"
  shows "journal_step m (mstep e m)"
proof (cases e)
  case (SvcBegin i t)
  then show ?thesis
    by (auto simp: case_prod_unfold Let_def probe_gate_parts subjects_def intro!: journal_step_quiet)
next
  case (SvcFinish i env)
  let ?m = "m\<lparr>m_inflight := removeAll i (m_inflight m)\<rparr>"
  have same: "subjects ?m = subjects m" "w_db ?m = w_db m"
    by (simp_all add: subjects_def)
  show ?thesis
  proof (cases "i < length (m_svcs m) \<and> i \<in> set (m_inflight m)")
    case True
    then have "journal_step ?m (probe_finish i env ?m)"
      using assms SvcFinish by (intro probe_finish_journal_step) simp_all
    with True SvcFinish show ?thesis
      unfolding journal_step_def same by simp
  next
    case False
    then have "mstep e m = m" using SvcFinish by auto
    then show ?thesis by (simp add: journal_step_quiet)
  qed
next
  case (Reconf svcs)
  then show ?thesis
    using Reconfigure_subjects [of svcs m] by (simp add: journal_step_quiet Reconfigure_def)
next
  case (HostProbe env)
  then show ?thesis using assms by (simp add: hostProbeOnce_journal_step)
qed (simp_all add: subjects_def journal_step_quiet)

lemma wf_DB_mstep: "wf_DB (w_db m) \<Longrightarrow> wf_DB (w_db (mstep e m))"
proof -
  have aux: "wf_DB (w_db (record_sample io n s l t m))" "wf_DB (w_db (prune io n t m))"
      "wf_DB (w_db (snd (save_committed io cs m)))" if "wf_DB (w_db m)" for io n s l t cs m
    using that by (simp_all add: record_sample_def prune_def save_committed_def Let_def
        wf_DB_RecordProbe wf_DB_PruneProbe wf_DB_SaveCommitted)
  have fin: "wf_DB (w_db (probe_finish i env m))" if "wf_DB (w_db m)" for i env m
    using that by (auto simp: probe_finish_def Let_def case_prod_unfold observeService_parts aux split: sum.split)
  have host: "wf_DB (w_db (hostProbeOnce env m))" if "wf_DB (w_db m)" for env m
    using that by (auto simp: hostProbeOnce_def Let_def case_prod_unfold aux split: option.split sum.split)
  show "wf_DB (w_db m) \<Longrightarrow> wf_DB (w_db (mstep e m))"
    by (cases e) (auto simp: fin host case_prod_unfold Let_def probe_gate_parts Reconfigure_def)
qed

lemma stored_status_upsert:
  "db_committed_status db' = upsert_row cr_service (committed_to_row \<lparr>CS_Service = nm, CS_Status = s, CS_ChangedAt = t\<rparr>)
     (db_committed_status db) \<Longrightarrow>
   stored_status x db' = (if x = nm then s else stored_status x db)"
  by (simp add: stored_status_def find_row_upsert committed_to_row_def)

lemma map_pair_update:
  assumes "distinct nms" "k < length nms" "nms ! k = nm"
  shows "map (\<lambda>x. (x, if x = nm then s else f x)) nms = (map (\<lambda>x. (x, f x)) nms)[k := (nm, s)]"
  using assms by (auto intro!: nth_equalityI simp: nth_list_update nth_eq_iff_index_eq)

interpretation journal: step_invariant "\<lambda>m. journal_inv nms m" mstep save_ok "journal_inv nms" for nms
proof unfold_locales
  show "journal_inv nms (mstep e m)" if ok: "save_ok e" and inv: "journal_inv nms m" for e m
  proof -
    have wf: "wf_DB (w_db (mstep e m))" and d: "distinct nms"
      and sub: "subjects m = map (\<lambda>nm. (nm, stored_status nm (w_db m))) nms"
      using inv by (simp_all add: journal_inv_def wf_DB_mstep)
    from mstep_journal_step [OF ok, of m] show ?thesis
      unfolding journal_step_def
    proof
      assume "subjects (mstep e m) = subjects m \<and>
        db_committed_status (w_db (mstep e m)) = db_committed_status (w_db m)"
      then show ?thesis using wf d sub by (simp add: journal_inv_def stored_status_def)
    next
      assume "\<exists>k nm c s t. k < length (subjects m) \<and> subjects m ! k = (nm, c) \<and>
        subjects (mstep e m) = (subjects m)[k := (nm, s)] \<and>
        db_committed_status (w_db (mstep e m)) =
          upsert_row cr_service (committed_to_row \<lparr>CS_Service = nm, CS_Status = s, CS_ChangedAt = t\<rparr>)
            (db_committed_status (w_db m))"
      then obtain k nm c s t where k: "k < length (subjects m)" "subjects m ! k = (nm, c)"
        and sub': "subjects (mstep e m) = (subjects m)[k := (nm, s)]"
        and rows: "db_committed_status (w_db (mstep e m)) =
          upsert_row cr_service (committed_to_row \<lparr>CS_Service = nm, CS_Status = s, CS_ChangedAt = t\<rparr>)
            (db_committed_status (w_db m))"
        by blast
      have "k < length nms" "nms ! k = nm" using k sub by auto
      from map_pair_update [OF d this, of s "\<lambda>x. stored_status x (w_db m)"]
      show ?thesis
        using wf d sub sub' stored_status_upsert [OF rows] by (simp add: journal_inv_def)
    qed
  qed
qed

section \<open>Resume\<close>

lemma find_committed_load:
  assumes "wf_DB db"
  shows "find_committed nm (map committed_of_row (sort_key cr_service (db_committed_status db))) =
    map_option committed_of_row (find_row cr_service nm (db_committed_status db))"
proof -
  let ?rows = "db_committed_status db"
  have "distinct (map cr_service (rev (sort_key cr_service ?rows)))"
    using assms by (simp add: wf_DB_def rev_map [symmetric] distinct_map)
  then have "find_row cr_service nm (rev (sort_key cr_service ?rows)) = find_row cr_service nm ?rows"
    using assms by (intro find_row_cong_set) (simp_all add: wf_DB_def)
  then show ?thesis
    by (simp add: find_committed_def rev_map find_map_key find_row_def committed_of_row_def)
qed

lemma Resume_subjects:
  assumes "wf_DB db" and "fresh_monitor nms db m"
  shows "subjects (snd (Resume None m)) = map (\<lambda>nm. (nm, stored_status nm db)) nms"
    and "w_db (snd (Resume None m)) = db" and "fst (Resume None m) = None"
    and "w_alerts (snd (Resume None m)) = w_alerts m"
proof -
  let ?saved = "map committed_of_row (sort_key cr_service (db_committed_status db))"
  note fc = find_committed_load [OF assms(1)]
  have db: "w_db m = db" using assms(2) by (simp add: fresh_monitor_def)
  have res: "Resume None m = (None, resume_host ?saved
      (m\<lparr>m_svcs := map (resume_rt ?saved) (m_svcs m),
         m_views := resume_views ?saved (map rt_name (m_svcs m)) (m_views m)\<rparr>))"
    by (simp add: Resume_def LoadCommittedStatuses_def db)
  then show "fst (Resume None m) = None" "w_db (snd (Resume None m)) = db"
      "w_alerts (snd (Resume None m)) = w_alerts m"
    using db by (simp_all add: resume_host_def split: option.split)
  have svc: "rt_name (resume_rt ?saved rt) = rt_name rt"
    "deb_committed (rt_deb (resume_rt ?saved rt)) =
       (case find_row cr_service (rt_name rt) (db_committed_status db) of
          None \<Rightarrow> deb_committed (rt_deb rt) | Some r \<Rightarrow> status_of_code (cr_status r))" for rt
    by (simp_all add: resume_rt_def fc committed_of_row_def NewDebouncerWithStatus_def split: option.split)
  have fresh: "subjects m = map (\<lambda>nm. (nm, StatusUnknown)) nms"
    using assms(2) by (simp add: fresh_monitor_def)
  have unk: "deb_committed (rt_deb rt) = StatusUnknown" if "rt \<in> set (m_svcs m)" for rt
  proof -
    have "(rt_name rt, deb_committed (rt_deb rt)) \<in> set (subjects m)"
      using that by (simp add: subjects_def)
    then show ?thesis using fresh by auto
  qed
  have svcs: "map (\<lambda>r. (rt_name r, deb_committed (rt_deb r))) (map (resume_rt ?saved) (m_svcs m)) =
      map (\<lambda>p. (fst p, stored_status (fst p) db)) (map (\<lambda>r. (rt_name r, deb_committed (rt_deb r))) (m_svcs m))"
    using unk by (simp add: svc stored_status_def cong: option.case_cong)
  have "subjects (snd (Resume None m)) = map (\<lambda>p. (fst p, stored_status (fst p) db)) (subjects m)"
  proof (cases "m_host m")
    case None
    then show ?thesis using svcs by (simp add: res resume_host_def subjects_def)
  next
    case (Some h)
    then have "(host_name h, deb_committed (host_deb h)) \<in> set (subjects m)"
      by (simp add: subjects_def)
    then have "deb_committed (host_deb h) = StatusUnknown" using fresh by auto
    then show ?thesis
      using svcs Some
      by (auto simp: res resume_host_def subjects_def fc stored_status_def committed_of_row_def
          NewDebouncerWithStatus_def split: option.split)
  qed
  then show "subjects (snd (Resume None m)) = map (\<lambda>nm. (nm, stored_status nm db)) nms"
    by (simp add: fresh)
qed

lemma fresh_New_SetHost:
  "fresh_monitor (map Svc_Name svcs @ [Host_Name h]) db (SetHost h (New db svcs))"
  by (simp add: fresh_monitor_def subjects_def SetHost_def New_def new_runtime_def NewDebouncer_def
      NewDebouncerWithStatus_def setView_def)

lemma fresh_New: "fresh_monitor (map Svc_Name svcs) db (New db svcs)"
  by (simp add: fresh_monitor_def subjects_def New_def new_runtime_def NewDebouncer_def
      NewDebouncerWithStatus_def)

lemma Resume_journal_inv:
  assumes "wf_DB db" and "distinct nms" and "fresh_monitor nms db m"
  shows "journal_inv nms (snd (Resume None m))"
  using Resume_subjects [OF assms(1,3)] assms by (simp add: journal_inv_def)

section \<open>The blind window\<close>

text \<open>An event that does not find the Host reachable.\<close>

fun host_stays_down :: "mevent \<Rightarrow> bool" where
  "host_stays_down (HostProbe env) \<longleftrightarrow>
     (case pe_probe env of Inl e \<Rightarrow> True | Inr res \<Rightarrow> PR_Status res = StatusDown)"
| "host_stays_down _ \<longleftrightarrow> True"

definition service_names :: "MonitorState \<Rightarrow> string set" where
  "service_names m = rt_name ` set (m_svcs m)"

text \<open>The observer is blind: a Host is set, the gate is closed, no prober call is under way.\<close>

definition blind :: "MonitorState \<Rightarrow> bool" where
  "blind m \<longleftrightarrow> (\<exists>h. m_host m = Some h \<and> host_name h \<notin> service_names m) \<and> \<not> m_gate m \<and> m_inflight m = []"

definition blind_inv :: "string set \<Rightarrow> (string \<Rightarrow> Status list) \<Rightarrow> MonitorState \<Rightarrow> bool" where
  "blind_inv nms sent m \<longleftrightarrow>
     blind m \<and> service_names m = nms \<and>
     (\<forall>nm \<in> nms. alerts_for nm m = sent nm \<and> view_status nm m = StatusUnknown)"

lemma blind_host_probe:
  assumes inv: "blind_inv nms sent m" and down: "host_stays_down (HostProbe env)"
  shows "blind_inv nms sent (hostProbeOnce env m)"
proof (cases "pe_probe env")
  case (Inl e)
  then have "hostProbeOnce env m = m" using hostProbeOnce_skip by blast
  then show ?thesis using inv by simp
next
  case (Inr res)
  obtain h where h: "m_host m = Some h" and hn: "host_name h \<notin> nms"
    using inv by (auto simp: blind_inv_def blind_def)
  note eff = hostProbeOnce_effects [OF h Inr]
  have "view_status nm (hostProbeOnce env m) = StatusUnknown" if "nm \<in> nms" for nm
  proof -
    have "nm \<noteq> host_name h" using that hn by auto
    then show ?thesis
      using hostProbeOnce_view [OF h Inr, of nm] inv that by (simp add: blind_inv_def service_names_def)
  qed
  moreover have "alerts_for nm (hostProbeOnce env m) = alerts_for nm m" if "nm \<in> nms" for nm
    using that hn eff(6) by (auto simp: alerts_for_def)
  ultimately show ?thesis
    using inv down eff(1-4) Inr hn h by (auto simp: blind_inv_def blind_def service_names_def)
qed

lemma blind_svc_begin:
  assumes inv: "blind_inv nms sent m"
  shows "blind_inv nms sent (mstep (SvcBegin i t) m)"
proof (cases "i < length (m_svcs m)")
  case True
  then have nm: "rt_name (m_svcs m ! i) \<in> nms"
    using inv by (auto simp: blind_inv_def service_names_def)
  then have "view_status (rt_name (m_svcs m ! i)) m = StatusUnknown" "m_host m \<noteq> None" "\<not> m_gate m"
    using inv by (auto simp: blind_inv_def blind_def)
  then have "probe_gate i t m = (False, m)"
    by (simp add: probe_gate_def Let_def)
  then show ?thesis using inv by simp
qed (use inv in simp)

interpretation blind_window: step_invariant "blind_inv nms sent" mstep host_stays_down "blind_inv nms sent"
  for nms sent
proof unfold_locales
  show "blind_inv nms sent (mstep e m)" if ok: "host_stays_down e" and inv: "blind_inv nms sent m" for e m
  proof (cases e)
    case (SvcBegin i t)
    then show ?thesis using blind_svc_begin [OF inv] by simp
  next
    case (SvcFinish i env)
    then have "mstep e m = m" using inv by (simp add: blind_inv_def blind_def)
    then show ?thesis using inv by simp
  next
    case (HostProbe env)
    then show ?thesis using blind_host_probe [OF inv] ok by simp
  next
    case (Reconf svcs)
    have "service_names (Reconfigure svcs m) = service_names m"
      by (simp add: service_names_def Reconfigure_def reconfigure_rt_parts image_image)
    then show ?thesis
      using inv Reconf
      by (auto simp: blind_inv_def blind_def alerts_for_def view_status_def Reconfigure_def)
  qed (use inv in \<open>auto simp: blind_inv_def blind_def alerts_for_def view_status_def service_names_def\<close>)
qed

text \<open>A DOWN Host probe on an open gate with no service probe under way opens the blind window.\<close>

lemma host_down_opens_window:
  assumes h: "m_host m = Some h" and hn: "host_name h \<notin> service_names m"
    and "m_gate m" and "m_inflight m = []"
    and res: "pe_probe env = Inr res" "PR_Status res = StatusDown"
  shows "blind_inv (service_names m) (\<lambda>nm. alerts_for nm m) (hostProbeOnce env m)"
proof -
  note eff = hostProbeOnce_effects [OF h res(1)]
  have "view_status nm (hostProbeOnce env m) = StatusUnknown" if "nm \<in> service_names m" for nm
  proof -
    have "nm \<noteq> host_name h" using that hn by auto
    then show ?thesis
      using hostProbeOnce_view [OF h res(1), of nm] assms(3) res(2) that by (simp add: service_names_def)
  qed
  moreover have "alerts_for nm (hostProbeOnce env m) = alerts_for nm m" if "nm \<in> service_names m" for nm
    using that hn eff(6) by (auto simp: alerts_for_def)
  ultimately show ?thesis
    using assms eff(1-4) by (auto simp: blind_inv_def blind_def service_names_def)
qed

section \<open>The sink\<close>

definition sink_step :: "MonitorState \<Rightarrow> MonitorState \<Rightarrow> bool" where
  "sink_step m m' \<longleftrightarrow>
     w_sink m' = w_sink m \<or>
     (\<exists>cs. w_sink m' = w_sink m @ [cs] \<and>
        find_row cr_service (CS_Service cs) (db_committed_status (w_db m')) = Some (committed_to_row cs) \<and>
        (\<exists>a. w_alerts m' = w_alerts m @ [a] \<and> Alert_Subject a = CS_Service cs \<and> Alert_Status a = CS_Status cs))"

lemma probe_finish_sink_step: "sink_step m (probe_finish i env m)"
proof (cases "pe_probe env")
  case (Inl e)
  then show ?thesis by (simp add: probe_finish_error sink_step_def)
next
  case (Inr res)
  then show ?thesis
    using probe_finish_effects(6) [OF Inr, of i m] probe_finish_commits [OF Inr, of i m]
    by (auto simp: sink_step_def find_row_upsert)
qed

lemma hostProbeOnce_sink_step: "sink_step m (hostProbeOnce env m)"
proof (cases "m_host m = None \<or> (\<exists>e. pe_probe env = Inl e)")
  case True
  then have "hostProbeOnce env m = m" using hostProbeOnce_skip by blast
  then show ?thesis by (simp add: sink_step_def)
next
  case False
  then obtain h res where h: "m_host m = Some h" and res: "pe_probe env = Inr res"
    by (metis not_None_eq obj_sumE)
  show ?thesis
    using hostProbeOnce_effects(6) [OF h res] hostProbeOnce_commits [OF h res]
    by (auto simp: sink_step_def find_row_upsert)
qed

section \<open>The hub\<close>

definition hub_inv :: "hub \<Rightarrow> bool" where
  "hub_inv h \<longleftrightarrow> distinct (map fst (hub_subs h)) \<and>
     (\<forall>(c, q) \<in> set (hub_subs h). c < hub_next h \<and> length q \<le> hub_cap)"

lemma hub_inv_subscribe: "hub_inv h \<Longrightarrow> hub_inv (snd (hub_subscribe h))"
  by (force simp: hub_inv_def hub_subscribe_def)

lemma hub_inv_cancel: "hub_inv h \<Longrightarrow> hub_inv (hub_cancel c h)"
  by (auto simp: hub_inv_def hub_cancel_def distinct_map_filter)

lemma hub_inv_map:
  assumes "hub_inv h" and "\<And>c q. length q \<le> hub_cap \<Longrightarrow> length (f c q) \<le> hub_cap"
  shows "hub_inv (h\<lparr>hub_subs := map (\<lambda>(c, q). (c, f c q)) (hub_subs h)\<rparr>)"
proof -
  have "map fst (map (\<lambda>(c, q). (c, f c q)) xs) = map fst xs" for xs
    by (induction xs) auto
  then show ?thesis
    using assms unfolding hub_inv_def by (auto simp del: map_map)
qed

lemma hub_inv_broadcast: "hub_inv h \<Longrightarrow> hub_inv (hub_broadcast v h)"
  unfolding hub_broadcast_def by (rule hub_inv_map) (simp_all add: chan_offer_def)

lemma hub_inv_receive: "hub_inv h \<Longrightarrow> hub_inv (hub_receive c h)"
  unfolding hub_receive_def by (rule hub_inv_map) (simp_all add: le_diff_conv)

lemma fold_broadcast_subs:
  "hub_subs (fold hub_broadcast vs h) = map (\<lambda>(c, q). (c, fold chan_offer vs q)) (hub_subs h)"
  by (induction vs arbitrary: h) (auto simp: hub_broadcast_def split_beta)

lemma fold_chan_offer: "length q \<le> hub_cap \<Longrightarrow> fold chan_offer vs q = take hub_cap (q @ vs)"
proof (induction vs arbitrary: q)
  case (Cons v vs)
  then show ?case by (cases "length q < hub_cap") (auto simp: chan_offer_def take_Cons' Suc_diff_Suc)
qed simp

section \<open>Properties\<close>

text \<open>C6: an Alert fires on a committed change and on nothing else. Start from any monitor
  whose subjects have distinct names and that has sent no Alert; after any interleaving of its
  loops, the statuses announced for a subject, preceded by its committed status at the start,
  never repeat from one to the next, and the last one is the subject's committed status now.\<close>

theorem alerts_follow_commits:
  assumes "w_alerts m = []" and "distinct (map fst (subjects m))" and "(nm, c0) \<in> set (subjects m)"
  shows "\<exists>c. (nm, c) \<in> set (subjects (fold mstep es m)) \<and>
    successively (\<noteq>) (c0 # alerts_for nm (fold mstep es m)) \<and>
    last (c0 # alerts_for nm (fold mstep es m)) = c"
proof -
  define seed where "seed = (\<lambda>x. the (map_of (subjects m) x))"
  define nms where "nms = map fst (subjects m)"
  have "alert_init seed nms m"
    using assms(1,2) by (auto simp: alert_init_def seed_def nms_def)
  then have inv: "alert_inv seed nms (fold mstep es m)"
    by (intro alert_mon.inv_run) (simp_all add: list_all_iff)
  have "seed nm = c0"
    using assms(2,3) by (simp add: seed_def)
  moreover have "nm \<in> set (map fst (subjects (fold mstep es m)))"
    using inv assms(3) by (force simp: alert_inv_def nms_def)
  ultimately show ?thesis
    using inv by (auto simp: alert_inv_def)
qed

definition ok_env :: "Status \<Rightarrow> gotime \<Rightarrow> probe_env" where
  "ok_env s t = \<lparr>pe_probe = Inr \<lparr>PR_Status = s, PR_Latency = 1, PR_Err = None\<rparr>, pe_now = t,
     pe_record_io = None, pe_prune_io = None, pe_save_io = None\<rparr>"

definition demo_monitor :: MonitorState where
  "demo_monitor =
     SetHost \<lparr>Host_Name = ''tower'', Host_Poll = 5, Host_DebounceN = 1\<rparr>
       (New empty_DB [\<lparr>Svc_Name = ''plex'', Svc_Threshold = 10, Svc_Poll = 5, Svc_DebounceN = 1\<rparr>])"

lemma demo_subjects: "subjects demo_monitor = [(''plex'', StatusUnknown), (''tower'', StatusUnknown)]"
  by (simp add: demo_monitor_def SetHost_def New_def setView_def subjects_def new_runtime_def
      NewDebouncer_def NewDebouncerWithStatus_def)

lemma demo_parts:
  "w_alerts demo_monitor = []" "m_gate demo_monitor" "m_inflight demo_monitor = []" "w_db demo_monitor = empty_DB"
  by (simp_all add: demo_monitor_def SetHost_def New_def setView_def)

theorem alerts_follow_commits_witness:
  "\<exists>c. (''plex'', c) \<in> set (subjects (fold mstep [SvcBegin 0 1, SvcFinish 0 (ok_env StatusUp 2)] demo_monitor)) \<and>
    successively (\<noteq>) (StatusUnknown # alerts_for ''plex'' (fold mstep [SvcBegin 0 1, SvcFinish 0 (ok_env StatusUp 2)] demo_monitor)) \<and>
    last (StatusUnknown # alerts_for ''plex'' (fold mstep [SvcBegin 0 1, SvcFinish 0 (ok_env StatusUp 2)] demo_monitor)) = c"
  by (rule alerts_follow_commits) (simp_all add: demo_parts demo_subjects)

text \<open>C7: restart safety. Boot a monitor from a store with \<open>Resume\<close> and run it in any way in
  which the store accepts the committed statuses; a second monitor built over the same
  subjects and the store left behind resumes with exactly the committed statuses the first one
  had when it stopped.\<close>

theorem restart_resumes_committed:
  assumes "wf_DB db" and "distinct nms" and "fresh_monitor nms db m0"
    and "list_all save_ok es"
    and "m = fold mstep es (snd (Resume None m0))"
    and "fresh_monitor nms (w_db m) m1"
  shows "fst (Resume None m1) = None \<and> subjects (snd (Resume None m1)) = subjects m"
proof -
  have inv: "journal_inv nms m"
    using journal.inv_run_from [OF assms(4) Resume_journal_inv [OF assms(1-3)]] assms(5) by simp
  then show ?thesis
    using Resume_subjects [of "w_db m" nms m1] assms(6) by (simp add: journal_inv_def)
qed

theorem restart_resumes_committed_witness:
  "fst (Resume None (New empty_DB [])) = None \<and>
   subjects (snd (Resume None (demo_monitor\<lparr>w_db :=
      w_db (fold mstep [HostProbe (ok_env StatusUp 2000000)] (snd (Resume None demo_monitor)))\<rparr>))) =
   subjects (fold mstep [HostProbe (ok_env StatusUp 2000000)] (snd (Resume None demo_monitor)))"
proof -
  let ?nms = "[''plex'', ''tower'']"
  have f: "fresh_monitor ?nms empty_DB demo_monitor"
    by (simp add: fresh_monitor_def demo_subjects demo_parts)
  have g: "fresh_monitor ?nms db (demo_monitor\<lparr>w_db := db\<rparr>)" for db
    using demo_subjects by (simp add: fresh_monitor_def subjects_def)
  show ?thesis
    using restart_resumes_committed [OF wf_DB_empty _ f _ refl g, of "[HostProbe (ok_env StatusUp 2000000)]"]
    by (simp add: ok_env_def Resume_def LoadCommittedStatuses_def resume_host_def New_def empty_DB_def)
qed

text \<open>C8: while the Host is unreachable the observer never claims a service is down. A Host
  probe that finds the Host DOWN with the gate open and no service probe under way shows every
  service UNKNOWN, and until a Host probe finds it reachable again no interleaving of the loops
  sends an Alert for a service or shows it as anything but UNKNOWN (ADR 0005).\<close>

theorem unreachable_host_blinds_services:
  assumes "m_host m = Some h" and "host_name h \<notin> service_names m"
    and "m_gate m" and "m_inflight m = []"
    and "pe_probe env = Inr res" and "PR_Status res = StatusDown"
    and "list_all host_stays_down es" and "nm \<in> service_names m"
  shows "alerts_for nm (fold mstep es (mstep (HostProbe env) m)) = alerts_for nm m \<and>
    view_status nm (fold mstep es (mstep (HostProbe env) m)) = StatusUnknown"
proof -
  have "blind_inv (service_names m) (\<lambda>nm. alerts_for nm m) (fold mstep es (mstep (HostProbe env) m))"
    using blind_window.inv_run_from [OF assms(7) host_down_opens_window [OF assms(1-6)]] by simp
  then show ?thesis using assms(8) by (simp add: blind_inv_def)
qed

lemma demo_names: "service_names demo_monitor = {''plex''}"
  by (simp add: service_names_def demo_monitor_def SetHost_def New_def setView_def new_runtime_def)

lemma demo_host:
  "\<exists>h. m_host demo_monitor = Some h \<and> host_name h = ''tower''"
  by (simp add: demo_monitor_def SetHost_def New_def setView_def)

theorem unreachable_host_blinds_services_witness:
  "alerts_for ''plex'' (fold mstep [SvcBegin 0 3, SvcFinish 0 (ok_env StatusDown 4)]
     (mstep (HostProbe (ok_env StatusDown 2)) demo_monitor)) = alerts_for ''plex'' demo_monitor \<and>
   view_status ''plex'' (fold mstep [SvcBegin 0 3, SvcFinish 0 (ok_env StatusDown 4)]
     (mstep (HostProbe (ok_env StatusDown 2)) demo_monitor)) = StatusUnknown"
proof -
  obtain h where h: "m_host demo_monitor = Some h" "host_name h = ''tower''"
    using demo_host by blast
  show ?thesis
    by (rule unreachable_host_blinds_services [OF h(1), where res = "\<lparr>PR_Status = StatusDown, PR_Latency = 1, PR_Err = None\<rparr>"])
      (simp_all add: h demo_names demo_parts ok_env_def)
qed

text \<open>The limit of the gate. A service probe that is already under way when the Host goes
  DOWN is not held back: there is an interleaving in which, with the gate closed, the service is
  committed DOWN, its Alert is sent and its row shows DOWN.\<close>

theorem inflight_probe_escapes_gate:
  "let m = fold mstep [SvcBegin 0 1, HostProbe (ok_env StatusDown 2), SvcFinish 0 (ok_env StatusDown 3)] demo_monitor
   in \<not> m_gate m \<and> alerts_for ''plex'' m = [StatusDown] \<and> view_status ''plex'' m = StatusDown"
  by code_simp

text \<open>C10: the sink hears only of durable commits. Any step hands the commit sink at most one
  status, and then the store already holds exactly that status for the subject and the Alert
  for it has been sent in the same step.\<close>

theorem sink_after_persistence:
  "w_sink (mstep e m) = w_sink m \<or>
   (\<exists>cs. w_sink (mstep e m) = w_sink m @ [cs] \<and>
      find_row cr_service (CS_Service cs) (db_committed_status (w_db (mstep e m))) = Some (committed_to_row cs) \<and>
      (\<exists>a. w_alerts (mstep e m) = w_alerts m @ [a] \<and> Alert_Subject a = CS_Service cs \<and>
         Alert_Status a = CS_Status cs))"
proof -
  have "sink_step m (mstep e m)"
  proof (cases e)
    case (SvcFinish i env)
    then show ?thesis
      using probe_finish_sink_step [of "m\<lparr>m_inflight := removeAll i (m_inflight m)\<rparr>" i env]
      by (auto simp: sink_step_def)
  next
    case (HostProbe env)
    then show ?thesis by (simp add: hostProbeOnce_sink_step)
  qed (simp_all add: sink_step_def case_prod_unfold Let_def probe_gate_parts Reconfigure_def)
  then show ?thesis by (simp add: sink_step_def)
qed

text \<open>C11: the hub never blocks the spine and never reorders. Whatever a subscriber has not yet
  read stays within the channel's 16 places, and a burst of broadcasts delivers to every
  subscriber the views in order, the first ones that fit, the rest dropped for it alone.\<close>

theorem hub_bounded_in_order:
  assumes "hub_inv h"
  shows "hub_inv (fold hub_broadcast vs h) \<and>
    hub_subs (fold hub_broadcast vs h) = map (\<lambda>(c, q). (c, take hub_cap (q @ vs))) (hub_subs h)"
proof
  show "hub_inv (fold hub_broadcast vs h)"
    using assms by (induction vs arbitrary: h) (simp_all add: hub_inv_broadcast)
  show "hub_subs (fold hub_broadcast vs h) = map (\<lambda>(c, q). (c, take hub_cap (q @ vs))) (hub_subs h)"
    unfolding fold_broadcast_subs
    using assms by (intro map_cong) (auto simp: hub_inv_def fold_chan_offer)
qed

theorem hub_bounded_in_order_witness:
  "hub_subs (fold hub_broadcast [unknown_view ''a'' 1, unknown_view ''b'' 2] (snd (hub_subscribe newHub))) =
     [(0, [unknown_view ''a'' 1, unknown_view ''b'' 2])]"
proof -
  have "hub_inv (snd (hub_subscribe newHub))"
    by (simp add: hub_inv_def hub_subscribe_def newHub_def)
  from hub_bounded_in_order [OF this, of "[unknown_view ''a'' 1, unknown_view ''b'' 2]"]
  show ?thesis by (simp add: hub_subscribe_def newHub_def hub_cap_def)
qed

end
