(* ===== verification/Web.thy ===== *)
theory Web
  imports Web_Unraid Harness_Props Monitor_Props
begin

text \<open>
  The dashboard over the monitor and the harness (\<open>internal/web/web.go\<close>, \<open>incidents.go\<close>, \<open>api.go\<close>): the page
  and its event stream, the incident views, and the JSON routes by which the Operator decides,
  halts and rearms. The monitor's and the harness's own models are the sources behind the two
  interfaces. A page's answer is the value handed to its template; the one template that the event
  stream depends on, the cells of a row, is here with its escaping, the page templates are in \<open>Pages\<close>. The requests run
  concurrently with each other and with the harness: \<open>wstep\<close> interleaves the phases of the decision
  route with the steps of the engine, and the theorem at the end follows a dispatched restart back to
  the request that approved it.
\<close>

section \<open>The harness behind its interface\<close>

definition Incidents :: "io \<Rightarrow> int \<Rightarrow> HState \<Rightarrow> string + HarnessCycle list" where
  "Incidents io limit s = ListHarnessCycles io limit (h_db s)"

definition Incident :: "io \<Rightarrow> string \<Rightarrow> HState \<Rightarrow> string + HarnessCycle" where
  "Incident io cid s = GetHarnessCycle io cid (h_db s)"

definition handlerTimeout :: duration where
  "handlerTimeout = 5 * nsSecond"

definition defaultIncidentsLimit :: int where
  "defaultIncidentsLimit = 100"

definition Milliseconds :: "duration \<Rightarrow> int" where
  "Milliseconds d = quot0 d nsMillisecond"

section \<open>Incidents as JSON (api.go)\<close>

text \<open>\<open>encoding/json\<close> writes a map's members in the order of their keys.\<close>

definition toolCallDTO :: "formats \<Rightarrow> ToolCall \<Rightarrow> json" where
  "toolCallDTO fm tc = JObj
     [(''tool'', JStr (TC_Tool tc)), (''args'', JObj (map (\<lambda>(k, v). (k, JStr v)) (sort_key fst (TC_Args tc)))),
      (''output'', JStr (TC_Output tc)), (''err'', JStr (TC_Err tc)), (''at'', JStr (fm_rfc3339 fm (TC_At tc))),
      (''duration_ms'', JInt (Milliseconds (TC_Duration tc)))]"

definition proposedActionDTO :: "ProposedAction \<Rightarrow> json" where
  "proposedActionDTO p = JObj
     [(''kind'', JStr (PA_Kind p)), (''subject'', JStr (PA_Subject p)), (''rationale'', JStr (PA_Rationale p))]"

definition usageDTO :: "Usage \<Rightarrow> json" where
  "usageDTO u = JObj
     [(''backend'', JStr (U_Backend u)), (''model'', JStr (U_Model u)), (''prompt_tokens'', JInt (U_PromptTokens u)),
      (''completion_tokens'', JInt (U_CompletionTokens u)), (''latency_ms'', JInt (Milliseconds (U_Latency u)))]"

definition diagnosisDTO :: "Diagnosis \<Rightarrow> json" where
  "diagnosisDTO d = JObj
     [(''summary'', JStr (D_Summary d)), (''proposed'', proposedActionDTO (D_Proposed d)), (''usage'', usageDTO (D_Usage d)),
      (''fallback'', JBool (D_Fallback d))]"

definition toIncidentDTO :: "formats \<Rightarrow> HarnessCycle \<Rightarrow> json" where
  "toIncidentDTO fm c = JObj
     [(''id'', JStr (HC_ID c)), (''subject'', JStr (HC_Subject c)),
      (''trigger_status'', JStr (Status_String (HC_TriggerStatus c))), (''mode'', JStr (HarnessMode_String (HC_Mode c))),
      (''started_at'', JStr (fm_rfc3339 fm (HC_StartedAt c))), (''tool_calls'', JArr (map (toolCallDTO fm) (HC_ToolCalls c))),
      (''diagnosis'', diagnosisDTO (HC_Diagnosis c)), (''approval'', JStr (ApprovalDecision_String (HC_Approval c))),
      (''approved_by'', JStr (HC_ApprovedBy c)), (''approved_at'', JStrOpt (rfc3339Ptr fm (HC_ApprovedAt c))),
      (''resolved_target'', JStr (HC_ResolvedTarget c)), (''dispatch_result'', JStr (HC_DispatchResult c)),
      (''dispatched_at'', JStrOpt (rfc3339Ptr fm (HC_DispatchedAt c))), (''outcome'', JStr (HC_Outcome c)),
      (''outcome_at'', JStrOpt (rfc3339Ptr fm (HC_OutcomeAt c))), (''error'', JStr (HC_Error c))]"

definition healthDTO :: "string \<Rightarrow> HarnessMode \<Rightarrow> bool \<Rightarrow> json" where
  "healthDTO status mode halted = JObj
     [(''status'', JStr status), (''harness_mode'', JStr (HarnessMode_String mode)), (''harness_halted'', JBool halted)]"

text \<open>A harness is its options with its state; \<open>None\<close> is the nil interface.\<close>

definition handleAPIHealth :: "(Options \<times> HState) option \<Rightarrow> 'a reply" where
  "handleAPIHealth hs =
     HttpJSON 200 (case hs of
        None \<Rightarrow> healthDTO ''ok'' HarnessOff False
      | Some (opts, s) \<Rightarrow> healthDTO ''ok'' (o_Mode opts) (h_halted s))"

definition list_limit :: "string \<Rightarrow> int" where
  "list_limit q =
     (if q \<noteq> '''' then (case ParseInt q of Some n \<Rightarrow> if n > 0 then n else defaultIncidentsLimit | None \<Rightarrow> defaultIncidentsLimit)
      else defaultIncidentsLimit)"

definition handleAPIIncidentsList :: "formats \<Rightarrow> io \<Rightarrow> string \<Rightarrow> HState \<Rightarrow> 'a reply" where
  "handleAPIIncidentsList fm io limit s =
     (case Incidents io (list_limit limit) s of
        Inl e \<Rightarrow> HttpError 500 e
      | Inr cycles \<Rightarrow> HttpJSON 200 (JArr (map (toIncidentDTO fm) cycles)))"

definition handleAPIIncidentDetail :: "formats \<Rightarrow> io \<Rightarrow> string \<Rightarrow> HState \<Rightarrow> 'a reply" where
  "handleAPIIncidentDetail fm io cid s =
     (case Incident io cid s of Inl e \<Rightarrow> http_NotFound | Inr c \<Rightarrow> HttpJSON 200 (toIncidentDTO fm c))"

section \<open>The decision route\<close>

text \<open>
  \<open>handleAPIDecision\<close> in the three stretches between which other goroutines run: up to the check of the
  stored record, the call of \<open>decide\<close>, and the read of the answer. The first two end the request with an
  answer or let it go on.
\<close>

definition decision_check :: "io \<Rightarrow> decision_request \<Rightarrow> HState \<Rightarrow> unit reply option" where
  "decision_check io q s =
     (if \<not> dq_post q then Some MethodNotAllowed
      else (case Incident io (dq_id q) s of
          Inl e \<Rightarrow> Some http_NotFound
        | Inr c \<Rightarrow>
            if HC_Approval c \<noteq> ApprovalPending then Some (HttpError 409 ''incident is not pending approval'') else None))"

definition decision_who :: "decision_request \<Rightarrow> string" where
  "decision_who q = (if dq_who q = '''' then ''operator'' else dq_who q)"

definition decision_call :: "io \<Rightarrow> gotime \<Rightarrow> decision_request \<Rightarrow> HState \<Rightarrow> unit reply option \<times> HState" where
  "decision_call io now q s =
     (let (err, s1) = (if dq_approve q then Approve else Deny) io now (dq_id q) (decision_who q) s in
      (map_option (HttpError 500) err, s1))"

definition decision_answer :: "formats \<Rightarrow> io \<Rightarrow> decision_request \<Rightarrow> HState \<Rightarrow> unit reply" where
  "decision_answer fm io q s =
     (case Incident io (dq_id q) s of Inl e \<Rightarrow> HttpError 500 e | Inr updated \<Rightarrow> HttpJSON 200 (toIncidentDTO fm updated))"

text \<open>The whole handler, when nothing runs in between.\<close>

definition handleAPIDecision ::
  "formats \<Rightarrow> io \<Rightarrow> io \<Rightarrow> gotime \<Rightarrow> io \<Rightarrow> decision_request \<Rightarrow> HState \<Rightarrow> unit reply \<times> HState" where
  "handleAPIDecision fm read_io save_io now answer_io q s =
     (case decision_check read_io q s of
        Some r \<Rightarrow> (r, s)
      | None \<Rightarrow>
          (case decision_call save_io now q s of
             (Some r, s1) \<Rightarrow> (r, s1)
           | (None, s1) \<Rightarrow> (decision_answer fm answer_io q s1, s1)))"

definition handleAPIHalt :: "bool \<Rightarrow> string \<Rightarrow> HState \<Rightarrow> 'a reply \<times> HState" where
  "handleAPIHalt post reason s =
     (if \<not> post then (MethodNotAllowed, s)
      else let s1 = Halt reason s in (HttpJSON 200 (JObj [(''halted'', JBool (h_halted s1))]), s1))"

definition handleAPIRearm :: "bool \<Rightarrow> HState \<Rightarrow> 'a reply \<times> HState" where
  "handleAPIRearm post s =
     (if \<not> post then (MethodNotAllowed, s)
      else let s1 = Rearm s in (HttpJSON 200 (JObj [(''halted'', JBool (h_halted s1))]), s1))"

section \<open>Incidents as pages (incidents.go)\<close>

record pendingIncident =
  PI_ID :: string
  PI_Subject :: string
  PI_TriggerStatus :: string
  PI_ProposedAction :: string

definition pendingIncidentsFor :: "io \<Rightarrow> HState option \<Rightarrow> pendingIncident list" where
  "pendingIncidentsFor io hs =
     (case hs of
        None \<Rightarrow> []
      | Some s \<Rightarrow>
          (case Incidents io defaultIncidentsLimit s of
             Inl e \<Rightarrow> []
           | Inr cycles \<Rightarrow> map (\<lambda>c. \<lparr>PI_ID = HC_ID c, PI_Subject = HC_Subject c,
                 PI_TriggerStatus = Status_String (HC_TriggerStatus c), PI_ProposedAction = PA_Kind (D_Proposed (HC_Diagnosis c))\<rparr>)
               (filter (\<lambda>c. HC_Approval c = ApprovalPending) cycles)))"

record incidentRow =
  IR_ID :: string
  IR_StartedAt :: string
  IR_Subject :: string
  IR_TriggerStatus :: string
  IR_Mode :: string
  IR_ProposedAction :: string
  IR_Approval :: string
  IR_Pending :: bool
  IR_Outcome :: string

definition incidentRowOf :: "formats \<Rightarrow> HarnessCycle \<Rightarrow> incidentRow" where
  "incidentRowOf fm c =
     \<lparr>IR_ID = HC_ID c, IR_StartedAt = timeOrDash fm (HC_StartedAt c), IR_Subject = HC_Subject c,
      IR_TriggerStatus = Status_String (HC_TriggerStatus c), IR_Mode = HarnessMode_String (HC_Mode c),
      IR_ProposedAction = PA_Kind (D_Proposed (HC_Diagnosis c)), IR_Approval = ApprovalDecision_String (HC_Approval c),
      IR_Pending = (HC_Approval c = ApprovalPending), IR_Outcome = HC_Outcome c\<rparr>"

record incidentsListData =
  IL_Halted :: bool
  IL_Mode :: string
  IL_Rows :: "incidentRow list"

definition handleIncidentsList :: "formats \<Rightarrow> io \<Rightarrow> Options \<Rightarrow> HState \<Rightarrow> incidentsListData reply" where
  "handleIncidentsList fm io opts s =
     (case Incidents io defaultIncidentsLimit s of
        Inl e \<Rightarrow> HttpError 500 e
      | Inr cycles \<Rightarrow> HttpPage \<lparr>IL_Halted = h_halted s, IL_Mode = HarnessMode_String (o_Mode opts), IL_Rows = map (incidentRowOf fm) cycles\<rparr>)"

record toolCallView =
  TV_Tool :: string
  TV_Args :: "(string \<times> string) list"
  TV_Output :: string
  TV_Err :: string
  TV_At :: string
  TV_DurationMS :: int

record incidentDetailView =
  IV_ID :: string
  IV_Subject :: string
  IV_TriggerStatus :: string
  IV_Mode :: string
  IV_StartedAt :: string
  IV_ToolCalls :: "toolCallView list"
  IV_Summary :: string
  IV_ProposedKind :: string
  IV_ProposedSubject :: string
  IV_Rationale :: string
  IV_Fallback :: bool
  IV_UsageBackend :: string
  IV_UsageModel :: string
  IV_PromptTokens :: int
  IV_CompletionTokens :: int
  IV_LatencyMS :: int
  IV_Approval :: string
  IV_Pending :: bool
  IV_ApprovedBy :: string
  IV_ApprovedAt :: string
  IV_ResolvedTarget :: string
  IV_DispatchResult :: string
  IV_DispatchedAt :: string
  IV_DispatchFailed :: bool
  IV_Outcome :: string
  IV_OutcomeAt :: string
  IV_Error :: string

definition incidentDetailViewOf :: "formats \<Rightarrow> HarnessCycle \<Rightarrow> incidentDetailView" where
  "incidentDetailViewOf fm c =
     \<lparr>IV_ID = HC_ID c, IV_Subject = HC_Subject c, IV_TriggerStatus = Status_String (HC_TriggerStatus c),
      IV_Mode = HarnessMode_String (HC_Mode c), IV_StartedAt = timeOrDash fm (HC_StartedAt c),
      IV_ToolCalls = map (\<lambda>tc. \<lparr>TV_Tool = TC_Tool tc, TV_Args = TC_Args tc, TV_Output = TC_Output tc, TV_Err = TC_Err tc,
        TV_At = timeOrDash fm (TC_At tc), TV_DurationMS = Milliseconds (TC_Duration tc)\<rparr>) (HC_ToolCalls c),
      IV_Summary = D_Summary (HC_Diagnosis c), IV_ProposedKind = PA_Kind (D_Proposed (HC_Diagnosis c)),
      IV_ProposedSubject = PA_Subject (D_Proposed (HC_Diagnosis c)), IV_Rationale = PA_Rationale (D_Proposed (HC_Diagnosis c)),
      IV_Fallback = D_Fallback (HC_Diagnosis c), IV_UsageBackend = U_Backend (D_Usage (HC_Diagnosis c)),
      IV_UsageModel = U_Model (D_Usage (HC_Diagnosis c)), IV_PromptTokens = U_PromptTokens (D_Usage (HC_Diagnosis c)),
      IV_CompletionTokens = U_CompletionTokens (D_Usage (HC_Diagnosis c)),
      IV_LatencyMS = Milliseconds (U_Latency (D_Usage (HC_Diagnosis c))),
      IV_Approval = ApprovalDecision_String (HC_Approval c), IV_Pending = (HC_Approval c = ApprovalPending),
      IV_ApprovedBy = HC_ApprovedBy c, IV_ApprovedAt = timeOrDash fm (HC_ApprovedAt c),
      IV_ResolvedTarget = HC_ResolvedTarget c, IV_DispatchResult = HC_DispatchResult c,
      IV_DispatchedAt = timeOrDash fm (HC_DispatchedAt c), IV_DispatchFailed = (HC_Outcome c = OutcomeDispatchErr),
      IV_Outcome = HC_Outcome c, IV_OutcomeAt = timeOrDash fm (HC_OutcomeAt c), IV_Error = HC_Error c\<rparr>"

definition handleIncidentDetail :: "formats \<Rightarrow> io \<Rightarrow> string \<Rightarrow> HState \<Rightarrow> incidentDetailView reply" where
  "handleIncidentDetail fm io cid s =
     (case Incident io cid s of Inl e \<Rightarrow> http_NotFound | Inr c \<Rightarrow> HttpPage (incidentDetailViewOf fm c))"

section \<open>The page and its event stream (web.go)\<close>

record row =
  Rw_Name :: string
  Rw_Status :: string
  Rw_LatencyMS :: int
  Rw_LastChecked :: string
  Rw_Spark :: string

definition rowOf :: "formats \<Rightarrow> ServiceView \<Rightarrow> string \<Rightarrow> row" where
  "rowOf fm v spark =
     \<lparr>Rw_Name = SV_Name v, Rw_Status = Status_String (SV_Status v), Rw_LatencyMS = Milliseconds (SV_Latency v),
      Rw_LastChecked = (if IsZero (SV_LastChecked v) then em_dash_text else fm_rfc3339 fm (SV_LastChecked v)), Rw_Spark = spark\<rparr>"

text \<open>\<open>sparkline\<close>: a point per sample in a box of 120 by 24; the coordinates are computed exactly.\<close>

definition maxNS :: "ProbeSample list \<Rightarrow> int" where
  "maxNS samples = foldl (\<lambda>m s. if PS_Latency s > m then PS_Latency s else m) 1 samples"

definition spark_x :: "nat \<Rightarrow> nat \<Rightarrow> rat" where
  "spark_x n i = (if n > 1 then of_nat i / of_nat (n - 1) * 120 else 0)"

definition spark_y :: "int \<Rightarrow> ProbeSample \<Rightarrow> rat" where
  "spark_y m s = 24 - of_int (PS_Latency s) / of_int m * (24 - 2) - 1"

definition spark_points :: "ProbeSample list \<Rightarrow> (rat \<times> rat) list" where
  "spark_points samples =
     map (\<lambda>(i, s). (spark_x (length samples) i, spark_y (maxNS samples) s)) (zip [0..<length samples] samples)"

definition spark_stroke :: "Status \<Rightarrow> string" where
  "spark_stroke s =
     (case s of StatusDegraded \<Rightarrow> ''#b06000'' | StatusDown \<Rightarrow> ''#c5221f'' | StatusUnknown \<Rightarrow> ''#5f6368'' | StatusUp \<Rightarrow> ''#137333'')"

definition attr :: "string \<Rightarrow> string \<Rightarrow> string" where
  "attr k v = '' '' @ k @ ''='' @ dq v"

definition sparkline :: "ProbeSample list \<Rightarrow> string" where
  "sparkline samples =
     (if samples = [] then ''<span'' @ attr ''class'' ''spark-none'' @ ''>'' @ em_dash_text @ ''</span>''
      else ''<svg'' @ attr ''class'' ''spark-svg'' @ attr ''width'' ''120'' @ attr ''height'' ''24'' @ attr ''viewBox'' ''0 0 120 24'' @
        attr ''preserveAspectRatio'' ''none'' @ attr ''role'' ''img'' @ attr ''aria-label'' ''latency trend'' @ ''><polyline'' @
        attr ''fill'' ''none'' @ attr ''stroke'' (spark_stroke (PS_Status (last samples))) @ attr ''stroke-width'' ''1.5'' @
        attr ''points'' (strings_Join (map (\<lambda>(x, y). fmt_f1 x @ '','' @ fmt_f1 y) (spark_points samples)) '' '') @ ''/></svg>'')"

text \<open>The escaping of \<open>html/template\<close> in element text and in a quoted attribute.\<close>

definition html_escape :: "string \<Rightarrow> string" where
  "html_escape s = concat (map (\<lambda>c.
     if c = CHR 0x00 then [CHR 0xEF, CHR 0xBF, CHR 0xBD]
     else if c = CHR 0x22 then ''&#34;'' else if c = CHR ''&'' then ''&amp;'' else if c = CHR 0x27 then ''&#39;''
     else if c = CHR ''+'' then ''&#43;'' else if c = CHR ''<'' then ''&lt;'' else if c = CHR ''>'' then ''&gt;'' else [c]) s)"

definition td :: "string \<Rightarrow> string \<Rightarrow> string" where
  "td cls body = ''<td'' @ attr ''class'' cls @ ''>'' @ body @ ''</td>''"

definition cellsTmpl :: "row \<Rightarrow> string" where
  "cellsTmpl r =
     td ''name'' (html_escape (Rw_Name r)) @ td (''status s-'' @ html_escape (Rw_Status r)) (html_escape (Rw_Status r)) @
     td ''latency'' (itoa (Rw_LatencyMS r) @ '' ms'') @ td ''checked'' (html_escape (Rw_LastChecked r)) @ td ''spark'' (Rw_Spark r)"

definition event_fragment :: "formats \<Rightarrow> (string \<Rightarrow> ProbeSample list) \<Rightarrow> ServiceView \<Rightarrow> string" where
  "event_fragment fm history v = strings_ReplaceAll (cellsTmpl (rowOf fm v (sparkline (history (SV_Name v))))) nl ''''"

definition writeEvent :: "formats \<Rightarrow> (string \<Rightarrow> ProbeSample list) \<Rightarrow> ServiceView \<Rightarrow> string" where
  "writeEvent fm history v = ''event: svc-'' @ SV_Name v @ nl @ ''data: '' @ event_fragment fm history v @ nl @ nl"

text \<open>
  \<open>serveSSE\<close>: the chunks between two flushes. What the loop meets is the sequence of its wake-ups, each
  view with the monitor's history at that moment.
\<close>

datatype sse_input = CtxDone | ChanClosed | Received ServiceView "string \<Rightarrow> ProbeSample list"

fun sse_loop :: "formats \<Rightarrow> sse_input list \<Rightarrow> string list" where
  "sse_loop fm [] = []"
| "sse_loop fm (CtxDone # ins) = []"
| "sse_loop fm (ChanClosed # ins) = []"
| "sse_loop fm (Received v history # ins) = writeEvent fm history v # sse_loop fm ins"

definition serveSSE :: "formats \<Rightarrow> bool \<Rightarrow> io \<Rightarrow> MonitorState \<Rightarrow> sse_input list \<Rightarrow> string list reply" where
  "serveSSE fm flusher io m ins =
     (if \<not> flusher then HttpError 500 ''streaming unsupported''
      else HttpPage (concat (map (writeEvent fm (\<lambda>nm. History io nm m)) (Snapshot m)) # sse_loop fm ins))"

definition rowsWithHistory :: "formats \<Rightarrow> (string \<Rightarrow> io) \<Rightarrow> MonitorState \<Rightarrow> row list" where
  "rowsWithHistory fm io m =
     map (\<lambda>v. rowOf fm v (sparkline (History (io (SV_Name v)) (SV_Name v) m))) (Snapshot m)"

definition harnessPanelFor :: "(Options \<times> HState) option \<Rightarrow> (string \<times> bool) option" where
  "harnessPanelFor hs = map_option (\<lambda>(opts, s). (HarnessMode_String (o_Mode opts), h_halted s)) hs"

record pageData =
  PG_Rows :: "row list"
  PG_Harness :: "(string \<times> bool) option"
  PG_Pending :: "pendingIncident list"
  PG_UnraidLink :: bool

definition index_page ::
  "formats \<Rightarrow> (string \<Rightarrow> io) \<Rightarrow> io \<Rightarrow> MonitorState \<Rightarrow> (Options \<times> HState) option \<Rightarrow> bool \<Rightarrow> pageData reply" where
  "index_page fm io hio m hs us =
     HttpPage \<lparr>PG_Rows = rowsWithHistory fm io m, PG_Harness = harnessPanelFor hs,
       PG_Pending = pendingIncidentsFor hio (map_option snd hs), PG_UnraidLink = us\<rparr>"

section \<open>The routes\<close>

text \<open>The patterns each part registers; a part that is absent (nil) registers none of its own.\<close>

definition registerIncidentRoutes :: "string list" where
  "registerIncidentRoutes = [''GET /incidents'', ''GET /incidents/{id}'']"

definition registerAPIRoutes :: "string list" where
  "registerAPIRoutes = [''GET /api/incidents'', ''GET /api/incidents/{id}'', ''POST /api/incidents/{id}/approve'',
     ''POST /api/incidents/{id}/deny'', ''POST /api/harness/halt'', ''POST /api/harness/rearm'']"

definition registerUnraidAPIRoutes :: "string list" where
  "registerUnraidAPIRoutes = [''GET /api/unraid/host'', ''GET /api/unraid/array'', ''GET /api/unraid/shares'', ''GET /api/unraid/containers'']"

definition registerUnraidRoutes :: "bool \<Rightarrow> bool \<Rightarrow> string list" where
  "registerUnraidRoutes ps cs = ''GET /unraid'' # registerUnraidAPIRoutes @
     (if ps then [''POST /api/unraid/proposals/{id}/approve'', ''POST /api/unraid/proposals/{id}/deny''] else []) @
     (if cs then [''POST /api/unraid/commands/{id}/run''] else [])"

definition buildMux :: "bool \<Rightarrow> bool \<Rightarrow> bool \<Rightarrow> bool \<Rightarrow> string list" where
  "buildMux hs us ps cs = [''GET /static/'', ''GET /{$}'', ''GET /events'', ''GET /api/health''] @
     (if hs then registerIncidentRoutes @ registerAPIRoutes else []) @ (if us then registerUnraidRoutes ps cs else [])"

text \<open>\<open>http.ServeMux\<close> panics on a pattern that is registered twice: none is.\<close>

lemma buildMux_distinct: "distinct (buildMux hs us ps cs)"
  by (cases hs; cases us; cases ps; cases cs)
    (auto simp: buildMux_def registerIncidentRoutes_def registerAPIRoutes_def registerUnraidRoutes_def registerUnraidAPIRoutes_def)

text \<open>A mutating route is a POST, and exists only with the part behind it.\<close>

lemma mutating_routes:
  "filter (\<lambda>p. strings_HasPrefix p ''POST'') (buildMux hs us ps cs) =
     (if hs then drop 2 registerAPIRoutes else []) @
     (if us \<and> ps then [''POST /api/unraid/proposals/{id}/approve'', ''POST /api/unraid/proposals/{id}/deny''] else []) @
     (if us \<and> cs then [''POST /api/unraid/commands/{id}/run''] else [])"
  by (simp add: buildMux_def registerIncidentRoutes_def registerAPIRoutes_def registerUnraidRoutes_def registerUnraidAPIRoutes_def
      strings_HasPrefix_def)

section \<open>The event stream is well formed\<close>

lemma event_fragment_line: "CHR 0x0A \<notin> set (event_fragment fm history v)"
  by (auto simp: event_fragment_def nl_def ReplaceAll_single)

text \<open>
  A subject whose name the configuration accepted has no line break in it; then an event is three lines:
  the name, one data line, and the empty line that ends it.
\<close>

lemma safe_name_line: "checkDashboardSafeName nm = Inr () \<Longrightarrow> CHR 0x0A \<notin> set nm \<and> CHR 0x0D \<notin> set nm \<and> CHR ''<'' \<notin> set nm"
  by (auto simp: checkDashboardSafeName_def strings_ContainsAny_def unsafeNameChars_def list_ex_iff split: if_splits)

lemma writeEvent_lines:
  assumes "checkDashboardSafeName (SV_Name v) = Inr ()"
  shows "\<exists>a b. writeEvent fm history v = a @ nl @ b @ nl @ nl \<and> CHR 0x0A \<notin> set a \<and> CHR 0x0A \<notin> set b \<and>
     a = ''event: svc-'' @ SV_Name v \<and> b = ''data: '' @ event_fragment fm history v"
  using safe_name_line [OF assms] event_fragment_line [of fm history v] by (auto simp: writeEvent_def)

lemma html_escape_inert: "set (html_escape s) \<inter> {CHR ''<'', CHR ''>'', CHR 0x22, CHR 0x27} = {}"
  by (auto simp: html_escape_def split: if_splits)

section \<open>The sparkline stays in its box\<close>

lemma maxNS_upper: "foldl (\<lambda>m s. if PS_Latency s > m then PS_Latency s else m) b samples \<ge> b \<and>
   (\<forall>s \<in> set samples. PS_Latency s \<le> foldl (\<lambda>m s. if PS_Latency s > m then PS_Latency s else m) b samples)"
proof (induction samples arbitrary: b)
  case (Cons x xs)
  show ?case using Cons.IH [of "if PS_Latency x > b then PS_Latency x else b"] by (auto split: if_splits)
qed simp

lemma maxNS_bounds: "1 \<le> maxNS samples" "s \<in> set samples \<Longrightarrow> PS_Latency s \<le> maxNS samples"
  using maxNS_upper [of 1 samples] by (simp_all add: maxNS_def)

lemma share_range:
  fixes a b k :: rat
  assumes "0 \<le> a" "a \<le> b" "0 < b" "0 \<le> k"
  shows "0 \<le> a / b * k \<and> a / b * k \<le> k"
proof -
  have "a / b \<le> 1" using assms by simp
  then have "a / b * k \<le> 1 * k" by (rule mult_right_mono) (rule assms)
  then show ?thesis using assms by simp
qed

lemma spark_x_range:
  assumes "i < n"
  shows "0 \<le> spark_x n i \<and> spark_x n i \<le> 120"
proof (cases "n > 1")
  case True
  have "(of_nat i :: rat) \<le> of_nat (n - 1)" unfolding of_nat_le_iff using assms by linarith
  then have "0 \<le> (of_nat i :: rat) / of_nat (n - 1) * 120 \<and> (of_nat i :: rat) / of_nat (n - 1) * 120 \<le> 120"
    by (intro share_range) (use True in simp_all)
  then show ?thesis unfolding spark_x_def using True by simp
qed (simp add: spark_x_def)

lemma spark_y_range:
  assumes "0 \<le> PS_Latency s" "PS_Latency s \<le> m" "1 \<le> m"
  shows "1 \<le> spark_y m s \<and> spark_y m s \<le> 23"
proof -
  have "0 \<le> (of_int (PS_Latency s) :: rat) / of_int m * 22 \<and> (of_int (PS_Latency s) :: rat) / of_int m * 22 \<le> 22"
    by (rule share_range) (use assms in simp_all)
  moreover have "(24 - 2 :: rat) = 22" by simp
  ultimately show ?thesis unfolding spark_y_def by (simp only:) linarith
qed

lemma sparkline_in_box:
  assumes "\<forall>s \<in> set samples. 0 \<le> PS_Latency s" and "(x, y) \<in> set (spark_points samples)"
  shows "0 \<le> x \<and> x \<le> 120 \<and> 1 \<le> y \<and> y \<le> 23"
proof -
  obtain i where i: "i < length samples"
    and xy: "x = spark_x (length samples) i" "y = spark_y (maxNS samples) (samples ! i)"
    using assms(2) by (auto simp: spark_points_def set_zip)
  then show ?thesis
    using spark_x_range [OF i] spark_y_range [of "samples ! i" "maxNS samples"] maxNS_bounds(1) [of samples] maxNS_bounds(2) [of "samples ! i"] assms(1) by simp
qed

section \<open>Concurrent requests\<close>

text \<open>
  \<open>net/http\<close> runs every request in a goroutine of its own. A decision request is in one of the gaps
  between its stretches or has its answer; its index is the identity of the goroutine. The engine's
  own steps are the spine's commits, the cycle goroutine and the sends of earlier decisions: the
  harness has no other caller of its Operator methods than these routes.
\<close>

datatype phase = Checked | Decided | Answered "unit reply"

record WebState =
  ws_h :: HState
  ws_reqs :: "(decision_request \<times> phase) list"

definition web_New :: "DB \<Rightarrow> WebState" where
  "web_New db = \<lparr>ws_h = harness_New db, ws_reqs = []\<rparr>"

datatype web_event =
    Engine hevent
  | Arrive io decision_request
  | DecideNow nat io gotime
  | AnswerNow nat io
  | HaltRequest bool string
  | RearmRequest bool

fun engine_event :: "hevent \<Rightarrow> bool" where
  "engine_event (Commit cid now cs) = True"
| "engine_event (Cycle env) = True"
| "engine_event (Send k) = True"
| "engine_event e = False"

definition at_phase :: "phase \<Rightarrow> nat \<Rightarrow> WebState \<Rightarrow> decision_request option" where
  "at_phase ph k s =
     (if k < length (ws_reqs s) \<and> snd (ws_reqs s ! k) = ph then Some (fst (ws_reqs s ! k)) else None)"

fun wstep :: "Options \<Rightarrow> formats \<Rightarrow> web_event \<Rightarrow> WebState \<Rightarrow> WebState" where
  "wstep opts fm (Engine e) s = (if engine_event e then s\<lparr>ws_h := hstep opts e (ws_h s)\<rparr> else s)"
| "wstep opts fm (Arrive io q) s =
     s\<lparr>ws_reqs := ws_reqs s @ [(q, case decision_check io q (ws_h s) of Some r \<Rightarrow> Answered r | None \<Rightarrow> Checked)]\<rparr>"
| "wstep opts fm (DecideNow k io now) s =
     (case at_phase Checked k s of
        None \<Rightarrow> s
      | Some q \<Rightarrow>
          let (r, h) = decision_call io now q (ws_h s) in
          s\<lparr>ws_h := h, ws_reqs := (ws_reqs s)[k := (q, case r of Some x \<Rightarrow> Answered x | None \<Rightarrow> Decided)]\<rparr>)"
| "wstep opts fm (AnswerNow k io) s =
     (case at_phase Decided k s of
        None \<Rightarrow> s
      | Some q \<Rightarrow> s\<lparr>ws_reqs := (ws_reqs s)[k := (q, Answered (decision_answer fm io q (ws_h s)))]\<rparr>)"
| "wstep opts fm (HaltRequest post reason) s = s\<lparr>ws_h := snd (handleAPIHalt post reason (ws_h s) :: unit reply \<times> HState)\<rparr>"
| "wstep opts fm (RearmRequest post) s = s\<lparr>ws_h := snd (handleAPIRearm post (ws_h s) :: unit reply \<times> HState)\<rparr>"

abbreviation wrun :: "Options \<Rightarrow> formats \<Rightarrow> DB \<Rightarrow> web_event list \<Rightarrow> WebState" where
  "wrun opts fm db es \<equiv> fold (wstep opts fm) es (web_New db)"

text \<open>The three phases in a row are the handler.\<close>

lemma phases_are_handler:
  assumes "ws_reqs s = []"
  shows "(let s' = fold (wstep opts fm) [Arrive rio q, DecideNow 0 sio now, AnswerNow 0 aio] s in
     (snd (ws_reqs s' ! 0), ws_h s')) = apfst Answered (handleAPIDecision fm rio sio now aio q (ws_h s))"
  using assms
  by (cases "decision_check rio q (ws_h s)"; cases "decision_call sio now q (ws_h s)"; cases "fst (decision_call sio now q (ws_h s))")
    (auto simp: handleAPIDecision_def at_phase_def Let_def)

lemma decision_call_step:
  "snd (decision_call io now q s) =
     hstep opts ((if dq_approve q then ApproveCall else DenyCall) io now (dq_id q) (decision_who q)) s"
  by (simp add: decision_call_def Let_def split: prod.split)

text \<open>Every web step is a step of the harness or leaves it alone, so the harness's invariants hold behind the dashboard.\<close>

lemma wstep_harness: "ws_h (wstep opts fm e s) = ws_h s \<or> (\<exists>he. ws_h (wstep opts fm e s) = hstep opts he (ws_h s))"
proof (cases e)
  case (HaltRequest post reason)
  then show ?thesis by (auto simp: handleAPIHalt_def Let_def intro: exI [of _ "HaltCall reason"])
next
  case (RearmRequest post)
  then show ?thesis by (auto simp: handleAPIRearm_def Let_def intro: exI [of _ RearmCall])
next
  case (DecideNow k io now)
  then show ?thesis
    using decision_call_step [of io now _ "ws_h s" opts] by (auto split: option.split prod.split) (metis snd_conv)
qed (auto split: option.split)

interpretation web_gate: step_invariant "\<lambda>s. \<exists>db. s = web_New db" "wstep opts fm" "\<lambda>_. True" "\<lambda>s. hinv opts (ws_h s)" for opts fm
  by unfold_locales (auto simp: web_New_def hinv_New, metis hinv_hstep wstep_harness)

lemma web_hinv: "hinv opts (ws_h (wrun opts fm db es))"
  by (rule web_gate.inv_run) (auto simp: list_all_iff)

lemma checked_step:
  assumes "at_phase Checked k (wstep opts fm e s) = Some q"
  shows "at_phase Checked k s = Some q \<or> (\<exists>rio. e = Arrive rio q \<and> decision_check rio q (ws_h s) = None)"
  using assms
  by (cases e)
    (auto simp: at_phase_def nth_append nth_list_update Let_def split: if_splits option.splits prod.splits)

lemma checked_request:
  assumes "at_phase Checked k (wrun opts fm db es) = Some q"
  shows "\<exists>before rio after. es = before @ Arrive rio q # after \<and> decision_check rio q (ws_h (wrun opts fm db before)) = None"
  using assms
proof (induction es rule: rev_induct)
  case Nil
  then show ?case by (simp add: at_phase_def web_New_def)
next
  case (snoc e es)
  then consider "at_phase Checked k (wrun opts fm db es) = Some q"
    | rio where "e = Arrive rio q" "decision_check rio q (ws_h (wrun opts fm db es)) = None"
    using checked_step [of k opts fm e "wrun opts fm db es" q] by auto
  then show ?case
  proof cases
    case 1
    with snoc.IH show ?thesis by fastforce
  qed blast
qed

lemma decision_check_None:
  "decision_check io q s = None \<longleftrightarrow>
     dq_post q \<and> (\<exists>c. Incident io (dq_id q) s = Inr c \<and> HC_Approval c = ApprovalPending)"
  by (auto simp: decision_check_def split: sum.split)

text \<open>The harness state \<open>s\<close> in which a decision request approves the cycle \<open>r\<close>.\<close>

definition approves_cycle :: "decision_request \<Rightarrow> io \<Rightarrow> gotime \<Rightarrow> nat \<Rightarrow> HState \<Rightarrow> bool" where
  "approves_cycle q io tm r s \<longleftrightarrow>
     dq_approve q \<and> fst (Approve io tm (dq_id q) (decision_who q) s) = None \<and>
     (case h_active s of None \<Rightarrow> False | Some a \<Rightarrow> cs_ref a = r \<and> cs_id a = dq_id q \<and> cs_awaitingApproval a)"

lemma engine_not_approve: "engine_event e \<Longrightarrow> e \<noteq> ApproveCall io tm cid who"
  by auto

lemma approved_step:
  assumes "(r, who, tm) \<in> set (log_approved (ws_h (wstep opts fm e s)))"
  shows "(r, who, tm) \<in> set (log_approved (ws_h s)) \<or>
    (\<exists>k io q. e = DecideNow k io tm \<and> at_phase Checked k s = Some q \<and> who = decision_who q \<and> approves_cycle q io tm r (ws_h s))"
proof (cases e)
  case (Engine he)
  then show ?thesis using assms hstep_log_approved [of r who tm opts he "ws_h s"] engine_not_approve
    by (auto split: if_splits)
next
  case (DecideNow k io now)
  show ?thesis
  proof (cases "at_phase Checked k s")
    case None
    then show ?thesis using assms DecideNow by simp
  next
    case (Some q)
    then have "(r, who, tm) \<in> set (log_approved (snd (decision_call io now q (ws_h s))))"
      using assms DecideNow by (simp split: prod.splits)
    then have "(r, who, tm) \<in> set (log_approved (hstep opts
        ((if dq_approve q then ApproveCall else DenyCall) io now (dq_id q) (decision_who q)) (ws_h s)))"
      unfolding decision_call_step [of io now q "ws_h s" opts] .
    then show ?thesis
      using hstep_log_approved [of r who tm opts _ "ws_h s"] Some DecideNow
      by (fastforce simp: approves_cycle_def Approve_def decide_ok split: if_splits)
  qed
next
  case (HaltRequest post reason)
  then show ?thesis using assms by (simp add: handleAPIHalt_def Halt_def Let_def split: if_splits)
next
  case (RearmRequest post)
  then show ?thesis using assms by (simp add: handleAPIRearm_def Rearm_def Let_def split: if_splits)
qed (use assms in \<open>auto split: option.splits\<close>)

lemma approved_request:
  assumes "(r, who, tm) \<in> set (log_approved (ws_h (wrun opts fm db es)))"
  shows "\<exists>pre k io after q. es = pre @ DecideNow k io tm # after \<and> at_phase Checked k (wrun opts fm db pre) = Some q \<and>
    who = decision_who q \<and> approves_cycle q io tm r (ws_h (wrun opts fm db pre))"
  using assms
proof (induction es rule: rev_induct)
  case Nil
  then show ?case by (simp add: web_New_def harness_New_def)
next
  case (snoc e es)
  then consider "(r, who, tm) \<in> set (log_approved (ws_h (wrun opts fm db es)))"
    | k io q where "e = DecideNow k io tm" "at_phase Checked k (wrun opts fm db es) = Some q" "who = decision_who q"
        "approves_cycle q io tm r (ws_h (wrun opts fm db es))"
    using approved_step [of r who tm opts fm e "wrun opts fm db es"] by auto
  then show ?case
  proof cases
    case 1
    with snoc.IH show ?thesis by fastforce
  qed blast
qed

text \<open>C31: a restart goes back to a click. However requests, commits, goroutine steps, halts and rearms
  interleave and whatever store calls fail, a restart that the harness dispatched is preceded by a POST to
  the approve route whose own read of the store found that incident pending, and whose call of \<open>Approve\<close> came
  later, succeeded, named the incident of the cycle then active and awaiting approval, and found nothing
  dispatched for it yet. The container is one of the configured targets and the mode is live.\<close>

theorem dashboard_gates_dispatch:
  assumes "(r, target) \<in> set (log_dispatch (ws_h (fold (wstep opts fm) es (web_New db))))"
  shows "o_Mode opts = HarnessLive \<and> target \<in> Map.ran (map_of (o_Targets opts)) \<and>
    (\<exists>before rio q between k dio tm after.
       es = before @ Arrive rio q # between @ DecideNow k dio tm # after \<and> dq_post q \<and>
       (\<exists>c. Incident rio (dq_id q) (ws_h (fold (wstep opts fm) before (web_New db))) = Inr c \<and> HC_Approval c = ApprovalPending) \<and>
       (let s = ws_h (fold (wstep opts fm) (before @ Arrive rio q # between) (web_New db)) in
          approves_cycle q dio tm r s \<and> (\<forall>t. (r, t) \<notin> set (log_dispatch s))))"
proof -
  obtain who tm where gate: "o_Mode opts = HarnessLive" "resolvable opts target"
    and log: "(r, who, tm) \<in> set (log_approved (ws_h (wrun opts fm db es)))"
    using web_hinv [of opts fm es db] assms by (auto simp: hinv_def inv_log_def)
  obtain pre k io after q where pre: "es = pre @ DecideNow k io tm # after" "at_phase Checked k (wrun opts fm db pre) = Some q"
    and app: "approves_cycle q io tm r (ws_h (wrun opts fm db pre))"
    using approved_request [OF log] by blast
  obtain before rio between where split: "pre = before @ Arrive rio q # between"
    and check: "decision_check rio q (ws_h (wrun opts fm db before)) = None"
    using checked_request [OF pre(2)] by blast
  have "\<forall>t. (r, t) \<notin> set (log_dispatch (ws_h (wrun opts fm db pre)))"
    using app awaiting_undispatched [OF web_hinv] by (fastforce simp: approves_cycle_def split: option.splits)
  with gate pre(1) split check app show ?thesis
    unfolding resolvable_def decision_check_None Let_def by (metis append_Cons append_assoc)
qed

section \<open>A concrete run\<close>

definition plain_fm :: formats where
  "plain_fm = \<lparr>fm_marshal = (\<lambda>_. Inr ''{}''), fm_compact = (\<lambda>_. Inr ''{}''), fm_rfc3339 = (\<lambda>_. ''t''), fm_json_time = (\<lambda>_. ''t'')\<rparr>"

definition approve_click :: decision_request where
  "approve_click = \<lparr>dq_post = True, dq_approve = True, dq_id = ''c1'', dq_who = ''''\<rparr>"

text \<open>Two clicks on the same button: both requests pass the check, one decides.\<close>

definition run_clicks :: "web_event list" where
  "run_clicks = map Engine run_to_arm @ [Engine (Cycle (run_env False 6000000)), Arrive None approve_click, Arrive None approve_click,
     DecideNow 1 None 7000000, DecideNow 0 None 7100000, Engine (Send 0)] @
     replicate 2 (Engine (Cycle (run_env False 7500000))) @ [AnswerNow 1 None] @ replicate 3 (Engine (Cycle (run_env False 7600000)))"

definition clicks_outcome :: "WebState \<Rightarrow> (nat \<times> string) list \<times> int list" where
  "clicks_outcome s =
     (log_dispatch (ws_h s),
      map (\<lambda>(q, ph). case ph of Answered (HttpJSON code _) \<Rightarrow> code | Answered (HttpError code _) \<Rightarrow> code | _ \<Rightarrow> 0) (ws_reqs s))"

lemma run_clicks_outcome: "clicks_outcome (fold (wstep run_opts plain_fm) run_clicks (web_New empty_DB)) = ([(0, ''ct-plex'')], [500, 200])"
  by code_simp

lemma run_clicks_log: "log_dispatch (ws_h (fold (wstep run_opts plain_fm) run_clicks (web_New empty_DB))) = [(0, ''ct-plex'')]"
  using run_clicks_outcome by (simp add: clicks_outcome_def del: fold_simps)

theorem dashboard_gates_dispatch_witness:
  "(0, ''ct-plex'') \<in> set (log_dispatch (ws_h (fold (wstep run_opts plain_fm) run_clicks (web_New empty_DB)))) \<and>
   (\<exists>before rio q between k dio tm after.
       run_clicks = before @ Arrive rio q # between @ DecideNow k dio tm # after \<and> dq_post q)"
proof -
  have d: "(0, ''ct-plex'') \<in> set (log_dispatch (ws_h (fold (wstep run_opts plain_fm) run_clicks (web_New empty_DB))))"
    by (simp add: run_clicks_log)
  show ?thesis using d dashboard_gates_dispatch [OF d] by fast
qed

end
