(* ===== verification/Probers.thy ===== *)
theory Probers
  imports Golib Core_Domain Complex_Main
begin

text \<open>
  The probers of \<open>internal/prober\<close>: HTTP (\<open>http.go\<close>), TCP and the reachability probe (\<open>tcp.go\<close>,
  \<open>reachability.go\<close>), the container and Host metrics probes over SSH (\<open>ssh.go\<close>) and the SSH client
  (\<open>ssh_client.go\<close>). What the network answers is an argument: the end of an HTTP exchange or of a dial, the
  stages of an SSH session, the runner of a command line. \<open>ParseFloat\<close> is an argument too and gives a
  float with its special values; the quotient and the product are exact (rounding is not modelled). A
  probe result is a measurement, an error means that the probe could not tell.
\<close>

section \<open>Floats\<close>

text \<open>\<open>FInf True\<close> is plus infinity.\<close>

datatype f64 = FNaN | FInf bool | FNum rat

fun f_less :: "f64 \<Rightarrow> f64 \<Rightarrow> bool" where
  "f_less (FNum a) (FNum b) \<longleftrightarrow> a < b"
| "f_less (FNum a) (FInf q) \<longleftrightarrow> q"
| "f_less (FInf p) (FNum b) \<longleftrightarrow> \<not> p"
| "f_less (FInf p) (FInf q) \<longleftrightarrow> \<not> p \<and> q"
| "f_less _ _ \<longleftrightarrow> False"

fun f_double :: "f64 \<Rightarrow> f64" where
  "f_double (FNum a) = FNum (2 * a)"
| "f_double x = x"

fun f_div :: "f64 \<Rightarrow> f64 \<Rightarrow> f64" where
  "f_div (FNum a) (FNum b) = (if b \<noteq> 0 then FNum (a / b) else if a = 0 then FNaN else FInf (0 < a))"
| "f_div (FNum a) (FInf q) = FNum 0"
| "f_div (FInf p) (FNum b) = FInf (p = (0 \<le> b))"
| "f_div _ _ = FNaN"

section \<open>HTTP and TCP\<close>

definition measured :: "Status \<Rightarrow> duration \<Rightarrow> string option \<Rightarrow> ProbeResult" where
  "measured st latency err = \<lparr>PR_Status = st, PR_Latency = latency, PR_Err = err\<rparr>"

datatype http_end = HBuildFailed string | HCanceled string | HFailed string | HAnswered int

definition HTTP_Probe :: "http_end \<Rightarrow> duration \<Rightarrow> string \<Rightarrow> string + ProbeResult" where
  "HTTP_Probe h latency name =
     (case h of
        HBuildFailed e \<Rightarrow> Inl (''build request for '' @ name @ '': '' @ e)
      | HCanceled e \<Rightarrow> Inl (''probe '' @ name @ '' canceled: '' @ e)
      | HFailed e \<Rightarrow> Inr (measured StatusDown latency (Some e))
      | HAnswered code \<Rightarrow>
          if 200 \<le> code \<and> code < 300 then Inr (measured StatusUp latency None)
          else Inr (measured StatusDown latency (Some (name @ '' returned HTTP '' @ itoa code))))"

datatype dial_end = DialOK | DialCanceled string | DialFailed string

definition TCP_Probe :: "dial_end \<Rightarrow> duration \<Rightarrow> string \<Rightarrow> string + ProbeResult" where
  "TCP_Probe d latency name =
     (case d of
        DialCanceled e \<Rightarrow> Inl (''tcp probe '' @ name @ '' canceled: '' @ e)
      | DialFailed e \<Rightarrow> Inr (measured StatusDown latency (Some e))
      | DialOK \<Rightarrow> Inr (measured StatusUp latency None))"

section \<open>The SSH client\<close>

definition ErrUnreachable :: string where
  "ErrUnreachable = ''ssh host unreachable''"

datatype run_err = Unreachable string | RunErr string

definition run_err_Error :: "run_err \<Rightarrow> string" where
  "run_err_Error e = (case e of Unreachable s \<Rightarrow> s | RunErr s \<Rightarrow> s)"

type_synonym runner = "string \<Rightarrow> run_err + string"

record ssh_config =
  SC_Address :: string
  SC_Password :: string
  SC_PrivateKey :: string

datatype auth_method = PublicKeys | Password

text \<open>\<open>key_ok\<close> says whether the key is valid PEM.\<close>

definition authMethods :: "(string \<Rightarrow> bool) \<Rightarrow> ssh_config \<Rightarrow> string + auth_method list" where
  "authMethods key_ok cfg =
     (if SC_PrivateKey cfg \<noteq> '''' \<and> \<not> key_ok (SC_PrivateKey cfg) then Inl ''parse ssh private key: invalid PEM''
      else
        let m = (if SC_PrivateKey cfg \<noteq> '''' then [PublicKeys] else []) @ (if SC_Password cfg \<noteq> '''' then [Password] else []) in
        if m = [] then Inl ''ssh: no credential configured (need key or password)'' else Inr m)"

datatype ssh_end = Deadline string | HandshakeFailed string | NoSession string | CommandFailed string string | Output string

definition ssh_Run :: "(string \<Rightarrow> bool) \<Rightarrow> ssh_config \<Rightarrow> dial_end \<Rightarrow> (string \<Rightarrow> ssh_end) \<Rightarrow> runner" where
  "ssh_Run key_ok cfg d session cmd =
     (case authMethods key_ok cfg of
        Inl e \<Rightarrow> Inl (RunErr e)
      | Inr _ \<Rightarrow>
          (case d of
             DialCanceled e \<Rightarrow> Inl (RunErr (''ssh dial '' @ SC_Address cfg @ '': '' @ e))
           | DialFailed e \<Rightarrow> Inl (Unreachable (''ssh dial '' @ SC_Address cfg @ '': '' @ ErrUnreachable @ '': '' @ e))
           | DialOK \<Rightarrow>
               (case session cmd of
                  Deadline e \<Rightarrow> Inl (RunErr (''ssh '' @ SC_Address cfg @ '': '' @ e))
                | HandshakeFailed e \<Rightarrow> Inl (RunErr (''ssh handshake '' @ SC_Address cfg @ '': '' @ e))
                | NoSession e \<Rightarrow> Inl (RunErr (''ssh session: '' @ e))
                | CommandFailed out e \<Rightarrow> Inl (RunErr (''ssh run: '' @ e))
                | Output out \<Rightarrow> Inr out)))"

text \<open>The result is the callback (\<open>None\<close> accepts any key) and whether it is insecure.\<close>

definition ParseHostKey :: "(string \<Rightarrow> 'k option) \<Rightarrow> string \<Rightarrow> string + 'k option \<times> bool" where
  "ParseHostKey parse authorized =
     (if authorized = '''' then Inr (None, True)
      else case parse authorized of
        None \<Rightarrow> Inl ''ssh host_key: invalid authorized-key line''
      | Some k \<Rightarrow> Inr (Some k, False))"

section \<open>The container probe\<close>

definition brace2 :: "string \<Rightarrow> string" where
  "brace2 s = replicate 2 (CHR 0x7B) @ s @ replicate 2 (CHR 0x7D)"

definition containerStateCmd :: "string \<Rightarrow> string" where
  "containerStateCmd container =
     ''docker inspect -f '' @ [CHR 0x27] @ brace2 ''.State.Status'' @ ''|'' @ brace2 ''if .State.Health'' @
     brace2 ''.State.Health.Status'' @ brace2 ''end'' @ [CHR 0x27] @ '' '' @ container"

definition container_down_states :: "string list" where
  "container_down_states = [''exited'', ''restarting'', ''created'', ''dead'', ''paused'', ''removing'']"

definition ContainerProbe_Probe :: "runner \<Rightarrow> string \<Rightarrow> string \<Rightarrow> string + ProbeResult" where
  "ContainerProbe_Probe run name container =
     (case run (containerStateCmd container) of
        Inl e \<Rightarrow> Inl (''container probe '' @ name @ '': '' @ run_err_Error e)
      | Inr out \<Rightarrow>
          (case strings_Cut (strings_TrimSpace out) (CHR ''|'') of
             None \<Rightarrow> Inl (''container probe '' @ name @ '': malformed output (no status|health separator): '' @ go_quote out)
           | Some (state, health) \<Rightarrow>
               if state = ''running'' then
                 (if health = ''unhealthy'' \<or> health = ''starting'' then Inr (measured StatusDegraded 0 None)
                  else Inr (measured StatusUp 0 None))
               else if state \<in> set container_down_states
               then Inr (measured StatusDown 0 (Some (name @ '' container '' @ container @ '' is '' @ state)))
               else Inl (''container probe '' @ name @ '': unparseable state '' @ go_quote out)))"

section \<open>The Host metrics probe\<close>

definition dquote :: "string \<Rightarrow> string" where
  "dquote s = [CHR 0x22] @ s @ [CHR 0x22]"

definition squote :: "string \<Rightarrow> string" where
  "squote s = [CHR 0x27] @ s @ [CHR 0x27]"

definition hostMetricsCmd :: string where
  "hostMetricsCmd =
     ''mdcmd status 2>/dev/null | grep -E '' @ squote ''^(mdState|mdNumDisabled|mdNumInvalid)='' @ '' ; '' @
     ''echo '' @ dquote (''load1=$(cut -d'' @ squote '' '' @ '' -f1 /proc/loadavg)'') @ '' ; '' @
     ''echo '' @ dquote ''cpus=$(nproc)'' @ '' ; '' @
     ''awk '' @ squote (''/^MemTotal:/'' @ [CHR 0x7B] @ ''print '' @ dquote ''memTotal='' @ ''$2'' @ [CHR 0x7D] @
        '' /^MemAvailable:/'' @ [CHR 0x7B] @ ''print '' @ dquote ''memAvailable='' @ ''$2'' @ [CHR 0x7D]) @ '' /proc/meminfo''"

fun split_on :: "char \<Rightarrow> string \<Rightarrow> string \<Rightarrow> string list" where
  "split_on c acc [] = [rev acc]"
| "split_on c acc (x # s) = (if x = c then rev acc # split_on c [] s else split_on c (x # acc) s)"

definition strings_Split :: "string \<Rightarrow> char \<Rightarrow> string list" where
  "strings_Split s c = split_on c [] s"

text \<open>The last line for a key wins.\<close>

definition report_kv :: "string \<Rightarrow> string \<Rightarrow> string option" where
  "report_kv out = map_of (rev (List.map_filter (\<lambda>line.
     map_option (\<lambda>(k, v). (k, strings_TrimSpace v)) (strings_Cut (strings_TrimSpace line) (CHR ''='')))
     (strings_Split (strings_TrimSpace out) (CHR 0x0A))))"

definition requireInt :: "(string \<Rightarrow> string option) \<Rightarrow> string \<Rightarrow> string + int" where
  "requireInt kv key =
     (case kv key of
        None \<Rightarrow> Inl (''report missing '' @ key)
      | Some v \<Rightarrow> (case ParseInt (strings_TrimSpace v) of
            None \<Rightarrow> Inl (''report '' @ key @ ''='' @ go_quote v @ '' is not an integer'')
          | Some n \<Rightarrow> Inr n))"

definition requireFloat :: "(string \<Rightarrow> f64 option) \<Rightarrow> (string \<Rightarrow> string option) \<Rightarrow> string \<Rightarrow> string + f64" where
  "requireFloat parse_float kv key =
     (case kv key of
        None \<Rightarrow> Inl (''report missing '' @ key)
      | Some v \<Rightarrow> (case parse_float (strings_TrimSpace v) of
            None \<Rightarrow> Inl (''report '' @ key @ ''='' @ go_quote v @ '' is not a number'')
          | Some f \<Rightarrow> Inr f))"

definition host_report :: "(string \<Rightarrow> f64 option) \<Rightarrow> string \<Rightarrow> string \<Rightarrow> string + ProbeResult" where
  "host_report parse_float name out =
     (let kv = report_kv out; tag = (\<lambda>e. ''host-metrics probe '' @ name @ '': '' @ e) in
      case kv ''mdState'' of
        None \<Rightarrow> Inl (tag (''report missing mdState: '' @ go_quote out))
      | Some state \<Rightarrow>
          if state \<noteq> ''STARTED''
          then Inr (measured StatusDown 0 (Some (name @ '' array mdState='' @ state @ '' (not STARTED)'')))
          else
            res_bind (res_wrap tag (requireInt kv ''mdNumDisabled'')) (\<lambda>disabled.
            res_bind (res_wrap tag (requireInt kv ''mdNumInvalid'')) (\<lambda>invalid.
            if disabled > 0 \<or> invalid > 0 then Inr (measured StatusDegraded 0 None)
            else
              res_bind (res_wrap tag (requireFloat parse_float kv ''load1'')) (\<lambda>load1.
              res_bind (res_wrap tag (requireFloat parse_float kv ''cpus'')) (\<lambda>cpus.
              if f_less (FNum 0) cpus \<and> f_less (f_double cpus) load1 then Inr (measured StatusDegraded 0 None)
              else
                res_bind (res_wrap tag (requireFloat parse_float kv ''memTotal'')) (\<lambda>memTotal.
                res_bind (res_wrap tag (requireFloat parse_float kv ''memAvailable'')) (\<lambda>memAvail.
                if f_less (FNum 0) memTotal \<and> f_less (f_div memAvail memTotal) (FNum (1 / 20))
                then Inr (measured StatusDegraded 0 None)
                else Inr (measured StatusUp 0 None))))))))"

definition HostMetricsProbe_Probe :: "(string \<Rightarrow> f64 option) \<Rightarrow> runner \<Rightarrow> string \<Rightarrow> string + ProbeResult" where
  "HostMetricsProbe_Probe parse_float run name =
     (case run hostMetricsCmd of
        Inl (Unreachable e) \<Rightarrow> Inr (measured StatusDown 0 (Some (''host-metrics probe '' @ name @ '': '' @ e)))
      | Inl (RunErr e) \<Rightarrow> Inl (''host-metrics probe '' @ name @ '': '' @ e)
      | Inr out \<Rightarrow> host_report parse_float name out)"

section \<open>The contract of a prober\<close>

text \<open>
  \<open>down\<close> is the evidence that the subject does not answer or says itself that it is down. A probe reports
  DOWN exactly on such evidence, never UNKNOWN, and explains every DOWN.
\<close>

locale prober_contract =
  fixes probe :: "'e \<Rightarrow> string + ProbeResult"
    and down :: "'e \<Rightarrow> bool"
  assumes measures: "probe e = Inr r \<Longrightarrow>
      (PR_Status r = StatusDown \<longleftrightarrow> down e) \<and> PR_Status r \<noteq> StatusUnknown \<and> (PR_Err r = None \<longleftrightarrow> PR_Status r \<noteq> StatusDown)"
    and tells: "down e \<Longrightarrow> \<exists>r. probe e = Inr r"
begin

lemma derived_down_iff: "(\<exists>r. probe e = Inr r \<and> DeriveStatus r th = StatusDown) \<longleftrightarrow> down e"
  using measures tells by (fastforce simp: DeriveStatus_Down_iff)

lemma derived_known: "probe e = Inr r \<Longrightarrow> DeriveStatus r th \<noteq> StatusUnknown"
  using measures by (simp add: DeriveStatus_Unknown_iff)

end

definition http_down :: "http_end \<Rightarrow> bool" where
  "http_down h = (case h of HFailed _ \<Rightarrow> True | HAnswered c \<Rightarrow> c < 200 \<or> 300 \<le> c | _ \<Rightarrow> False)"

definition dial_down :: "dial_end \<Rightarrow> bool" where
  "dial_down d = (case d of DialFailed _ \<Rightarrow> True | _ \<Rightarrow> False)"

definition container_down :: "run_err + string \<Rightarrow> bool" where
  "container_down r =
     (case r of Inl _ \<Rightarrow> False
      | Inr out \<Rightarrow> (case strings_Cut (strings_TrimSpace out) (CHR ''|'') of
            None \<Rightarrow> False | Some (state, _) \<Rightarrow> state \<in> set container_down_states))"

definition host_down :: "run_err + string \<Rightarrow> bool" where
  "host_down r =
     (case r of Inl (Unreachable _) \<Rightarrow> True | Inl (RunErr _) \<Rightarrow> False
      | Inr out \<Rightarrow> (case report_kv out ''mdState'' of None \<Rightarrow> False | Some st \<Rightarrow> st \<noteq> ''STARTED''))"

lemma measured_sel [simp]: "PR_Status (measured s l e) = s" "PR_Err (measured s l e) = e"
  by (simp_all add: measured_def)

lemma measured_inject [simp]: "measured s l e = measured s' l' e' \<longleftrightarrow> s = s' \<and> l = l' \<and> e = e'"
  by (simp add: measured_def)

interpretation http: prober_contract "\<lambda>h. HTTP_Probe h latency name" http_down for latency name
  by unfold_locales (auto simp: HTTP_Probe_def http_down_def split: http_end.splits if_splits)

interpretation tcp: prober_contract "\<lambda>d. TCP_Probe d latency name" dial_down for latency name
  by unfold_locales (auto simp: TCP_Probe_def dial_down_def split: dial_end.splits)

lemma running_not_down: "''running'' \<notin> set container_down_states"
  by (simp add: container_down_states_def)

interpretation container: prober_contract "\<lambda>answer. ContainerProbe_Probe (\<lambda>_. answer) name container" container_down for name container
  by unfold_locales
    (auto simp: ContainerProbe_Probe_def container_down_def running_not_down split: sum.splits option.splits prod.splits if_splits)

lemma host_report_measures:
  "host_report pf name out = Inr r \<Longrightarrow>
     (PR_Status r = StatusDown \<longleftrightarrow> host_down (Inr out)) \<and> PR_Status r \<noteq> StatusUnknown \<and> (PR_Err r = None \<longleftrightarrow> PR_Status r \<noteq> StatusDown)"
  by (auto simp: host_report_def host_down_def Let_def res_bind_Inr res_wrap_Inr split: option.splits if_splits)

interpretation host_metrics: prober_contract "\<lambda>answer. HostMetricsProbe_Probe pf (\<lambda>_. answer) name" host_down for pf name
proof
  show "(PR_Status r = StatusDown \<longleftrightarrow> host_down e) \<and> PR_Status r \<noteq> StatusUnknown \<and> (PR_Err r = None \<longleftrightarrow> PR_Status r \<noteq> StatusDown)"
    if "HostMetricsProbe_Probe pf (\<lambda>_. e) name = Inr r" for pf name e r
    using that host_report_measures
    by (auto simp: HostMetricsProbe_Probe_def host_down_def split: sum.splits run_err.splits)
  show "\<exists>r. HostMetricsProbe_Probe pf (\<lambda>_. e) name = Inr r" if "host_down e" for pf name e
    using that
    by (auto simp: HostMetricsProbe_Probe_def host_down_def host_report_def Let_def split: sum.splits run_err.splits option.splits)
qed

text \<open>
  What a report that makes the Host UP says. The load limit applies to a finite positive number of processors, the
  memory limit to a positive amount; against NaN, or a count that is not positive, nothing is compared.
\<close>

definition load_exceeded :: "f64 \<Rightarrow> f64 \<Rightarrow> bool" where
  "load_exceeded load1 cpus \<longleftrightarrow> (\<exists>c > 0. cpus = FNum c \<and> (load1 = FInf True \<or> (\<exists>l. load1 = FNum l \<and> 2 * c < l)))"

definition memory_pressed :: "f64 \<Rightarrow> f64 \<Rightarrow> bool" where
  "memory_pressed memTotal memAvail \<longleftrightarrow>
     (\<exists>m > 0. memTotal = FNum m \<and> (memAvail = FInf False \<or> (\<exists>a. memAvail = FNum a \<and> 20 * a < m))) \<or>
     memTotal = FInf True \<and> (\<exists>a. memAvail = FNum a)"

definition healthy_report :: "(string \<Rightarrow> f64 option) \<Rightarrow> string \<Rightarrow> bool" where
  "healthy_report pf out \<longleftrightarrow>
     (let int_metric = (\<lambda>key. Option.bind (report_kv out key) (\<lambda>v. ParseInt (strings_TrimSpace v)));
          metric = (\<lambda>key. Option.bind (report_kv out key) (\<lambda>v. pf (strings_TrimSpace v))) in
      report_kv out ''mdState'' = Some ''STARTED'' \<and>
      (\<exists>disabled \<le> 0. int_metric ''mdNumDisabled'' = Some disabled) \<and> (\<exists>invalid \<le> 0. int_metric ''mdNumInvalid'' = Some invalid) \<and>
      (\<exists>load1 cpus. metric ''load1'' = Some load1 \<and> metric ''cpus'' = Some cpus \<and> \<not> load_exceeded load1 cpus) \<and>
      (\<exists>memTotal memAvail. metric ''memTotal'' = Some memTotal \<and> metric ''memAvailable'' = Some memAvail \<and> \<not> memory_pressed memTotal memAvail))"

lemma load_exceeded_iff: "f_less (FNum 0) cpus \<and> f_less (f_double cpus) load1 \<longleftrightarrow> load_exceeded load1 cpus"
  by (cases cpus; cases load1) (auto simp: load_exceeded_def)

lemma memory_pressed_iff:
  "f_less (FNum 0) memTotal \<and> f_less (f_div memAvail memTotal) (FNum (1 / 20)) \<longleftrightarrow> memory_pressed memTotal memAvail"
  by (cases memTotal; cases memAvail) (auto simp: memory_pressed_def divide_less_eq)

lemma requireInt_iff: "requireInt kv key = Inr n \<longleftrightarrow> Option.bind (kv key) (\<lambda>v. ParseInt (strings_TrimSpace v)) = Some n"
  by (simp add: requireInt_def split: option.split)

lemma requireFloat_iff: "requireFloat pf kv key = Inr x \<longleftrightarrow> Option.bind (kv key) (\<lambda>v. pf (strings_TrimSpace v)) = Some x"
  by (simp add: requireFloat_def split: option.split)

lemma host_report_up: "(\<exists>r. host_report pf name out = Inr r \<and> PR_Status r = StatusUp) \<longleftrightarrow> healthy_report pf out"
proof
  show "healthy_report pf out" if "\<exists>r. host_report pf name out = Inr r \<and> PR_Status r = StatusUp"
    using that unfolding host_report_def healthy_report_def Let_def load_exceeded_iff memory_pressed_iff
    by (auto simp: res_bind_Inr res_wrap_Inr requireInt_iff requireFloat_iff not_less split: option.splits if_splits)
  show "\<exists>r. host_report pf name out = Inr r \<and> PR_Status r = StatusUp" if "healthy_report pf out"
    using that unfolding host_report_def healthy_report_def Let_def load_exceeded_iff memory_pressed_iff
    by (auto simp: res_bind_def res_wrap_def simp flip: requireInt_iff requireFloat_iff)
qed


text \<open>
  A metric that parses as NaN passes every limit: a report whose load, processor and memory figures are no numbers at all
  makes the Host UP, where the comment promises an error for a non-numeric value.
\<close>

lemma nan_report_is_up:
  assumes "pf ''nan'' = Some FNaN"
  shows "healthy_report pf (''mdState=STARTED'' @ [CHR 0x0A] @ ''mdNumDisabled=0'' @ [CHR 0x0A] @ ''mdNumInvalid=0'' @ [CHR 0x0A] @
     ''load1=nan'' @ [CHR 0x0A] @ ''cpus=nan'' @ [CHR 0x0A] @ ''memTotal=nan'' @ [CHR 0x0A] @ ''memAvailable=nan'')"
  using assms
  by (simp add: healthy_report_def load_exceeded_def memory_pressed_def report_kv_def Let_def strings_Split_def TrimSpace_ascii is_ascii_def ascii_space_def map_filter_simps
      ParseInt_def all_digits_def is_digit_def dec_value_def digit_val_def two63_def)

end
