(* ===== verification/Reasoner.thy ===== *)
theory Reasoner
  imports Harness_Props Control Probers
begin

text \<open>
  What the management agent consults: the read-only tools of \<open>internal/tools\<close>, which run at most one fixed
  command per call over the probe credential, and the chat client of \<open>internal/reasoner\<close>, which scrubs a
  prompt, sends it, and reduces the answer to a validated reply. The command runner, the HTTP exchange, the
  JSON codec and the formats of times are arguments; the commands that reach the runner and the
  requests that leave the process are logged. The tools satisfy the contract \<open>restart_gate\<close> of \<open>Control\<close>.
\<close>

section \<open>The read-only tools\<close>

definition clamp :: "int \<Rightarrow> int \<Rightarrow> int \<Rightarrow> int" where
  "clamp v dflt mx = (if v \<le> 0 then dflt else if v > mx then mx else v)"

type_synonym str_map = "string \<Rightarrow> string option"

definition arg_of :: "str_map \<Rightarrow> string \<Rightarrow> string" where
  "arg_of args k = (case args k of None \<Rightarrow> '''' | Some v \<Rightarrow> v)"

definition resolveContainer :: "str_map \<Rightarrow> str_map \<Rightarrow> string + string" where
  "resolveContainer targets args =
     (let service = arg_of args ''service'' in
      if service = '''' then Inl (''missing required arg '' @ go_quote ''service'')
      else case targets service of
        None \<Rightarrow> Inl (''unknown service '' @ go_quote service)
      | Some container \<Rightarrow>
          if \<not> containerNameRe container
          then Inl (''service '' @ go_quote service @ '' resolves to invalid container name '' @ go_quote container)
          else Inr container)"

text \<open>\<open>containerStatusCmd\<close> is the text of the container probe's command.\<close>

definition containerStatusCmd :: "string \<Rightarrow> string" where
  "containerStatusCmd container = containerStateCmd container"

definition container_status_Call :: "runner \<Rightarrow> str_map \<Rightarrow> str_map \<Rightarrow> (string + string) \<times> string list" where
  "container_status_Call run targets args =
     (case resolveContainer targets args of
        Inl e \<Rightarrow> (Inl (''container_status: '' @ e), [])
      | Inr container \<Rightarrow>
          ((case run (containerStatusCmd container) of
              Inl e \<Rightarrow> Inl (''container_status: '' @ run_err_Error e)
            | Inr out \<Rightarrow>
                (case strings_Cut (strings_TrimSpace out) (CHR ''|'') of
                   None \<Rightarrow> Inl (''container_status: malformed output (no status|health separator): '' @ go_quote out)
                 | Some (state, health) \<Rightarrow> Inr (''state='' @ state @ '' health='' @ health))),
           [containerStatusCmd container]))"

definition containerLogsCmd :: "int \<Rightarrow> string \<Rightarrow> string" where
  "containerLogsCmd lines container = ''docker logs --tail '' @ itoa lines @ '' '' @ container @ '' 2>&1''"

definition ContainerLogs_lines :: "int \<Rightarrow> int" where
  "ContainerLogs_lines lines = clamp lines 50 200"

definition container_logs_Call :: "runner \<Rightarrow> str_map \<Rightarrow> int \<Rightarrow> str_map \<Rightarrow> (string + string) \<times> string list" where
  "container_logs_Call run targets lines args =
     (case resolveContainer targets args of
        Inl e \<Rightarrow> (Inl (''container_logs: '' @ e), [])
      | Inr container \<Rightarrow>
          let cmd = containerLogsCmd (ContainerLogs_lines lines) container in
          (res_wrap (\<lambda>e. ''container_logs: '' @ run_err_Error e) (run cmd), [cmd]))"

definition StatusHistory_limit :: "int \<Rightarrow> int" where
  "StatusHistory_limit limit = clamp limit 20 100"

definition status_history_Call :: "(gotime \<Rightarrow> string) \<Rightarrow> (duration \<Rightarrow> string) \<Rightarrow> io \<Rightarrow> DB \<Rightarrow> int \<Rightarrow> str_map \<Rightarrow> string + string" where
  "status_history_Call rfc3339 show_dur io db limit args =
     (let service = arg_of args ''service'' in
      if service = '''' then Inl (''status_history: missing required arg '' @ go_quote ''service'')
      else
        res_bind (res_wrap (\<lambda>e. ''status_history: '' @ e) (LoadProbeSamples io service (StatusHistory_limit limit) db)) (\<lambda>samples.
          Inr (strings_Join (map (\<lambda>s. rfc3339 (PS_At s) @ '' '' @ Status_String (PS_Status s) @ '' '' @ show_dur (PS_Latency s)) samples) [CHR 0x0A])))"

definition readable :: "str_map \<Rightarrow> string \<Rightarrow> bool" where
  "readable targets c \<longleftrightarrow> c \<in> ran targets \<and> containerNameRe c"

lemma resolveContainer_Inr: "resolveContainer targets args = Inr c \<Longrightarrow> readable targets c"
  by (auto simp: resolveContainer_def readable_def Let_def ran_def split: if_splits option.splits)

lemma container_status_cmds: "cmd \<in> set (snd (container_status_Call run targets args)) \<Longrightarrow> \<exists>c. readable targets c \<and> cmd = containerStateCmd c"
  using resolveContainer_Inr [of targets args]
  by (cases "resolveContainer targets args") (auto simp: container_status_Call_def containerStatusCmd_def)

lemma container_logs_cmds:
  "cmd \<in> set (snd (container_logs_Call run targets lines args)) \<Longrightarrow>
     \<exists>c. readable targets c \<and> cmd = containerLogsCmd (ContainerLogs_lines lines) c"
  using resolveContainer_Inr [of targets args]
  by (cases "resolveContainer targets args") (auto simp: container_logs_Call_def Let_def)

interpretation status_tool: restart_gate readable containerStateCmd "\<lambda>targets (run, args). snd (container_status_Call run targets args)"
  by unfold_locales (auto simp: container_status_cmds, auto simp: container_status_Call_def split: sum.split)

interpretation logs_tool: restart_gate readable "containerLogsCmd (ContainerLogs_lines lines)"
    "\<lambda>targets (run, args). snd (container_logs_Call run targets lines args)" for lines
  by unfold_locales (auto simp: container_logs_cmds, auto simp: container_logs_Call_def Let_def split: sum.split)

lemma clamp_range: "0 < dflt \<Longrightarrow> dflt \<le> mx \<Longrightarrow> 0 < clamp v dflt mx \<and> clamp v dflt mx \<le> mx"
  by (simp add: clamp_def)

section \<open>The first JSON object of a text\<close>

text \<open>Depth, inside a string, behind a backslash.\<close>

type_synonym scan_state = "int \<times> bool \<times> bool"

fun scan_step :: "scan_state \<Rightarrow> char \<Rightarrow> scan_state" where
  "scan_step (d, True, esc) c =
     (if esc then (d, True, False) else if c = CHR 0x5C then (d, True, True) else if c = CHR 0x22 then (d, False, False) else (d, True, False))"
| "scan_step (d, False, esc) c =
     (if c = CHR 0x22 then (d, True, esc) else if c = CHR 0x7B then (d + 1, False, esc) else if c = CHR 0x7D then (d - 1, False, esc)
      else (d, False, esc))"

definition closing :: "scan_state \<Rightarrow> char \<Rightarrow> bool" where
  "closing st c \<longleftrightarrow> \<not> fst (snd st) \<and> c = CHR 0x7D \<and> fst (scan_step st c) = 0"

fun scan_obj :: "scan_state \<Rightarrow> string \<Rightarrow> string \<Rightarrow> string option" where
  "scan_obj st acc [] = None"
| "scan_obj st acc (c # s) = (if closing st c then Some (rev (c # acc)) else scan_obj (scan_step st c) (c # acc) s)"

definition extractJSON :: "string \<Rightarrow> string + string" where
  "extractJSON s =
     (case dropWhile (\<lambda>c. c \<noteq> CHR 0x7B) s of
        [] \<Rightarrow> Inl ''no JSON object found''
      | t \<Rightarrow> (case scan_obj (0, False, False) [] t of None \<Rightarrow> Inl ''unbalanced JSON object'' | Some obj \<Rightarrow> Inr obj))"

text \<open>The reference: the braces of a text outside its strings return to depth 0 with its last character.\<close>

definition scan :: "string \<Rightarrow> scan_state" where
  "scan p = foldl scan_step (0, False, False) p"

definition closes :: "string \<Rightarrow> bool" where
  "closes p \<longleftrightarrow> p \<noteq> [] \<and> closing (scan (butlast p)) (last p)"

lemma scan_obj_find:
  "scan_obj (scan (rev acc)) acc s =
     map_option (\<lambda>k. rev acc @ take k s) (find (\<lambda>k. closes (rev acc @ take k s)) [1 ..< Suc (length s)])"
proof (induction s arbitrary: acc)
  case Nil
  then show ?case by simp
next
  case (Cons c s)
  have first: "closes (rev acc @ [c]) \<longleftrightarrow> closing (scan (rev acc)) c" by (simp add: closes_def)
  have upt: "[Suc 0 ..< Suc (Suc (length s))] = Suc 0 # map Suc [Suc 0 ..< Suc (length s)]"
    by (simp add: map_Suc_upt upt_conv_Cons del: upt_Suc)
  have "scan (rev (c # acc)) = scan_step (scan (rev acc)) c" by (simp add: scan_def)
  then show ?case
    using Cons.IH [of "c # acc"] by (simp add: upt find_map_key first option.map_comp comp_def del: upt_Suc)
qed

text \<open>
  \<open>extractJSON\<close> returns the shortest closing text that starts at the first opening brace, and fails only if there
  is none.
\<close>

lemma extractJSON_shortest:
  "extractJSON s =
     (let t = dropWhile (\<lambda>c. c \<noteq> CHR 0x7B) s in
      if t = [] then Inl ''no JSON object found''
      else case find (\<lambda>k. closes (take k t)) [1 ..< Suc (length t)] of
          None \<Rightarrow> Inl ''unbalanced JSON object'' | Some k \<Rightarrow> Inr (take k t))"
proof -
  have sc: "scan_obj (0, False, False) [] t = map_option (\<lambda>k. take k t) (find (\<lambda>k. closes (take k t)) [1 ..< Suc (length t)])" for t
    using scan_obj_find [of "[]" t] by (simp add: scan_def del: upt_Suc)
  show ?thesis
  proof (cases "dropWhile (\<lambda>c. c \<noteq> CHR 0x7B) s")
    case (Cons c t)
    show ?thesis
      unfolding extractJSON_def Let_def Cons list.case sc
      by (cases "find (\<lambda>k. closes (take k (c # t))) [1 ..< Suc (length (c # t))]") (simp_all del: upt_Suc)
  next
    case Nil
    show ?thesis unfolding extractJSON_def Let_def Nil by simp
  qed
qed

section \<open>Runes\<close>

definition truncateRunes :: "string \<Rightarrow> nat \<Rightarrow> string" where
  "truncateRunes s n = (if length (runes s) \<le> n then s else concat (take n (runes s)))"

lemma utf8_len_le: "utf8_len s \<le> 4"
  by (simp add: utf8_len_def Let_def split: list.split)

lemma runes_bytes: "length s \<le> 4 * length (runes s) \<and> list_all (\<lambda>r. length r \<le> 4) (runes s)"
proof (induction s rule: runes.induct)
  case (1 s)
  show ?case
  proof (cases "s = [] \<or> utf8_len s = 0")
    case True
    then show ?thesis using 1(1) by (subst (1 2) runes.simps) (cases s, auto)
  next
    case False
    then have "length (drop (utf8_len s) s) \<le> 4 * length (runes (drop (utf8_len s) s))"
      "list_all (\<lambda>r. length r \<le> 4) (runes (drop (utf8_len s) s))" using 1(2) by auto
    then show ?thesis using False utf8_len_le [of s] by (subst (1 2) runes.simps) auto
  qed
qed

lemma truncateRunes_bytes: "length (truncateRunes s n) \<le> 4 * n"
proof -
  have cut: "length (concat rs) \<le> 4 * length rs" if "list_all (\<lambda>r. length r \<le> 4) rs" for rs :: "string list"
    using that by (induction rs) auto
  have "list_all (\<lambda>r. length r \<le> 4) (take n (runes s))"
    using runes_bytes [of s] by (auto simp: list_all_iff dest: in_set_takeD)
  from cut [OF this] show ?thesis
    using runes_bytes [of s] by (auto simp: truncateRunes_def)
qed

section \<open>The chat client\<close>

record reasoner_Config =
  RC_BaseURL :: string
  RC_Model :: string
  RC_APIKey :: string
  RC_Timeout :: duration
  RC_Secrets :: "string list"

definition defaultTimeout :: duration where
  "defaultTimeout = 60 * nsSecond"

definition reasoner_New :: "reasoner_Config \<Rightarrow> reasoner_Config" where
  "reasoner_New cfg = (if RC_Timeout cfg \<le> 0 then cfg\<lparr>RC_Timeout := defaultTimeout\<rparr> else cfg)"

definition client_Name :: "reasoner_Config \<Rightarrow> string" where
  "client_Name cfg = ''openai-compatible:'' @ RC_Model cfg"

definition maxRationaleRunes :: nat where
  "maxRationaleRunes = 300"

definition maxSummaryRunes :: nat where
  "maxSummaryRunes = 1000"

text \<open>The request as it leaves; \<open>sq_system\<close> is the constant system prompt.\<close>

record chatRequest =
  sq_url :: string
  sq_authorization :: "string option"
  sq_model :: string
  sq_system :: string
  sq_user :: string

record chatResponse =
  ch_contents :: "string list"
  ch_prompt_tokens :: int
  ch_completion_tokens :: int

record modelReply =
  MR_Action :: string
  MR_Subject :: string
  MR_Rationale :: string
  MR_Summary :: string

datatype http_exchange = ExFailed string | ExUnreadable string | ExStatus int string

record reasoner_world =
  rw_system :: string
  rw_encode :: "string option"
  rw_build :: "string option"
  rw_exchange :: "chatRequest \<Rightarrow> http_exchange"
  rw_latency :: duration
  rw_decode :: "string \<Rightarrow> string + chatResponse"
  rw_reply :: "string \<Rightarrow> string + modelReply"

definition bearer_of :: "reasoner_Config \<Rightarrow> string option" where
  "bearer_of cfg = (if RC_APIKey cfg \<noteq> '''' then Some (''Bearer '' @ RC_APIKey cfg) else None)"

definition chat_request :: "reasoner_world \<Rightarrow> reasoner_Config \<Rightarrow> string \<Rightarrow> chatRequest" where
  "chat_request w cfg scrubbed =
     \<lparr>sq_url = strings_TrimSuffix (RC_BaseURL cfg) ''/'' @ ''/chat/completions'', sq_authorization = bearer_of cfg,
      sq_model = RC_Model cfg, sq_system = rw_system w, sq_user = scrubbed\<rparr>"

definition read_reply :: "reasoner_world \<Rightarrow> reasoner_Config \<Rightarrow> http_exchange \<Rightarrow> string + ReasonerReply" where
  "read_reply w cfg ex =
     (case ex of
        ExFailed e \<Rightarrow> Inl (''reasoner: request failed: '' @ e)
      | ExUnreadable e \<Rightarrow> Inl (''reasoner: read response: '' @ e)
      | ExStatus code body \<Rightarrow>
          if code < 200 \<or> code \<ge> 300 then Inl (''reasoner: backend returned status '' @ itoa code)
          else
            res_bind (res_wrap (\<lambda>e. ''reasoner: decode response: '' @ e) (rw_decode w body)) (\<lambda>resp.
            if ch_contents resp = [] then Inl ''reasoner: backend returned no choices''
            else
              res_bind (res_wrap (\<lambda>e. ''reasoner: extract reply: '' @ e) (extractJSON (hd (ch_contents resp)))) (\<lambda>obj.
              res_bind (res_wrap (\<lambda>e. ''reasoner: parse reply: '' @ e) (rw_reply w obj)) (\<lambda>reply.
              if MR_Action reply \<noteq> ActionRestartContainer \<and> MR_Action reply \<noteq> ActionNone
              then Inl (''reasoner: invalid action '' @ go_quote (MR_Action reply))
              else Inr \<lparr>RR_Action = MR_Action reply, RR_Subject = MR_Subject reply,
                        RR_Rationale = truncateRunes (MR_Rationale reply) maxRationaleRunes,
                        RR_Summary = truncateRunes (MR_Summary reply) maxSummaryRunes,
                        RR_Usage = \<lparr>U_Backend = client_Name cfg, U_Model = RC_Model cfg, U_PromptTokens = ch_prompt_tokens resp,
                          U_CompletionTokens = ch_completion_tokens resp, U_Latency = rw_latency w\<rparr>\<rparr>))))"

definition client_Diagnose :: "reasoner_world \<Rightarrow> reasoner_Config \<Rightarrow> string \<Rightarrow> (string + ReasonerReply) \<times> chatRequest list" where
  "client_Diagnose w cfg prompt =
     (case Scrub prompt (RC_Secrets cfg) of
        Inl e \<Rightarrow> (Inl (''reasoner: '' @ e), [])
      | Inr scrubbed \<Rightarrow>
          (case rw_encode w of
             Some e \<Rightarrow> (Inl (''reasoner: encode request: '' @ e), [])
           | None \<Rightarrow>
               (case rw_build w of
                  Some e \<Rightarrow> (Inl (''reasoner: build request: '' @ e), [])
                | None \<Rightarrow>
                    let q = chat_request w cfg scrubbed in (read_reply w cfg (rw_exchange w q), [q]))))"

datatype health_end = HBuild string | HRequest string | HStatus int

definition client_Healthy :: "health_end \<Rightarrow> string option" where
  "client_Healthy h =
     (case h of
        HBuild e \<Rightarrow> Some (''reasoner: build health request: '' @ e)
      | HRequest e \<Rightarrow> Some (''reasoner: health check failed: '' @ e)
      | HStatus code \<Rightarrow> if code < 200 \<or> code \<ge> 300 then Some (''reasoner: health check status '' @ itoa code) else None)"

section \<open>Containment\<close>

lemma read_reply_Inr:
  "read_reply w cfg ex = Inr rep \<Longrightarrow>
     RR_Action rep \<in> {ActionRestartContainer, ActionNone} \<and> length (RR_Rationale rep) \<le> 4 * maxRationaleRunes \<and>
     length (RR_Summary rep) \<le> 4 * maxSummaryRunes"
  by (auto simp: read_reply_def res_bind_Inr res_wrap_Inr truncateRunes_bytes split: http_exchange.splits if_splits)

lemma Diagnose_cases:
  "client_Diagnose w cfg prompt = (r, sent) \<Longrightarrow>
     (\<exists>e. r = Inl e) \<and> sent = [] \<or>
     (\<exists>t. Scrub prompt (RC_Secrets cfg) = Inr t \<and> sent = [chat_request w cfg t] \<and> r = read_reply w cfg (rw_exchange w (chat_request w cfg t)))"
  by (auto simp: client_Diagnose_def Let_def split: sum.splits option.splits)

lemma Diagnose_contained:
  assumes "client_Diagnose w cfg prompt = (r, sent)"
  shows "length sent \<le> 1"
    and "list_all (\<lambda>q. sq_url q = strings_TrimSuffix (RC_BaseURL cfg) ''/'' @ ''/chat/completions'' \<and>
       list_all (\<lambda>sec. if sec = '''' then True else \<not> strings_Contains (sq_user q) sec) (RC_Secrets cfg)) sent"
    and "case r of Inl _ \<Rightarrow> True
      | Inr rep \<Rightarrow> RR_Action rep \<in> {ActionRestartContainer, ActionNone} \<and> length (RR_Rationale rep) \<le> 1200 \<and> length (RR_Summary rep) \<le> 4000"
proof -
  show "length sent \<le> 1" using Diagnose_cases [OF assms] by auto
  show "list_all (\<lambda>q. sq_url q = strings_TrimSuffix (RC_BaseURL cfg) ''/'' @ ''/chat/completions'' \<and>
       list_all (\<lambda>sec. if sec = '''' then True else \<not> strings_Contains (sq_user q) sec) (RC_Secrets cfg)) sent"
    using Diagnose_cases [OF assms] Scrub_clean [of prompt "RC_Secrets cfg"] by (auto simp: chat_request_def list_all_iff)
  show "case r of Inl _ \<Rightarrow> True
      | Inr rep \<Rightarrow> RR_Action rep \<in> {ActionRestartContainer, ActionNone} \<and> length (RR_Rationale rep) \<le> 1200 \<and> length (RR_Summary rep) \<le> 4000"
    using Diagnose_cases [OF assms] read_reply_Inr [of w cfg _ "projr r"]
    by (cases r) (auto simp: maxRationaleRunes_def maxSummaryRunes_def)
qed


end
