(* ===== verification/Wiring.thy ===== *)
theory Wiring
  imports Web Probers Reasoner
begin

text \<open>
  The composition root (\<open>cmd/server-assistant/main.go\<close>, \<open>commands_wiring.go\<close>) and the notifiers
  (\<open>internal/notifier\<close>): what \<open>run\<close> builds from a loaded configuration, in its order and with every
  early return, the dashboard it serves, the secrets it hands to the Reasoner and the reload watcher. The
  calls that touch the outside (the store, the key files, the bot library) are the environment
  \<open>startup_env\<close>. A nil interface is \<open>None\<close>. The theorem relates the configuration's checks to what the
  constructors need; the lemmas record where they do not meet.
\<close>

section \<open>Notifiers\<close>

datatype chatID = ChatNumber int | ChatName string

definition parseChatID :: "string \<Rightarrow> chatID" where
  "parseChatID s = (case ParseInt s of Some n \<Rightarrow> ChatNumber n | None \<Rightarrow> ChatName s)"

definition alert_text :: "Alert \<Rightarrow> string" where
  "alert_text a =
     (if Alert_Message a = '''' then Alert_Subject a @ '' is now '' @ Status_String (Alert_Status a) else Alert_Message a)"

text \<open>The message that is sent and the error that is returned; \<open>send\<close> is the bot library's answer.\<close>

definition Telegram_Notify :: "(chatID \<Rightarrow> string \<Rightarrow> string option) \<Rightarrow> chatID \<Rightarrow> Alert \<Rightarrow> string \<times> string option" where
  "Telegram_Notify send chat a =
     (alert_text a, map_option (\<lambda>e. ''telegram: notify '' @ go_quote (Alert_Subject a) @ '': '' @ e) (send chat (alert_text a)))"

definition Stub_Notify :: "Alert \<Rightarrow> string option" where
  "Stub_Notify a = None"

datatype notifier = Stub | Telegram chatID

text \<open>\<open>bot_New\<close> is the library's constructor, which fails on an empty token.\<close>

definition NewTelegram :: "(string \<Rightarrow> string option) \<Rightarrow> string \<Rightarrow> string \<Rightarrow> string + notifier" where
  "NewTelegram bot_New token chat =
     (case bot_New token of Some e \<Rightarrow> Inl (''telegram: init bot: '' @ e) | None \<Rightarrow> Inr (Telegram (parseChatID chat)))"

section \<open>Constants\<close>

definition telegramTimeout :: duration where
  "telegramTimeout = 10 * nsSecond"

definition configReloadInterval :: duration where
  "configReloadInterval = 2 * nsSecond"

definition harnessProbePoll :: duration where
  "harnessProbePoll = 60 * nsSecond"

definition harnessProbeThreshold :: duration where
  "harnessProbeThreshold = 30 * nsSecond"

section \<open>The environment of a start\<close>

record startup_env =
  se_open :: io
  se_migrate :: io
  se_bot :: "string \<Rightarrow> string option"
  se_read :: "string \<Rightarrow> string + string"
  se_hostkey :: "string \<Rightarrow> string option"
  se_list :: io
  se_save :: "string \<Rightarrow> io"
  se_resume :: io
  se_scripts :: io
  se_db :: DB

record ssh_runner =
  SR_cfg :: ssh_config
  SR_User :: string
  SR_Timeout :: duration
  SR_HostKey :: "string option"

definition sshRunnerFor :: "startup_env \<Rightarrow> SSHConfig \<Rightarrow> string + ssh_runner" where
  "sshRunnerFor env c =
     res_bind (if SSH_KeyFile c \<noteq> '''' then res_wrap (\<lambda>e. ''read ssh key_file: '' @ e) (se_read env (SSH_KeyFile c)) else Inr '''') (\<lambda>keyPEM.
     res_bind (ParseHostKey (se_hostkey env) (SSH_HostKey c)) (\<lambda>(hostKey, insecure).
     Inr \<lparr>SR_cfg = \<lparr>SC_Address = SSH_Address c, SC_Password = SSH_Password c, SC_PrivateKey = keyPEM\<rparr>,
          SR_User = SSH_User c, SR_Timeout = SSH_probeTimeout c, SR_HostKey = hostKey\<rparr>))"

text \<open>The secrets that are scrubbed out of a prompt; one-byte values are left out.\<close>

definition add_secret :: "string \<Rightarrow> string list" where
  "add_secret s = (if length s \<ge> 2 then [s] else [])"

definition harnessSecrets :: "Config \<Rightarrow> string list" where
  "harnessSecrets cfg =
     (case C_SSH cfg of None \<Rightarrow> [] | Some s \<Rightarrow> add_secret (SSH_Password s)) @
     (case C_Harness cfg of
        None \<Rightarrow> []
      | Some h \<Rightarrow> add_secret (Re_APIKey (Ha_Reasoner h)) @
          (case Ha_WriteSSH h of None \<Rightarrow> [] | Some w \<Rightarrow> add_secret (SSH_Password w))) @
     add_secret (Te_BotToken (C_Telegram cfg))"

section \<open>Services and probers\<close>

datatype prober_spec =
    NewContainerProbe string "ssh_runner option" string
  | NewTCP string string duration
  | NewHTTP string string duration
  | HarnessProber
  | NewHostMetricsProbe string "ssh_runner option"
  | NewReachability string string duration

definition prober_for :: "ssh_runner option \<Rightarrow> ServiceConfig \<Rightarrow> prober_spec" where
  "prober_for runner s =
     (if Sv_Container s \<noteq> '''' then NewContainerProbe (Sv_Name s) runner (Sv_Container s)
      else if Sv_TCPAddr s \<noteq> '''' then NewTCP (Sv_Name s) (Sv_TCPAddr s) (Sv_probeTimeout s)
      else NewHTTP (Sv_Name s) (Sv_URL s) (Sv_probeTimeout s))"

definition knobs_of :: "ServiceConfig \<Rightarrow> Service" where
  "knobs_of s = \<lparr>Svc_Name = Sv_Name s, Svc_Threshold = Sv_threshold s, Svc_Poll = Sv_poll s, Svc_DebounceN = Sv_DebounceN s\<rparr>"

definition services_for :: "ssh_runner option \<Rightarrow> ServiceConfig list \<Rightarrow> (Service \<times> prober_spec) list" where
  "services_for runner ss = map (\<lambda>s. (knobs_of s, prober_for runner s)) ss"

definition harness_service :: "Service \<times> prober_spec" where
  "harness_service =
     (\<lparr>Svc_Name = ''harness'', Svc_Threshold = harnessProbeThreshold, Svc_Poll = harnessProbePoll, Svc_DebounceN = 2\<rparr>, HarnessProber)"

definition host_prober :: "ssh_runner option \<Rightarrow> HostConfig \<Rightarrow> prober_spec" where
  "host_prober runner h =
     (if Ho_SSHMetrics h then NewHostMetricsProbe (Ho_Name h) runner
      else NewReachability (Ho_Name h) (Ho_Address h) (Ho_probeTimeout h))"

section \<open>The harness\<close>

datatype wired_tool =
    ContainerStatus ssh_runner "(string \<times> string) list"
  | ContainerLogs ssh_runner "(string \<times> string) list" int
  | StatusHistory int

fun tool_Name :: "wired_tool \<Rightarrow> string" where
  "tool_Name (ContainerStatus r ts) = ''container_status''"
| "tool_Name (ContainerLogs r ts n) = ''container_logs''"
| "tool_Name (StatusHistory n) = ''status_history''"

record wired_harness =
  HW_opts :: Options
  HW_tools :: "wired_tool list"
  HW_reasoner :: reasoner_Config
  HW_actuator :: "(ssh_runner \<times> string list) option"
  HW_wallClock :: duration
  HW_approvalTimeout :: duration
  HW_outcomeWindow :: duration

definition harness_tools :: "ssh_runner \<Rightarrow> HarnessConfig \<Rightarrow> wired_tool list" where
  "harness_tools runner h =
     [ContainerStatus runner (Ha_Targets h), ContainerLogs runner (Ha_Targets h) (ContainerLogs_lines (Ha_LogLines h)),
      StatusHistory (StatusHistory_limit (Ce_MaxToolCalls (Ha_Ceilings h) * 10))]"

definition build_harness :: "Config \<Rightarrow> HarnessConfig \<Rightarrow> HarnessMode \<Rightarrow> ssh_runner \<Rightarrow> ssh_runner option \<Rightarrow> wired_harness" where
  "build_harness cfg h mode runner writer =
     \<lparr>HW_opts = \<lparr>o_Mode = mode, o_Targets = Ha_Targets h, o_Tools = map tool_Name (harness_tools runner h),
        o_MaxToolCalls = Ce_MaxToolCalls (Ha_Ceilings h), o_Cooldown = Ha_Cooldown h\<rparr>,
      HW_tools = harness_tools runner h,
      HW_reasoner = reasoner_New \<lparr>RC_BaseURL = Re_BaseURL (Ha_Reasoner h), RC_Model = Re_Model (Ha_Reasoner h),
        RC_APIKey = Re_APIKey (Ha_Reasoner h), RC_Timeout = Re_Timeout (Ha_Reasoner h), RC_Secrets = harnessSecrets cfg\<rparr>,
      HW_actuator = map_option (\<lambda>w. (w, Ha_AllowRestart h)) writer,
      HW_wallClock = Ce_WallClock (Ha_Ceilings h), HW_approvalTimeout = Ha_ApprovalTimeout h,
      HW_outcomeWindow = Ha_OutcomeWindow h\<rparr>"

text \<open>The scoped write credential's runner, when there is one.\<close>

definition write_runner :: "startup_env \<Rightarrow> HarnessConfig \<Rightarrow> string + ssh_runner option" where
  "write_runner env h =
     (case Ha_WriteSSH h of None \<Rightarrow> Inr None | Some w \<Rightarrow> res_bind (sshRunnerFor env w) (\<lambda>r. Inr (Some r)))"

text \<open>The harness block of \<open>run\<close>: nothing when the mode is off, else the harness and the store after reconciliation.\<close>

definition start_harness ::
  "startup_env \<Rightarrow> Config \<Rightarrow> HarnessConfig \<Rightarrow> ssh_runner option \<Rightarrow> string + wired_harness option \<times> DB" where
  "start_harness env cfg h sshRunner =
     res_bind (ParseHarnessMode (Ha_Mode h)) (\<lambda>mode.
       if mode = HarnessOff then Inr (None, se_db env)
       else (case sshRunner of
           None \<Rightarrow> Inl (''harness enabled but no ssh: block '' @ em_dash_text @ '' the read-only Diagnosis tools need it'')
         | Some runner \<Rightarrow>
             res_bind (write_runner env h) (\<lambda>writer.
               case Reconcile (se_list env) (se_save env) (se_db env) of
                 (Some e, db) \<Rightarrow> Inl (''harness reconcile: '' @ e)
               | (None, db) \<Rightarrow> Inr (Some (build_harness cfg h mode runner writer), db))))"

section \<open>run\<close>

record Running =
  R_notify :: notifier
  R_services :: "(Service \<times> prober_spec) list"
  R_host :: "(Host \<times> prober_spec) option"
  R_harness :: "wired_harness option"
  R_monitor :: MonitorState
  R_unraid :: bool
  R_sampler :: "(duration \<times> duration) option"
  R_executor :: "Executor option"
  R_mcp :: "ServerOptions option"
  R_routes :: "string list"
  R_addr :: string

text \<open>\<open>dashboard\<close>: a nil \<open>*harness.Harness\<close> becomes a nil interface; \<open>webProposals\<close> and \<open>webCommands\<close> do the same
  for their own types.\<close>

definition dashboard :: "bool \<Rightarrow> bool \<Rightarrow> bool \<Rightarrow> bool \<Rightarrow> string list" where
  "dashboard hs us ps cs =
     (if \<not> hs \<and> \<not> us \<and> \<not> ps \<and> \<not> cs then buildMux False False False False else buildMux hs us ps cs)"

definition start_host :: "ssh_runner option \<Rightarrow> HostConfig \<Rightarrow> Host \<times> prober_spec" where
  "start_host runner h =
     (\<lparr>Host_Name = Ho_Name h, Host_Poll = Ho_poll h, Host_DebounceN = Ho_DebounceN h\<rparr>, host_prober runner h)"

definition start_monitor :: "Config \<Rightarrow> DB \<Rightarrow> Service list \<Rightarrow> bool \<Rightarrow> Host option \<Rightarrow> MonitorState" where
  "start_monitor cfg db svcs sink host =
     (let m1 = New db svcs;
          m2 = (if sink then SetCommitSink m1 else m1);
          m3 = SetRetention (Hi_window (C_History cfg)) m2 in
      case host of None \<Rightarrow> m3 | Some h \<Rightarrow> SetHost h m3)"

definition start_notifier :: "startup_env \<Rightarrow> Config \<Rightarrow> string + notifier" where
  "start_notifier env cfg =
     (if Configured (C_Telegram cfg) then NewTelegram (se_bot env) (Te_BotToken (C_Telegram cfg)) (Te_ChatID (C_Telegram cfg))
      else Inr Stub)"

definition start_ssh :: "startup_env \<Rightarrow> Config \<Rightarrow> string + ssh_runner option" where
  "start_ssh env cfg =
     (case C_SSH cfg of None \<Rightarrow> Inr None | Some c \<Rightarrow> res_bind (sshRunnerFor env c) (\<lambda>r. Inr (Some r)))"

definition io_check :: "io \<Rightarrow> string + unit" where
  "io_check io = (case io of Some e \<Rightarrow> Inl e | None \<Rightarrow> Inr ())"

text \<open>\<open>run\<close> from the loaded configuration to the point where the goroutines start, in two halves: up to the
  Harness block, and from there on. A nil \<open>cfg.Harness\<close> would be a panic.\<close>

definition start_base :: "startup_env \<Rightarrow> Config \<Rightarrow> string + notifier \<times> ssh_runner option" where
  "start_base env cfg =
     res_bind (io_check (se_open env)) (\<lambda>_.
     res_bind (io_check (se_migrate env)) (\<lambda>_.
     res_bind (start_notifier env cfg) (\<lambda>notify.
     res_bind (start_ssh env cfg) (\<lambda>sshRunner. Inr (notify, sshRunner)))))"

definition start_rest :: "startup_env \<Rightarrow> Config \<Rightarrow> HarnessConfig \<Rightarrow> notifier \<Rightarrow> ssh_runner option \<Rightarrow> string + Running" where
  "start_rest env cfg h notify sshRunner =
     res_bind (start_harness env cfg h sshRunner) (\<lambda>(hs, db).
     let svcs = services_for sshRunner (C_Services cfg) @ (if hs \<noteq> None then [harness_service] else []);
         host = map_option (start_host sshRunner) (C_Host cfg);
         us = (C_Unraid cfg \<noteq> None) in
     (case Resume (se_resume env) (start_monitor cfg db (map fst svcs) (hs \<noteq> None) (map_option fst host)) of
        (Some e, m) \<Rightarrow> Inl e
      | (None, m) \<Rightarrow>
          res_bind (if us then io_check (se_scripts env) else Inr ()) (\<lambda>_.
          Inr \<lparr>R_notify = notify, R_services = svcs, R_host = host, R_harness = hs, R_monitor = m, R_unraid = us,
               R_sampler = (if us then Some (Sa_interval (C_Sampler cfg), Sa_retention (C_Sampler cfg)) else None),
               R_executor = (if us then Some (wired_executor (C_Scripts cfg)) else None),
               R_mcp = (if us then Some \<lparr>SO_DashboardBaseURL = MC_DashboardBaseURL (C_MCP cfg),
                           SO_AuthToken = MC_AuthToken (C_MCP cfg), SO_Trends = True\<rparr> else None),
               R_routes = dashboard (hs \<noteq> None) us us us @ (if us then [''/mcp''] else []),
               R_addr = C_HTTPAddr cfg\<rparr>)))"

definition start_up :: "startup_env \<Rightarrow> Config \<Rightarrow> (string + Running) go_result" where
  "start_up env cfg =
     (case start_base env cfg of
        Inl e \<Rightarrow> Returns (Inl e)
      | Inr (notify, sshRunner) \<Rightarrow>
          (case C_Harness cfg of None \<Rightarrow> Panics | Some h \<Rightarrow> Returns (start_rest env cfg h notify sshRunner)))"

section \<open>The reload watcher\<close>

definition reloadKnobs :: "Config cfg \<Rightarrow> Service list cfg" where
  "reloadKnobs loaded = res_bind loaded (\<lambda>cfg. Inr (map knobs_of (C_Services cfg)))"

text \<open>One tick: what \<open>os.Stat\<close> says and what \<open>Load\<close> would return; the state is the last modification time seen and the monitor.\<close>

definition watch_tick :: "string + gotime \<Rightarrow> Config cfg \<Rightarrow> gotime \<times> MonitorState \<Rightarrow> gotime \<times> MonitorState" where
  "watch_tick stat loaded st =
     (case stat of
        Inl e \<Rightarrow> st
      | Inr modt \<Rightarrow>
          if modt = fst st then st
          else (case reloadKnobs loaded of
              Inl e \<Rightarrow> (modt, snd st)
            | Inr knobs \<Rightarrow> (modt, Reconfigure knobs (snd st))))"

section \<open>What the constructors need\<close>

fun prober_ready :: "prober_spec \<Rightarrow> bool" where
  "prober_ready (NewContainerProbe nm r c) \<longleftrightarrow> r \<noteq> None \<and> c \<noteq> ''''"
| "prober_ready (NewTCP nm addr d) \<longleftrightarrow> addr \<noteq> '''' \<and> pos_dur d"
| "prober_ready (NewHTTP nm url d) \<longleftrightarrow> url \<noteq> '''' \<and> pos_dur d"
| "prober_ready HarnessProber \<longleftrightarrow> True"
| "prober_ready (NewHostMetricsProbe nm r) \<longleftrightarrow> r \<noteq> None"
| "prober_ready (NewReachability nm addr d) \<longleftrightarrow> addr \<noteq> '''' \<and> pos_dur d"

definition service_ready :: "Service \<times> prober_spec \<Rightarrow> bool" where
  "service_ready sp \<longleftrightarrow> pos_dur (Svc_Poll (fst sp)) \<and> pos_dur (Svc_Threshold (fst sp)) \<and> 1 \<le> Svc_DebounceN (fst sp) \<and> prober_ready (snd sp)"

definition host_ready :: "Host \<times> prober_spec \<Rightarrow> bool" where
  "host_ready hp \<longleftrightarrow> pos_dur (Host_Poll (fst hp)) \<and> 1 \<le> Host_DebounceN (fst hp) \<and> prober_ready (snd hp)"

text \<open>In live mode there is an actuator whose allowlist covers every target; every bound is positive; and no
  registered secret is so short that scrubbing would refuse every prompt.\<close>

definition harness_ready :: "wired_harness \<Rightarrow> bool" where
  "harness_ready hw \<longleftrightarrow>
     o_Mode (HW_opts hw) \<noteq> HarnessOff \<and> 1 \<le> o_MaxToolCalls (HW_opts hw) \<and> o_MaxToolCalls (HW_opts hw) \<le> 20 \<and>
     0 < o_Cooldown (HW_opts hw) \<and> 0 < HW_wallClock hw \<and> 0 < HW_approvalTimeout hw \<and> 0 < HW_outcomeWindow hw \<and>
     0 < RC_Timeout (HW_reasoner hw) \<and> (\<forall>sec \<in> set (RC_Secrets (HW_reasoner hw)). 2 \<le> length sec) \<and>
     (o_Mode (HW_opts hw) = HarnessLive \<longrightarrow>
        (case HW_actuator hw of
           None \<Rightarrow> False
         | Some (w, allow) \<Rightarrow> pos_dur (SR_Timeout w) \<and> snd ` set (o_Targets (HW_opts hw)) \<subseteq> set allow \<and> list_all containerNameRe allow))"

text \<open>What each block of the configuration asks for. An SSH runner has the address, user, password, timeout, key file and host key
  of its block; a Service has the knobs of its block and exactly the prober for the one kind of target that the block
  names, with the Service's name and that target.\<close>

definition runner_from :: "startup_env \<Rightarrow> SSHConfig \<Rightarrow> ssh_runner \<Rightarrow> bool" where
  "runner_from env c r \<longleftrightarrow>
     SC_Address (SR_cfg r) = SSH_Address c \<and> SC_Password (SR_cfg r) = SSH_Password c \<and> SR_User r = SSH_User c \<and>
     SR_Timeout r = SSH_probeTimeout c \<and>
     (if SSH_KeyFile c = '''' then SC_PrivateKey (SR_cfg r) = '''' else se_read env (SSH_KeyFile c) = Inr (SC_PrivateKey (SR_cfg r))) \<and>
     SR_HostKey r = (if SSH_HostKey c = '''' then None else se_hostkey env (SSH_HostKey c))"

inductive service_from :: "startup_env \<Rightarrow> Config \<Rightarrow> ServiceConfig \<Rightarrow> Service \<times> prober_spec \<Rightarrow> bool"
  for env :: startup_env and cfg :: Config where
  container: "Sv_Container s \<noteq> '''' \<Longrightarrow> Sv_TCPAddr s = '''' \<Longrightarrow> Sv_URL s = '''' \<Longrightarrow> C_SSH cfg = Some c \<Longrightarrow> runner_from env c r \<Longrightarrow>
    service_from env cfg s (\<lparr>Svc_Name = Sv_Name s, Svc_Threshold = Sv_threshold s, Svc_Poll = Sv_poll s, Svc_DebounceN = Sv_DebounceN s\<rparr>,
      NewContainerProbe (Sv_Name s) (Some r) (Sv_Container s))"
| tcp: "Sv_Container s = '''' \<Longrightarrow> Sv_TCPAddr s \<noteq> '''' \<Longrightarrow> Sv_URL s = '''' \<Longrightarrow>
    service_from env cfg s (\<lparr>Svc_Name = Sv_Name s, Svc_Threshold = Sv_threshold s, Svc_Poll = Sv_poll s, Svc_DebounceN = Sv_DebounceN s\<rparr>,
      NewTCP (Sv_Name s) (Sv_TCPAddr s) (Sv_probeTimeout s))"
| http: "Sv_Container s = '''' \<Longrightarrow> Sv_TCPAddr s = '''' \<Longrightarrow> Sv_URL s \<noteq> '''' \<Longrightarrow>
    service_from env cfg s (\<lparr>Svc_Name = Sv_Name s, Svc_Threshold = Sv_threshold s, Svc_Poll = Sv_poll s, Svc_DebounceN = Sv_DebounceN s\<rparr>,
      NewHTTP (Sv_Name s) (Sv_URL s) (Sv_probeTimeout s))"

inductive host_from :: "startup_env \<Rightarrow> Config \<Rightarrow> HostConfig \<Rightarrow> Host \<times> prober_spec \<Rightarrow> bool"
  for env :: startup_env and cfg :: Config where
  metrics: "Ho_SSHMetrics h \<Longrightarrow> C_SSH cfg = Some c \<Longrightarrow> runner_from env c r \<Longrightarrow>
    host_from env cfg h (\<lparr>Host_Name = Ho_Name h, Host_Poll = Ho_poll h, Host_DebounceN = Ho_DebounceN h\<rparr>, NewHostMetricsProbe (Ho_Name h) (Some r))"
| reach: "\<not> Ho_SSHMetrics h \<Longrightarrow>
    host_from env cfg h (\<lparr>Host_Name = Ho_Name h, Host_Poll = Ho_poll h, Host_DebounceN = Ho_DebounceN h\<rparr>,
      NewReachability (Ho_Name h) (Ho_Address h) (Ho_probeTimeout h))"

definition harness_from :: "startup_env \<Rightarrow> Config \<Rightarrow> HarnessConfig \<Rightarrow> wired_harness \<Rightarrow> bool" where
  "harness_from env cfg h hw \<longleftrightarrow>
     ParseHarnessMode (Ha_Mode h) = Inr (o_Mode (HW_opts hw)) \<and> o_Targets (HW_opts hw) = Ha_Targets h \<and>
     (\<exists>c r n m. C_SSH cfg = Some c \<and> runner_from env c r \<and>
        HW_tools hw = [ContainerStatus r (Ha_Targets h), ContainerLogs r (Ha_Targets h) n, StatusHistory m]) \<and>
     (case Ha_WriteSSH h of
        None \<Rightarrow> HW_actuator hw = None
      | Some w \<Rightarrow> (\<exists>wr. HW_actuator hw = Some (wr, Ha_AllowRestart h) \<and> runner_from env w wr)) \<and>
     RC_BaseURL (HW_reasoner hw) = Re_BaseURL (Ha_Reasoner h) \<and> RC_Model (HW_reasoner hw) = Re_Model (Ha_Reasoner h)"

lemma loaded_acceptable:
  assumes "Load parse look unmarshal path contents = Inr c"
  shows "acceptable parse c" "filled c = c" "C_Harness c \<noteq> None"
proof -
  obtain c1 where "validate parse c1 = Inr c" using assms by (auto simp: Load_def res_iff)
  then have "acceptable parse c1" and c: "c = filled c1" by (simp_all add: validate_iff)
  then show "acceptable parse c" "filled c = c" using acceptable_filled by (simp_all add: filled_idem)
  show "C_Harness c \<noteq> None" unfolding c by (simp add: filled_def)
qed

lemma loaded_safe: "Load parse look unmarshal path contents = Inr c \<Longrightarrow> safe_config parse c"
  using loaded_acceptable [of parse look unmarshal path contents c] acceptable_safe [of parse c] by simp

lemma services_ready:
  assumes "safe_config parse cfg" "start_ssh env cfg = Inr runner"
  shows "list_all service_ready (services_for runner (C_Services cfg))"
proof -
  have runner: "C_SSH cfg \<noteq> None \<Longrightarrow> runner \<noteq> None"
    using assms(2) by (auto simp: start_ssh_def res_iff split: option.splits)
  have "service_ready (knobs_of s, prober_for runner s)" if "s \<in> set (C_Services cfg)" for s
  proof -
    have "one_kind s" "pos_dur (Sv_poll s)" "pos_dur (Sv_probeTimeout s)" "pos_dur (Sv_threshold s)" "1 \<le> Sv_DebounceN s"
      "Sv_Container s = [] \<or> C_SSH cfg \<noteq> None"
      using assms(1) that by (simp_all add: safe_config_def list_all_iff)
    then show ?thesis using runner by (auto simp: service_ready_def prober_for_def knobs_of_def one_kind_def)
  qed
  then show ?thesis by (simp add: services_for_def list_all_iff)
qed

lemma sshRunnerFor_from: "sshRunnerFor env c = Inr r \<Longrightarrow> runner_from env c r"
  by (auto simp: sshRunnerFor_def runner_from_def ParseHostKey_def res_iff split: prod.splits if_splits option.splits)

lemma start_ssh_from: "start_ssh env cfg = Inr runner \<Longrightarrow> rel_option (runner_from env) (C_SSH cfg) runner"
  by (auto simp: start_ssh_def res_iff dest: sshRunnerFor_from split: option.splits)

lemma services_from:
  assumes "safe_config parse cfg" "start_ssh env cfg = Inr runner"
  shows "list_all2 (service_from env cfg) (C_Services cfg) (services_for runner (C_Services cfg))"
proof -
  have "service_from env cfg s (knobs_of s, prober_for runner s)" if "s \<in> set (C_Services cfg)" for s
  proof -
    have kind: "one_kind s" and ssh: "Sv_Container s = [] \<or> C_SSH cfg \<noteq> None"
      using assms(1) that by (simp_all add: safe_config_def list_all_iff)
    show ?thesis
    proof (cases "Sv_Container s = []")
      case True
      then show ?thesis using kind
        by (cases "Sv_TCPAddr s = []") (auto simp: knobs_of_def prober_for_def one_kind_def intro: service_from.intros)
    next
      case False
      then obtain c where c: "C_SSH cfg = Some c" using ssh by blast
      then obtain r where "runner = Some r" "runner_from env c r" using start_ssh_from [OF assms(2)] by (cases runner) auto
      then show ?thesis using False kind c
        by (auto simp: knobs_of_def prober_for_def one_kind_def intro: service_from.intros)
    qed
  qed
  then show ?thesis by (simp add: services_for_def list_all2_conv_all_nth)
qed

lemma host_from_block:
  assumes "acceptable parse cfg" "start_ssh env cfg = Inr runner"
  shows "rel_option (host_from env cfg) (C_Host cfg) (map_option (start_host runner) (C_Host cfg))"
proof (cases "C_Host cfg")
  case (Some h)
  have "host_from env cfg h (start_host runner h)"
  proof (cases "Ho_SSHMetrics h")
    case True
    then obtain c where "C_SSH cfg = Some c" using assms(1) Some by (auto simp: acceptable_def)
    then show ?thesis using True start_ssh_from [OF assms(2)]
      by (cases runner) (auto simp: start_host_def host_prober_def intro: host_from.intros)
  qed (auto simp: start_host_def host_prober_def intro: host_from.intros)
  then show ?thesis by (simp add: Some)
qed simp

lemma harness_service_ready: "service_ready harness_service"
  by (simp add: harness_service_def service_ready_def harnessProbePoll_def harnessProbeThreshold_def pos_dur_def ns_defs two63_def)

lemma hosts_ready:
  assumes "acceptable parse cfg" "safe_config parse cfg" "start_ssh env cfg = Inr runner"
  shows "pred_option host_ready (map_option (start_host runner) (C_Host cfg))"
proof (cases "C_Host cfg")
  case (Some h)
  have runner: "C_SSH cfg \<noteq> None \<Longrightarrow> runner \<noteq> None"
    using assms(3) by (auto simp: start_ssh_def res_iff split: option.splits)
  have "host_ok h" "Ho_SSHMetrics h \<longrightarrow> C_SSH cfg \<noteq> None" using assms(1) Some by (simp_all add: acceptable_def)
  moreover have "pos_dur (Ho_poll h)" "pos_dur (Ho_probeTimeout h)" "1 \<le> Ho_DebounceN h"
    using assms(2) Some by (simp_all add: safe_config_def)
  ultimately show ?thesis using Some runner by (auto simp: host_ready_def start_host_def host_prober_def host_ok_def)
qed simp

lemma secrets_long: "sec \<in> set (harnessSecrets cfg) \<Longrightarrow> 2 \<le> length sec"
  by (auto simp: harnessSecrets_def add_secret_def split: option.splits if_splits)

lemma sshRunnerFor_timeout: "sshRunnerFor env c = Inr r \<Longrightarrow> SR_Timeout r = SSH_probeTimeout c"
  by (auto simp: sshRunnerFor_def res_iff split: prod.splits)

lemma start_harness_Inr:
  "start_harness env cfg h runner = Inr (hs, db) \<longleftrightarrow>
     (ParseHarnessMode (Ha_Mode h) = Inr HarnessOff \<and> hs = None \<and> db = se_db env) \<or>
     (\<exists>mode r writer. ParseHarnessMode (Ha_Mode h) = Inr mode \<and> mode \<noteq> HarnessOff \<and> runner = Some r \<and>
        write_runner env h = Inr writer \<and> Reconcile (se_list env) (se_save env) (se_db env) = (None, db) \<and>
        hs = Some (build_harness cfg h mode r writer))"
  by (cases "Reconcile (se_list env) (se_save env) (se_db env)"; cases "fst (Reconcile (se_list env) (se_save env) (se_db env))")
    (auto simp: start_harness_def res_iff split: option.splits if_splits)

lemma harness_is_ready:
  assumes acc: "acceptable parse cfg" and safe: "safe_config parse cfg" and h: "C_Harness cfg = Some h"
    and start: "start_harness env cfg h runner = Inr (Some hw, db)"
  shows "harness_ready hw \<and> ParseHarnessMode (Ha_Mode h) = Inr (o_Mode (HW_opts hw))"
proof -
  have sh: "safe_harness parse cfg h" using safe h by (simp add: safe_config_def)
  obtain mode r writer where mode: "ParseHarnessMode (Ha_Mode h) = Inr mode" "mode \<noteq> HarnessOff"
    and w: "write_runner env h = Inr writer" and hw: "hw = build_harness cfg h mode r writer"
    using start by (auto simp: start_harness_Inr split: if_splits)
  have allow: "list_all containerNameRe (Ha_AllowRestart h)"
    using acc h by (simp add: acceptable_def harness_block_def harness_ok_def list_all_iff)
  have live: "case HW_actuator hw of None \<Rightarrow> False
     | Some (w, allow) \<Rightarrow> pos_dur (SR_Timeout w) \<and> snd ` set (Ha_Targets h) \<subseteq> set allow \<and> list_all containerNameRe allow"
    if is_live: "mode = HarnessLive"
  proof -
    obtain w0 where w0: "Ha_WriteSSH h = Some w0" "pos_dur (SSH_probeTimeout w0)"
      and cover: "snd ` set (Ha_Targets h) \<subseteq> set (Ha_AllowRestart h)"
      using sh mode is_live by (cases "Ha_WriteSSH h") (simp_all add: safe_harness_def)
    obtain wr where "writer = Some wr" "SR_Timeout wr = SSH_probeTimeout w0"
      using w w0(1) by (auto simp: write_runner_def res_iff dest: sshRunnerFor_timeout)
    then show ?thesis using w0 cover allow unfolding hw by (simp add: build_harness_def)
  qed
  have opts: "o_Mode (HW_opts hw) = mode" "o_Targets (HW_opts hw) = Ha_Targets h"
    "o_MaxToolCalls (HW_opts hw) = Ce_MaxToolCalls (Ha_Ceilings h)" "o_Cooldown (HW_opts hw) = Ha_Cooldown h"
    "HW_wallClock hw = Ce_WallClock (Ha_Ceilings h)" "HW_approvalTimeout hw = Ha_ApprovalTimeout h"
    "HW_outcomeWindow hw = Ha_OutcomeWindow h" "RC_Secrets (HW_reasoner hw) = harnessSecrets cfg"
    "0 < RC_Timeout (HW_reasoner hw)"
    by (simp_all add: hw build_harness_def reasoner_New_def defaultTimeout_def ns_defs)
  have "knobs_ok h" using sh by (simp add: safe_harness_def)
  then have "harness_ready hw \<longleftrightarrow> (mode = HarnessLive \<longrightarrow> (case HW_actuator hw of None \<Rightarrow> False
     | Some (w, allow) \<Rightarrow> pos_dur (SR_Timeout w) \<and> snd ` set (Ha_Targets h) \<subseteq> set allow \<and> list_all containerNameRe allow))"
    using mode secrets_long opts(9) unfolding harness_ready_def opts(1-8) by (auto simp: knobs_ok_def)
  then show ?thesis using live mode(1) opts by blast
qed

lemma harness_from_block:
  assumes "start_ssh env cfg = Inr runner" "start_harness env cfg h runner = Inr (Some hw, db)"
  shows "harness_from env cfg h hw"
proof -
  obtain mode r writer where m: "ParseHarnessMode (Ha_Mode h) = Inr mode" "runner = Some r" "write_runner env h = Inr writer"
    "hw = build_harness cfg h mode r writer"
    using assms(2) by (auto simp: start_harness_Inr split: if_splits)
  obtain c where c: "C_SSH cfg = Some c" "runner_from env c r" using start_ssh_from [OF assms(1)] m(2) by (cases "C_SSH cfg") auto
  have "case Ha_WriteSSH h of None \<Rightarrow> writer = None | Some w \<Rightarrow> (\<exists>wr. writer = Some wr \<and> runner_from env w wr)"
    using m(3) by (auto simp: write_runner_def res_iff dest: sshRunnerFor_from split: option.splits)
  then show ?thesis using m(1) c
    by (auto simp: harness_from_def m(4) build_harness_def harness_tools_def reasoner_New_def split: option.splits)
qed

section \<open>Startup on a loaded configuration\<close>

text \<open>Every call to the outside succeeds.\<close>

definition calls_succeed :: "startup_env \<Rightarrow> bool" where
  "calls_succeed env \<longleftrightarrow> se_open env = None \<and> se_migrate env = None \<and> (\<forall>t. se_bot env t = None) \<and>
     (\<forall>p. \<not> isl (se_read env p)) \<and> (\<forall>k. se_hostkey env k \<noteq> None) \<and> se_list env = None \<and> (\<forall>i. se_save env i = None) \<and>
     se_resume env = None \<and> se_scripts env = None"

lemma reconcile_loop_ok: "(\<And>i. save i = None) \<Longrightarrow> fst (reconcile_loop save cs db) = None"
  by (induction cs arbitrary: db) (auto simp: SaveHarnessCycle_def split: option.split)

lemma Reconcile_ok: "(\<And>i. save i = None) \<Longrightarrow> fst (Reconcile None save db) = None"
  by (simp add: Reconcile_def ListHarnessCycles_def reconcile_loop_ok)

lemma sshRunnerFor_ok: "calls_succeed env \<Longrightarrow> \<exists>r. sshRunnerFor env c = Inr r"
proof -
  assume ok: "calls_succeed env"
  have "\<exists>x. se_read env (SSH_KeyFile c) = Inr x" "\<exists>k. se_hostkey env (SSH_HostKey c) = Some k"
    using ok by (auto simp: calls_succeed_def isl_def) (metis isl_def sum.exhaust_sel)+
  then show ?thesis by (auto simp: sshRunnerFor_def ParseHostKey_def res_bind_def res_wrap_def)
qed

lemma start_base_ok:
  assumes "calls_succeed env"
  shows "\<exists>n r. start_base env cfg = Inr (n, r) \<and> (C_SSH cfg \<noteq> None \<longrightarrow> r \<noteq> None)"
proof -
  have "\<exists>n. start_notifier env cfg = Inr n"
    using assms by (simp add: start_notifier_def NewTelegram_def calls_succeed_def)
  moreover have "\<exists>r. start_ssh env cfg = Inr r \<and> (C_SSH cfg \<noteq> None \<longrightarrow> r \<noteq> None)"
    using sshRunnerFor_ok [OF assms, of "the (C_SSH cfg)"] by (cases "C_SSH cfg") (auto simp: start_ssh_def res_bind_def)
  ultimately show ?thesis
    using assms by (auto simp: start_base_def io_check_def calls_succeed_def res_bind_def)
qed

lemma start_harness_ok:
  assumes "calls_succeed env" "ParseHarnessMode (Ha_Mode h) = Inr mode" "mode = HarnessOff \<or> runner \<noteq> None"
  shows "\<exists>hs db. start_harness env cfg h runner = Inr (hs, db)"
proof (cases "mode = HarnessOff")
  case True
  then show ?thesis using assms(2) by (auto simp: start_harness_Inr)
next
  case False
  then obtain r where r: "runner = Some r" using assms(3) by auto
  obtain writer where w: "write_runner env h = Inr writer"
    using sshRunnerFor_ok [OF assms(1), of "the (Ha_WriteSSH h)"] by (cases "Ha_WriteSSH h") (auto simp: write_runner_def res_bind_def)
  obtain db where "Reconcile (se_list env) (se_save env) (se_db env) = (None, db)"
    using Reconcile_ok [of "se_save env" "se_db env"] assms(1) by (cases "Reconcile (se_list env) (se_save env) (se_db env)") (auto simp: calls_succeed_def)
  then show ?thesis using False assms(2) r w by (auto simp: start_harness_Inr)
qed

lemma start_rest_ok:
  assumes "calls_succeed env" "start_harness env cfg h runner = Inr (hs, db)"
  shows "\<exists>r. start_rest env cfg h n runner = Inr r"
  using assms by (auto simp: start_rest_def Resume_def LoadCommittedStatuses_def calls_succeed_def io_check_def res_bind_def Let_def)

lemma start_rest_Inr:
  assumes "start_rest env cfg h n runner = Inr r"
  shows "\<exists>db. start_harness env cfg h runner = Inr (R_harness r, db)"
    "R_services r = services_for runner (C_Services cfg) @ (if R_harness r \<noteq> None then [harness_service] else [])"
    "R_host r = map_option (start_host runner) (C_Host cfg)"
proof -
  obtain hs db where s: "start_harness env cfg h runner = Inr (hs, db)"
    using assms by (auto simp: start_rest_def res_iff)
  have r: "R_harness r = hs" "R_services r = services_for runner (C_Services cfg) @ (if hs \<noteq> None then [harness_service] else [])"
    "R_host r = map_option (start_host runner) (C_Host cfg)"
    using assms by (auto simp: start_rest_def s res_bind_def Let_def io_check_def split: prod.splits option.splits if_splits)
  show "\<exists>db. start_harness env cfg h runner = Inr (R_harness r, db)" using s r by simp
  show "R_services r = services_for runner (C_Services cfg) @ (if R_harness r \<noteq> None then [harness_service] else [])"
    "R_host r = map_option (start_host runner) (C_Host cfg)" using r by simp_all
qed

text \<open>C9: what is wired is what is configured. From any loaded configuration the start never panics; when it succeeds, the subjects are
  the configured Services in order and, with the harness on, the harness itself. Every Service has the knobs of its block and exactly the
  prober of the one kind its block names (container, TCP or HTTP), built with the Service's name, the address of the block and a positive
  timeout, a container probe with the SSH runner of the ssh block; the Host has the metrics or reachability probe of its block in
  the same way. The harness, when there is one, has the mode and targets of its block, tools that use the SSH runner of the ssh block, an
  actuator exactly when there is a write credential, with that credential and the configured allowlist, positive bounds and, in
  live mode, an allowlist that covers every target. With every outside call succeeding, the start fails only when the
  harness is on without an ssh block, which \<open>validate\<close> does not check.\<close>

theorem startup_well_typed:
  assumes "Load parse look unmarshal path contents = Inr cfg"
  shows "start_up env cfg \<noteq> Panics \<and>
    (\<forall>r. start_up env cfg = Returns (Inr r) \<longrightarrow>
       list_all service_ready (R_services r) \<and> pred_option host_ready (R_host r) \<and> pred_option harness_ready (R_harness r) \<and>
       (\<exists>svcs. R_services r = svcs @ (if R_harness r \<noteq> None then [harness_service] else []) \<and>
          list_all2 (service_from env cfg) (C_Services cfg) svcs) \<and>
       rel_option (host_from env cfg) (C_Host cfg) (R_host r) \<and>
       pred_option (harness_from env cfg (the (C_Harness cfg))) (R_harness r) \<and>
       map (\<lambda>sp. Svc_Name (fst sp)) (R_services r) =
         map Sv_Name (C_Services cfg) @ (if R_harness r \<noteq> None then [''harness''] else [])) \<and>
    (calls_succeed env \<longrightarrow>
       ((\<exists>r. start_up env cfg = Returns (Inr r)) \<longleftrightarrow>
        ParseHarnessMode (Ha_Mode (the (C_Harness cfg))) = Inr HarnessOff \<or> C_SSH cfg \<noteq> None))"
proof -
  have acc: "acceptable parse cfg" and safe: "safe_config parse cfg" using loaded_acceptable [OF assms] loaded_safe [OF assms] by simp_all
  obtain h where h: "C_Harness cfg = Some h" using loaded_acceptable(3) [OF assms] by blast
  have ready: "list_all service_ready (R_services r) \<and> pred_option host_ready (R_host r) \<and> pred_option harness_ready (R_harness r) \<and>
       (\<exists>svcs. R_services r = svcs @ (if R_harness r \<noteq> None then [harness_service] else []) \<and> list_all2 (service_from env cfg) (C_Services cfg) svcs) \<and>
       rel_option (host_from env cfg) (C_Host cfg) (R_host r) \<and> pred_option (harness_from env cfg h) (R_harness r) \<and>
       map (\<lambda>sp. Svc_Name (fst sp)) (R_services r) = map Sv_Name (C_Services cfg) @ (if R_harness r \<noteq> None then [''harness''] else [])"
    if started: "start_up env cfg = Returns (Inr r)" for r
  proof -
    obtain n runner where base: "start_base env cfg = Inr (n, runner)" and rest: "start_rest env cfg h n runner = Inr r"
      using started h by (cases "start_base env cfg") (auto simp: start_up_def split: prod.splits)
    have ssh: "start_ssh env cfg = Inr runner" using base by (auto simp: start_base_def res_iff)
    note parts = start_rest_Inr [OF rest]
    have "pred_option harness_ready (R_harness r)"
      using parts(1) harness_is_ready [OF acc safe h] by (cases "R_harness r") auto
    moreover have "map (\<lambda>sp. Svc_Name (fst sp)) (services_for runner (C_Services cfg)) = map Sv_Name (C_Services cfg)"
      by (simp add: services_for_def knobs_of_def)
    moreover have "pred_option (harness_from env cfg h) (R_harness r)"
      using parts(1) harness_from_block [OF ssh] by (cases "R_harness r") auto
    moreover have "\<exists>svcs. R_services r = svcs @ (if R_harness r \<noteq> None then [harness_service] else []) \<and> list_all2 (service_from env cfg) (C_Services cfg) svcs"
      using parts(2) services_from [OF safe ssh] by blast
    moreover have "rel_option (host_from env cfg) (C_Host cfg) (R_host r)" using parts(3) host_from_block [OF acc ssh] by simp
    ultimately show ?thesis
      using services_ready [OF safe ssh] harness_service_ready hosts_ready [OF acc safe ssh]
      by (simp add: parts(2,3)) (simp add: harness_service_def)
  qed
  have total: "(\<exists>r. start_up env cfg = Returns (Inr r)) \<longleftrightarrow> ParseHarnessMode (Ha_Mode h) = Inr HarnessOff \<or> C_SSH cfg \<noteq> None"
    if ok: "calls_succeed env"
  proof -
    obtain n runner where base: "start_base env cfg = Inr (n, runner)" and r: "C_SSH cfg \<noteq> None \<longrightarrow> runner \<noteq> None"
      using start_base_ok [OF ok] by blast
    have none: "C_SSH cfg = None \<Longrightarrow> runner = None" using base by (auto simp: start_base_def start_ssh_def res_iff)
    obtain mode where mode: "ParseHarnessMode (Ha_Mode h) = Inr mode"
      using safe h by (auto simp: safe_config_def safe_harness_def split: sum.splits)
    show ?thesis
    proof (cases "mode = HarnessOff \<or> C_SSH cfg \<noteq> None")
      case True
      then obtain hs db where "start_harness env cfg h runner = Inr (hs, db)"
        using start_harness_ok [OF ok mode] r by blast
      then show ?thesis using True base h mode start_rest_ok [OF ok] by (auto simp: start_up_def)
    next
      case False
      then have "start_harness env cfg h runner \<noteq> Inr (hs, db)" for hs db
        using mode none by (auto simp: start_harness_Inr)
      then have "start_rest env cfg h n runner \<noteq> Inr r" for r using start_rest_Inr(1) [of env cfg h n runner r] by blast
      then show ?thesis using False base h mode by (auto simp: start_up_def)
    qed
  qed
  have "start_up env cfg \<noteq> Panics" by (simp add: start_up_def h split: sum.split prod.split)
  with ready total h show ?thesis by simp
qed

section \<open>A concrete start\<close>

definition good_env :: startup_env where
  "good_env = \<lparr>se_open = None, se_migrate = None, se_bot = (\<lambda>_. None), se_read = (\<lambda>_. Inr ''PEM''), se_hostkey = Some,
     se_list = None, se_save = (\<lambda>_. None), se_resume = None, se_scripts = None, se_db = empty_DB\<rparr>"

definition sample_cfg :: Config where
  "sample_cfg = projr (sample_load (\<lambda>_. Some ''pw''))"

lemma sample_cfg_loaded: "Load sample_parse (\<lambda>_. Some ''pw'') (\<lambda>_. Inr sample_config) ''config.yaml'' (Inr '''') = Inr sample_cfg"
  using sample_loads by (cases "sample_load (\<lambda>_. Some ''pw'')") (simp_all add: sample_cfg_def sample_load_def)

theorem startup_well_typed_witness:
  "start_up good_env sample_cfg \<noteq> Panics \<and> (\<exists>r. start_up good_env sample_cfg = Returns (Inr r) \<and> list_all service_ready (R_services r))"
proof -
  have ok: "calls_succeed good_env" by (simp add: calls_succeed_def good_env_def)
  have ssh: "C_SSH sample_cfg \<noteq> None" by code_simp
  show ?thesis using startup_well_typed [OF sample_cfg_loaded, of good_env] ok ssh by blast
qed

section \<open>Where the pieces do not meet\<close>

text \<open>A configured Service may be called \<open>harness\<close>; with the harness on, two subjects then share the name.\<close>

lemma harness_subject_collides:
  assumes "start_rest env cfg h n runner = Inr r" "R_harness r \<noteq> None" "''harness'' \<in> Sv_Name ` set (C_Services cfg)"
  shows "\<not> distinct (map (\<lambda>sp. Svc_Name (fst sp)) (R_services r))"
  using start_rest_Inr(2) [OF assms(1)] assms(2,3)
  by (auto simp: services_for_def knobs_of_def harness_service_def)

definition colliding_config :: Config where
  "colliding_config = sample_config\<lparr>C_Services := C_Services sample_config @
     [\<lparr>Sv_Name = ''harness'', Sv_URL = ''http://tower/'', Sv_TCPAddr = '''', Sv_Container = '''', Sv_PollInterval = '''',
       Sv_Timeout = '''', Sv_LatencyThreshold = '''', Sv_DebounceN = 0, Sv_poll = 0, Sv_probeTimeout = 0, Sv_threshold = 0\<rparr>]\<rparr>"

lemma colliding_config_loads:
  "isl (Load sample_parse (\<lambda>_. Some ''pw'') (\<lambda>_. Inr colliding_config) ''config.yaml'' (Inr '''')) = False"
  by code_simp

text \<open>The secrets handed to the Reasoner do not depend on the Unraid API key or the MCP token.\<close>

lemma secrets_omit: "harnessSecrets (cfg\<lparr>C_Unraid := u, C_MCP := m\<rparr>) = harnessSecrets cfg"
  by (simp add: harnessSecrets_def)

lemma secrets_include:
  "C_SSH cfg = Some s \<Longrightarrow> 2 \<le> length (SSH_Password s) \<Longrightarrow> SSH_Password s \<in> set (harnessSecrets cfg)"
  "2 \<le> length (Te_BotToken (C_Telegram cfg)) \<Longrightarrow> Te_BotToken (C_Telegram cfg) \<in> set (harnessSecrets cfg)"
  "C_Harness cfg = Some h \<Longrightarrow> 2 \<le> length (Re_APIKey (Ha_Reasoner h)) \<Longrightarrow> Re_APIKey (Ha_Reasoner h) \<in> set (harnessSecrets cfg)"
  by (auto simp: harnessSecrets_def add_secret_def split: option.split)

text \<open>Because one-byte values are left out, scrubbing never refuses a prompt for the length of a secret; it
  can only refuse because a secret survived.\<close>

lemma wired_scrub_replaces: "\<exists>out. scrub_replace s (harnessSecrets cfg) = Inr out"
proof -
  have "\<forall>sec \<in> set secs. 2 \<le> length sec \<Longrightarrow> \<exists>out. scrub_replace s secs = Inr out" for secs
    by (induction secs arbitrary: s) auto
  then show ?thesis using secrets_long by blast
qed

section \<open>Reloading\<close>

text \<open>A rejected file changes nothing and is not tried again until it changes; an accepted one never changes the set
  of subjects, and a tick with an unchanged file does nothing.\<close>

lemma reload_rejected: "reloadKnobs loaded = Inl e \<Longrightarrow> t \<noteq> fst st \<Longrightarrow> watch_tick (Inr t) loaded st = (t, snd st)"
  by (simp add: watch_tick_def)

lemma reload_unchanged: "watch_tick (Inr (fst st)) loaded st = st"
  by (simp add: watch_tick_def)

lemma reload_subjects: "subjects (snd (watch_tick stat loaded st)) = subjects (snd st)"
  by (simp add: watch_tick_def Reconfigure_subjects split: sum.split)

lemma reload_run_subjects: "subjects (snd (fold (\<lambda>(stat, loaded). watch_tick stat loaded) ticks st)) = subjects (snd st)"
  by (induction ticks arbitrary: st) (auto simp: reload_subjects)

end
