(* ===== verification/System.thy ===== *)
theory System
  imports Wiring
begin

text \<open>
  The running daemon as one machine: the monitor, the harness and the dashboard that \<open>run\<close> of
  \<open>cmd/server-assistant/main.go\<close> starts, over the one store they share. The monitor's commit sink is
  \<open>ObserveCommit\<close>, called by the goroutine of the probe once the status is stored: until the call has
  happened the commit is due, and that subject is not probed again. The steps of the three components are theirs;
  \<open>sys_step\<close> interleaves them and hands the store from one to the other. Two logs are added: the cycle that each
  commit started, and the statuses fed to each debouncer. The theorem at the end follows a command line that
  reached the Host back to the click that approved it and the run of DOWN probes that began it.
\<close>

section \<open>The machine\<close>

record System =
  sy_mon :: MonitorState
  sy_web :: WebState
  sy_due :: "CommittedStatus list"
  sy_starts :: "(nat \<times> CommittedStatus) list"
  sy_obs :: "(nat option \<times> Status) list"

datatype sys_event =
    Spine mevent
  | Deliver nat string gotime
  | Dash web_event

text \<open>The state in which the goroutines of \<open>run\<close> start.\<close>

definition sys_start :: "Running \<Rightarrow> System" where
  "sys_start rn = \<lparr>sy_mon = R_monitor rn, sy_web = web_New (w_db (R_monitor rn)), sy_due = [], sy_starts = [], sy_obs = []\<rparr>"

definition share_db :: "DB \<Rightarrow> System \<Rightarrow> System" where
  "share_db db s =
     s\<lparr>sy_mon := (sy_mon s)\<lparr>w_db := db\<rparr>, sy_web := (sy_web s)\<lparr>ws_h := (ws_h (sy_web s))\<lparr>h_db := db\<rparr>\<rparr>\<rparr>"

text \<open>A subject whose commit is still being handed over does not begin another probe.\<close>

fun spine_ready :: "mevent \<Rightarrow> System \<Rightarrow> bool" where
  "spine_ready (SvcBegin i now) s =
     (i < length (m_svcs (sy_mon s)) \<and> rt_name (m_svcs (sy_mon s) ! i) \<notin> CS_Service ` set (sy_due s))"
| "spine_ready (HostProbe env) s =
     (case m_host (sy_mon s) of None \<Rightarrow> True | Some h \<Rightarrow> host_name h \<notin> CS_Service ` set (sy_due s))"
| "spine_ready e s = True"

text \<open>What a step of the monitor feeds to a debouncer: the subject (a service by its index, or the Host) and the status.\<close>

fun observed :: "mevent \<Rightarrow> MonitorState \<Rightarrow> (nat option \<times> Status) list" where
  "observed (SvcFinish i env) m =
     (case pe_probe env of
        Inr res \<Rightarrow> if i < length (m_svcs m) \<and> i \<in> set (m_inflight m) then [(Some i, svc_derived i res m)] else []
      | Inl e \<Rightarrow> [])"
| "observed (HostProbe env) m =
     (case (m_host m, pe_probe env) of (Some h, Inr res) \<Rightarrow> [(None, PR_Status res)] | _ \<Rightarrow> [])"
| "observed e m = []"

definition new_commits :: "mevent \<Rightarrow> MonitorState \<Rightarrow> CommittedStatus list" where
  "new_commits e m = drop (length (w_sink m)) (w_sink (mstep e m))"

fun dash_event :: "web_event \<Rightarrow> bool" where
  "dash_event (Engine (Commit cid now cs)) = False"
| "dash_event e = True"

fun sys_step :: "Options \<Rightarrow> formats \<Rightarrow> sys_event \<Rightarrow> System \<Rightarrow> System" where
  "sys_step opts fm (Spine e) s =
     (if spine_ready e s
      then share_db (w_db (mstep e (sy_mon s)))
        (s\<lparr>sy_mon := mstep e (sy_mon s), sy_due := sy_due s @ new_commits e (sy_mon s),
           sy_obs := sy_obs s @ observed e (sy_mon s)\<rparr>)
      else s)"
| "sys_step opts fm (Deliver k cid now) s =
     (if k < length (sy_due s)
      then let w = wstep opts fm (Engine (Commit cid now (sy_due s ! k))) (sy_web s); r = h_nextref (ws_h (sy_web s)) in
        s\<lparr>sy_web := w, sy_due := take k (sy_due s) @ drop (Suc k) (sy_due s),
          sy_starts := sy_starts s @ (if h_nextref (ws_h w) = r then [] else [(r, sy_due s ! k)])\<rparr>
      else s)"
| "sys_step opts fm (Dash e) s =
     (if dash_event e then let w = wstep opts fm e (sy_web s) in share_db (h_db (ws_h w)) (s\<lparr>sy_web := w\<rparr>) else s)"

text \<open>The command lines that the actuator of the harness sent to the Host so far.\<close>

definition ssh_lines :: "(string \<Rightarrow> string + string) \<Rightarrow> wired_harness \<Rightarrow> System \<Rightarrow> string list" where
  "ssh_lines runner wh s =
     (case HW_actuator wh of
        None \<Rightarrow> []
      | Some (w, allow) \<Rightarrow> concat (map (\<lambda>(r, target). snd (RestartContainer runner allow target)) (log_dispatch (ws_h (sy_web s)))))"

section \<open>The first step at which something holds\<close>

lemma fold_first:
  assumes "P (fold f es s)" "\<not> P s"
  shows "\<exists>pre e post. es = pre @ e # post \<and> \<not> P (fold f pre s) \<and> P (f e (fold f pre s))"
  using assms
proof (induction es rule: rev_induct)
  case (snoc e es)
  show ?case
  proof (cases "P (fold f es s)")
    case True
    with snoc.IH snoc.prems(2) show ?thesis by fastforce
  next
    case False
    with snoc.prems(1) show ?thesis by (intro exI [of _ es] exI [of _ e] exI [of _ "[]"]) simp
  qed
qed simp

section \<open>The debouncers and what they were fed\<close>

definition obs_for :: "nat option \<Rightarrow> (nat option \<times> Status) list \<Rightarrow> Status list" where
  "obs_for k os = map snd (filter (\<lambda>x. fst x = k) os)"

definition deb_ok :: "Status list \<Rightarrow> int \<Rightarrow> Debouncer \<Rightarrow> bool" where
  "deb_ok h n d \<longleftrightarrow> deb_n d = max 1 n \<and> deb_streak d \<le> trailing_run (deb_candidate d) h"

lemma deb_ok_New: "deb_ok h n (NewDebouncerWithStatus n c)"
  by (simp add: deb_ok_def NewDebouncerWithStatus_def trailing_run_def)

lemma deb_ok_Observe:
  assumes "deb_ok h n d"
  shows "deb_ok (h @ [s]) n (observe_next s d)"
    and "observe_changed s d \<Longrightarrow> max 1 n \<le> trailing_run s (h @ [s])"
proof -
  have "0 \<le> trailing_run s h" by (simp add: trailing_run_def)
  then show "deb_ok (h @ [s]) n (observe_next s d)" "observe_changed s d \<Longrightarrow> max 1 n \<le> trailing_run s (h @ [s])"
    using assms by (auto simp: deb_ok_def Observe_def Let_def trailing_run_snoc split: if_splits)
qed

definition obs_inv :: "MonitorState \<Rightarrow> (nat option \<times> Status) list \<Rightarrow> bool" where
  "obs_inv m os \<longleftrightarrow>
     (\<forall>i < length (m_svcs m). deb_ok (obs_for (Some i) os) (rt_debounceN (m_svcs m ! i)) (rt_deb (m_svcs m ! i))) \<and>
     (\<forall>h. m_host m = Some h \<longrightarrow> deb_ok (obs_for None os) (host_debounceN h) (host_deb h))"

lemma obs_for_append [simp]: "obs_for k (os @ [(j, s)]) = (if j = k then obs_for k os @ [s] else obs_for k os)"
  by (simp add: obs_for_def)

lemma obs_inv_frame: "obs_inv m os \<Longrightarrow> m_svcs m' = m_svcs m \<Longrightarrow> m_host m' = m_host m \<Longrightarrow> obs_inv m' os"
  by (simp add: obs_inv_def)

lemma obs_inv_finish:
  assumes "obs_inv m os" "pe_probe env = Inr res" "i < length (m_svcs m)"
  shows "obs_inv (probe_finish i env m) (os @ [(Some i, svc_derived i res m)])"
  using assms
  by (auto simp: obs_inv_def probe_finish_effects nth_list_update deb_ok_Observe)

lemma obs_inv_host:
  assumes "obs_inv m os" "m_host m = Some h" "pe_probe env = Inr res"
  shows "obs_inv (hostProbeOnce env m) (os @ [(None, PR_Status res)])"
  using assms by (auto simp: obs_inv_def hostProbeOnce_effects deb_ok_Observe)

lemma reconfigure_deb_ok:
  "deb_ok h (rt_debounceN rt) (rt_deb rt) \<Longrightarrow>
   deb_ok h (rt_debounceN (reconfigure_rt svcs rt)) (rt_deb (reconfigure_rt svcs rt))"
  by (auto simp: reconfigure_rt_def deb_ok_New split: option.split)

lemma obs_inv_mstep: "obs_inv m os \<Longrightarrow> obs_inv (mstep e m) (os @ observed e m)"
proof (cases e)
  case (SvcBegin i now)
  then show "obs_inv m os \<Longrightarrow> ?thesis"
    by (auto elim!: obs_inv_frame simp: case_prod_unfold probe_gate_parts Let_def)
next
  case (SvcFinish i env)
  let ?m = "m\<lparr>m_inflight := removeAll i (m_inflight m)\<rparr>"
  assume inv: "obs_inv m os"
  then have inv': "obs_inv ?m os" by (rule obs_inv_frame) simp_all
  show ?thesis
  proof (cases "pe_probe env")
    case (Inl err)
    with inv inv' SvcFinish show ?thesis by (simp add: probe_finish_error)
  next
    case (Inr res)
    with inv obs_inv_finish [OF inv' Inr, of i] SvcFinish show ?thesis by simp
  qed
next
  case (HostProbe env)
  assume inv: "obs_inv m os"
  show ?thesis
  proof (cases "m_host m = None \<or> (\<exists>err. pe_probe env = Inl err)")
    case True
    then have "hostProbeOnce env m = m" using hostProbeOnce_skip by blast
    with True inv HostProbe show ?thesis by (auto split: option.split sum.split)
  next
    case False
    then obtain h res where "m_host m = Some h" "pe_probe env = Inr res" by (metis not_None_eq obj_sumE)
    with inv HostProbe obs_inv_host show ?thesis by simp
  qed
next
  case (Reconf svcs)
  then show "obs_inv m os \<Longrightarrow> ?thesis"
    by (simp add: obs_inv_def Reconfigure_def reconfigure_deb_ok)
qed (simp_all add: obs_inv_def)

section \<open>Where a commit comes from\<close>

text \<open>The step \<open>e\<close> of the monitor is a probe of the subject of \<open>cs\<close> that read DOWN and completed a run of as many DOWN readings of that
  subject as its threshold asks for.\<close>

fun completes_down_run :: "(nat option \<times> Status) list \<Rightarrow> MonitorState \<Rightarrow> mevent \<Rightarrow> string \<Rightarrow> bool" where
  "completes_down_run os m (SvcFinish i env) subject \<longleftrightarrow>
     i < length (m_svcs m) \<and> rt_name (m_svcs m ! i) = subject \<and>
     (\<exists>res. pe_probe env = Inr res \<and> svc_derived i res m = StatusDown) \<and>
     max 1 (rt_debounceN (m_svcs m ! i)) \<le> trailing_run StatusDown (obs_for (Some i) os @ [StatusDown])"
| "completes_down_run os m (HostProbe env) subject \<longleftrightarrow>
     (\<exists>h res. m_host m = Some h \<and> host_name h = subject \<and> pe_probe env = Inr res \<and> PR_Status res = StatusDown \<and>
       max 1 (host_debounceN h) \<le> trailing_run StatusDown (obs_for None os @ [StatusDown]))"
| "completes_down_run os m e subject \<longleftrightarrow> False"

lemma commit_source:
  assumes cs: "cs \<in> set (new_commits e m)" and down: "CS_Status cs = StatusDown" and inv: "obs_inv m os"
  shows "completes_down_run os m e (CS_Service cs) \<and> stored_status (CS_Service cs) (w_db (mstep e m)) = StatusDown"
proof (cases e)
  case (SvcFinish i env)
  let ?m = "m\<lparr>m_inflight := removeAll i (m_inflight m)\<rparr>"
  have i: "i < length (m_svcs m)" and fin: "mstep e m = probe_finish i env ?m"
    using cs SvcFinish by (auto simp: new_commits_def split: if_splits)
  obtain res where res: "pe_probe env = Inr res"
    using cs SvcFinish fin by (cases "pe_probe env") (auto simp: new_commits_def probe_finish_error)
  have new: "svc_changed i res ?m" "pe_save_io env = None" "cs = svc_commit i res env ?m"
    using cs fin probe_finish_commits(2) [OF res, of i ?m] by (auto simp: new_commits_def split: if_splits)
  have "deb_ok (obs_for (Some i) os) (rt_debounceN (m_svcs m ! i)) (rt_deb (m_svcs m ! i))" using inv i by (simp add: obs_inv_def)
  from deb_ok_Observe(2) [OF this, of "svc_derived i res m"] new down i res SvcFinish
  have "completes_down_run os m e (CS_Service cs)" by simp
  moreover have "stored_status (CS_Service cs) (w_db (mstep e m)) = CS_Status cs"
    using stored_status_upsert [of "w_db (mstep e m)"] probe_finish_commits(1) [OF res, of i ?m] new fin by simp
  ultimately show ?thesis using down by simp
next
  case (HostProbe env)
  have "hostProbeOnce env m \<noteq> m" using cs HostProbe by (auto simp: new_commits_def)
  then have "\<not> (m_host m = None \<or> (\<exists>err. pe_probe env = Inl err))" using hostProbeOnce_skip by blast
  then obtain h res where h: "m_host m = Some h" and res: "pe_probe env = Inr res" by (metis not_None_eq obj_sumE)
  have new: "observe_changed (PR_Status res) (host_deb h)" "pe_save_io env = None" "cs = host_commit h res env"
    using cs HostProbe hostProbeOnce_commits(2) [OF h res] by (auto simp: new_commits_def split: if_splits)
  have "deb_ok (obs_for None os) (host_debounceN h) (host_deb h)" using inv h by (simp add: obs_inv_def)
  from deb_ok_Observe(2) [OF this, of "PR_Status res"] new down h res HostProbe
  have "completes_down_run os m e (CS_Service cs)" by simp
  moreover have "stored_status (CS_Service cs) (w_db (mstep e m)) = CS_Status cs"
    using stored_status_upsert [of "w_db (mstep e m)"] hostProbeOnce_commits(1) [OF h res] new HostProbe by simp
  ultimately show ?thesis using down by simp
qed (use cs in \<open>auto simp: new_commits_def case_prod_unfold Let_def probe_gate_parts Reconfigure_def split: if_splits\<close>)

section \<open>The cycle a commit started\<close>

lemma on_active_Some: "h_active (on_active f s) = Some a' \<Longrightarrow> \<exists>a. h_active s = Some a \<and> a' = f a"
  by (auto simp: on_active_def)

fun is_commit :: "hevent \<Rightarrow> bool" where
  "is_commit (Commit cid now cs) = True"
| "is_commit e = False"

lemma rc_step_active:
  "h_active (rc_step opts env p c s) = Some a' \<Longrightarrow> \<exists>a. h_active s = Some a \<and> cs_ref a = cs_ref a' \<and> cs_subject a = cs_subject a'"
  by (cases p) (auto simp: Let_def on_active_def split: if_splits option.splits)

lemma hstep_active:
  assumes "\<not> is_commit e" "h_active (hstep opts e s) = Some a'"
  shows "\<exists>a. h_active s = Some a \<and> cs_ref a = cs_ref a' \<and> cs_subject a = cs_subject a'"
  using assms
  by (cases e)
    (auto simp: runCycle_step_def Approve_def Deny_def decide_def Let_def send_decision_def Halt_def Rearm_def
      dest!: rc_step_active split: option.splits if_splits prod.splits)

lemma hstep_nextref:
  assumes "\<not> is_commit e"
  shows "h_nextref (hstep opts e s) = h_nextref s"
proof -
  have "h_nextref (rc_step opts env p c s) = h_nextref s" for env p c
    by (cases p) (auto simp: Let_def split: option.splits)
  then show ?thesis using assms
    by (cases e)
      (auto simp: runCycle_step_def Approve_def Deny_def decide_def Let_def send_decision_def Halt_def Rearm_def
        split: option.splits prod.splits)
qed

lemma commit_active:
  assumes "h_active (ObserveCommit opts cid now cs s) = Some a'"
  shows "(h_nextref (ObserveCommit opts cid now cs s) = h_nextref s \<and>
      (\<exists>a. h_active s = Some a \<and> cs_ref a = cs_ref a' \<and> cs_subject a = cs_subject a')) \<or>
    (h_nextref (ObserveCommit opts cid now cs s) = Suc (h_nextref s) \<and> cs_ref a' = h_nextref s \<and> cs_subject a' = CS_Service cs \<and>
      CS_Status cs = StatusDown \<and> map_of (o_Targets opts) (CS_Service cs) \<noteq> None)"
proof (cases "trigger_rejected opts now cs (signal_outcome cs (note_up cs s))")
  case None
  then show ?thesis using assms
    by (auto simp: ObserveCommit_def begin_cycle_def trigger_rejected_def signal_outcome_def note_up_def split: if_splits option.splits)
next
  case (Some reason)
  then show ?thesis using assms
    by (auto simp: ObserveCommit_def signal_outcome_def note_up_def split: if_splits option.splits)
qed

section \<open>The invariant of the daemon\<close>

text \<open>Seen from the dashboard a step of the daemon is one of its own steps or none, up to the contents of the store.\<close>

definition rebase :: "DB \<Rightarrow> WebState \<Rightarrow> WebState" where
  "rebase db w = w\<lparr>ws_h := (ws_h w)\<lparr>h_db := db\<rparr>\<rparr>"

definition web_of :: "sys_event \<Rightarrow> System \<Rightarrow> web_event option" where
  "web_of e s =
     (case e of
        Spine me \<Rightarrow> None
      | Deliver k cid now \<Rightarrow> if k < length (sy_due s) then Some (Engine (Commit cid now (sy_due s ! k))) else None
      | Dash we \<Rightarrow> if dash_event we then Some we else None)"

lemma rebase_same: "rebase (h_db (ws_h w)) w = w"
  by (simp add: rebase_def)

lemma rebase_simps [simp]:
  "ws_reqs (rebase db w) = ws_reqs w" "at_phase ph k (rebase db w) = at_phase ph k w"
  "h_active (ws_h (rebase db w)) = h_active (ws_h w)" "h_nextref (ws_h (rebase db w)) = h_nextref (ws_h w)"
  "log_approved (ws_h (rebase db w)) = log_approved (ws_h w)" "log_dispatch (ws_h (rebase db w)) = log_dispatch (ws_h w)"
  "h_db (ws_h (rebase db w)) = db"
  by (simp_all add: rebase_def at_phase_def)

lemma hinv_rebase: "hinv opts (ws_h w) \<Longrightarrow> hinv opts (ws_h (rebase db w))"
  by (erule hinv_frame) (simp_all add: rebase_def)

lemma sys_web:
  "\<exists>db. sy_web (sys_step opts fm e s) = rebase db (case web_of e s of None \<Rightarrow> sy_web s | Some we \<Rightarrow> wstep opts fm we (sy_web s))"
proof (cases e)
  case (Spine me)
  then show ?thesis using rebase_same [symmetric, of "sy_web s"]
    by (cases "spine_ready me s") (auto simp: web_of_def share_db_def simp flip: rebase_def)
next
  case (Deliver k cid now)
  then show ?thesis using rebase_same [symmetric]
    by (auto simp: web_of_def Let_def simp del: wstep.simps)
next
  case (Dash we)
  then show ?thesis using rebase_same [symmetric]
    by (auto simp: web_of_def Let_def share_db_def simp del: wstep.simps simp flip: rebase_def)
qed

definition one_store :: "System \<Rightarrow> bool" where
  "one_store s \<longleftrightarrow> w_db (sy_mon s) = h_db (ws_h (sy_web s))"

definition traced :: "System \<Rightarrow> bool" where
  "traced s \<longleftrightarrow>
     (\<forall>a. h_active (ws_h (sy_web s)) = Some a \<longrightarrow> (\<exists>cs. (cs_ref a, cs) \<in> set (sy_starts s) \<and> CS_Service cs = cs_subject a))"

definition sys_inv :: "Options \<Rightarrow> System \<Rightarrow> bool" where
  "sys_inv opts s \<longleftrightarrow> hinv opts (ws_h (sy_web s)) \<and> obs_inv (sy_mon s) (sy_obs s) \<and> one_store s \<and> traced s"

lemma sys_hinv: "hinv opts (ws_h (sy_web s)) \<Longrightarrow> hinv opts (ws_h (sy_web (sys_step opts fm e s)))"
proof -
  assume "hinv opts (ws_h (sy_web s))"
  then have "hinv opts (ws_h (case web_of e s of None \<Rightarrow> sy_web s | Some we \<Rightarrow> wstep opts fm we (sy_web s)))"
    using wstep_harness [of opts fm _ "sy_web s"] hinv_hstep by (auto split: option.split) (metis hinv_hstep)
  with sys_web [of opts fm e s] hinv_rebase show ?thesis by metis
qed

lemma sys_obs: "obs_inv (sy_mon s) (sy_obs s) \<Longrightarrow> obs_inv (sy_mon (sys_step opts fm e s)) (sy_obs (sys_step opts fm e s))"
  by (cases e) (auto simp: share_db_def Let_def elim!: obs_inv_frame dest: obs_inv_mstep)

lemma ObserveCommit_db: "h_db (ObserveCommit opts cid now cs s) = h_db s"
  by (auto simp: ObserveCommit_def begin_cycle_def signal_outcome_def note_up_def Let_def split: option.split)

lemma sys_one_store: "one_store s \<Longrightarrow> one_store (sys_step opts fm e s)"
  by (cases e) (auto simp: one_store_def share_db_def Let_def ObserveCommit_db)

lemma wstep_active:
  assumes "dash_event e" "h_active (ws_h (wstep opts fm e w)) = Some a'"
  shows "\<exists>a. h_active (ws_h w) = Some a \<and> cs_ref a = cs_ref a' \<and> cs_subject a = cs_subject a'"
proof (cases e)
  case (Engine he)
  then have "\<not> is_commit he" using assms(1) by (cases he) simp_all
  then show ?thesis using assms(2) Engine hstep_active by (auto split: if_splits)
next
  case (DecideNow k io now)
  show ?thesis
  proof (cases "at_phase Checked k w")
    case None
    with assms(2) DecideNow show ?thesis by simp
  next
    case (Some q)
    let ?e = "(if dq_approve q then ApproveCall else DenyCall) io now (dq_id q) (decision_who q)"
    have "ws_h (wstep opts fm e w) = hstep opts ?e (ws_h w)"
      using Some DecideNow decision_call_step [of io now q "ws_h w" opts] by (simp add: case_prod_unfold Let_def)
    moreover have "\<not> is_commit ?e" by simp
    ultimately show ?thesis using assms(2) hstep_active by metis
  qed
qed (use assms(2) in \<open>auto simp: handleAPIHalt_def handleAPIRearm_def Halt_def Rearm_def Let_def split: if_splits option.splits\<close>)

lemma sys_traced: "traced s \<Longrightarrow> traced (sys_step opts fm e s)"
proof (cases e)
  case (Deliver k cid now)
  assume "traced s"
  with Deliver show ?thesis
    using commit_active [of opts cid now "sy_due s ! k" "ws_h (sy_web s)"]
    by (fastforce simp: traced_def Let_def)
next
  case (Dash we)
  assume "traced s"
  with Dash show ?thesis
    using wstep_active [of we opts fm "sy_web s"]
    by (fastforce simp: traced_def Let_def share_db_def simp del: wstep.simps)
qed (auto simp: traced_def share_db_def)

lemma sys_inv_step: "sys_inv opts s \<Longrightarrow> sys_inv opts (sys_step opts fm e s)"
  using sys_hinv sys_obs sys_one_store sys_traced unfolding sys_inv_def by blast

lemma obs_inv_Resume: "obs_inv m [] \<Longrightarrow> obs_inv (snd (Resume io m)) []"
  by (auto simp: obs_inv_def Resume_def resume_host_def resume_rt_def deb_ok_New split: sum.split option.split)

lemma obs_inv_start: "obs_inv (start_monitor cfg db svcs sink host) []"
  by (auto simp: start_monitor_def New_def SetCommitSink_def SetRetention_def SetHost_def obs_inv_def new_runtime_def NewDebouncer_def
      deb_ok_New Let_def split: option.split)

lemma obs_inv_started:
  assumes "start_up env cfg = Returns (Inr rn)"
  shows "obs_inv (R_monitor rn) []"
proof -
  obtain h n runner where rest: "start_rest env cfg h n runner = Inr rn"
    using assms by (auto simp: start_up_def split: sum.splits prod.splits option.splits)
  then obtain io db svcs sink host where "R_monitor rn = snd (Resume io (start_monitor cfg db svcs sink host))"
    by (auto simp: start_rest_def res_bind_def Let_def split: sum.splits prod.splits option.splits if_splits) (metis snd_conv)+
  then show ?thesis using obs_inv_Resume [OF obs_inv_start] by metis
qed

lemma sys_inv_start: "start_up env cfg = Returns (Inr rn) \<Longrightarrow> sys_inv opts (sys_start rn)"
  using obs_inv_started hinv_New
  by (auto simp: sys_inv_def sys_start_def one_store_def traced_def web_New_def) (simp_all add: harness_New_def)

interpretation daemon: step_invariant "\<lambda>s. \<exists>env cfg rn. start_up env cfg = Returns (Inr rn) \<and> s = sys_start rn" "sys_step opts fm"
  "\<lambda>_. True" "sys_inv opts" for opts fm
  by unfold_locales (use sys_inv_start sys_inv_step in blast)+

abbreviation sys_run :: "Options \<Rightarrow> formats \<Rightarrow> Running \<Rightarrow> sys_event list \<Rightarrow> System" where
  "sys_run opts fm rn es \<equiv> fold (sys_step opts fm) es (sys_start rn)"

lemma daemon_inv: "start_up env cfg = Returns (Inr rn) \<Longrightarrow> sys_inv opts (sys_run opts fm rn es)"
  by (rule daemon.inv_run) (auto simp: list_all_iff)

section \<open>Which step changed a log\<close>

lemma due_source:
  assumes "cs \<in> set (sy_due (sys_step opts fm e s))" "cs \<notin> set (sy_due s)"
  shows "\<exists>me. e = Spine me \<and> cs \<in> set (new_commits me (sy_mon s))"
  using assms
  by (cases e) (auto simp: share_db_def Let_def split: if_splits dest: in_set_takeD in_set_dropD simp del: wstep.simps)

lemma commit_starts:
  "h_nextref (ObserveCommit opts cid now cs s) \<noteq> h_nextref s \<Longrightarrow>
   CS_Status cs = StatusDown \<and> map_of (o_Targets opts) (CS_Service cs) \<noteq> None"
  by (auto simp: ObserveCommit_def begin_cycle_def trigger_rejected_def signal_outcome_def note_up_def Let_def split: option.splits if_splits)

lemma starts_source:
  assumes "x \<in> set (sy_starts (sys_step opts fm e s))" "x \<notin> set (sy_starts s)"
  shows "\<exists>k cid now. e = Deliver k cid now \<and> k < length (sy_due s) \<and> snd x = sy_due s ! k \<and>
    CS_Status (snd x) = StatusDown \<and> map_of (o_Targets opts) (CS_Service (snd x)) \<noteq> None"
  using assms commit_starts
  by (cases e) (auto simp: share_db_def Let_def split: if_splits)

lemma web_cases:
  "web_of e s = Some (Dash_we) \<Longrightarrow> \<not> (\<exists>cid now cs. Dash_we = Engine (Commit cid now cs)) \<Longrightarrow> e = Dash Dash_we"
  by (auto simp: web_of_def split: sys_event.splits if_splits)

lemma approved_source:
  assumes "(r, who, tm) \<in> set (log_approved (ws_h (sy_web (sys_step opts fm e s))))" "(r, who, tm) \<notin> set (log_approved (ws_h (sy_web s)))"
  shows "\<exists>k io q. e = Dash (DecideNow k io tm) \<and> at_phase Checked k (sy_web s) = Some q \<and> who = decision_who q \<and>
    approves_cycle q io tm r (ws_h (sy_web s))"
proof -
  obtain we where we: "web_of e s = Some we" "(r, who, tm) \<in> set (log_approved (ws_h (wstep opts fm we (sy_web s))))"
    using assms sys_web [of opts fm e s] by (auto split: option.splits)
  then obtain k io q where "we = DecideNow k io tm" "at_phase Checked k (sy_web s) = Some q" "who = decision_who q"
    "approves_cycle q io tm r (ws_h (sy_web s))"
    using approved_step [OF we(2)] assms(2) by blast
  with we(1) web_cases show ?thesis by blast
qed

lemma checked_source:
  assumes "at_phase Checked k (sy_web (sys_step opts fm e s)) = Some q" "at_phase Checked k (sy_web s) \<noteq> Some q"
  shows "\<exists>rio. e = Dash (Arrive rio q) \<and> decision_check rio q (ws_h (sy_web s)) = None"
proof -
  obtain we where we: "web_of e s = Some we" "at_phase Checked k (wstep opts fm we (sy_web s)) = Some q"
    using assms sys_web [of opts fm e s] by (auto split: option.splits)
  then obtain rio where "we = Arrive rio q" "decision_check rio q (ws_h (sy_web s)) = None"
    using checked_step [OF we(2)] assms(2) by blast
  with we(1) web_cases show ?thesis by blast
qed

section \<open>From the command line back to the probes\<close>

lemma RestartContainer_line:
  "line \<in> set (snd (RestartContainer runner allow target)) \<Longrightarrow> line = ''docker restart '' @ target \<and> target \<in> set allow"
  by (auto simp: RestartContainer_def split: if_splits sum.splits)

lemma ssh_lines_source:
  assumes "line \<in> set (ssh_lines runner wh s)"
  shows "\<exists>w allow r target. HW_actuator wh = Some (w, allow) \<and> (r, target) \<in> set (log_dispatch (ws_h (sy_web s))) \<and>
    line = ''docker restart '' @ target \<and> target \<in> set allow"
proof -
  obtain w allow where act: "HW_actuator wh = Some (w, allow)"
    using assms by (cases "HW_actuator wh") (auto simp: ssh_lines_def)
  then obtain r target where "(r, target) \<in> set (log_dispatch (ws_h (sy_web s)))" "line \<in> set (snd (RestartContainer runner allow target))"
    using assms by (auto simp: ssh_lines_def)
  with act RestartContainer_line show ?thesis by blast
qed

lemma wired_options:
  assumes "start_up env cfg = Returns (Inr rn)" "R_harness rn = Some wh"
  shows "\<exists>h mode. C_Harness cfg = Some h \<and> ParseHarnessMode (Ha_Mode h) = Inr mode \<and> o_Mode (HW_opts wh) = mode \<and>
    o_Targets (HW_opts wh) = Ha_Targets h \<and> (\<forall>w allow. HW_actuator wh = Some (w, allow) \<longrightarrow> allow = Ha_AllowRestart h)"
proof -
  obtain h n runner where h: "C_Harness cfg = Some h" and rest: "start_rest env cfg h n runner = Inr rn"
    using assms(1) by (auto simp: start_up_def split: sum.splits prod.splits option.splits)
  obtain db where "start_harness env cfg h runner = Inr (Some wh, db)"
    using start_rest_Inr(1) [OF rest] assms(2) by auto
  then show ?thesis using h by (auto simp: start_harness_Inr build_harness_def)
qed

text \<open>The approval behind a dispatched restart, and the checked click behind the approval.\<close>

lemma dispatch_approved:
  assumes inv: "\<And>es. sys_inv opts (sys_run opts fm rn es)"
    and disp: "(r, target) \<in> set (log_dispatch (ws_h (sy_web (sys_run opts fm rn es))))"
  shows "o_Mode opts = HarnessLive \<and> target \<in> Map.ran (map_of (o_Targets opts)) \<and>
    (\<exists>pre j dio tm post q. es = pre @ Dash (DecideNow j dio tm) # post \<and> at_phase Checked j (sy_web (sys_run opts fm rn pre)) = Some q \<and>
      approves_cycle q dio tm r (ws_h (sy_web (sys_run opts fm rn pre))) \<and>
      (\<forall>t. (r, t) \<notin> set (log_dispatch (ws_h (sy_web (sys_run opts fm rn pre))))))"
proof -
  obtain who tm where gate: "o_Mode opts = HarnessLive" "resolvable opts target"
    and log: "(r, who, tm) \<in> set (log_approved (ws_h (sy_web (sys_run opts fm rn es))))"
    using inv [of es] disp by (auto simp: sys_inv_def hinv_def inv_log_def)
  have "(r, who, tm) \<notin> set (log_approved (ws_h (sy_web (sys_start rn))))"
    by (simp add: sys_start_def web_New_def harness_New_def)
  from fold_first [of "\<lambda>s. (r, who, tm) \<in> set (log_approved (ws_h (sy_web s)))", OF log this]
  obtain pre e post where pre: "es = pre @ e # post"
    and e: "(r, who, tm) \<notin> set (log_approved (ws_h (sy_web (sys_run opts fm rn pre))))"
      "(r, who, tm) \<in> set (log_approved (ws_h (sy_web (sys_step opts fm e (sys_run opts fm rn pre)))))" by blast
  from approved_source [OF e(2,1)] obtain k io q where q: "e = Dash (DecideNow k io tm)"
    "at_phase Checked k (sy_web (sys_run opts fm rn pre)) = Some q" "approves_cycle q io tm r (ws_h (sy_web (sys_run opts fm rn pre)))"
    by blast
  have "\<forall>t. (r, t) \<notin> set (log_dispatch (ws_h (sy_web (sys_run opts fm rn pre))))"
    using q(3) awaiting_undispatched inv [of pre] by (fastforce simp: sys_inv_def approves_cycle_def split: option.splits)
  with gate pre q show ?thesis unfolding resolvable_def by blast
qed

lemma click_checked:
  assumes "at_phase Checked k (sy_web (sys_run opts fm rn es)) = Some q"
  shows "\<exists>pre rio between c. es = pre @ Dash (Arrive rio q) # between \<and> dq_post q \<and>
    Incident rio (dq_id q) (ws_h (sy_web (sys_run opts fm rn pre))) = Inr c \<and> HC_Approval c = ApprovalPending"
proof -
  have "at_phase Checked k (sy_web (sys_start rn)) \<noteq> Some q" by (simp add: sys_start_def web_New_def at_phase_def)
  from fold_first [of "\<lambda>s. at_phase Checked k (sy_web s) = Some q", OF assms this]
  obtain pre e post where pre: "es = pre @ e # post" and e: "at_phase Checked k (sy_web (sys_run opts fm rn pre)) \<noteq> Some q"
    "at_phase Checked k (sy_web (sys_step opts fm e (sys_run opts fm rn pre))) = Some q" by blast
  from checked_source [OF e(2,1)] pre show ?thesis unfolding decision_check_None by blast
qed

text \<open>The commit behind an active cycle, and the probe behind the commit.\<close>

lemma cycle_started:
  assumes inv: "\<And>es. sys_inv opts (sys_run opts fm rn es)"
    and act: "h_active (ws_h (sy_web (sys_run opts fm rn es))) = Some a"
  shows "\<exists>before me mid k cid now rest. es = before @ Spine me # mid @ Deliver k cid now # rest \<and>
    (let s = sys_run opts fm rn before; cs = sy_due (sys_run opts fm rn (before @ Spine me # mid)) ! k in
       CS_Service cs = cs_subject a \<and> map_of (o_Targets opts) (cs_subject a) \<noteq> None \<and>
       completes_down_run (sy_obs s) (sy_mon s) me (cs_subject a) \<and>
       stored_status (cs_subject a) (w_db (sy_mon (sys_run opts fm rn (before @ [Spine me])))) = StatusDown)"
proof -
  obtain cs where cs: "(cs_ref a, cs) \<in> set (sy_starts (sys_run opts fm rn es))" "CS_Service cs = cs_subject a"
    using inv [of es] act by (auto simp: sys_inv_def traced_def)
  have "(cs_ref a, cs) \<notin> set (sy_starts (sys_start rn))" by (simp add: sys_start_def)
  from fold_first [of "\<lambda>s. (cs_ref a, cs) \<in> set (sy_starts s)", OF cs(1) this]
  obtain pre d rest where pre: "es = pre @ d # rest" and d: "(cs_ref a, cs) \<notin> set (sy_starts (sys_run opts fm rn pre))"
    "(cs_ref a, cs) \<in> set (sy_starts (sys_step opts fm d (sys_run opts fm rn pre)))" by blast
  from starts_source [OF d(2,1)] obtain k cid now where k: "d = Deliver k cid now" "k < length (sy_due (sys_run opts fm rn pre))"
    "cs = sy_due (sys_run opts fm rn pre) ! k" "CS_Status cs = StatusDown" "map_of (o_Targets opts) (CS_Service cs) \<noteq> None" by auto
  then have "cs \<in> set (sy_due (sys_run opts fm rn pre))" by simp
  moreover have "cs \<notin> set (sy_due (sys_start rn))" by (simp add: sys_start_def)
  ultimately obtain before e mid where before: "pre = before @ e # mid" and e: "cs \<notin> set (sy_due (sys_run opts fm rn before))"
    "cs \<in> set (sy_due (sys_step opts fm e (sys_run opts fm rn before)))"
    using fold_first [of "\<lambda>s. cs \<in> set (sy_due s)" "sys_step opts fm" pre "sys_start rn"] by blast
  from due_source [OF e(2,1)] obtain me where me: "e = Spine me" "cs \<in> set (new_commits me (sy_mon (sys_run opts fm rn before)))" by blast
  let ?s = "sys_run opts fm rn before"
  have src: "completes_down_run (sy_obs ?s) (sy_mon ?s) me (CS_Service cs)"
    "stored_status (CS_Service cs) (w_db (mstep me (sy_mon ?s))) = StatusDown"
    using commit_source [OF me(2) k(4)] inv [of before] by (auto simp: sys_inv_def)
  have "spine_ready me ?s" using e me(1) by (auto split: if_splits)
  then have "w_db (sy_mon (sys_run opts fm rn (before @ [Spine me]))) = w_db (mstep me (sy_mon ?s))"
    by (simp add: share_db_def)
  with src pre before k me(1) cs(2) show ?thesis
    by (intro exI [of _ before] exI [of _ me] exI [of _ mid] exI [of _ k] exI [of _ cid] exI [of _ now] exI [of _ rest])
      (simp add: Let_def)
qed


section \<open>A concrete run\<close>

definition demo_rn :: Running where
  "demo_rn = projr (case start_up good_env sample_cfg of Returns x \<Rightarrow> x | Panics \<Rightarrow> Inl '''')"

text \<open>Three DOWN probes of plex with a flap before them, the hand-over, the cycle up to the pending incident, one click.\<close>

definition demo_probe :: "Status \<Rightarrow> sys_event list" where
  "demo_probe s = [Spine (SvcBegin 0 4000000), Spine (SvcFinish 0 (ok_env s 4000000))]"

definition demo_cycle :: "nat \<Rightarrow> sys_event list" where
  "demo_cycle n = replicate n (Dash (Engine (Cycle (run_env False 6000000))))"

definition demo_run :: "sys_event list" where
  "demo_run = concat (map demo_probe [StatusDown, StatusUp, StatusDown, StatusDown, StatusDown]) @ [Deliver 0 ''c1'' 5000000] @ demo_cycle 5 @
     [Dash (Arrive None approve_click), Dash (DecideNow 0 None 7000000), Dash (Engine (Send 0))] @ demo_cycle 3"

text \<open>One evaluation of the start gives all that the run needs of it.\<close>

definition demo_lines :: "Running \<Rightarrow> string list" where
  "demo_lines rn =
     (case R_harness rn of
        None \<Rightarrow> []
      | Some wh \<Rightarrow> ssh_lines (\<lambda>_. Inr []) wh (fold (sys_step (HW_opts wh) plain_fm) demo_run (sys_start rn)))"

lemma demo_evaluated:
  "(case start_up good_env sample_cfg of Returns (Inr rn) \<Rightarrow> ''docker restart plex'' \<in> set (demo_lines rn) | _ \<Rightarrow> False)"
  by code_simp

lemma demo_started: "start_up good_env sample_cfg = Returns (Inr demo_rn)" "R_harness demo_rn = Some (the (R_harness demo_rn))"
  and demo_line: "''docker restart plex'' \<in> set (ssh_lines (\<lambda>_. Inr []) (the (R_harness demo_rn))
     (fold (sys_step (HW_opts (the (R_harness demo_rn))) plain_fm) demo_run (sys_start demo_rn)))"
proof -
  show start: "start_up good_env sample_cfg = Returns (Inr demo_rn)"
    using demo_evaluated by (auto simp: demo_rn_def split: go_result.splits sum.splits)
  have "''docker restart plex'' \<in> set (demo_lines demo_rn)" using demo_evaluated by (simp add: start)
  then obtain wh where "R_harness demo_rn = Some wh"
    "''docker restart plex'' \<in> set (ssh_lines (\<lambda>_. Inr []) wh (fold (sys_step (HW_opts wh) plain_fm) demo_run (sys_start demo_rn)))"
    unfolding demo_lines_def by (cases "R_harness demo_rn") auto
  then show "R_harness demo_rn = Some (the (R_harness demo_rn))"
    "''docker restart plex'' \<in> set (ssh_lines (\<lambda>_. Inr []) (the (R_harness demo_rn))
     (fold (sys_step (HW_opts (the (R_harness demo_rn))) plain_fm) demo_run (sys_start demo_rn)))" by simp_all
qed


section \<open>What happens to a second incident\<close>

text \<open>A DOWN that is handed over while a cycle is active is dropped: the harness is left as it was. Nothing hands it over
  again, since a commit is published once and the debouncer has no further change to commit while the subject stays DOWN.\<close>

lemma down_while_busy_dropped:
  assumes "h_active h \<noteq> None" "CS_Status cs = StatusDown"
  shows "ObserveCommit opts cid now cs h = h"
proof -
  obtain reason where "trigger_rejected opts now cs h = Some reason"
    using assms(1) by (fastforce simp: trigger_rejected_def split: option.splits)
  then show ?thesis using assms by (auto simp: ObserveCommit_def note_up_def signal_outcome_def Let_def)
qed

lemma down_committed_once:
  assumes "deb_committed d = StatusDown"
  shows "\<not> observe_changed StatusDown d"
  using assms by (simp add: Observe_def)

end
