(* ===== verification/Lifecycle.thy ===== *)
theory Lifecycle
  imports Wiring
begin

text \<open>
  The goroutines of the daemon: the end of \<open>run\<close> in \<open>cmd/server-assistant/main.go\<close>, which starts them, waits for the context
  and joins them, and \<open>Run\<close> of \<open>internal/monitor\<close>, which does the same for its poll loops. What each loop does
  between two looks at the context is modelled elsewhere; here a goroutine is a member of the list of those that
  have not returned, a \<open>sync.WaitGroup\<close> is its counter, and the machine is a step relation, so that a
  run is any order in which the scheduler lets them move.
\<close>

section \<open>The machine\<close>

datatype worker = MonitorRun | HostLoop | SvcLoop nat | SamplerRun | HttpServer | ReloadWatcher

fun poll_loop :: "worker \<Rightarrow> bool" where
  "poll_loop HostLoop = True"
| "poll_loop (SvcLoop i) = True"
| "poll_loop w = False"

datatype main_pc = Serving | ShuttingDown | Joining | Returned

record Life =
  lf_live :: "worker list"
  lf_wg :: int
  lf_mwg :: int
  lf_spawned :: bool
  lf_done :: bool
  lf_closed :: bool
  lf_pc :: main_pc

text \<open>The goroutines of \<open>run\<close>, and the poll loops that \<open>Monitor.Run\<close> starts once the first Host probe has returned.\<close>

definition main_workers :: "Running \<Rightarrow> worker list" where
  "main_workers rn = [MonitorRun] @ (if R_sampler rn \<noteq> None then [SamplerRun] else []) @ [HttpServer, ReloadWatcher]"

definition mon_loops :: "Running \<Rightarrow> worker list" where
  "mon_loops rn = (if m_host (R_monitor rn) \<noteq> None then [HostLoop] else []) @ map SvcLoop [0..<length (m_svcs (R_monitor rn))]"

definition life_start :: "Running \<Rightarrow> Life" where
  "life_start rn =
     \<lparr>lf_live = main_workers rn, lf_wg = 3 + (if R_sampler rn \<noteq> None then 1 else 0), lf_mwg = 0, lf_spawned = False,
      lf_done = False, lf_closed = False, lf_pc = Serving\<rparr>"

text \<open>\<open>defer wg.Done()\<close> of the two wait groups.\<close>

definition main_exit :: "worker \<Rightarrow> Life \<Rightarrow> Life" where
  "main_exit w s = s\<lparr>lf_live := remove1 w (lf_live s), lf_wg := lf_wg s - 1\<rparr>"

definition loop_exit :: "worker \<Rightarrow> Life \<Rightarrow> Life" where
  "loop_exit w s = s\<lparr>lf_live := remove1 w (lf_live s), lf_mwg := lf_mwg s - 1\<rparr>"

text \<open>
  A loop returns when it sees the cancelled context; \<open>Monitor.Run\<close> then waits for its own loops. The server returns on
  \<open>Shutdown\<close> or on an error of its own, and then cancels the context. \<open>run\<close> waits for the context, shuts the server down, which may
  time out, and waits for the group.
\<close>

inductive life_step :: "Running \<Rightarrow> Life \<Rightarrow> Life \<Rightarrow> bool" for rn where
  signal: "\<not> lf_done s \<Longrightarrow> life_step rn s (s\<lparr>lf_done := True\<rparr>)"
| spawn: "MonitorRun \<in> set (lf_live s) \<Longrightarrow> \<not> lf_spawned s \<Longrightarrow>
    life_step rn s (s\<lparr>lf_spawned := True, lf_live := lf_live s @ mon_loops rn, lf_mwg := lf_mwg s + int (length (mon_loops rn))\<rparr>)"
| loop_returns: "w \<in> set (lf_live s) \<Longrightarrow> poll_loop w \<Longrightarrow> lf_done s \<Longrightarrow> life_step rn s (loop_exit w s)"
| worker_returns: "w \<in> set (lf_live s) \<Longrightarrow> w = SamplerRun \<or> w = ReloadWatcher \<Longrightarrow> lf_done s \<Longrightarrow> life_step rn s (main_exit w s)"
| monitor_returns: "MonitorRun \<in> set (lf_live s) \<Longrightarrow> lf_spawned s \<Longrightarrow> lf_done s \<Longrightarrow> lf_mwg s = 0 \<Longrightarrow>
    life_step rn s (main_exit MonitorRun s)"
| server_fails: "HttpServer \<in> set (lf_live s) \<Longrightarrow> life_step rn s ((main_exit HttpServer s)\<lparr>lf_done := True\<rparr>)"
| server_closed: "HttpServer \<in> set (lf_live s) \<Longrightarrow> lf_closed s \<Longrightarrow> life_step rn s (main_exit HttpServer s)"
| main_wakes: "lf_pc s = Serving \<Longrightarrow> lf_done s \<Longrightarrow> life_step rn s (s\<lparr>lf_pc := ShuttingDown, lf_closed := True\<rparr>)"
| shutdown_returns: "lf_pc s = ShuttingDown \<Longrightarrow> life_step rn s (s\<lparr>lf_pc := Joining\<rparr>)"
| main_returns: "lf_pc s = Joining \<Longrightarrow> lf_wg s = 0 \<Longrightarrow> life_step rn s (s\<lparr>lf_pc := Returned\<rparr>)"

text \<open>The time the reload watcher starts from: that of the file, or the zero time where \<open>os.Stat\<close> fails.\<close>

definition watch_start :: "string + gotime \<Rightarrow> gotime" where
  "watch_start stat = (case stat of Inl e \<Rightarrow> zero_time | Inr t \<Rightarrow> t)"

section \<open>The invariant\<close>

definition life_inv :: "Running \<Rightarrow> Life \<Rightarrow> bool" where
  "life_inv rn s \<longleftrightarrow>
     distinct (lf_live s) \<and>
     lf_wg s = int (length (filter (Not \<circ> poll_loop) (lf_live s))) \<and>
     lf_mwg s = int (length (filter poll_loop (lf_live s))) \<and>
     (\<forall>w \<in> set (lf_live s). poll_loop w \<longrightarrow> lf_spawned s \<and> MonitorRun \<in> set (lf_live s)) \<and>
     lf_closed s = (lf_pc s \<noteq> Serving) \<and> (lf_pc s \<noteq> Serving \<longrightarrow> lf_done s) \<and> (lf_pc s = Returned \<longrightarrow> lf_wg s = 0) \<and>
     (\<not> lf_done s \<longrightarrow> set (main_workers rn) \<subseteq> set (lf_live s) \<and> (lf_spawned s \<longrightarrow> set (mon_loops rn) \<subseteq> set (lf_live s)))"

lemma main_workers_props: "distinct (main_workers rn)" "w \<in> set (main_workers rn) \<Longrightarrow> \<not> poll_loop w"
  by (auto simp: main_workers_def split: if_splits)

lemma mon_loops_props: "distinct (mon_loops rn)" "w \<in> set (mon_loops rn) \<Longrightarrow> poll_loop w"
  by (auto simp: mon_loops_def distinct_map inj_on_def split: if_splits)

lemma life_inv_start: "life_inv rn (life_start rn)"
  by (simp add: life_inv_def life_start_def main_workers_def)

lemma length_filter_remove1:
  "w \<in> set xs \<Longrightarrow> P w \<Longrightarrow> int (length (filter P (remove1 w xs))) = int (length (filter P xs)) - 1"
  "\<not> P w \<Longrightarrow> filter P (remove1 w xs) = filter P xs"
  by (induction xs) auto

text \<open>A goroutine of \<open>run\<close> other than the monitor returns, and the context is or gets cancelled.\<close>

lemma life_inv_exit:
  assumes "life_inv rn s" "w \<in> set (lf_live s)" "\<not> poll_loop w" "w \<noteq> MonitorRun"
  shows "life_inv rn ((main_exit w s)\<lparr>lf_done := True\<rparr>)"
proof -
  have "lf_pc s \<noteq> Returned" using assms by (auto simp: life_inv_def filter_empty_conv)
  moreover have "int (length (filter (Not \<circ> poll_loop) (remove1 w (lf_live s)))) = int (length (filter (Not \<circ> poll_loop) (lf_live s))) - 1"
    using assms by (intro length_filter_remove1) simp_all
  moreover have "filter poll_loop (remove1 w (lf_live s)) = filter poll_loop (lf_live s)"
    using assms by (intro length_filter_remove1)
  ultimately show ?thesis using assms by (auto simp: life_inv_def main_exit_def)
qed

lemma life_inv_exit_done:
  assumes "life_inv rn s" "w \<in> set (lf_live s)" "\<not> poll_loop w" "w \<noteq> MonitorRun" "lf_done s"
  shows "life_inv rn (main_exit w s)"
proof -
  have "(main_exit w s)\<lparr>lf_done := True\<rparr> = main_exit w s" using assms(5) by (simp add: main_exit_def)
  then show ?thesis using life_inv_exit [OF assms(1-4)] by simp
qed

lemma life_inv_step: "life_step rn s s' \<Longrightarrow> life_inv rn s \<Longrightarrow> life_inv rn s'"
proof (induction rule: life_step.induct)
  case (spawn s)
  have "filter poll_loop (lf_live s) = []" "filter (Not \<circ> poll_loop) (mon_loops rn) = []" "filter poll_loop (mon_loops rn) = mon_loops rn"
    "set (lf_live s) \<inter> set (mon_loops rn) = {}"
    using spawn mon_loops_props(2) by (auto simp: life_inv_def filter_empty_conv intro!: filter_True)
  then show ?case using spawn mon_loops_props by (auto simp: life_inv_def)
next
  case (monitor_returns s)
  then have "filter poll_loop (lf_live s) = []" by (simp add: life_inv_def)
  moreover have "int (length (filter (Not \<circ> poll_loop) (remove1 MonitorRun (lf_live s)))) =
      int (length (filter (Not \<circ> poll_loop) (lf_live s))) - 1"
    using monitor_returns by (intro length_filter_remove1) simp_all
  ultimately show ?case using monitor_returns unfolding life_inv_def main_exit_def
    by (auto simp: length_filter_remove1 filter_empty_conv)
next
  case (loop_returns w s)
  then show ?case by (auto simp: life_inv_def loop_exit_def length_filter_remove1)
next
  case (worker_returns w s)
  then show ?case by (auto intro!: life_inv_exit_done)
next
  case (server_fails s)
  then show ?case by (intro life_inv_exit) simp_all
next
  case (server_closed s)
  moreover from this have "lf_done s" by (auto simp: life_inv_def)
  ultimately show ?case by (intro life_inv_exit_done) simp_all
qed (auto simp: life_inv_def)

text \<open>A state is reachable when some schedule leads to it; the invariant holds there by rule induction.\<close>

lemma life_inv_reachable: "(life_step rn)\<^sup>*\<^sup>* (life_start rn) s \<Longrightarrow> life_inv rn s"
  by (induction rule: rtranclp_induct) (auto intro: life_inv_start life_inv_step)

section \<open>Every schedule ends\<close>

text \<open>What is left to do: the signal, the loops to start, the goroutines to return, the steps of \<open>run\<close>.\<close>

fun pc_left :: "main_pc \<Rightarrow> nat" where
  "pc_left Serving = 3"
| "pc_left ShuttingDown = 2"
| "pc_left Joining = 1"
| "pc_left Returned = 0"

definition life_left :: "Running \<Rightarrow> Life \<Rightarrow> nat" where
  "life_left rn s =
     (if lf_done s then 0 else 1) + (if lf_spawned s then 0 else Suc (length (mon_loops rn))) + length (lf_live s) + pc_left (lf_pc s)"

lemma life_step_left: "life_step rn s s' \<Longrightarrow> life_left rn s' < life_left rn s"
  by (induction rule: life_step.induct)
    (auto simp: life_left_def main_exit_def loop_exit_def length_remove1 dest: length_pos_if_in_set)

lemma life_steps_bounded: "(life_step rn ^^ n) s s' \<Longrightarrow> n + life_left rn s' \<le> life_left rn s"
proof (induction n arbitrary: s')
  case (Suc n)
  then obtain t where "(life_step rn ^^ n) s t" "life_step rn t s'" by auto
  with Suc.IH [of t] life_step_left [of rn t s'] show ?case by simp
qed simp

text \<open>After the context is cancelled some step that needs no failure is possible until \<open>run\<close> has returned.\<close>

lemma life_not_stuck:
  assumes inv: "life_inv rn s" and running: "lf_done s" "lf_pc s \<noteq> Returned"
  shows "\<exists>s'. life_step rn s s'"
proof (cases "lf_pc s")
  case Joining
  show ?thesis
  proof (cases "filter (Not \<circ> poll_loop) (lf_live s)")
    case Nil
    with inv Joining show ?thesis using main_returns [of s rn] by (auto simp: life_inv_def)
  next
    case (Cons w ws)
    then have w: "w \<in> set (lf_live s)" "\<not> poll_loop w" by (auto dest: filter_eq_ConsD)
    have closed: "lf_closed s" using inv Joining by (simp add: life_inv_def)
    consider "w = SamplerRun \<or> w = ReloadWatcher" | "w = HttpServer" | "w = MonitorRun" using w(2) by (cases w) auto
    then show ?thesis
    proof cases
      case 3
      show ?thesis
      proof (cases "filter poll_loop (lf_live s)")
        case Nil
        with inv have "lf_mwg s = 0" by (simp add: life_inv_def)
        with 3 w running show ?thesis using spawn [of s rn] monitor_returns [of s rn] by blast
      next
        case (Cons v vs)
        then have "v \<in> set (lf_live s)" "poll_loop v" by (auto dest: filter_eq_ConsD)
        with running show ?thesis using loop_returns by blast
      qed
    qed (use w closed running worker_returns server_closed in blast)+
  qed
qed (use running main_wakes shutdown_returns in blast)+

lemma nobody_left:
  assumes "life_inv rn s" "lf_pc s = Returned"
  shows "lf_live s = []"
proof -
  have main: "\<forall>w \<in> set (lf_live s). poll_loop w" using assms by (auto simp: life_inv_def filter_empty_conv)
  then have "MonitorRun \<notin> set (lf_live s)" by auto
  with main assms(1) have "\<forall>w \<in> set (lf_live s). False" by (auto simp: life_inv_def)
  then show ?thesis by simp
qed

text \<open>C21: the daemon stops when it is told to, whole, and not before. In every state that some schedule of the goroutines reaches: as
  long as the context is not cancelled, \<open>run\<close> serves, and the monitor with the poll loops it has started, the sampler where there is one,
  the dashboard and the reload watcher are all running, so a dashboard that dies takes the daemon down with it; a counter of
  a wait group never goes below zero, which would be a panic; when \<open>run\<close> has returned no goroutine it started is left. No schedule takes more
  steps than there are things left to do, and one that can go no further after the cancellation has let \<open>run\<close> return.\<close>

theorem shutdown_completes:
  assumes "(life_step rn)\<^sup>*\<^sup>* (life_start rn) s"
  shows "(\<not> lf_done s \<longrightarrow> lf_pc s = Serving \<and> set (main_workers rn) \<subseteq> set (lf_live s) \<and> (lf_spawned s \<longrightarrow> set (mon_loops rn) \<subseteq> set (lf_live s))) \<and>
    0 \<le> lf_wg s \<and> 0 \<le> lf_mwg s \<and>
    (lf_pc s = Returned \<longrightarrow> lf_live s = []) \<and>
    (\<forall>n t. (life_step rn ^^ n) s t \<longrightarrow> n \<le> life_left rn s) \<and>
    (\<forall>t. (life_step rn)\<^sup>*\<^sup>* s t \<longrightarrow> lf_done t \<longrightarrow> (\<nexists>u. life_step rn t u) \<longrightarrow> lf_pc t = Returned)"
proof -
  have inv: "life_inv rn s" using assms by (rule life_inv_reachable)
  have "n \<le> life_left rn s" if "(life_step rn ^^ n) s t" for n t using life_steps_bounded [OF that] by simp
  moreover have "lf_pc t = Returned" if "(life_step rn)\<^sup>*\<^sup>* s t" "lf_done t" "\<nexists>u. life_step rn t u" for t
    using that life_not_stuck life_inv_reachable [OF rtranclp_trans [OF assms that(1)]] by blast
  moreover have "lf_pc s = Returned \<longrightarrow> lf_live s = []" using inv nobody_left by blast
  moreover have "0 \<le> lf_wg s \<and> 0 \<le> lf_mwg s" "\<not> lf_done s \<longrightarrow> lf_pc s = Serving \<and> set (main_workers rn) \<subseteq> set (lf_live s) \<and> (lf_spawned s \<longrightarrow> set (mon_loops rn) \<subseteq> set (lf_live s))"
    using inv by (auto simp: life_inv_def)
  ultimately show ?thesis by blast
qed

text \<open>The daemon of the sample configuration, whose dashboard dies before the poll loops have started.\<close>

definition life_rn :: Running where
  "life_rn = projr (case start_up good_env sample_cfg of Returns x \<Rightarrow> x | Panics \<Rightarrow> Inl '''')"

definition life_broken :: Life where
  "life_broken = (main_exit HttpServer (life_start life_rn))\<lparr>lf_done := True\<rparr>"

lemma life_broken_reached: "(life_step life_rn)\<^sup>*\<^sup>* (life_start life_rn) life_broken"
  unfolding life_broken_def
  by (intro r_into_rtranclp server_fails) (simp add: life_start_def main_workers_def)

lemma life_rn_evaluated: "R_sampler life_rn = None \<and> length (mon_loops life_rn) = 2"
proof -
  have "(case start_up good_env sample_cfg of Returns (Inr rn) \<Rightarrow> R_sampler rn = None \<and> length (mon_loops rn) = 2 | _ \<Rightarrow> False)"
    by code_simp
  then show ?thesis by (auto simp: life_rn_def split: go_result.splits sum.splits)
qed

theorem shutdown_completes_witness:
  "lf_live life_broken = [MonitorRun, ReloadWatcher] \<and> life_left life_rn life_broken = 8 \<and>
   (\<nexists>t. (life_step life_rn ^^ 9) life_broken t)"
proof -
  have "lf_live life_broken = [MonitorRun, ReloadWatcher]" "life_left life_rn life_broken = 8"
    using life_rn_evaluated by (simp_all add: life_broken_def main_exit_def life_start_def main_workers_def life_left_def)
  moreover from this have "\<nexists>t. (life_step life_rn ^^ 9) life_broken t"
    using shutdown_completes [OF life_broken_reached] by fastforce
  ultimately show ?thesis by simp
qed

end
