(* ===== verification/Script_Rows.thy ===== *)
theory Script_Rows
  imports Scripts
begin

text \<open>
  The columns of the script registry's store: the conversions at the end of \<open>internal/scripts/store.go\<close> between a proposal, an
  audit entry or a grant and the row that SQL keeps of it, and the statements on the proposals table over such
  rows. A state is its name, a time a count of milliseconds, and the evidence of the dry run three JSON texts. The JSON codec is
  an argument. \<open>Scripts\<close> keeps a table of proposals instead, each as it would be read back; the theorem at the end justifies that.
\<close>

section \<open>Rows\<close>

record proposal_cols =
  pc_id :: string
  pc_script_hash :: string
  pc_state :: string
  pc_created_at :: int
  pc_updated_at :: int
  pc_dry_run_reasons :: string
  pc_dry_run_warnings :: string
  pc_transcript :: string
  pc_approved_by :: string
  pc_approved_at :: int
  pc_denied_by :: string
  pc_denied_at :: int
  pc_deny_reason :: string

record Codec =
  cd_marshal_strings :: "string list \<Rightarrow> string + string"
  cd_marshal_entries :: "TranscriptEntry list \<Rightarrow> string + string"
  cd_unmarshal_strings :: "string \<Rightarrow> string + string list"
  cd_unmarshal_entries :: "string \<Rightarrow> string + TranscriptEntry list"

text \<open>\<open>ProposalState(row.State)\<close>; a text that names no state has no transitions, like the empty one.\<close>

definition state_of_name :: "string \<Rightarrow> ProposalState" where
  "state_of_name n =
     (case find (\<lambda>s. state_name s = n)
        [StateProposed, StateDryRunOK, StateDryRunFailed, StateAwaitingApproval, StateApproved, StateDenied, StateExpired, StateRunning,
         StateSucceeded, StateFailed, StatePreconditionFailed] of
        Some s \<Rightarrow> s
      | None \<Rightarrow> StateEmpty)"

definition json_call_err :: "string \<Rightarrow> string + 'a \<Rightarrow> regErr + 'a" where
  "json_call_err msg r = (case r of Inl e \<Rightarrow> Inl (ErrWrap msg (ErrDriver e)) | Inr x \<Rightarrow> Inr x)"

definition marshalProposalBlobs :: "Codec \<Rightarrow> Proposal \<Rightarrow> regErr + string \<times> string \<times> string" where
  "marshalProposalBlobs cd p =
     res_bind (json_call_err ''scripts: marshal reasons'' (cd_marshal_strings cd (P_RejectReasons p))) (\<lambda>r.
     res_bind (json_call_err ''scripts: marshal warnings'' (cd_marshal_strings cd (P_Warnings p))) (\<lambda>w.
     res_bind (json_call_err ''scripts: marshal transcript'' (cd_marshal_entries cd (P_Transcript p))) (\<lambda>t.
     Inr (r, w, t))))"

definition proposalToInsertParams :: "Codec \<Rightarrow> Proposal \<Rightarrow> regErr + proposal_cols" where
  "proposalToInsertParams cd p =
     res_bind (marshalProposalBlobs cd p) (\<lambda>(reasons, warnings, transcript).
     Inr \<lparr>pc_id = P_ID p, pc_script_hash = P_ScriptHash p, pc_state = state_name (P_State p),
          pc_created_at = millisFromTime (P_CreatedAt p), pc_updated_at = millisFromTime (P_UpdatedAt p),
          pc_dry_run_reasons = reasons, pc_dry_run_warnings = warnings, pc_transcript = transcript,
          pc_approved_by = P_ApprovedBy p, pc_approved_at = millisFromTime (P_ApprovedAt p),
          pc_denied_by = P_DeniedBy p, pc_denied_at = millisFromTime (P_DeniedAt p), pc_deny_reason = P_DenyReason p\<rparr>)"

text \<open>The parameters of the \<open>UPDATE\<close>, applied to the row under the same id: every column but the id and \<open>created_at\<close>.\<close>

definition proposalToUpdateParams :: "Codec \<Rightarrow> Proposal \<Rightarrow> regErr + (proposal_cols \<Rightarrow> proposal_cols)" where
  "proposalToUpdateParams cd p =
     res_bind (marshalProposalBlobs cd p) (\<lambda>(reasons, warnings, transcript).
     Inr (\<lambda>r. r\<lparr>pc_script_hash := P_ScriptHash p, pc_state := state_name (P_State p), pc_updated_at := millisFromTime (P_UpdatedAt p),
          pc_dry_run_reasons := reasons, pc_dry_run_warnings := warnings, pc_transcript := transcript,
          pc_approved_by := P_ApprovedBy p, pc_approved_at := millisFromTime (P_ApprovedAt p),
          pc_denied_by := P_DeniedBy p, pc_denied_at := millisFromTime (P_DeniedAt p), pc_deny_reason := P_DenyReason p\<rparr>))"

text \<open>An empty column is no JSON and reads as nil.\<close>

definition unmarshal_col :: "string \<Rightarrow> (string \<Rightarrow> string + 'a list) \<Rightarrow> string \<Rightarrow> regErr + 'a list" where
  "unmarshal_col msg unmarshal col = (if col \<noteq> '''' then json_call_err msg (unmarshal col) else Inr [])"

definition proposalFromRow :: "Codec \<Rightarrow> proposal_cols \<Rightarrow> regErr + Proposal" where
  "proposalFromRow cd row =
     res_bind (unmarshal_col ''scripts: unmarshal reasons'' (cd_unmarshal_strings cd) (pc_dry_run_reasons row)) (\<lambda>reasons.
     res_bind (unmarshal_col ''scripts: unmarshal warnings'' (cd_unmarshal_strings cd) (pc_dry_run_warnings row)) (\<lambda>warnings.
     res_bind (unmarshal_col ''scripts: unmarshal transcript'' (cd_unmarshal_entries cd) (pc_transcript row)) (\<lambda>transcript.
     Inr \<lparr>P_ID = pc_id row, P_ScriptHash = pc_script_hash row, P_State = state_of_name (pc_state row),
          P_CreatedAt = timeFromMillis (pc_created_at row), P_UpdatedAt = timeFromMillis (pc_updated_at row),
          P_RejectReasons = reasons, P_Warnings = warnings, P_Transcript = transcript,
          P_ApprovedBy = pc_approved_by row, P_ApprovedAt = timeFromMillis (pc_approved_at row),
          P_DeniedBy = pc_denied_by row, P_DeniedAt = timeFromMillis (pc_denied_at row), P_DenyReason = pc_deny_reason row\<rparr>)))"

section \<open>The statements on proposals\<close>

type_synonym ptable = "proposal_cols list"

definition row_Insert :: "Codec \<Rightarrow> Proposal \<Rightarrow> ptable \<Rightarrow> (regErr + unit) \<times> ptable" where
  "row_Insert cd p rows =
     (case proposalToInsertParams cd p of
        Inl e \<Rightarrow> (Inl e, rows)
      | Inr c \<Rightarrow> if pc_id c \<in> pc_id ` set rows then (Inl unique_err, rows) else (Inr (), rows @ [c]))"

definition row_Update :: "Codec \<Rightarrow> Proposal \<Rightarrow> ptable \<Rightarrow> (regErr + unit) \<times> ptable" where
  "row_Update cd p rows =
     (case proposalToUpdateParams cd p of
        Inl e \<Rightarrow> (Inl e, rows)
      | Inr upd \<Rightarrow> (Inr (), map (\<lambda>r. if pc_id r = P_ID p then upd r else r) rows))"

definition row_Get :: "Codec \<Rightarrow> string \<Rightarrow> ptable \<Rightarrow> regErr + Proposal" where
  "row_Get cd i rows =
     (case find_row pc_id i rows of None \<Rightarrow> Inl ErrProposalNotFound | Some r \<Rightarrow> proposalFromRow cd r)"

definition row_ListPending :: "Codec \<Rightarrow> ptable \<Rightarrow> regErr + Proposal list" where
  "row_ListPending cd rows =
     res_map (proposalFromRow cd) (sort_key pc_created_at (filter (\<lambda>r. pc_state r = ''awaiting_approval'') rows))"

definition row_FindApproved :: "Codec \<Rightarrow> string \<Rightarrow> ptable \<Rightarrow> regErr + Proposal option" where
  "row_FindApproved cd hash rows =
     (case sort_key (\<lambda>r. - pc_approved_at r) (filter (\<lambda>r. pc_script_hash r = hash \<and> pc_state r = ''approved'') rows) of
        [] \<Rightarrow> Inr None
      | r # _ \<Rightarrow> map_sum id Some (proposalFromRow cd r))"

section \<open>Audit entries and grants\<close>

record audit_cols =
  ac_id :: string
  ac_proposal_id :: string
  ac_from_state :: string
  ac_to_state :: string
  ac_actor :: string
  ac_reason :: string
  ac_at :: int

definition auditToParams :: "AuditEntry \<Rightarrow> audit_cols" where
  "auditToParams a =
     \<lparr>ac_id = A_ID a, ac_proposal_id = A_ProposalID a, ac_from_state = state_name (A_FromState a), ac_to_state = state_name (A_ToState a),
      ac_actor = A_Actor a, ac_reason = A_Reason a, ac_at = millisFromTime (A_At a)\<rparr>"

definition auditFromRow :: "audit_cols \<Rightarrow> AuditEntry" where
  "auditFromRow r =
     \<lparr>A_ID = ac_id r, A_ProposalID = ac_proposal_id r, A_FromState = state_of_name (ac_from_state r), A_ToState = state_of_name (ac_to_state r),
      A_Actor = ac_actor r, A_Reason = ac_reason r, A_At = timeFromMillis (ac_at r)\<rparr>"

record grant_cols =
  gc_id :: string
  gc_script_hash :: string
  gc_scope :: string
  gc_session_id :: string
  gc_api_key_id :: string
  gc_granted_at :: int
  gc_expires_at :: int
  gc_last_run_at :: int
  gc_revoked_at :: int

fun scope_name :: "GrantScope \<Rightarrow> string" where
  "scope_name ScopeSession = ''session''"
| "scope_name ScopeStanding = ''standing''"
| "scope_name (ScopeOther s) = s"

definition scope_of_name :: "string \<Rightarrow> GrantScope" where
  "scope_of_name n = (if n = ''session'' then ScopeSession else if n = ''standing'' then ScopeStanding else ScopeOther n)"

definition grantToParams :: "Grant \<Rightarrow> grant_cols" where
  "grantToParams g =
     \<lparr>gc_id = G_ID g, gc_script_hash = G_ScriptHash g, gc_scope = scope_name (G_Scope g), gc_session_id = G_SessionID g,
      gc_api_key_id = G_APIKeyID g, gc_granted_at = millisFromTime (G_GrantedAt g), gc_expires_at = millisFromTime (G_ExpiresAt g),
      gc_last_run_at = millisFromTime (G_LastRunAt g), gc_revoked_at = millisFromTime (G_RevokedAt g)\<rparr>"

definition grantFromRow :: "grant_cols \<Rightarrow> Grant" where
  "grantFromRow row =
     \<lparr>G_ID = gc_id row, G_ScriptHash = gc_script_hash row, G_Scope = scope_of_name (gc_scope row), G_SessionID = gc_session_id row,
      G_APIKeyID = gc_api_key_id row, G_GrantedAt = timeFromMillis (gc_granted_at row), G_ExpiresAt = timeFromMillis (gc_expires_at row),
      G_LastRunAt = timeFromMillis (gc_last_run_at row), G_RevokedAt = timeFromMillis (gc_revoked_at row)\<rparr>"

section \<open>Reading back what was written\<close>

lemma state_of_name [simp]: "state_of_name (state_name s) = s"
  by (cases s) (simp_all add: state_of_name_def)

lemma state_of_name_iff: "s \<noteq> StateEmpty \<Longrightarrow> state_of_name n = s \<longleftrightarrow> n = state_name s"
proof
  assume "s \<noteq> StateEmpty" "state_of_name n = s"
  then show "n = state_name s" by (auto simp: state_of_name_def find_Some_iff simp del: find.simps split: option.splits)
qed simp

lemma audit_roundtrip: "auditFromRow (auditToParams a) = audit_row a"
  by (simp add: auditFromRow_def auditToParams_def audit_row_def row_time_def)

lemma grant_roundtrip:
  assumes "G_Scope g \<noteq> ScopeOther ''session''" "G_Scope g \<noteq> ScopeOther ''standing''"
  shows "grantFromRow (grantToParams g) = grant_row g"
proof -
  have "scope_of_name (scope_name (G_Scope g)) = G_Scope g" using assms by (cases "G_Scope g") (auto simp: scope_of_name_def)
  then show ?thesis by (simp add: grantFromRow_def grantToParams_def grant_row_def row_time_def)
qed

text \<open>What \<open>encoding/json\<close> promises about the evidence of a proposal: it is encoded, not as the empty text, and decoding gives it back,
  as UTF-8.\<close>

definition json_carries :: "Codec \<Rightarrow> Proposal \<Rightarrow> bool" where
  "json_carries cd p \<longleftrightarrow>
     (\<exists>r w t. cd_marshal_strings cd (P_RejectReasons p) = Inr r \<and> cd_marshal_strings cd (P_Warnings p) = Inr w \<and>
        cd_marshal_entries cd (P_Transcript p) = Inr t \<and> r \<noteq> '''' \<and> w \<noteq> '''' \<and> t \<noteq> '''' \<and>
        cd_unmarshal_strings cd r = Inr (map json_text (P_RejectReasons p)) \<and>
        cd_unmarshal_strings cd w = Inr (map json_text (P_Warnings p)) \<and>
        cd_unmarshal_entries cd t = Inr (map json_entry (P_Transcript p)))"

text \<open>A time that its column can tell from "not yet set": not one in the first millisecond of the year 1.\<close>

definition dated :: "gotime \<Rightarrow> bool" where
  "dated t \<longleftrightarrow> millisFromTime (row_time t) = millisFromTime t"

definition storable :: "Codec \<Rightarrow> Proposal \<Rightarrow> bool" where
  "storable cd p \<longleftrightarrow> json_carries cd p \<and> dated (P_CreatedAt p) \<and> dated (P_ApprovedAt p)"

text \<open>A row stands for a proposal: it reads as it, and the columns that the queries test and sort by agree with it.\<close>

definition stands_for :: "Codec \<Rightarrow> proposal_cols \<Rightarrow> Proposal \<Rightarrow> bool" where
  "stands_for cd r p \<longleftrightarrow>
     proposalFromRow cd r = Inr p \<and> pc_id r = P_ID p \<and> pc_script_hash r = P_ScriptHash p \<and> state_of_name (pc_state r) = P_State p \<and>
     pc_created_at r = millisFromTime (P_CreatedAt p) \<and> pc_approved_at r = millisFromTime (P_ApprovedAt p)"

lemma stands_for_state:
  assumes "stands_for cd r p"
  shows "pc_state r = ''awaiting_approval'' \<longleftrightarrow> P_State p = StateAwaitingApproval" "pc_state r = ''approved'' \<longleftrightarrow> P_State p = StateApproved"
  using state_of_name_iff [of StateAwaitingApproval "pc_state r"] state_of_name_iff [of StateApproved "pc_state r"] assms
  by (simp_all add: stands_for_def)

lemma stands_for_fields:
  assumes "stands_for cd r p"
  shows "proposalFromRow cd r = Inr p" "pc_id r = P_ID p" "pc_script_hash r = P_ScriptHash p"
    "pc_created_at r = millisFromTime (P_CreatedAt p)" "pc_approved_at r = millisFromTime (P_ApprovedAt p)"
  using assms by (simp_all add: stands_for_def)

lemma stands_for_created:
  assumes "stands_for cd r p"
  shows "timeFromMillis (millisFromTime (P_CreatedAt p)) = P_CreatedAt p"
proof -
  have "P_CreatedAt p = timeFromMillis (pc_created_at r)"
    using stands_for_fields(1) [OF assms] unfolding proposalFromRow_def res_bind_Inr by auto
  then show ?thesis using stands_for_fields(4) [OF assms] by simp
qed

lemma blobs_carried:
  assumes "json_carries cd p"
  shows "\<exists>r w t. marshalProposalBlobs cd p = Inr (r, w, t) \<and>
    (\<forall>m. unmarshal_col m (cd_unmarshal_strings cd) r = Inr (map json_text (P_RejectReasons p))) \<and>
    (\<forall>m. unmarshal_col m (cd_unmarshal_strings cd) w = Inr (map json_text (P_Warnings p))) \<and>
    (\<forall>m. unmarshal_col m (cd_unmarshal_entries cd) t = Inr (map json_entry (P_Transcript p)))"
proof -
  obtain r w t where "cd_marshal_strings cd (P_RejectReasons p) = Inr r" "cd_marshal_strings cd (P_Warnings p) = Inr w"
      "cd_marshal_entries cd (P_Transcript p) = Inr t" "r \<noteq> ''''" "w \<noteq> ''''" "t \<noteq> ''''"
      "cd_unmarshal_strings cd r = Inr (map json_text (P_RejectReasons p))"
      "cd_unmarshal_strings cd w = Inr (map json_text (P_Warnings p))" "cd_unmarshal_entries cd t = Inr (map json_entry (P_Transcript p))"
    using assms unfolding json_carries_def by blast
  then show ?thesis
    by (intro exI [of _ r] exI [of _ w] exI [of _ t]) (simp add: marshalProposalBlobs_def json_call_err_def res_bind_def unmarshal_col_def)
qed

lemma insert_stands_for:
  assumes "storable cd p"
  shows "\<exists>r. proposalToInsertParams cd p = Inr r \<and> stands_for cd r (proposal_row p)"
proof -
  have dated: "millisFromTime (row_time (P_CreatedAt p)) = millisFromTime (P_CreatedAt p)"
      "millisFromTime (row_time (P_ApprovedAt p)) = millisFromTime (P_ApprovedAt p)"
    using assms by (simp_all add: storable_def dated_def)
  obtain r w t where "marshalProposalBlobs cd p = Inr (r, w, t)"
    "\<And>m. unmarshal_col m (cd_unmarshal_strings cd) r = Inr (map json_text (P_RejectReasons p))"
    "\<And>m. unmarshal_col m (cd_unmarshal_strings cd) w = Inr (map json_text (P_Warnings p))"
    "\<And>m. unmarshal_col m (cd_unmarshal_entries cd) t = Inr (map json_entry (P_Transcript p))"
    using blobs_carried assms unfolding storable_def by metis
  then show ?thesis using dated
    by (simp add: proposalToInsertParams_def res_bind_def stands_for_def proposalFromRow_def proposal_row_def row_time_def)
qed

lemma update_stands_for:
  assumes "storable cd p"
  shows "\<exists>upd. proposalToUpdateParams cd p = Inr upd \<and>
    (\<forall>r q. stands_for cd r q \<longrightarrow> P_ID q = P_ID p \<longrightarrow> stands_for cd (upd r) ((proposal_row p)\<lparr>P_CreatedAt := P_CreatedAt q\<rparr>))"
proof -
  have dated: "millisFromTime (row_time (P_ApprovedAt p)) = millisFromTime (P_ApprovedAt p)"
    using assms by (simp add: storable_def dated_def)
  obtain r w t where blobs: "marshalProposalBlobs cd p = Inr (r, w, t)"
    "\<And>m. unmarshal_col m (cd_unmarshal_strings cd) r = Inr (map json_text (P_RejectReasons p))"
    "\<And>m. unmarshal_col m (cd_unmarshal_strings cd) w = Inr (map json_text (P_Warnings p))"
    "\<And>m. unmarshal_col m (cd_unmarshal_entries cd) t = Inr (map json_entry (P_Transcript p))"
    using blobs_carried assms unfolding storable_def by metis
  obtain upd where upd: "proposalToUpdateParams cd p = Inr upd"
    using blobs(1) by (simp add: proposalToUpdateParams_def res_bind_def)
  have "stands_for cd (upd row) ((proposal_row p)\<lparr>P_CreatedAt := P_CreatedAt q\<rparr>)" if "stands_for cd row q" "P_ID q = P_ID p" for row q
    using upd blobs dated stands_for_fields(2,4) [OF that(1)] stands_for_created [OF that(1)] that(2)
    by (simp add: proposalToUpdateParams_def res_bind_def stands_for_def proposalFromRow_def proposal_row_def row_time_def)
      (elim subst [of _ upd], simp)
  with upd show ?thesis by blast
qed

section \<open>Queries over rows and over proposals\<close>

lemma sort_key_related:
  assumes "list_all2 R xs ys" "\<And>x y. R x y \<Longrightarrow> f x = g y"
  shows "list_all2 R (sort_key f xs) (sort_key g ys)"
proof -
  have insort: "list_all2 R us vs \<Longrightarrow> R x y \<Longrightarrow> list_all2 R (insort_key f x us) (insort_key g y vs)" for us vs x y
    by (induction rule: list_all2_induct) (auto simp: assms(2))
  show ?thesis using assms(1) by (induction rule: list_all2_induct) (simp_all add: insort)
qed

lemma filter_related: "list_all2 R xs ys \<Longrightarrow> (\<And>x y. R x y \<Longrightarrow> P x = Q y) \<Longrightarrow> list_all2 R (filter P xs) (filter Q ys)"
  by (induction rule: list_all2_induct) auto

lemma find_row_related:
  assumes "list_all2 R xs ys" "\<And>x y. R x y \<Longrightarrow> kx x = ky y"
  shows "rel_option R (find_row kx k xs) (find_row ky k ys)"
  using assms(1) by (induction rule: list_all2_induct) (auto simp: find_row_def assms(2))

definition represents :: "Codec \<Rightarrow> ptable \<Rightarrow> World \<Rightarrow> bool" where
  "represents cd rows w \<longleftrightarrow> list_all2 (stands_for cd) rows (w_proposals w)"

lemma reads_agree:
  assumes rep: "represents cd rows w" and io: "e_fail env = (\<lambda>_. None)"
  shows "row_Get cd i rows = fst (store_GetProposal env i w)"
    and "row_ListPending cd rows = fst (ListPendingProposals env w)"
    and "row_FindApproved cd hash rows = fst (FindApprovedProposalByHash env hash w)"
proof -
  note R = rep [unfolded represents_def]
  have "rel_option (stands_for cd) (find_row pc_id i rows) (find_row P_ID i (w_proposals w))"
    using R by (rule find_row_related) (simp add: stands_for_def)
  then show "row_Get cd i rows = fst (store_GetProposal env i w)"
    by (cases rule: option.rel_cases) (auto simp: row_Get_def store_GetProposal_def db_call_def io tick_def stands_for_def)
  have "list_all2 (stands_for cd) (sort_key pc_created_at (filter (\<lambda>r. pc_state r = ''awaiting_approval'') rows))
      (sort_key (\<lambda>p. millisFromTime (P_CreatedAt p)) (filter (\<lambda>p. P_State p = StateAwaitingApproval) (w_proposals w)))"
    using R by (intro sort_key_related filter_related) (simp_all add: stands_for_state stands_for_fields)
  then have "res_map (proposalFromRow cd) (sort_key pc_created_at (filter (\<lambda>r. pc_state r = ''awaiting_approval'') rows)) =
      Inr (sort_key (\<lambda>p. millisFromTime (P_CreatedAt p)) (filter (\<lambda>p. P_State p = StateAwaitingApproval) (w_proposals w)))"
    unfolding res_map_Inr by (rule list_all2_mono) (simp add: stands_for_def)
  then show "row_ListPending cd rows = fst (ListPendingProposals env w)"
    by (simp add: row_ListPending_def ListPendingProposals_def db_call_def io tick_def)
  have "list_all2 (stands_for cd) (sort_key (\<lambda>r. - pc_approved_at r) (filter (\<lambda>r. pc_script_hash r = hash \<and> pc_state r = ''approved'') rows))
      (sort_key (\<lambda>p. - millisFromTime (P_ApprovedAt p)) (filter (\<lambda>p. P_ScriptHash p = hash \<and> P_State p = StateApproved) (w_proposals w)))"
    using R by (intro sort_key_related filter_related) (simp_all add: stands_for_state stands_for_fields)
  then show "row_FindApproved cd hash rows = fst (FindApprovedProposalByHash env hash w)"
    by (cases rule: list.rel_cases)
      (auto simp: row_FindApproved_def FindApprovedProposalByHash_def db_call_def io tick_def stands_for_def)
qed

section \<open>Writes\<close>

datatype pwrite = PInsert (written: Proposal) | PUpdate (written: Proposal)

fun row_write :: "Codec \<Rightarrow> pwrite \<Rightarrow> ptable \<Rightarrow> (regErr + unit) \<times> ptable" where
  "row_write cd (PInsert p) = row_Insert cd p"
| "row_write cd (PUpdate p) = row_Update cd p"

fun table_write :: "Env \<Rightarrow> pwrite \<Rightarrow> unit op" where
  "table_write env (PInsert p) = InsertProposal env p"
| "table_write env (PUpdate p) = UpdateProposal env p"

lemma write_agrees:
  assumes rep: "represents cd rows w" and ok: "storable cd (written x)" and io: "e_fail env = (\<lambda>_. None)"
  shows "fst (row_write cd x rows) = fst (table_write env x w)" "represents cd (snd (row_write cd x rows)) (snd (table_write env x w))"
proof -
  note R = rep [unfolded represents_def]
  have "fst (row_write cd x rows) = fst (table_write env x w) \<and> represents cd (snd (row_write cd x rows)) (snd (table_write env x w))"
  proof (cases x)
    case (PInsert p)
    obtain r where r: "proposalToInsertParams cd p = Inr r" "stands_for cd r (proposal_row p)"
      using insert_stands_for ok PInsert by auto
    have "map pc_id rows = map P_ID (w_proposals w)"
      using R by (induction rule: list_all2_induct) (simp_all add: stands_for_fields)
    then have "pc_id ` set rows = P_ID ` set (w_proposals w)" by (metis set_map)
    moreover have "pc_id r = P_ID p" using stands_for_fields(2) [OF r(2)] by (simp add: proposal_row_def)
    ultimately show ?thesis using PInsert r R
      by (auto simp: row_Insert_def InsertProposal_def db_call_def io tick_def represents_def list_all2_appendI)
  next
    case (PUpdate p)
    obtain upd where upd: "proposalToUpdateParams cd p = Inr upd"
      "\<And>r q. stands_for cd r q \<Longrightarrow> P_ID q = P_ID p \<Longrightarrow> stands_for cd (upd r) ((proposal_row p)\<lparr>P_CreatedAt := P_CreatedAt q\<rparr>)"
      using update_stands_for ok PUpdate by fastforce
    have "list_all2 (stands_for cd) (map (\<lambda>r. if pc_id r = P_ID p then upd r else r) rows)
        (map (\<lambda>r. if P_ID r = P_ID p then (proposal_row p)\<lparr>P_CreatedAt := P_CreatedAt r\<rparr> else r) (w_proposals w))"
      using R by (induction rule: list_all2_induct) (auto simp: stands_for_fields upd(2))
    then show ?thesis using PUpdate upd(1)
      by (simp add: row_Update_def UpdateProposal_def db_call_def io tick_def represents_def)
  qed
  then show "fst (row_write cd x rows) = fst (table_write env x w)" "represents cd (snd (row_write cd x rows)) (snd (table_write env x w))"
    by simp_all
qed

lemma writes_represent:
  assumes "list_all (\<lambda>x. storable cd (written x)) xs" "e_fail env = (\<lambda>_. None)" "represents cd rows w"
  shows "represents cd (fold (\<lambda>x r. snd (row_write cd x r)) xs rows) (fold (\<lambda>x w. snd (table_write env x w)) xs w)"
  using assms by (induction xs arbitrary: rows w) (simp_all add: write_agrees)

text \<open>C25: the table of rows refines the table of proposals. Start both empty and send the same inserts and updates to both, of proposals
  whose evidence JSON can carry: any further write then succeeds or fails on both alike, and reading a proposal by its id, listing
  the pending ones and finding the newest approved one for a script give the same answers, in the same order. A proposal
  read back has its times cut to the millisecond and its evidence as UTF-8, and an update never moves its creation time.\<close>

theorem proposal_store_refined:
  assumes carried: "list_all (\<lambda>x. storable cd (written x)) (x # xs)" and io: "e_fail env = (\<lambda>_. None)"
  shows "let rows = fold (\<lambda>x r. snd (row_write cd x r)) xs []; w = fold (\<lambda>x w. snd (table_write env x w)) xs empty_World in
    fst (row_write cd x rows) = fst (table_write env x w) \<and>
    row_Get cd i rows = fst (store_GetProposal env i w) \<and>
    row_ListPending cd rows = fst (ListPendingProposals env w) \<and>
    row_FindApproved cd hash rows = fst (FindApprovedProposalByHash env hash w)"
proof -
  have "represents cd [] empty_World" by (simp add: represents_def empty_World_def)
  then have rep: "represents cd (fold (\<lambda>x r. snd (row_write cd x r)) xs []) (fold (\<lambda>x w. snd (table_write env x w)) xs empty_World)"
    using carried io by (simp add: writes_represent)
  have "storable cd (written x)" using carried by simp
  with rep show ?thesis unfolding Let_def using write_agrees(1) io reads_agree by blast
qed

section \<open>A concrete table\<close>

definition one_entry :: "TranscriptEntry list" where
  "one_entry = [\<lparr>TE_Time = 0, TE_PID = 7, TE_Kind = ''CMD'', TE_Raw = ''ls''\<rparr>]"

text \<open>The texts that \<open>encoding/json\<close> gives for no strings, for one warning and for one transcript entry.\<close>

definition demo_codec :: Codec where
  \<open>demo_codec =
     \<lparr>cd_marshal_strings = (\<lambda>xs. if xs = [] then Inr ''[]'' else if xs = [''slow''] then Inr ''["slow"]'' else Inl ''unsupported''),
      cd_marshal_entries = (\<lambda>xs. if xs = [] then Inr ''null''
        else if xs = one_entry then Inr ''[{"time":"1970-01-01T00:00:00Z","pid":7,"kind":"CMD","raw":"ls"}]'' else Inl ''unsupported''),
      cd_unmarshal_strings = (\<lambda>t. if t = ''[]'' then Inr [] else if t = ''["slow"]'' then Inr [''slow''] else Inl ''syntax''),
      cd_unmarshal_entries = (\<lambda>t. if t = ''null'' then Inr [] else if hd t = CHR ''['' then Inr one_entry else Inl ''syntax'')\<rparr>\<close>

definition fresh_row :: Proposal where
  "fresh_row = new_proposal ''p'' ''h'' 1234567 1234567"

definition approved_row :: Proposal where
  "approved_row = fresh_row\<lparr>P_State := StateApproved, P_CreatedAt := 9000000, P_UpdatedAt := 8000000, P_Warnings := [''slow''],
     P_Transcript := one_entry, P_ApprovedBy := ''op'', P_ApprovedAt := 8000000\<rparr>"

definition quiet_env :: Env where
  "quiet_env = \<lparr>e_now = (\<lambda>_. 0), e_id = (\<lambda>_. []), e_fail = (\<lambda>_. None), e_dry = (\<lambda>_ _. Inl (ErrSandboxIO [])), e_run = (\<lambda>_ _. Inl (ErrSandboxIO [])),
     e_precond = None, e_hash = id\<rparr>"

lemma demo_storable: "storable demo_codec fresh_row" "storable demo_codec approved_row"
proof -
  have [simp]: "json_text ''slow'' = ''slow''" "json_text ''ls'' = ''ls''" "json_text ''CMD'' = ''CMD''" "json_text [] = []"
    by (simp_all add: json_text_ascii)
  have "dated (P_CreatedAt fresh_row)" "dated (P_ApprovedAt fresh_row)" "dated (P_CreatedAt approved_row)" "dated (P_ApprovedAt approved_row)"
    by code_simp+
  then show "storable demo_codec fresh_row" "storable demo_codec approved_row"
    by (simp_all add: storable_def json_carries_def demo_codec_def fresh_row_def approved_row_def new_proposal_def one_entry_def json_entry_def)
qed

text \<open>Inserted, then approved: a second insert is refused, and the row found for the script is the approved one with its first creation time.\<close>

theorem proposal_store_refined_witness:
  "let rows = fold (\<lambda>x r. snd (row_write demo_codec x r)) [PInsert fresh_row, PUpdate approved_row] [] in
   fst (row_write demo_codec (PInsert fresh_row) rows) = Inl unique_err \<and>
   row_ListPending demo_codec rows = Inr [] \<and>
   row_FindApproved demo_codec ''h'' rows = Inr (Some (approved_row\<lparr>P_CreatedAt := 1000000\<rparr>))"
proof -
  let ?w = "fold (\<lambda>x w. snd (table_write quiet_env x w)) [PInsert fresh_row, PUpdate approved_row] empty_World"
  have "fst (table_write quiet_env (PInsert fresh_row) ?w) = Inl unique_err" "fst (ListPendingProposals quiet_env ?w) = Inr []"
    "fst (FindApprovedProposalByHash quiet_env ''h'' ?w) = Inr (Some (approved_row\<lparr>P_CreatedAt := 1000000\<rparr>))"
    by code_simp+
  moreover have "list_all (\<lambda>x. storable demo_codec (written x)) [PInsert fresh_row, PInsert fresh_row, PUpdate approved_row]"
    using demo_storable by simp
  moreover have "e_fail quiet_env = (\<lambda>_. None)" by (simp add: quiet_env_def)
  ultimately show ?thesis
    using proposal_store_refined [of demo_codec "PInsert fresh_row" "[PInsert fresh_row, PUpdate approved_row]" quiet_env] by (simp add: Let_def)
qed

end
