(* ===== verification/Shim.thy ===== *)
theory Shim
  imports Mcp
begin

text \<open>
  The stdio bridge \<open>cmd/sa-mcp-shim\<close>: one JSON-RPC message per line of standard input, relayed by POST to
  the MCP endpoint, with exactly one line of standard output for each message that expects an answer.
  The JSON codec and the HTTP exchange are arguments (\<open>relay\<close>); \<open>upstream\<close> instantiates the exchange with the
  endpoint of \<open>Mcp\<close>, so the last part is about the two programs together. The output is the text written, so that
  the number of lines in it is the number of its newlines.
\<close>

section \<open>The program\<close>

definition scannerBufferCap :: int where
  "scannerBufferCap = 10 * 1024 * 1024"

definition codeUpstreamError :: int where
  "codeUpstreamError = -32000"

text \<open>
  \<open>re_members\<close> decodes a line to the raw value of its id, if there is one; \<open>re_send\<close> is the exchange: it fails,
  or gives a status and the body or the error of reading it; \<open>re_marshal\<close> prints an error response.
\<close>

record relay =
  re_members :: "string \<Rightarrow> string + string option"
  re_build :: "string \<Rightarrow> string option"
  re_send :: "http_request \<Rightarrow> string + int \<times> (string + string)"
  re_marshal :: "string \<Rightarrow> int \<Rightarrow> string \<Rightarrow> string + string"
  re_token :: string

definition envOr :: "(string \<Rightarrow> string option) \<Rightarrow> string \<Rightarrow> string \<Rightarrow> string" where
  "envOr look key fallback = (case look key of Some v \<Rightarrow> if v \<noteq> '''' then v else fallback | None \<Rightarrow> fallback)"

definition extractID :: "relay \<Rightarrow> string \<Rightarrow> string + string \<times> bool" where
  "extractID e line =
     res_bind (re_members e line) (\<lambda>m. case m of None \<Rightarrow> Inr ('''', True) | Some raw \<Rightarrow> Inr (raw, False))"

definition trailing_blank :: "char \<Rightarrow> bool" where
  "trailing_blank c \<longleftrightarrow> c = CHR 0x0D \<or> c = CHR 0x0A \<or> c = CHR '' '' \<or> c = CHR 0x09"

definition bytes_TrimRight :: "string \<Rightarrow> string" where
  "bytes_TrimRight s = rev (dropWhile trailing_blank (rev s))"

definition writeLine :: "string \<Rightarrow> string" where
  "writeLine body = bytes_TrimRight body @ [CHR 0x0A]"

definition shim_writeError :: "relay \<Rightarrow> string \<Rightarrow> int \<Rightarrow> string \<Rightarrow> string" where
  "shim_writeError e i code message =
     (case re_marshal e (if i = '''' then ''null'' else i) code message of Inl _ \<Rightarrow> '''' | Inr b \<Rightarrow> writeLine b)"

definition relay_request :: "relay \<Rightarrow> string \<Rightarrow> http_request" where
  "relay_request e line =
     \<lparr>hq_method = ''POST'', hq_authorization = (if re_token e \<noteq> '''' then ''Bearer '' @ re_token e else ''''), hq_body = Inr line\<rparr>"

definition handleLine :: "relay \<Rightarrow> string \<Rightarrow> string" where
  "handleLine e line =
     (case extractID e line of
        Inl err \<Rightarrow> shim_writeError e ''null'' codeUpstreamError (''shim: invalid JSON-RPC message: '' @ err)
      | Inr (i, isNotification) \<Rightarrow>
          let answer = (\<lambda>m. if isNotification then '''' else shim_writeError e i codeUpstreamError m) in
          (case re_build e line of
             Some err \<Rightarrow> answer (''shim: could not build upstream request: '' @ err)
           | None \<Rightarrow>
               (case re_send e (relay_request e line) of
                  Inl err \<Rightarrow> answer (''shim: upstream request failed: '' @ err)
                | Inr (status, Inl err) \<Rightarrow> answer (''shim: reading upstream response failed: '' @ err)
                | Inr (status, Inr body) \<Rightarrow>
                    if isNotification then ''''
                    else if status \<ge> 300 then answer (''shim: upstream returned HTTP '' @ itoa status)
                    else if strings_TrimSpace body = '''' then answer ''shim: upstream returned an empty response''
                    else writeLine body)))"

fun tokens_within :: "int \<Rightarrow> string list \<Rightarrow> string list \<times> bool" where
  "tokens_within cap [] = ([], False)"
| "tokens_within cap (l # ls) =
     (if int (length l) < cap then (let (rest, err) = tokens_within cap ls in (dropCR l # rest, err)) else ([], True))"

definition stdin_lines :: "string \<Rightarrow> string list \<times> bool" where
  "stdin_lines input =
     (let (ls, too_long) = tokens_within scannerBufferCap (split_lines [] input) in
      (filter (\<lambda>l. strings_TrimSpace l \<noteq> '''') ls, too_long))"

text \<open>
  \<open>run\<close> until the input ends; the second component is the error of the scanner. A cancelled context stops it after
  some of the lines, so its output is then the output on those lines.
\<close>

definition shim_run :: "relay \<Rightarrow> string \<Rightarrow> string \<times> string option" where
  "shim_run e input =
     (let (ls, too_long) = stdin_lines input in
      (concat (map (handleLine e) ls), if too_long then Some ErrTooLong else None))"

section \<open>The endpoint behind it\<close>

text \<open>\<open>enc\<close> is what the endpoint writes for a body; a missing body is no text.\<close>

definition upstream :: "(http_body \<Rightarrow> string) \<Rightarrow> formats \<Rightarrow> decoders \<Rightarrow> Server \<Rightarrow> http_request \<Rightarrow> string + int \<times> (string + string)" where
  "upstream enc fm jd s q =
     (let resp = fst (serveHTTP fm jd s q) in
      Inr (int (hr_status resp), Inr (if hr_body resp = NoBody then '''' else enc (hr_body resp))))"

section \<open>One line in, one line out\<close>

definition newlines :: "string \<Rightarrow> nat" where
  "newlines s = length (filter (\<lambda>c. c = CHR 0x0A) s)"

text \<open>A message that expects an answer: it is no JSON object, or it has an id.\<close>

definition expects_answer :: "relay \<Rightarrow> string \<Rightarrow> bool" where
  "expects_answer e line = (case re_members e line of Inl _ \<Rightarrow> True | Inr m \<Rightarrow> m \<noteq> None)"

text \<open>What the shim relies on: the printer gives one line, and so does the endpoint's body up to its end.\<close>

definition one_line_peers :: "relay \<Rightarrow> bool" where
  "one_line_peers e \<longleftrightarrow>
     (\<forall>i c m. \<exists>b. re_marshal e i c m = Inr b \<and> CHR 0x0A \<notin> set (bytes_TrimRight b)) \<and>
     (\<forall>q st b. re_send e q = Inr (st, Inr b) \<longrightarrow> CHR 0x0A \<notin> set (bytes_TrimRight b))"

lemma newlines_append [simp]: "newlines (a @ b) = newlines a + newlines b"
  by (simp add: newlines_def)

lemma newlines_zero: "CHR 0x0A \<notin> set s \<Longrightarrow> newlines s = 0"
  by (auto simp: newlines_def filter_empty_conv)

lemma newlines_writeLine: "CHR 0x0A \<notin> set (bytes_TrimRight b) \<Longrightarrow> newlines (writeLine b) = 1"
  by (simp add: writeLine_def newlines_zero) (simp add: newlines_def)

lemma newlines_writeError:
  assumes "one_line_peers e"
  shows "newlines (shim_writeError e i c m) = 1"
proof -
  obtain b where "re_marshal e (if i = '''' then ''null'' else i) c m = Inr b" "CHR 0x0A \<notin> set (bytes_TrimRight b)"
    using assms unfolding one_line_peers_def by blast
  then show ?thesis by (simp add: shim_writeError_def newlines_writeLine)
qed

lemma handleLine_silent: "re_members e line = Inr None \<Longrightarrow> handleLine e line = ''''"
  by (simp add: handleLine_def extractID_def res_bind_def Let_def split: option.split sum.split prod.split)

lemma handleLine_answers:
  assumes "one_line_peers e" "expects_answer e line"
  shows "newlines (handleLine e line) = 1"
proof -
  have body: "newlines (writeLine b) = 1" if "re_send e q = Inr (st, Inr b)" for q st b
    using assms(1) that unfolding one_line_peers_def by (blast intro: newlines_writeLine)
  show ?thesis
  proof (cases "re_members e line")
    case (Inl err)
    then show ?thesis by (simp add: handleLine_def extractID_def res_bind_def newlines_writeError [OF assms(1)])
  next
    case (Inr m)
    then obtain raw where raw: "re_members e line = Inr (Some raw)" using assms(2) by (auto simp: expects_answer_def)
    then show ?thesis
      using body
      by (auto simp: handleLine_def extractID_def res_bind_def Let_def newlines_writeError [OF assms(1)]
          split: option.split sum.split prod.split)
  qed
qed

lemma newlines_concat:
  assumes "one_line_peers e"
  shows "newlines (concat (map (handleLine e) ls)) = length (filter (expects_answer e) ls)"
proof (induction ls)
  case Nil
  show ?case by (simp add: newlines_def)
next
  case (Cons l ls)
  have "newlines (handleLine e l) = (if expects_answer e l then 1 else 0)"
    using handleLine_answers [OF assms, of l] handleLine_silent [of e l]
    by (auto simp: expects_answer_def newlines_def split: sum.splits)
  then show ?case using Cons by simp
qed

section \<open>The shim and the endpoint together\<close>

lemma relay_authorized: "re_token e = SV_authToken s \<Longrightarrow> SV_authToken s = '''' \<or> checkAuth s (relay_request e line)"
  by (simp add: checkAuth_iff relay_request_def bearerPrefix_def)

lemma relay_unauthorized:
  "SV_authToken s \<noteq> '''' \<Longrightarrow> re_token e \<noteq> SV_authToken s \<Longrightarrow> fst (serveHTTP fm jd s (relay_request e line)) = writeUnauthorized"
  by (auto simp: serveHTTP_def checkAuth_iff relay_request_def bearerPrefix_def)

lemma relay_reaches_dispatch:
  assumes "re_token e = SV_authToken s" "length line \<le> maxRequestBytes" "jd_request jd line = Inr req"
    and "RQ_Method req \<noteq> ''''" "RQ_ID req \<noteq> ''''" "RQ_ID req \<noteq> ''null''"
  shows "fst (serveHTTP fm jd s (relay_request e line)) =
    \<lparr>hr_status = 200, hr_allow = None,
     hr_body = Rpc \<lparr>RP_ID = RQ_ID req, RP_Outcome = fst (rpc_dispatch fm jd s (RQ_Method req) (RQ_Params req))\<rparr>\<rparr>"
  using assms relay_authorized [OF assms(1), of line]
  by (auto simp: serveHTTP_def handlePost_def relay_request_def Let_def split: prod.split)

definition shim_error :: "relay \<Rightarrow> string \<Rightarrow> string \<Rightarrow> string" where
  "shim_error e i m = shim_writeError e i codeUpstreamError m"

text \<open>C28: the stdio bridge keeps the protocol. As long as both peers write one line per message, standard
  output gets exactly one line for each message that expects an answer and none for any other. Behind it,
  the endpoint with the same token answers a well-formed request with the result of its dispatcher under the
  request's own id; with another token the client gets the error for HTTP 401 and nothing else.\<close>

theorem relay_one_line_per_answer:
  assumes "one_line_peers e" and "re_send e = upstream enc fm jd s" and "re_build e line = None"
    and "re_members e line = Inr (Some i)" and "\<And>b. strings_TrimSpace (enc b) \<noteq> ''''"
  shows "newlines (fst (shim_run e input)) = length (filter (expects_answer e) (fst (stdin_lines input))) \<and>
    (case jd_request jd line of
       Inl _ \<Rightarrow> True
     | Inr req \<Rightarrow>
         if re_token e = SV_authToken s \<and> length line \<le> maxRequestBytes \<and> RQ_ID req = i \<and> RQ_Method req \<noteq> '''' \<and> i \<noteq> '''' \<and> i \<noteq> ''null''
         then handleLine e line = writeLine (enc (Rpc \<lparr>RP_ID = i, RP_Outcome = fst (rpc_dispatch fm jd s (RQ_Method req) (RQ_Params req))\<rparr>))
         else True) \<and>
    (if SV_authToken s \<noteq> '''' \<and> re_token e \<noteq> SV_authToken s
     then handleLine e line = shim_error e i ''shim: upstream returned HTTP 401'' else True)"
proof (intro conjI)
  show "newlines (fst (shim_run e input)) = length (filter (expects_answer e) (fst (stdin_lines input)))"
    using newlines_concat [OF assms(1)] by (simp add: shim_run_def split: prod.split)
  have sent: "handleLine e line = (let resp = fst (serveHTTP fm jd s (relay_request e line));
      body = (if hr_body resp = NoBody then '''' else enc (hr_body resp)) in
      if int (hr_status resp) \<ge> 300 then shim_error e i (''shim: upstream returned HTTP '' @ itoa (int (hr_status resp)))
      else if strings_TrimSpace body = '''' then shim_error e i ''shim: upstream returned an empty response''
      else writeLine body)"
    using assms(2-4) by (simp add: handleLine_def extractID_def res_bind_def upstream_def shim_error_def Let_def)
  show "case jd_request jd line of
       Inl _ \<Rightarrow> True
     | Inr req \<Rightarrow>
         if re_token e = SV_authToken s \<and> length line \<le> maxRequestBytes \<and> RQ_ID req = i \<and> RQ_Method req \<noteq> '''' \<and> i \<noteq> '''' \<and> i \<noteq> ''null''
         then handleLine e line = writeLine (enc (Rpc \<lparr>RP_ID = i, RP_Outcome = fst (rpc_dispatch fm jd s (RQ_Method req) (RQ_Params req))\<rparr>))
         else True"
    using assms(5) relay_reaches_dispatch [of e s line jd _ fm] by (auto simp: sent split: sum.split)
  have "itoa 401 = ''401''" by code_simp
  then show "if SV_authToken s \<noteq> '''' \<and> re_token e \<noteq> SV_authToken s
     then handleLine e line = shim_error e i ''shim: upstream returned HTTP 401'' else True"
    using relay_unauthorized [of s e fm jd line] by (simp add: sent writeUnauthorized_def)
qed

definition demo_relay :: "Server \<Rightarrow> formats \<Rightarrow> decoders \<Rightarrow> relay" where
  "demo_relay s fm jd =
     \<lparr>re_members = (\<lambda>l. Inr (Some ''7'')), re_build = (\<lambda>_. None), re_send = upstream (\<lambda>_. ''{}'') fm jd s,
      re_marshal = (\<lambda>i c m. Inr ''{}''), re_token = ''s3cret''\<rparr>"

definition demo_jd :: decoders where
  "demo_jd = \<lparr>jd_request = (\<lambda>b. Inr \<lparr>RQ_ID = ''7'', RQ_Method = ''ping'', RQ_Params = ''''\<rparr>), jd_call = Inl, jd_args = Inl, jd_uri = Inl\<rparr>"

definition demo_fm :: formats where
  "demo_fm = \<lparr>fm_marshal = (\<lambda>_. Inr ''{}''), fm_compact = (\<lambda>_. Inr ''{}''), fm_rfc3339 = itoa, fm_json_time = itoa\<rparr>"

definition demo_server :: Server where
  "demo_server = \<lparr>SV_dashboardBaseURL = '''', SV_authToken = ''s3cret'', SV_tools = [], SV_resources = []\<rparr>"

lemma demo_one_line: "one_line_peers (demo_relay s fm jd)"
  by (auto simp: one_line_peers_def demo_relay_def upstream_def bytes_TrimRight_def trailing_blank_def Let_def)

theorem relay_one_line_per_answer_witness:
  "handleLine (demo_relay demo_server demo_fm demo_jd) ''x'' = ''{}'' @ [CHR 0x0A] \<and>
   newlines (fst (shim_run (demo_relay demo_server demo_fm demo_jd) (''x'' @ [CHR 0x0A] @ ''y''))) = 2"
proof -
  let ?e = "demo_relay demo_server demo_fm demo_jd"
  have lines: "stdin_lines (''x'' @ [CHR 0x0A] @ ''y'') = ([''x'', ''y''], False)"
    by (simp add: stdin_lines_def scannerBufferCap_def dropCR_def TrimSpace_ascii is_ascii_def ascii_space_def)
  have trim: "strings_TrimSpace ''{}'' \<noteq> ''''" by (simp add: TrimSpace_ascii is_ascii_def ascii_space_def)
  have line: "writeLine ''{}'' = ''{}'' @ [CHR 0x0A]" by (simp add: writeLine_def bytes_TrimRight_def trailing_blank_def)
  note t = relay_one_line_per_answer [of ?e "\<lambda>_. ''{}''" demo_fm demo_jd demo_server "''x''" "''7''" "''x'' @ [CHR 0x0A] @ ''y''"]
  show ?thesis
    using t trim line
    by (simp add: demo_one_line lines [simplified], simp add: demo_relay_def demo_jd_def demo_server_def expects_answer_def maxRequestBytes_def)
qed

text \<open>
  A request with the id \<open>null\<close> is a notification to the endpoint, which answers it with 202 and no body, but a request to the
  shim, which then reports an empty response to the client.
\<close>

lemma null_id_reported:
  assumes "re_send e = upstream enc fm jd s" "re_build e line = None" "re_members e line = Inr (Some ''null'')"
    and "re_token e = SV_authToken s" "length line \<le> maxRequestBytes" "jd_request jd line = Inr req" "RQ_Method req \<noteq> ''''" "RQ_ID req = ''null''"
  shows "handleLine e line = shim_error e ''null'' ''shim: upstream returned an empty response''"
  using assms relay_authorized [OF assms(4), of line]
  by (auto simp: handleLine_def extractID_def res_bind_def upstream_def shim_error_def Let_def serveHTTP_def handlePost_def relay_request_def)

end
