(* ===== verification/Pages.thy ===== *)
theory Pages
  imports Web
begin

text \<open>
  The HTML that the dashboard sends: the templates \<open>pageTmpl\<close> (\<open>web.go\<close>), \<open>incidentsListTmpl\<close> and
  \<open>incidentDetailTmpl\<close> (\<open>incidents.go\<close>), \<open>unraidPageTmpl\<close> (\<open>unraid.go\<close>) and \<open>commandRowTmpl\<close>
  (\<open>commands.go\<close>), with the escaping that \<open>html/template\<close> gives each place: element text, a quoted attribute, and
  the path of a URL. A template is a list of items: its own tags and literal text, and the places where it
  puts data. \<open>html_scan\<close> reads a page back as a browser's tokenizer does, with every \<open><\<close>
  taken as the start of a tag, and \<open>active\<close> names what of a tag can act: the target of a form or of an
  \<open>hx-post\<close>, a script, an event handler. The theorem at the end lists the active parts of every page: tool output,
  the diagnosis and every other text that a page shows can add none.
\<close>

section \<open>Items\<close>

datatype item =
    Doctype
  | Tag string "(string \<times> string) list"
  | Lit string
  | Esc string
  | Raw string

fun item_text :: "item \<Rightarrow> string" where
  "item_text Doctype = ''<!doctype html>''"
| "item_text (Tag n attrs) = ''<'' @ n @ concat (map (\<lambda>(k, v). attr k v) attrs) @ ''>''"
| "item_text (Lit s) = s"
| "item_text (Esc s) = html_escape s"
| "item_text (Raw s) = s"

definition render_items :: "item list \<Rightarrow> string" where
  "render_items its = concat (map item_text its)"

definition el :: "string \<Rightarrow> (string \<times> string) list \<Rightarrow> item list \<Rightarrow> item list" where
  "el n attrs body = Tag n attrs # body @ [Tag (CHR ''/'' # n) []]"

definition cls :: "string \<Rightarrow> (string \<times> string) list" where
  "cls c = [(''class'', c)]"

definition line :: "item list \<Rightarrow> item list" where
  "line its = Lit nl # its"

definition incl :: "bool \<Rightarrow> item list \<Rightarrow> item list" where
  "incl b its = (if b then its else [])"

definition num :: "int \<Rightarrow> item" where
  "num n = Esc (itoa n)"

definition truth :: "bool \<Rightarrow> item" where
  "truth b = Lit (if b then ''true'' else ''false'')"

text \<open>The filter of \<open>html/template\<close> for data in the path of a URL: reserved and unreserved characters and complete
  escapes stay, every other byte is written as an escape.\<close>

definition is_hex :: "char \<Rightarrow> bool" where
  "is_hex c \<longleftrightarrow> c \<in> set ''0123456789abcdefABCDEF''"

definition url_plain :: "char \<Rightarrow> bool" where
  "url_plain c \<longleftrightarrow> (let n = (of_char c :: nat) in
     48 \<le> n \<and> n \<le> 57 \<or> 65 \<le> n \<and> n \<le> 90 \<or> 97 \<le> n \<and> n \<le> 122 \<or> c \<in> set ''!#$&*+,/:;=?@[]-._~'')"

fun url_normalize :: "string \<Rightarrow> string" where
  "url_normalize [] = []"
| "url_normalize (c # s) =
     (if url_plain c \<or> c = CHR ''%'' \<and> 2 \<le> length s \<and> is_hex (s ! 0) \<and> is_hex (s ! 1) then [c]
      else [CHR ''%'', hex_digit (of_char c div 16), hex_digit (of_char c mod 16)]) @ url_normalize s"

definition url_attr :: "string \<Rightarrow> string" where
  "url_attr s = html_escape (url_normalize s)"

section \<open>Parts that the pages share\<close>

definition script :: "string \<Rightarrow> item list" where
  "script src = line (el ''script'' [(''src'', src)] [])"

definition page_head :: "item list \<Rightarrow> item list \<Rightarrow> item list" where
  "page_head title scripts =
     [Doctype, Lit nl, Tag ''html'' [(''lang'', ''en'')], Lit nl, Tag ''head'' [], Lit nl, Tag ''meta'' [(''charset'', ''utf-8'')], Lit nl] @
     el ''title'' [] title @ line [Tag ''link'' [(''rel'', ''stylesheet''), (''href'', ''/static/style.css'')]] @ scripts @
     line [Tag ''/head'' []]"

definition page_tail :: "item list" where
  "page_tail = line [Tag ''/body'' []] @ line [Tag ''/html'' []]"

definition th_row :: "string list \<Rightarrow> item list" where
  "th_row hs = el ''thead'' [] (el ''tr'' [] (concat (map (\<lambda>h. el ''th'' [] [Lit h]) hs)))"

definition table :: "string list \<Rightarrow> item list list \<Rightarrow> item list" where
  "table hs rows = line [Tag ''table'' []] @ line (th_row hs) @ line [Tag ''tbody'' []] @ concat (map line rows) @
     line [Tag ''/tbody'' []] @ line [Tag ''/table'' []]"

definition cell :: "item list \<Rightarrow> item list" where
  "cell its = el ''td'' [] its"

definition strong :: "string \<Rightarrow> item list" where
  "strong s = el ''strong'' [] [Esc s]"

definition tinted :: "string \<Rightarrow> string \<Rightarrow> string \<Rightarrow> item list" where
  "tinted n pre s = el n (cls (pre @ html_escape s)) [Esc s]"

definition button :: "string \<Rightarrow> string \<Rightarrow> item list" where
  "button c label = el ''button'' [(''class'', ''btn '' @ c), (''type'', ''submit'')] [Lit label]"

definition post_form :: "string \<Rightarrow> (string \<times> string) list \<Rightarrow> string \<Rightarrow> string \<Rightarrow> item list" where
  "post_form target extra c label =
     line (el ''form'' ([(''class'', ''inline''), (''method'', ''post''), (''action'', target)] @ extra) (button c label))"

section \<open>The pages of web.go and incidents.go\<close>

definition pending_banner :: "pendingIncident \<Rightarrow> item list" where
  "pending_banner p =
     line (el ''div'' [(''class'', ''alert-pending''), (''role'', ''alert'')]
       (el ''strong'' [] [Lit ''Incident awaiting your decision:''] @ [Lit '' '', Esc (PI_Subject p), Lit '' is ''] @
        tinted ''span'' ''s-'' (PI_TriggerStatus p) @ [Lit ('' '' @ em_dash_text @ '' proposed action '')] @ strong (PI_ProposedAction p) @
        [Lit ''.''] @
        el ''a'' [(''class'', ''btn btn-primary''), (''href'', ''/incidents/'' @ url_attr (PI_ID p))] [Lit ''Review &amp; decide'']))"

definition service_row :: "row \<Rightarrow> item list" where
  "service_row r =
     el ''tr'' [(''id'', ''svc-'' @ html_escape (Rw_Name r)), (''sse-swap'', ''svc-'' @ html_escape (Rw_Name r))]
       (el ''td'' (cls ''name'') [Esc (Rw_Name r)] @ tinted ''td'' ''status s-'' (Rw_Status r) @
        el ''td'' (cls ''latency'') [num (Rw_LatencyMS r), Lit '' ms''] @ el ''td'' (cls ''checked'') [Esc (Rw_LastChecked r)] @
        el ''td'' (cls ''spark'') [Raw (Rw_Spark r)])"

definition harness_panel :: "string \<times> bool \<Rightarrow> item list" where
  "harness_panel h =
     line (el ''h2'' [] [Lit ''Harness'']) @ incl (snd h) (line (el ''p'' (cls ''harness-halted'') [Lit ''HALTED''])) @
     line (el ''p'' [] (Lit ''Mode: '' # strong (fst h))) @ post_form ''/api/harness/halt'' [] ''btn-danger'' ''Halt'' @
     post_form ''/api/harness/rearm'' [(''onsubmit'', ''return confirm('' @ [CHR 0x27] @ ''Re-arm the harness?'' @ [CHR 0x27] @ '')'')]
       ''btn-secondary'' ''Re-arm'' @
     line (el ''p'' [] (el ''a'' [(''href'', ''/incidents'')] [Lit ''Incidents'']))"

definition pageTmpl :: "pageData \<Rightarrow> item list" where
  "pageTmpl d =
     page_head [Lit ''Server Assistant''] (script ''/static/htmx.min.js'' @ script ''/static/sse.js'') @
     line [Tag ''body'' [(''hx-ext'', ''sse''), (''sse-connect'', ''/events'')]] @ concat (map pending_banner (PG_Pending d)) @
     line (el ''h1'' [] [Lit ''Server Assistant'']) @
     incl (PG_UnraidLink d) (line (el ''p'' [] (el ''a'' [(''href'', ''/unraid'')] [Lit ''Unraid'']))) @
     table [''Service'', ''Status'', ''Latency'', ''Last checked'', ''Trend''] (map service_row (PG_Rows d)) @
     (case PG_Harness d of None \<Rightarrow> [] | Some h \<Rightarrow> harness_panel h) @ page_tail"

definition incident_row :: "incidentRow \<Rightarrow> item list" where
  "incident_row r =
     el ''tr'' (if IR_Pending r then cls ''row-pending'' else [])
       (cell [Esc (IR_StartedAt r)] @ cell [Esc (IR_Subject r)] @ cell (tinted ''span'' ''s-'' (IR_TriggerStatus r)) @
        cell [Esc (IR_Mode r)] @ cell [Esc (IR_ProposedAction r)] @ cell (tinted ''span'' ''a-'' (IR_Approval r)) @
        cell (tinted ''span'' ''o-'' (IR_Outcome r)) @
        cell (el ''a'' [(''href'', ''/incidents/'' @ url_attr (IR_ID r))] [Lit (if IR_Pending r then ''decide'' else ''detail'')]))"

definition incidentsListTmpl :: "incidentsListData \<Rightarrow> item list" where
  "incidentsListTmpl d =
     page_head [Lit (''Incidents '' @ em_dash_text @ '' Server Assistant'')] [] @ line [Tag ''body'' []] @
     line (el ''h1'' [] [Lit ''Incidents'']) @ incl (IL_Halted d) (line (el ''p'' (cls ''harness-halted'') [Lit ''HARNESS HALTED''])) @
     line (el ''p'' [] (Lit ''Mode: '' # strong (IL_Mode d))) @
     table [''Started'', ''Subject'', ''Trigger'', ''Mode'', ''Proposed'', ''Approval'', ''Outcome'', ''''] (map incident_row (IL_Rows d)) @
     line (el ''p'' [] (el ''a'' [(''href'', ''/'')] [Lit ''Dashboard''])) @ page_tail"

definition muted :: "item list \<Rightarrow> item list" where
  "muted its = el ''p'' (cls ''muted'') its"

definition err :: "item list \<Rightarrow> item list" where
  "err its = el ''p'' (cls ''err'') its"

definition tool_call :: "toolCallView \<Rightarrow> item list" where
  "tool_call t =
     line (el ''h3'' [] ([Esc (TV_Tool t), Lit '' ''] @
       el ''small'' (cls ''muted'') [Lit ''('', num (TV_DurationMS t), Lit '' ms, '', Esc (TV_At t), Lit '')''])) @
     line (if TV_Output t \<noteq> [] then el ''pre'' (cls ''tool-output'') [Esc (TV_Output t)] else muted [Lit ''(no output)'']) @
     incl (TV_Err t \<noteq> []) (line (err [Lit ''error: '', Esc (TV_Err t)]))"

definition facts_part :: "incidentDetailView \<Rightarrow> item list" where
  "facts_part v =
     line (el ''h2'' [] [Lit ''Facts'']) @
     line (el ''p'' [] ([Lit ''Subject: ''] @ strong (IV_Subject v) @ [Lit ('' '' @ em_dash_text @ '' Trigger status: '')] @
       tinted ''strong'' ''s-'' (IV_TriggerStatus v) @ [Lit ('' '' @ em_dash_text @ '' Mode: '')] @ strong (IV_Mode v) @
       [Lit ('' '' @ em_dash_text @ '' Started: ''), Esc (IV_StartedAt v)])) @
     concat (map tool_call (IV_ToolCalls v))"

definition diagnosis_part :: "incidentDetailView \<Rightarrow> item list" where
  "diagnosis_part v =
     line (line (el ''h2'' [] [Lit ''Diagnosis''])) @
     incl (IV_Fallback v) (line (el ''p'' [] (el ''span'' (cls ''badge'') [Lit ''fallback'']))) @
     line (el ''p'' [] [Esc (IV_Summary v)]) @
     line (el ''p'' [] ([Lit ''Proposed: ''] @ strong (IV_ProposedKind v) @ [Lit '' on ''] @ strong (IV_ProposedSubject v))) @
     line (el ''p'' [] [Lit ''Rationale: '', Esc (IV_Rationale v)])"

definition usage_part :: "incidentDetailView \<Rightarrow> item list" where
  "usage_part v =
     line (line (el ''h2'' [] [Lit ''Usage''])) @
     line (el ''p'' [] [Lit ''Backend: '', Esc (IV_UsageBackend v), Lit ('' '' @ em_dash_text @ '' Model: ''), Esc (IV_UsageModel v),
       Lit ('' '' @ em_dash_text @ '' Prompt tokens: ''), num (IV_PromptTokens v),
       Lit ('' '' @ em_dash_text @ '' Completion tokens: ''), num (IV_CompletionTokens v),
       Lit ('' '' @ em_dash_text @ '' Latency: ''), num (IV_LatencyMS v), Lit '' ms''])"

definition approval_part :: "incidentDetailView \<Rightarrow> item list" where
  "approval_part v =
     line (line (el ''h2'' [] [Lit ''Approval''])) @
     (if IV_Pending v
      then post_form (''/api/incidents/'' @ url_attr (IV_ID v) @ ''/approve'') [] ''btn-primary'' ''Approve'' @
           post_form (''/api/incidents/'' @ url_attr (IV_ID v) @ ''/deny'') [] ''btn-danger'' ''Deny''
      else line (el ''p'' [] ([Lit ''Decision: ''] @ tinted ''strong'' ''a-'' (IV_Approval v) @
        incl (IV_ApprovedBy v \<noteq> []) [Lit '' by '', Esc (IV_ApprovedBy v)] @ [Lit '' at '', Esc (IV_ApprovedAt v)])))"

definition dispatch_part :: "incidentDetailView \<Rightarrow> item list" where
  "dispatch_part v =
     line (line (el ''h2'' [] [Lit ''Dispatch''])) @
     line (el ''p'' [] (Lit ''Resolved target: '' #
       (if IV_ResolvedTarget v \<noteq> [] then [Esc (IV_ResolvedTarget v)] else el ''span'' (cls ''muted'') [Lit em_dash_text]))) @
     (if IV_DispatchFailed v
      then line (err (el ''strong'' [] [Lit ''Dispatch attempted and failed:''] @ [Lit '' '', Esc (IV_DispatchResult v)]))
      else if IV_DispatchResult v \<noteq> []
      then line (el ''p'' [] [Lit ''Dispatch result: '', Esc (IV_DispatchResult v)]) @
           line (el ''p'' [] [Lit ''Dispatched at: '', Esc (IV_DispatchedAt v)])
      else line (muted [Lit ''Nothing dispatched.'']))"

definition outcome_part :: "incidentDetailView \<Rightarrow> item list" where
  "outcome_part v =
     line (line (el ''h2'' [] [Lit ''Outcome''])) @
     line (if IV_Outcome v \<noteq> [] then el ''p'' [] (tinted ''span'' ''o-'' (IV_Outcome v) @ [Lit '' at '', Esc (IV_OutcomeAt v)])
       else muted (el ''em'' [] [Lit (''Not yet adjudicated '' @ em_dash_text @
         '' only the monitoring spine'' @ [CHR 0x27] @ ''s next committed Status decides this (ADR 0016).'')])) @
     incl (IV_Error v \<noteq> []) (line (err [Lit ''Error: '', Esc (IV_Error v)]))"

definition incidentDetailTmpl :: "incidentDetailView \<Rightarrow> item list" where
  "incidentDetailTmpl v =
     page_head [Lit ''Incident '', Esc (IV_ID v), Lit ('' '' @ em_dash_text @ '' Server Assistant'')] [] @ line [Tag ''body'' []] @
     line (el ''h1'' [] [Lit ''Incident '', Esc (IV_ID v)]) @
     line (el ''p'' [] (el ''a'' [(''href'', ''/incidents'')] [Lit ''&larr; Incidents''])) @ line (facts_part v) @ diagnosis_part v @
     usage_part v @ approval_part v @ dispatch_part v @ outcome_part v @ page_tail"

section \<open>The Unraid page and the command rows\<close>

text \<open>\<open>Duration.Round\<close> and \<open>Duration.String\<close> (on a duration in nanoseconds).\<close>

definition maxDuration :: duration where
  "maxDuration = 9223372036854775807"

definition Duration_Round :: "duration \<Rightarrow> duration \<Rightarrow> duration" where
  "Duration_Round d m =
     (if m \<le> 0 then d
      else let r = \<bar>d\<bar> mod m in
        if 2 * r < m then (if d < 0 then d + r else d - r)
        else if d < 0 then max (d - m + r) (- maxDuration - 1) else min (d + m - r) maxDuration)"

definition frac_digits :: "nat \<Rightarrow> int \<Rightarrow> string" where
  "frac_digits prec n =
     (let s = itoa (n mod 10 ^ prec); f = rev (dropWhile (\<lambda>c. c = CHR ''0'') (rev (replicate (prec - length s) CHR ''0'' @ s)))
      in if f = [] then [] else CHR ''.'' # f)"

definition Duration_String :: "duration \<Rightarrow> string" where
  "Duration_String d =
     (let u = \<bar>d\<bar>; sign = (if d < 0 then ''-'' else '''') in
      if u = 0 then ''0s''
      else if u < 1000 then sign @ itoa u @ ''ns''
      else if u < 1000000 then sign @ itoa (u div 1000) @ frac_digits 3 u @ [CHR 0xC2, CHR 0xB5] @ ''s''
      else if u < 1000000000 then sign @ itoa (u div 1000000) @ frac_digits 6 u @ ''ms''
      else let s = u div 1000000000 in
        sign @ (if 3600 \<le> s then itoa (s div 3600) @ ''h'' else '''') @ (if 60 \<le> s then itoa (s div 60 mod 60) @ ''m'' else '''') @
        itoa (s mod 60) @ frac_digits 9 u @ ''s'')"

definition command_duration :: "commandRow \<Rightarrow> string" where
  "command_duration r = Duration_String (Duration_Round (CW_Duration r) 1000000)"

definition commandRowTmpl :: "formats \<Rightarrow> commandRow \<Rightarrow> item list" where
  "commandRowTmpl fm r =
     el ''div'' [(''id'', ''cmd-'' @ html_escape (CW_ID r)), (''class'', ''command-row'')]
       (line (el ''h3'' [] [Esc (CW_Label r)]) @
        incl (CW_Description r \<noteq> []) (line (el ''p'' [] [Esc (CW_Description r)])) @
        line (muted (el ''strong'' [] [Lit ''What this does:''] @ [Lit '' '', Esc (CW_Consequence r)])) @
        incl (CW_Ran r)
          (line (if CW_OK r
             then el ''p'' [] [Lit ''Succeeded in '', Esc (command_duration r), Lit '' (started '', Esc (fm_rfc3339 fm (CW_StartedAt r)), Lit '')'']
             else err [Lit ''Failed after '', Esc (command_duration r), Lit '' (started '', Esc (fm_rfc3339 fm (CW_StartedAt r)), Lit '')'']) @
           line (el ''pre'' (cls ''tool-output'') [Esc (CW_Output r)])) @
        line (el ''button'' [(''class'', ''btn btn-primary''), (''type'', ''button''),
          (''hx-post'', ''/api/unraid/commands/'' @ html_escape (CW_ID r) @ ''/run''), (''hx-target'', ''#cmd-'' @ html_escape (CW_ID r)),
          (''hx-swap'', ''outerHTML'')] [Lit ''Run'']) @
        [Lit nl])"

definition toCommandResultDTO :: "formats \<Rightarrow> CommandResult \<Rightarrow> json" where
  "toCommandResultDTO fm r =
     JObj [(''ok'', JBool (CR_OK r)), (''output'', JStr (CR_Output r)), (''started_at'', JStr (fm_rfc3339 fm (CR_StartedAt r))),
       (''finished_at'', JStr (fm_rfc3339 fm (CR_FinishedAt r)))]"

text \<open>The text of a formatted size; a panic of \<open>formatBytes\<close>, which \<open>formatBytes_total\<close> excludes, would have ended the handler before.\<close>

definition shown :: "string go_result \<Rightarrow> item" where
  "shown r = Esc (case r of Returns s \<Rightarrow> s | Panics \<Rightarrow> [])"

definition aside :: "string \<Rightarrow> item list" where
  "aside s = incl (s \<noteq> []) (Lit '' '' # el ''span'' (cls ''muted'') [Lit ''('', Esc s, Lit '')''])"

definition reach_banner :: "reachView \<Rightarrow> item list" where
  "reach_banner r =
     el ''div'' [(''class'', ''reach-banner reach-'' @ html_escape (RV_State r)), (''role'', if RV_OK r then ''status'' else ''alert'')]
       (line (el ''strong'' [] [Lit ''Reachability:''] @ [Lit '' '', Esc (RV_Headline r)]) @
        incl (RV_Detail r \<noteq> []) [Lit '' '', Esc (RV_Detail r)] @ aside (RV_PublicURL r) @ aside (RV_TailnetURL r) @
        incl (RV_Err r \<noteq> []) (Lit '' '' # el ''span'' (cls ''err'') [Esc (RV_Err r)]) @ [Lit nl])"

definition section_part :: "string \<Rightarrow> ('a \<Rightarrow> item list) \<Rightarrow> 'a page_section \<Rightarrow> item list" where
  "section_part title body sx =
     line (el ''h2'' [] [Lit title]) @
     (case SX_Data sx of
        Some d \<Rightarrow> if SX_OK sx then body d else line (err [Esc (SX_Err sx)])
      | None \<Rightarrow> line (err [Esc (SX_Err sx)]))"

definition host_part :: "hostView \<Rightarrow> item list" where
  "host_part h =
     line (el ''p'' [] [Esc (HV_Hostname h), Lit ('' '' @ em_dash_text @ '' Unraid ''), Esc (HV_UnraidVersion h), Lit ('' '' @ em_dash_text @ '' ''),
       Esc (HV_CPUModel h), Lit '' ('', num (HV_CPUCores h), Lit '' cores)'']) @
     line (el ''p'' [] ([Lit ''CPU: ''] @ strong (HV_CPUPercent h) @ [Lit ('' '' @ em_dash_text @ '' Memory: '')] @
       el ''strong'' [] [shown (HV_MemUsed h)] @ [Lit '' / '', shown (HV_MemTotal h), Lit ('' '' @ em_dash_text @ '' Uptime: ''), Esc (HV_Uptime h)])) @
     incl (HV_Degraded h) (line (el ''p'' (cls ''alert-unauth'') [Lit (''Read from the server'' @ [CHR 0x27] @ ''s own /proc, not the Unraid API '' @
       em_dash_text @ '' no API key is configured. These are real measurements of this machine, not estimates; only the source differs.'')])) @
     line (muted [Lit ''Collected at '', Esc (HV_CollectedAt h)])"

definition disk_row :: "web_diskView \<Rightarrow> item list" where
  "disk_row d =
     el ''tr'' [] (cell [Esc (DV_Name d)] @ cell [Esc (DV_Role d)] @ cell [shown (DV_Size d)] @ cell [shown (DV_Used d)] @
       el ''td'' (if DV_Standby d then cls ''disk-standby'' else []) [Esc (DV_Temp d)] @ cell [Esc (DV_SmartStatus d)])"

definition array_part :: "web_arrayView \<Rightarrow> item list" where
  "array_part a =
     line (el ''p'' [] ([Lit ''State: ''] @ strong (AV_State a) @
       (if AV_ParityActive a then [Lit ('' '' @ em_dash_text @ '' parity check running: ''), Esc (AV_ParityProgress a)]
        else [Lit ('' '' @ em_dash_text @ '' last parity check: ''), Esc (AV_ParityLastCheck a), Lit '' ('', num (AV_ParityLastErrors a), Lit '' errors)'']))) @
     incl (AV_Degraded a) (line (el ''p'' (cls ''alert-unauth'') [Lit (''Read from Unraid'' @ [CHR 0x27] @ ''s on-disk state files, not the Unraid API '' @
       em_dash_text @ '' no API key is configured, so some fields the API would provide are unavailable here. '' @
       ''Values shown are real; absent ones are simply not in this source.'')])) @
     table [''Disk'', ''Role'', ''Size'', ''Used'', ''Temp'', ''SMART''] (map disk_row (AV_Disks a))"

definition share_row :: "web_shareView \<Rightarrow> item list" where
  "share_row s =
     el ''tr'' [] (cell [Esc (ShV_Name s)] @ cell [shown (ShV_Size s)] @ cell [shown (ShV_Used s)] @ cell [shown (ShV_Free s)] @
       cell [Esc (ShV_Allocator s)] @ cell [Esc (ShV_CachePool s)] @ cell [truth (ShV_Exported s)] @ cell [truth (ShV_Accessible s)])"

definition container_row :: "web_containerView \<Rightarrow> item list" where
  "container_row c =
     el ''tr'' [] (cell [Esc (CV_Name c)] @ cell [Esc (CV_Image c)] @ cell [Esc (CV_State c)] @ cell [Esc (CV_Status c)] @
       cell [Esc (CV_Ports c)] @ cell [truth (CV_AutoRun c)])"

definition proposal_part :: "proposalRow \<Rightarrow> item list" where
  "proposal_part p =
     line (el ''div'' [(''id'', ''proposal-'' @ html_escape (PW_ID p)), (''class'', ''proposal-row'')]
       (line (el ''h3'' [] ([Esc (PW_Title p), Lit '' ''] @
          el ''small'' (cls ''muted'') [Lit ''('', Esc (PW_RequestedBy p), Lit '', '', Esc (PW_RequestedAt p), Lit '')''])) @
        line (el ''pre'' (cls ''tool-output'') [Esc (PW_DryRunOutput p)]) @
        (if PW_Pending p
         then post_form (''/api/unraid/proposals/'' @ url_attr (PW_ID p) @ ''/approve'') [] ''btn-primary'' ''Approve'' @
              post_form (''/api/unraid/proposals/'' @ url_attr (PW_ID p) @ ''/deny'') [] ''btn-danger'' ''Deny''
         else line (el ''p'' [] ([Lit ''Decision: ''] @ tinted ''strong'' ''a-'' (PW_Decision p) @
           incl (PW_DecidedBy p \<noteq> []) [Lit '' by '', Esc (PW_DecidedBy p)] @ [Lit '' at '', Esc (PW_DecidedAt p)]))) @
        [Lit nl]))"

text \<open>The panel of the commands: absent without a source, an explicit message for an empty catalog. A catalog that cannot
  be read is not possible here: \<open>Source.Commands\<close> returns no error.\<close>

definition commands_part :: "formats \<Rightarrow> commandRow list \<Rightarrow> item list" where
  "commands_part fm rows =
     line (el ''h2'' [] [Lit ''Commands'']) @
     (if rows = [] then line (muted [Lit (''No commands are configured. An operator enables them in the deployment config '' @
        ''(deploy/docker/config.docker.yaml, commands section) '' @ em_dash_text @ '' the catalog defaults to empty.'')])
      else concat (map (\<lambda>r. line (commandRowTmpl fm r)) rows))"

definition unauth_notice :: "item list" where
  "unauth_notice =
     el ''div'' [(''class'', ''alert-unauth''), (''role'', ''alert'')]
       (el ''strong'' [] [Lit ''No authentication:''] @ [Lit '' this Approval surface is ''] @ el ''strong'' [] [Lit ''unauthenticated''] @
        [Lit ('' '' @ em_dash_text @ '' anyone who can reach this page can approve or deny proposed actions. '' @
          ''Development proceeds this way by explicit decision; login (HL-SA-10) is on hold.'')])"

definition unraidPageTmpl :: "formats \<Rightarrow> unraidPageData \<Rightarrow> item list" where
  "unraidPageTmpl fm d =
     page_head [Lit (''Unraid '' @ em_dash_text @ '' Server Assistant'')] (script ''/static/htmx.min.js'') @ line [Tag ''body'' []] @
     line (el ''p'' [] (el ''a'' [(''href'', ''/'')] [Lit ''&larr; Dashboard''])) @ line (el ''h1'' [] [Lit ''Unraid'']) @
     line (line unauth_notice) @ line (line (reach_banner (UP_Reach d))) @
     line (line (el ''div'' [(''id'', ''unraid-live''), (''hx-get'', ''/unraid''), (''hx-trigger'', ''every 15s''),
         (''hx-select'', ''#unraid-live''), (''hx-swap'', ''outerHTML'')]
       (line (section_part ''Host'' host_part (UP_Host d)) @ line (section_part ''Array'' array_part (UP_Array d)) @
        line (section_part ''Shares'' (\<lambda>rows. table [''Share'', ''Size'', ''Used'', ''Free'', ''Allocator'', ''Cache pool'', ''Exported'', ''Accessible'']
          (map share_row rows)) (UP_Shares d)) @
        line (section_part ''Containers'' (\<lambda>rows. table [''Container'', ''Image'', ''State'', ''Status'', ''Ports'', ''Autostart'']
          (map container_row rows)) (UP_Containers d)) @
        incl (UP_Proposals d \<noteq> [])
          (line (el ''h2'' [] [Lit ''Script proposals'']) @
           line (muted [Lit ''A dry run shows what a script would do. It has not been run and no changes have been made.'']) @
           concat (map proposal_part (UP_Proposals d))) @
        (case UP_Commands d of None \<Rightarrow> [] | Some rows \<Rightarrow> commands_part fm rows) @ line [Lit nl]))) @ page_tail"

section \<open>Reading a page back\<close>

type_synonym tag = "string \<times> (string \<times> string) list"

datatype lex =
    InText
  | InName string
  | InAttrs string "(string \<times> string) list" string
  | InValue string "(string \<times> string) list" string string

fun html_step :: "char \<Rightarrow> lex \<times> tag list \<Rightarrow> lex \<times> tag list" where
  "html_step c (InText, out) = (if c = CHR ''<'' then InName [] else InText, out)"
| "html_step c (InName n, out) =
     (if c = CHR ''>'' then (InText, out @ [(rev n, [])])
      else if c = CHR 0x20 \<or> c = CHR 0x0A \<or> c = CHR 0x09 then (InAttrs n [] [], out) else (InName (c # n), out))"
| "html_step c (InAttrs n attrs k, out) =
     (if c = CHR ''>'' then (InText, out @ [(rev n, rev attrs)])
      else if c = CHR 0x22 then (InValue n attrs k [], out)
      else if c = CHR 0x20 \<or> c = CHR 0x0A \<or> c = CHR 0x09 then (InAttrs n attrs [], out)
      else if c = CHR ''='' then (InAttrs n attrs k, out) else (InAttrs n attrs (c # k), out))"
| "html_step c (InValue n attrs k v, out) =
     (if c = CHR 0x22 then (InAttrs n ((rev k, rev v) # attrs) [], out) else (InValue n attrs k (c # v), out))"

definition html_scan :: "string \<Rightarrow> lex \<times> tag list" where
  "html_scan s = fold html_step s (InText, [])"

definition active :: "tag \<Rightarrow> string list" where
  "active t =
     (case t of (n, attrs) \<Rightarrow>
        map snd (filter (\<lambda>(k, v). n = ''form'' \<and> k = ''action'' \<or> n = ''script'' \<and> k = ''src'' \<or> k = ''hx-post'' \<or> prefix ''on'' k) attrs))"

definition page_actions :: "string \<Rightarrow> string list" where
  "page_actions s = concat (map active (snd (html_scan s)))"

text \<open>What an item must satisfy so that the tags of its text are its own.\<close>

definition name_char :: "char \<Rightarrow> bool" where
  "name_char c \<longleftrightarrow> c \<notin> set ('' <=>'' @ [CHR 0x22, CHR 0x0A, CHR 0x09])"

fun item_ok :: "item \<Rightarrow> bool" where
  "item_ok Doctype \<longleftrightarrow> True"
| "item_ok (Tag n attrs) \<longleftrightarrow> list_all name_char n \<and> list_all (\<lambda>(k, v). list_all name_char k \<and> CHR 0x22 \<notin> set v) attrs"
| "item_ok (Lit s) \<longleftrightarrow> CHR ''<'' \<notin> set s"
| "item_ok (Esc s) \<longleftrightarrow> True"
| "item_ok (Raw s) \<longleftrightarrow> fst (html_scan s) = InText"

fun item_actions :: "item \<Rightarrow> string list" where
  "item_actions (Tag n attrs) = active (n, attrs)"
| "item_actions (Raw s) = page_actions s"
| "item_actions i = []"

definition list_actions :: "item list \<Rightarrow> string list" where
  "list_actions its = concat (map item_actions its)"

lemma html_escape_quiet: "c \<in> set (html_escape s) \<Longrightarrow> c \<noteq> CHR ''<'' \<and> c \<noteq> CHR ''>'' \<and> c \<noteq> CHR 0x22"
  by (auto simp: html_escape_def split: if_splits)

lemma scan_text: "CHR ''<'' \<notin> set s \<Longrightarrow> fold html_step s (InText, out) = (InText, out)"
  by (induction s) auto

lemma scan_name: "list_all name_char n \<Longrightarrow> fold html_step n (InName m, out) = (InName (rev n @ m), out)"
  by (induction n arbitrary: m) (auto simp: name_char_def)

lemma scan_key: "list_all name_char k \<Longrightarrow> fold html_step k (InAttrs n attrs m, out) = (InAttrs n attrs (rev k @ m), out)"
  by (induction k arbitrary: m) (auto simp: name_char_def)

lemma scan_value: "CHR 0x22 \<notin> set v \<Longrightarrow> fold html_step v (InValue n attrs k m, out) = (InValue n attrs k (rev v @ m), out)"
  by (induction v arbitrary: m) auto

lemma scan_attr:
  assumes "list_all name_char k" "CHR 0x22 \<notin> set v"
  shows "fold html_step (attr k v) (InName n, out) = (InAttrs n [(k, v)] [], out)"
    "fold html_step (attr k v) (InAttrs n attrs m, out) = (InAttrs n ((k, v) # attrs) [], out)"
  using assms by (simp_all add: attr_def dq_def scan_key scan_value)

lemma scan_attrs:
  "list_all (\<lambda>(k, v). list_all name_char k \<and> CHR 0x22 \<notin> set v) as \<Longrightarrow>
   fold html_step (concat (map (\<lambda>(k, v). attr k v) as)) (InAttrs n attrs m, out) =
     (InAttrs n (rev as @ attrs) (if as = [] then m else []), out)"
  by (induction as arbitrary: attrs m) (auto simp: scan_attr)

lemma scan_tag:
  assumes "item_ok (Tag n attrs)"
  shows "fold html_step (item_text (Tag n attrs)) (InText, out) = (InText, out @ [(n, attrs)])"
  using assms by (cases attrs) (auto simp: scan_name scan_attr scan_attrs)

lemma scan_out: "fold html_step s (l, a @ b) = (let r = fold html_step s (l, b) in (fst r, a @ snd r))"
proof (induction s arbitrary: l b)
  case (Cons c s)
  have "html_step c (l, a @ b) = (let r = html_step c (l, b) in (fst r, a @ snd r))"
    by (cases l) auto
  then show ?case using Cons by (simp add: Let_def)
qed simp

lemma scan_item:
  "item_ok i \<Longrightarrow> \<exists>ts. fold html_step (item_text i) (InText, out) = (InText, out @ ts) \<and> concat (map active ts) = item_actions i"
proof (cases i)
  case Doctype
  then show ?thesis by (simp add: active_def)
next
  case (Tag n attrs)
  moreover assume "item_ok i"
  ultimately show ?thesis using scan_tag [of n attrs out] by simp
next
  case (Lit s)
  moreover assume "item_ok i"
  ultimately show ?thesis by (simp add: scan_text)
next
  case (Esc s)
  moreover have "CHR ''<'' \<notin> set (html_escape s)" using html_escape_quiet [of "CHR ''<''" s] by blast
  ultimately show ?thesis by (simp add: scan_text)
next
  case (Raw s)
  moreover assume "item_ok i"
  ultimately show ?thesis using scan_out [of s InText out "[]"]
    by (simp add: html_scan_def page_actions_def Let_def prod_eq_iff)
qed

lemma scan_items:
  "list_all item_ok its \<Longrightarrow>
   \<exists>ts. fold html_step (render_items its) (InText, out) = (InText, out @ ts) \<and> concat (map active ts) = list_actions its"
proof (induction its arbitrary: out)
  case Nil
  show ?case by (simp add: render_items_def list_actions_def)
next
  case (Cons i its)
  then obtain ts where ts: "fold html_step (item_text i) (InText, out) = (InText, out @ ts)" "concat (map active ts) = item_actions i"
    using scan_item [of i out] by auto
  moreover from Cons obtain us where "fold html_step (render_items its) (InText, (out @ ts)) = (InText, (out @ ts) @ us)"
    "concat (map active us) = list_actions its" by fastforce
  ultimately show ?case
    by (intro exI [of _ "ts @ us"]) (simp add: render_items_def list_actions_def)
qed

lemma page_actions_render: "list_all item_ok its \<Longrightarrow> page_actions (render_items its) = list_actions its"
  using scan_items [of its "[]"] by (auto simp: page_actions_def html_scan_def)

section \<open>The parts of the pages\<close>

named_theorems page_simps

lemma quiet_data [page_simps]: "CHR 0x22 \<notin> set (html_escape s)" "CHR 0x22 \<notin> set (url_attr s)" "CHR ''<'' \<notin> set em_dash_text" "CHR ''<'' \<notin> set nl"
  using html_escape_quiet [of "CHR 0x22"] by (auto simp: url_attr_def em_dash_text_def nl_def)

lemma list_actions_simps [page_simps]:
  "list_actions [] = []" "list_actions (i # its) = item_actions i @ list_actions its"
  "list_actions (xs @ ys) = list_actions xs @ list_actions ys"
  by (simp_all add: list_actions_def)

lemma list_actions_concat [page_simps]: "list_actions (concat xss) = concat (map list_actions xss)"
  by (induction xss) (simp_all add: page_simps)

lemma list_ok_concat [page_simps]: "list_all item_ok (concat xss) \<longleftrightarrow> list_all (list_all item_ok) xss"
  by (induction xss) simp_all

lemma part_ok [page_simps]:
  "list_all item_ok (el n attrs body) \<longleftrightarrow> item_ok (Tag n attrs) \<and> list_all item_ok body"
  "list_all item_ok (line its) \<longleftrightarrow> list_all item_ok its"
  "list_all item_ok (incl b its) \<longleftrightarrow> (b \<longrightarrow> list_all item_ok its)"
  "item_ok (num k)" "item_ok (truth b)" "item_ok (shown r)"
  by (auto simp: el_def line_def incl_def num_def truth_def shown_def nl_def name_char_def)

lemma part_actions [page_simps]:
  "list_actions (el n attrs body) = active (n, attrs) @ list_actions body"
  "list_actions (line its) = list_actions its"
  "list_actions (incl b its) = (if b then list_actions its else [])"
  "item_actions (num k) = []" "item_actions (truth b) = []" "item_actions (shown r) = []"
  by (auto simp: el_def line_def incl_def num_def truth_def shown_def page_simps active_def)

lemmas part_defs = page_head_def page_tail_def th_row_def cell_def strong_def tinted_def button_def post_form_def script_def
  cls_def muted_def err_def active_def name_char_def

lemma shared_ok [page_simps]:
  "list_all item_ok (page_head title scripts) \<longleftrightarrow> list_all item_ok title \<and> list_all item_ok scripts"
  "list_all item_ok page_tail" "list_all item_ok (cell its) \<longleftrightarrow> list_all item_ok its" "list_all item_ok (strong s)"
  "list_all item_ok (muted its) \<longleftrightarrow> list_all item_ok its" "list_all item_ok (err its) \<longleftrightarrow> list_all item_ok its"
  by (simp_all add: part_defs page_simps)

lemma shared_actions [page_simps]:
  "list_actions (page_head title scripts) = list_actions title @ list_actions scripts"
  "list_actions page_tail = []" "list_actions (cell its) = list_actions its" "list_actions (strong s) = []"
  "list_actions (muted its) = list_actions its" "list_actions (err its) = list_actions its"
  "list_actions (tinted n pre s) = []" "list_actions (script src) = [src]"
  "list_actions (post_form target extra c label) = target # active (''form'', extra)"
  by (simp_all add: part_defs page_simps)

lemma tinted_ok [page_simps]:
  "list_all name_char n \<Longrightarrow> CHR 0x22 \<notin> set pre \<Longrightarrow> list_all item_ok (tinted n pre s)"
  by (simp add: tinted_def cls_def page_simps) (simp add: name_char_def)

lemma controls_ok [page_simps]:
  "list_all item_ok (script src) \<longleftrightarrow> CHR 0x22 \<notin> set src"
  "CHR 0x22 \<notin> set c \<Longrightarrow> CHR ''<'' \<notin> set label \<Longrightarrow>
   list_all item_ok (post_form target extra c label) \<longleftrightarrow> CHR 0x22 \<notin> set target \<and> item_ok (Tag ''form'' extra)"
  by (simp_all add: part_defs page_simps)

lemma table_ok [page_simps]:
  "list_all item_ok (table hs rows) \<longleftrightarrow> list_all (\<lambda>h. CHR ''<'' \<notin> set h) hs \<and> list_all (list_all item_ok) rows"
  by (simp add: table_def th_row_def page_simps list.pred_map comp_def) (simp add: name_char_def)

lemma table_actions [page_simps]: "list_actions (table hs rows) = concat (map list_actions rows)"
  by (simp add: table_def th_row_def page_simps comp_def) (simp add: active_def)

text \<open>The sparkline is the one text that a page shows without escaping.\<close>

lemma itoa_chars: "c \<in> set (itoa n) \<Longrightarrow> c = CHR ''-'' \<or> is_digit c"
proof -
  have digit: "is_digit (digit_char d)" if "d < 10" for d
    using that by (simp add: is_digit_def digit_char_def)
  have "c \<in> set (nat_dec k) \<Longrightarrow> is_digit c" for k
  proof (induction k rule: nat_dec.induct)
    case (1 k)
    then show ?case using digit by (subst (asm) (2) nat_dec.simps) (auto split: if_splits)
  qed
  then show "c \<in> set (itoa n) \<Longrightarrow> ?thesis" by (auto simp: itoa_def split: if_splits)
qed

lemma fmt_f1_quiet: "CHR 0x22 \<notin> set (fmt_f1 x)"
  using itoa_chars [of "CHR 0x22"] by (auto simp: fmt_f1_def is_digit_def Let_def split: prod.splits)

lemma join_quiet: "list_all (\<lambda>x. c \<notin> set x) xs \<Longrightarrow> c \<notin> set sep \<Longrightarrow> c \<notin> set (strings_Join xs sep)"
  by (induction xs sep rule: strings_Join.induct) auto

lemma sparkline_quiet: "fst (html_scan (sparkline samples)) = InText \<and> page_actions (sparkline samples) = []"
proof (cases "samples = []")
  case True
  have "item_ok (Lit em_dash_text)" by (simp add: page_simps)
  then show ?thesis using True
      page_actions_render [of "el ''span'' (cls ''spark-none'') [Lit em_dash_text]"]
      scan_items [of "el ''span'' (cls ''spark-none'') [Lit em_dash_text]" "[]"]
    by (simp add: page_simps) (auto simp: sparkline_def render_items_def el_def cls_def html_scan_def active_def name_char_def)
next
  case False
  let ?p = "strings_Join (map (\<lambda>(x, y). fmt_f1 x @ '','' @ fmt_f1 y) (spark_points samples)) '' ''"
  have p: "CHR 0x22 \<notin> set ?p"
    by (rule join_quiet) (auto simp: list_all_iff fmt_f1_quiet)
  have s: "CHR 0x22 \<notin> set (spark_stroke (PS_Status (last samples)))"
    by (cases "PS_Status (last samples)") (simp_all add: spark_stroke_def)
  show ?thesis using False p s
    by (simp add: sparkline_def html_scan_def page_actions_def scan_attr name_char_def active_def)
qed

lemma index_parts [page_simps]:
  "list_all item_ok (pending_banner p)" "list_actions (pending_banner p) = []"
  "list_all item_ok (service_row r) \<longleftrightarrow> fst (html_scan (Rw_Spark r)) = InText" "list_actions (service_row r) = page_actions (Rw_Spark r)"
  "list_all item_ok (harness_panel h)"
  "list_actions (harness_panel h) =
     [''/api/harness/halt'', ''/api/harness/rearm'', ''return confirm('' @ [CHR 0x27] @ ''Re-arm the harness?'' @ [CHR 0x27] @ '')'']"
  by (simp_all add: pending_banner_def service_row_def harness_panel_def page_simps part_defs)

lemma incident_row_parts [page_simps]: "list_all item_ok (incident_row r)" "list_actions (incident_row r) = []"
  by (simp_all add: incident_row_def page_simps part_defs)

lemma list_page_actions: "page_actions (render_items (incidentsListTmpl d)) = []"
proof -
  have "list_all item_ok (incidentsListTmpl d)" "list_actions (incidentsListTmpl d) = []"
    by (simp_all add: incidentsListTmpl_def page_simps list.pred_map comp_def list.pred_True) (simp_all add: part_defs page_simps)
  then show ?thesis by (simp add: page_actions_render)
qed

lemma index_page_actions:
  assumes "list_all (\<lambda>r. fst (html_scan (Rw_Spark r)) = InText \<and> page_actions (Rw_Spark r) = []) (PG_Rows d)"
  shows "page_actions (render_items (pageTmpl d)) = [''/static/htmx.min.js'', ''/static/sse.js''] @
    (case PG_Harness d of None \<Rightarrow> [] | Some h \<Rightarrow>
      [''/api/harness/halt'', ''/api/harness/rearm'', ''return confirm('' @ [CHR 0x27] @ ''Re-arm the harness?'' @ [CHR 0x27] @ '')''])"
proof -
  have "list_all (\<lambda>r. fst (html_scan (Rw_Spark r)) = InText) (PG_Rows d)" using assms by (simp add: list_all_iff)
  then have "list_all item_ok (pageTmpl d)"
    by (simp add: pageTmpl_def page_simps list.pred_map comp_def list.pred_True split: option.split) (simp add: part_defs page_simps)
  moreover have "concat (map (\<lambda>r. page_actions (Rw_Spark r)) (PG_Rows d)) = []" using assms by (simp add: list_all_iff)
  then have "list_actions (pageTmpl d) = [''/static/htmx.min.js'', ''/static/sse.js''] @
    (case PG_Harness d of None \<Rightarrow> [] | Some h \<Rightarrow> list_actions (harness_panel h))"
    by (simp add: pageTmpl_def page_simps comp_def split: option.split) (simp add: part_defs page_simps)
  ultimately show ?thesis by (simp add: page_actions_render index_parts cong: option.case_cong)
qed

lemma detail_parts [page_simps]:
  "list_all item_ok (tool_call t)" "list_actions (tool_call t) = []"
  "list_all item_ok (facts_part v)" "list_actions (facts_part v) = []"
  "list_all item_ok (diagnosis_part v)" "list_actions (diagnosis_part v) = []"
  "list_all item_ok (usage_part v)" "list_actions (usage_part v) = []"
  "list_all item_ok (dispatch_part v)" "list_actions (dispatch_part v) = []"
  "list_all item_ok (outcome_part v)" "list_actions (outcome_part v) = []"
proof -
  show t: "list_all item_ok (tool_call t)" "list_actions (tool_call t) = []" for t
    by (simp_all add: tool_call_def page_simps) (simp_all add: part_defs page_simps)
  show "list_all item_ok (facts_part v)" "list_actions (facts_part v) = []"
    by (simp_all add: facts_part_def page_simps t list.pred_map comp_def list.pred_True) (simp_all add: part_defs page_simps)
  show "list_all item_ok (diagnosis_part v)" "list_actions (diagnosis_part v) = []"
    by (simp_all add: diagnosis_part_def page_simps) (simp_all add: part_defs page_simps)
  show "list_all item_ok (usage_part v)" "list_actions (usage_part v) = []"
    by (simp_all add: usage_part_def page_simps) (simp_all add: part_defs page_simps)
  show "list_all item_ok (dispatch_part v)" "list_actions (dispatch_part v) = []"
    by (simp_all add: dispatch_part_def page_simps) (simp_all add: part_defs page_simps)
  show "list_all item_ok (outcome_part v)" "list_actions (outcome_part v) = []"
    by (simp_all add: outcome_part_def page_simps) (simp_all add: part_defs page_simps)
qed

lemma approval_parts [page_simps]:
  "list_all item_ok (approval_part v)"
  "list_actions (approval_part v) =
     (if IV_Pending v then [''/api/incidents/'' @ url_attr (IV_ID v) @ ''/approve'', ''/api/incidents/'' @ url_attr (IV_ID v) @ ''/deny''] else [])"
  by (simp_all add: approval_part_def page_simps) (simp_all add: part_defs page_simps)

lemma detail_page_actions: "page_actions (render_items (incidentDetailTmpl v)) = list_actions (approval_part v)"
proof -
  have "list_all item_ok (incidentDetailTmpl v)" "list_actions (incidentDetailTmpl v) = list_actions (approval_part v)"
    by (simp_all add: incidentDetailTmpl_def page_simps) (simp_all add: part_defs page_simps)
  then show ?thesis by (simp add: page_actions_render)
qed

lemma command_parts [page_simps]:
  "list_all item_ok (commandRowTmpl fm r)"
  "list_actions (commandRowTmpl fm r) = [''/api/unraid/commands/'' @ html_escape (CW_ID r) @ ''/run'']"
  by (simp_all add: commandRowTmpl_def page_simps) (simp_all add: part_defs page_simps)

lemma commands_parts [page_simps]:
  "list_all item_ok (commands_part fm rows)"
  "list_actions (commands_part fm rows) = map (\<lambda>r. ''/api/unraid/commands/'' @ html_escape (CW_ID r) @ ''/run'') rows"
  by (induction rows) (simp_all add: commands_part_def page_simps part_defs list.pred_map comp_def list.pred_True split: if_splits)

lemma proposal_parts [page_simps]:
  "list_all item_ok (proposal_part p)"
  "list_actions (proposal_part p) =
     (if PW_Pending p
      then [''/api/unraid/proposals/'' @ url_attr (PW_ID p) @ ''/approve'', ''/api/unraid/proposals/'' @ url_attr (PW_ID p) @ ''/deny''] else [])"
  by (simp_all add: proposal_part_def page_simps) (simp_all add: part_defs page_simps)

lemma section_parts [page_simps]:
  assumes "CHR ''<'' \<notin> set title"
  shows "(\<And>d. list_all item_ok (body d)) \<Longrightarrow> list_all item_ok (section_part title body sx)"
    "(\<And>d. list_actions (body d) = []) \<Longrightarrow> list_actions (section_part title body sx) = []"
  using assms by (auto simp: section_part_def page_simps part_defs split: option.split)

lemma unraid_parts [page_simps]:
  "list_all item_ok (host_part h)" "list_actions (host_part h) = []"
  "list_all item_ok (disk_row dk)" "list_actions (disk_row dk) = []"
  "list_all item_ok (share_row s)" "list_actions (share_row s) = []"
  "list_all item_ok (container_row c)" "list_actions (container_row c) = []"
  "list_all item_ok (reach_banner r)" "list_actions (reach_banner r) = []"
  "list_all item_ok unauth_notice" "list_actions unauth_notice = []"
  by (simp_all add: host_part_def disk_row_def share_row_def container_row_def reach_banner_def unauth_notice_def aside_def page_simps)
     (simp_all add: part_defs page_simps)

lemma array_parts [page_simps]: "list_all item_ok (array_part a)" "list_actions (array_part a) = []"
  by (simp_all add: array_part_def page_simps list.pred_map comp_def list.pred_True) (simp_all add: part_defs page_simps)

lemma unraid_page_actions:
  "page_actions (render_items (unraidPageTmpl fm d)) =
     [''/static/htmx.min.js''] @ concat (map (list_actions \<circ> proposal_part) (UP_Proposals d)) @
     (case UP_Commands d of None \<Rightarrow> [] | Some rows \<Rightarrow> list_actions (commands_part fm rows))"
proof -
  have "list_all item_ok (unraidPageTmpl fm d)"
    by (simp add: unraidPageTmpl_def page_simps list.pred_map comp_def list.pred_True split: option.split) (simp add: part_defs page_simps)
  moreover have "list_actions (unraidPageTmpl fm d) =
     [''/static/htmx.min.js''] @ concat (map (list_actions \<circ> proposal_part) (UP_Proposals d)) @
     (case UP_Commands d of None \<Rightarrow> [] | Some rows \<Rightarrow> list_actions (commands_part fm rows))"
    by (simp add: unraidPageTmpl_def page_simps comp_def split: option.split) (simp add: part_defs page_simps)
  ultimately show ?thesis by (simp add: page_actions_render)
qed

lemma front_page_served:
  "\<exists>p. index_page fm io hio m hs us = HttpPage p \<and>
     page_actions (render_items (pageTmpl p)) = [''/static/htmx.min.js'', ''/static/sse.js''] @
       (if hs = None then [] else [''/api/harness/halt'', ''/api/harness/rearm'',
          ''return confirm('' @ [CHR 0x27] @ ''Re-arm the harness?'' @ [CHR 0x27] @ '')''])"
  by (auto simp: index_page_def index_page_actions rowsWithHistory_def list_all_iff rowOf_def sparkline_quiet
      harnessPanelFor_def split: option.split)

lemma unraid_page_served:
  "\<exists>p. fst (handleUnraidPage uw ps cs w) = HttpPage p \<and>
     page_actions (render_items (unraidPageTmpl (mw_fm uw) p)) = [''/static/htmx.min.js''] @
       concat (map (\<lambda>r. if PW_Pending r
           then [''/api/unraid/proposals/'' @ url_attr (PW_ID r) @ ''/approve'', ''/api/unraid/proposals/'' @ url_attr (PW_ID r) @ ''/deny'']
           else []) (UP_Proposals p)) @
       (case cs of None \<Rightarrow> [] | Some cfg \<Rightarrow> map (\<lambda>k. ''/api/unraid/commands/'' @ html_escape (Cm_ID k) @ ''/run'') (Commands cfg))"
  by (cases cs) (auto simp: handleUnraidPage_def Let_def unraid_page_actions proposal_parts commands_parts commandsSectionOf_def
      commandRowOf_def comp_def split: prod.split)

section \<open>What the Operator reads\<close>

text \<open>A browser shows a text with its character references resolved: that is the text of the record,
  save that a zero byte is shown as U+FFFD.\<close>

function html_unescape :: "string \<Rightarrow> string" where
  "html_unescape s =
     (case s of
        [] \<Rightarrow> []
      | c # cs \<Rightarrow>
          if c \<noteq> CHR ''&'' then c # html_unescape cs
          else if prefix ''#34;'' cs then CHR 0x22 # html_unescape (drop 4 cs)
          else if prefix ''#39;'' cs then CHR 0x27 # html_unescape (drop 4 cs)
          else if prefix ''#43;'' cs then CHR ''+'' # html_unescape (drop 4 cs)
          else if prefix ''amp;'' cs then CHR ''&'' # html_unescape (drop 4 cs)
          else if prefix ''lt;'' cs then CHR ''<'' # html_unescape (drop 3 cs)
          else if prefix ''gt;'' cs then CHR ''>'' # html_unescape (drop 3 cs)
          else c # html_unescape cs)"
  by pat_completeness auto
termination
  by (relation "measure length") auto

declare html_unescape.simps [simp del]

lemma html_escape_Cons: "html_escape (c # s) = html_escape [c] @ html_escape s"
  by (simp add: html_escape_def)

lemma html_unescape_one:
  assumes "c \<noteq> CHR 0x00"
  shows "html_unescape (html_escape [c] @ t) = c # html_unescape t"
proof (cases "c \<in> {CHR 0x22, CHR 0x27, CHR ''+'', CHR ''&'', CHR ''<'', CHR ''>''}")
  case True
  then show ?thesis
    by (elim insertE) (simp_all add: html_escape_def html_unescape.simps [of "CHR ''&'' # _"])
next
  case False
  then show ?thesis using assms by (simp add: html_escape_def html_unescape.simps [of "c # _"])
qed

lemma html_unescape_escape: "CHR 0x00 \<notin> set s \<Longrightarrow> html_unescape (html_escape s) = s"
proof (induction s)
  case Nil
  show ?case by (simp add: html_escape_def html_unescape.simps [of "[]"])
next
  case (Cons c s)
  then have "c \<noteq> CHR 0x00" "html_unescape (html_escape s) = s" by auto
  then show ?case by (subst html_escape_Cons) (simp add: html_unescape_one)
qed

text \<open>A row of the front page holds the very cells that the event stream later swaps into it.\<close>

lemma html_escape_itoa: "html_escape (itoa n) = itoa n"
proof -
  have plain: "html_escape [c] = [c]" if "c = CHR ''-'' \<or> is_digit c" for c
  proof -
    have "c \<notin> {CHR 0x00, CHR 0x22, CHR 0x27, CHR ''+'', CHR ''&'', CHR ''<'', CHR ''>''}"
      using that by (auto simp: is_digit_def)
    then show ?thesis by (simp add: html_escape_def)
  qed
  have "(\<And>c. c \<in> set s \<Longrightarrow> c = CHR ''-'' \<or> is_digit c) \<Longrightarrow> html_escape s = s" for s
  proof (induction s)
    case Nil
    show ?case by (simp add: html_escape_def)
  next
    case (Cons c s)
    then show ?case by (subst html_escape_Cons) (simp add: plain)
  qed
  then show ?thesis using itoa_chars by blast
qed

lemma service_row_cells:
  "render_items (service_row r) =
     ''<tr'' @ attr ''id'' (''svc-'' @ html_escape (Rw_Name r)) @ attr ''sse-swap'' (''svc-'' @ html_escape (Rw_Name r)) @ ''>'' @ cellsTmpl r @ ''</tr>''"
  by (simp add: service_row_def render_items_def el_def cls_def tinted_def num_def cellsTmpl_def td_def html_escape_itoa)

text \<open>The body of the run route's answer: the row again for a request that htmx made, the result as JSON otherwise.\<close>

definition run_answer :: "formats \<Rightarrow> run_response \<Rightarrow> string reply" where
  "run_answer fm a =
     (case a of
        NotAllowed \<Rightarrow> MethodNotAllowed
      | RowFragment row \<Rightarrow> HttpPage (render_items (commandRowTmpl fm row))
      | JSONResult r \<Rightarrow> HttpJSON 200 (toCommandResultDTO fm r))"

lemma run_answer_keeps_button:
  assumes "rq_post r" "rq_htmx r"
  shows "\<exists>body. run_answer fm (fst (handleAPICommandRun cfg env r st)) = HttpPage body \<and>
    page_actions body = [''/api/unraid/commands/'' @ html_escape (rq_id r) @ ''/run'']"
proof -
  obtain row where row: "fst (handleAPICommandRun cfg env r st) = RowFragment row" "CW_ID row = rq_id r"
  proof -
    obtain res er st1 where run: "command_Run cfg env (rq_id r) (if rq_who r = '''' then ''operator'' else rq_who r) st = ((res, er), st1)"
      by (metis surj_pair)
    show thesis
    proof (cases "find (\<lambda>c. Cm_ID c = rq_id r) (Commands cfg)")
      case None
      with run assms that show ?thesis by (simp add: handleAPICommandRun_def commandRowOf_def Let_def)
    next
      case (Some c)
      then have "Cm_ID c = rq_id r" by (auto simp: find_Some_iff)
      with Some run assms that show ?thesis by (simp add: handleAPICommandRun_def commandRowOf_def Let_def)
    qed
  qed
  then show ?thesis by (simp add: run_answer_def page_actions_render command_parts)
qed

lemma rounded_duration_shown:
  "Duration_String (Duration_Round 1499600000 1000000) = ''1.5s''" "Duration_String (Duration_Round 400000 1000000) = ''0s''"
  "Duration_String (Duration_Round 3725000000000 1000000) = ''1h2m5s''" "Duration_String 1500 = ''1.5'' @ [CHR 0xC2, CHR 0xB5] @ ''s''"
  by (simp_all add: Duration_String_def Duration_Round_def maxDuration_def frac_digits_def itoa_def nat_dec.simps digit_char_def Let_def)
     (code_simp)+

section \<open>The pages act as designed\<close>

text \<open>C32: no text that a page shows can act. Read back by a tokenizer, the forms, posts, scripts and event handlers of
  every page are those of its template: the page of an incident has its approve and deny forms while it is pending and
  nothing else, whatever the tools, the diagnosis or the Services' names contain; the list of incidents has none; the front page
  has its scripts and, with a harness, halt and rearm; the Unraid page has its script, two forms per pending
  proposal and one run button per command of the catalog.\<close>

theorem pages_act_as_designed:
  "page_actions (render_items (incidentDetailTmpl (incidentDetailViewOf fm c))) =
     (if HC_Approval c = ApprovalPending
      then [''/api/incidents/'' @ url_attr (HC_ID c) @ ''/approve'', ''/api/incidents/'' @ url_attr (HC_ID c) @ ''/deny''] else []) \<and>
   page_actions (render_items (incidentsListTmpl d)) = [] \<and>
   (\<exists>p. index_page fm io hio m hs us = HttpPage p \<and>
     page_actions (render_items (pageTmpl p)) = [''/static/htmx.min.js'', ''/static/sse.js''] @
       (if hs = None then [] else [''/api/harness/halt'', ''/api/harness/rearm'',
          ''return confirm('' @ [CHR 0x27] @ ''Re-arm the harness?'' @ [CHR 0x27] @ '')''])) \<and>
   (\<exists>p. fst (handleUnraidPage uw ps cs w) = HttpPage p \<and>
     page_actions (render_items (unraidPageTmpl (mw_fm uw) p)) = [''/static/htmx.min.js''] @
       concat (map (\<lambda>r. if PW_Pending r
           then [''/api/unraid/proposals/'' @ url_attr (PW_ID r) @ ''/approve'', ''/api/unraid/proposals/'' @ url_attr (PW_ID r) @ ''/deny'']
           else []) (UP_Proposals p)) @
       (case cs of None \<Rightarrow> [] | Some cfg \<Rightarrow> map (\<lambda>k. ''/api/unraid/commands/'' @ html_escape (Cm_ID k) @ ''/run'') (Commands cfg)))"
  by (intro conjI front_page_served unraid_page_served) (simp_all add: detail_page_actions approval_parts incidentDetailViewOf_def list_page_actions)

end
