(* ===== verification/Spec2Isabelle.thy ===== *)
theory Spec2Isabelle
  imports System Lifecycle Script_Rows Shim Pages
begin

text \<open>
  Server Assistant, a monitoring and automation gateway for one Unraid Host.

  \<^bold>\<open>The program.\<close> One daemon (\<open>cmd/server-assistant\<close>) and a stdio relay (\<open>cmd/sa-mcp-shim\<close>). The daemon
  probes Services and the Host, debounces what it sees, commits a Status, persists it, alerts and
  shows it (the spine: \<open>internal/prober\<close>, \<open>core\<close>, \<open>monitor\<close>, \<open>store\<close>, \<open>notifier\<close>, \<open>web\<close>). A harness
  (\<open>internal/harness\<close>, \<open>reasoner\<close>, \<open>tools\<close>, \<open>actuator\<close>) takes a committed DOWN, diagnoses it with a language model,
  proposes one restart and waits for the Operator. On an Unraid Host it also reads the machine's
  state (\<open>internal/unraid\<close>), samples it (\<open>sampler\<close>), serves it to the user's own model (\<open>mcp\<close>), keeps a registry of
  scripts that a model may propose and a human approves (\<open>scripts\<close>), and offers a closed catalog of
  restart commands (\<open>commands\<close>). \<open>internal/config\<close> is the one place where all of it is checked.

  \<^bold>\<open>How the model is made.\<close> A struct is a record and an enumeration a datatype, under the source's names with a
  prefix for the fields; a function is a HOL function of the same name, with a prefix where two
  packages share one (\<open>reg_Approve\<close>, \<open>docker_Restart\<close>). A fallible call returns a sum with the error on the left, a
  Go panic is \<open>Panics\<close>. State is passed explicitly; a table of the store is a list of rows. What comes from
  outside (the clock, the driver's errors, the ends of processes and network exchanges, the JSON and YAML
  codecs) is an argument or an environment record, so that a theorem holds for every behaviour of
  it. A goroutine is a program counter, and what runs concurrently is a fold of a step
  function over an arbitrary list of events. Strings are lists of bytes; times are nanoseconds since
  the epoch, durations nanoseconds, both unbounded except where the code can wrap (\<open>wrap64\<close>). Floating-point values
  are rational numbers computed exactly, with rounding where it shows (\<open>float64_of_int\<close>) and with NaN and
  infinities where they decide (\<open>Probers\<close>).

  \<^bold>\<open>Theories, sources and what is shown.\<close>

  \<^item> \<open>Prelude\<close>, \<open>Golib\<close>: the Go library the packages use (strings, durations, \<open>os.Expand\<close>, UTF-8), tables, the locales
    \<open>keyed_rows\<close> and \<open>step_invariant\<close>, and the collection \<open>res_iff\<close> for chains of fallible steps.
  \<^item> \<open>Core_Domain\<close> (\<open>core/domain.go\<close>, \<open>harness.go\<close>), \<open>Debounce\<close> (\<open>core/debounce.go\<close>): scrubbing is fail-closed (C1); the
    debouncer refines its history specification (C2).
  \<^item> \<open>Store\<close> (\<open>internal/store\<close>): every statement over its tables; the audit record round-trips (C4).
  \<^item> \<open>Monitor\<close>, \<open>Monitor_Props\<close> (\<open>internal/monitor\<close>): alerts follow commits, restart safety, the reachability gate, the order
    of persistence and hand-off, the bounded hub (C6, C7, C8, C10, C11), and the interleaving the gate does not cover.
  \<^item> \<open>Probers\<close> (\<open>internal/prober\<close>): DOWN only on evidence (C29).
  \<^item> \<open>Harness\<close>, \<open>Harness_Props\<close> (\<open>internal/harness\<close>): the cycle as a program counter; no dispatch without an Approval, at most one
    per cycle, truthful records, release, bounded evidence, reconciliation (C12 to C19), and two races around a decision.
  \<^item> \<open>Reasoner\<close> (\<open>internal/reasoner\<close>, \<open>internal/tools\<close>): consulting the model is contained (C5).
  \<^item> \<open>Sha256\<close>, \<open>Sandbox\<close>, \<open>Scripts\<close>, \<open>Scripts_Props\<close> (\<open>internal/scripts\<close>): the hash computed, the extraction of the shims, the quoting, the
    dry run's verdict and the guarded run (C22 to C24); the registry's state machine, audit trail and grants (C26, C27, C30). \<open>Script_Rows\<close>
    (\<open>scripts/store.go\<close>): the columns, which refine the table that \<open>Scripts\<close> keeps (C25).
  \<^item> \<open>Config\<close>, \<open>Config_Props\<close> (\<open>internal/config\<close>): validation is equivalent to declarative rules, and what a loaded
    configuration guarantees (C33 to C35).
  \<^item> \<open>Unraid_Domain\<close>, \<open>Emhttp\<close>, \<open>Unraid\<close> (\<open>core/unraid.go\<close>, \<open>internal/unraid\<close>), \<open>Sampler\<close> (\<open>internal/sampler\<close>): readings name their source (C39),
    the INI reader round-trips (C38), the sampled history is honest (C36).
  \<^item> \<open>Control\<close> (\<open>internal/commands\<close>, \<open>web/commands.go\<close>, \<open>internal/actuator\<close>): the locale \<open>restart_gate\<close>, interpreted on both paths
    that restart a container; the catalog is closed (C37).
  \<^item> \<open>Mcp_Views\<close>, \<open>Mcp\<close> (\<open>internal/mcp\<close>): the endpoint is gated and its answers bounded (C40). \<open>Shim\<close> (\<open>cmd/sa-mcp-shim\<close>): one line
    out per request that expects one (C28).
  \<^item> \<open>Bridge\<close> (\<open>scripts_wiring.go\<close>, \<open>web/proposals.go\<close>, \<open>sampler/mcp_adapter.go\<close>): the registry with its two clients composed into one step
    function; the human stays in the loop (C20).
  \<^item> \<open>Web_Unraid\<close>, \<open>Web\<close> (\<open>internal/web\<close>): the Unraid page and its JSON mirror, with a byte formatter that always
    ends on a unit of its table; the dashboard, its event stream and the incident routes, with
    concurrent decision requests interleaved with the harness: a restart goes back to a click (C31).
  \<^item> \<open>Pages\<close> (the templates of \<open>internal/web\<close>): the HTML of every page with its escaping, read back by a tokenizer: no text shown
    can act (C32).
  \<^item> \<open>Wiring\<close> (\<open>main.go\<close>, \<open>internal/notifier\<close>): what the composition root builds from a loaded configuration fits what the
    constructors need (C9); the reload watcher keeps the set of subjects.
  \<^item> \<open>System\<close> (\<open>main.go\<close> with the parts it starts): monitor, harness and dashboard interleaved over the one store; a command line
    that reached the Host goes back to a run of DOWN probes and a click (C3).
  \<^item> \<open>Lifecycle\<close> (\<open>main.go\<close>, \<open>Monitor.Run\<close>): the goroutines, their wait groups and the cancelled context as an inductive step relation;
    the daemon stops whole, and every schedule ends (C21).

  \<^bold>\<open>Loops and bounds.\<close> No definition uses fuel. Loops over data are structural recursion; the others have a
  termination proof with a measure (\<open>sha_blocks\<close>, \<open>runes\<close>, \<open>dur_loop\<close>, \<open>os_Expand\<close>, \<open>strings_ReplaceAll\<close>, \<open>strings_ToValidUTF8\<close>, \<open>excess_bits\<close>,
  \<open>json_text\<close>, \<open>fb_loop\<close>, \<open>html_unescape\<close>). The loops of the daemon that run until shutdown are the lists of events the theorems quantify over.

  \<^bold>\<open>Not modelled.\<close> SQL, YAML and JSON text (the drivers and codecs are third-party or standard packages and appear as
  arguments); the network, SSH and process calls themselves; TLS and HTTP framing; log lines other than the audit records; the text of the embedded
  shell shims and static assets; flags; the interfaces of \<open>core/seams.go\<close>,
  which have no code.
\<close>

end
